(* ===== verification/Prelude.thy ===== *)
theory Prelude
  imports Main "HOL-Library.Char_ord" "HOL-Library.List_Lexorder"
    "HOL-Library.Product_Lexorder" "HOL-Library.AList" "HOL-Library.Code_Target_Nat"
begin

text \<open>
  Shared vocabulary of the development: the exceptions that the services throw, services as
  functions on a state that return a value or an exception, the database transaction that undoes
  the writes of a callback that throws, JavaScript numbers, decimal text, ordered maps and sets
  in insertion order, and the generic locale of step systems with an invariant.
\<close>

named_theorems svc_simps \<open>unfolding rules of the service combinators\<close>
named_theorems row_simps \<open>field access on updated rows\<close>

section \<open>Exceptions\<close>

type_synonym uuid = string
type_synonym millis = int

text \<open>
  \<open>problem.format.ts\<close> distinguishes three kinds of thrown values: a ProblemException, another
  HttpException, and anything else read as an ErrorLike. What Postgres and the driver raise is of
  the third kind: the SQLSTATE is in \<open>code\<close>, the text in \<open>message\<close>.
\<close>

datatype http_response =
    RespText string
  | RespMessageList "string list"
  | RespMessage string
  | RespOther

record error_like =
  el_status :: "nat option"
  el_statusCode :: "nat option"
  el_code :: "string option"
  el_message :: "string option"
  el_errors :: "(string option \<times> string option) list option"
  el_driver_code :: "string option"

datatype exn =
    ProblemException nat string string
  | HttpException nat http_response string
  | ErrorLike error_like

definition plain_error :: "string \<Rightarrow> exn" where
  "plain_error msg = ErrorLike \<lparr>el_status = None, el_statusCode = None, el_code = None,
     el_message = Some msg, el_errors = None, el_driver_code = None\<rparr>"

definition db_error :: "string \<Rightarrow> string \<Rightarrow> exn" where
  "db_error sqlstate msg = ErrorLike \<lparr>el_status = None, el_statusCode = None,
     el_code = Some sqlstate, el_message = Some msg, el_errors = None,
     el_driver_code = Some sqlstate\<rparr>"

lemma db_error_inject [simp]: "db_error a m = db_error b n \<longleftrightarrow> a = b \<and> m = n"
  by (auto simp: db_error_def)

lemma problem_not_db_error [simp]:
  "ProblemException s c d \<noteq> db_error a m" "db_error a m \<noteq> ProblemException s c d"
  "plain_error x \<noteq> db_error a m" "db_error a m \<noteq> plain_error x"
  "ProblemException s c d \<noteq> plain_error x" "plain_error x \<noteq> ProblemException s c d"
  by (auto simp: db_error_def plain_error_def)

section \<open>Services: state, value or exception\<close>

text \<open>
  A service call takes the state and returns the exception or value together with the state it
  leaves. A throw does not undo earlier writes by itself: only \<open>transaction\<close> does, as
  \<open>dataSource.transaction\<close> rolls back exactly when its callback rejects.
\<close>

type_synonym ('s, 'a) svc = "'s \<Rightarrow> (exn + 'a) \<times> 's"

definition returnS :: "'a \<Rightarrow> ('s, 'a) svc" where
  "returnS x s = (Inr x, s)"

definition throwS :: "exn \<Rightarrow> ('s, 'a) svc" where
  "throwS e s = (Inl e, s)"

definition bindS :: "('s, 'a) svc \<Rightarrow> ('a \<Rightarrow> ('s, 'b) svc) \<Rightarrow> ('s, 'b) svc" where
  "bindS m f s = (case m s of (Inl e, t) \<Rightarrow> (Inl e, t) | (Inr x, t) \<Rightarrow> f x t)"

definition readS :: "('s \<Rightarrow> 'a) \<Rightarrow> ('s, 'a) svc" where
  "readS g s = (Inr (g s), s)"

definition writeS :: "('s \<Rightarrow> 's) \<Rightarrow> ('s, unit) svc" where
  "writeS g s = (Inr (), g s)"

definition liftS :: "exn + 'a \<Rightarrow> ('s, 'a) svc" where
  "liftS r s = (r, s)"

text \<open>A query: it may fail and leaves the state alone.\<close>

definition readE :: "('s \<Rightarrow> exn + 'a) \<Rightarrow> ('s, 'a) svc" where
  "readE g s = (g s, s)"

text \<open>A statement that writes, or fails and leaves the state alone.\<close>

definition writeE :: "('s \<Rightarrow> exn + 's) \<Rightarrow> ('s, unit) svc" where
  "writeE g s = (case g s of Inl e \<Rightarrow> (Inl e, s) | Inr t \<Rightarrow> (Inr (), t))"

definition transaction :: "('s, 'a) svc \<Rightarrow> ('s, 'a) svc" where
  "transaction callback s =
     (case callback s of (Inl e, _) \<Rightarrow> (Inl e, s) | (Inr x, t) \<Rightarrow> (Inr x, t))"

lemmas [svc_simps] = returnS_def throwS_def bindS_def readS_def writeS_def liftS_def readE_def writeE_def

lemma bindS_pure [simp]:
  "bindS (liftS (Inr x)) f = f x" "bindS (liftS (Inl e)) f = throwS e"
  "bindS (returnS x) f = f x" "bindS (throwS e) f = throwS e"
  by (auto simp: svc_simps)

lemma bindS_Inr: "bindS m f s = (Inr y, t) \<longleftrightarrow> (\<exists>x u. m s = (Inr x, u) \<and> f x u = (Inr y, t))"
  by (auto simp: bindS_def split: prod.splits sum.splits)

lemma bindS_Inl:
  "bindS m f s = (Inl e, t) \<longleftrightarrow> m s = (Inl e, t) \<or> (\<exists>x u. m s = (Inr x, u) \<and> f x u = (Inl e, t))"
  by (auto simp: bindS_def split: prod.splits sum.splits)

lemma svc_Inr [simp]:
  "returnS x s = (Inr y, t) \<longleftrightarrow> y = x \<and> t = s"
  "throwS e s \<noteq> (Inr y, t)"
  "readS f s = (Inr y, t) \<longleftrightarrow> y = f s \<and> t = s"
  "liftS r s = (Inr y, t) \<longleftrightarrow> r = Inr y \<and> t = s"
  "readE g s = (Inr y, t) \<longleftrightarrow> g s = Inr y \<and> t = s"
  "writeE h s = (Inr u, t) \<longleftrightarrow> h s = Inr t"
  by (auto simp: svc_simps split: sum.splits)

lemma svc_Inl [simp]:
  "returnS x s \<noteq> (Inl e, t)"
  "throwS e' s = (Inl e, t) \<longleftrightarrow> e' = e \<and> t = s"
  "readS f s \<noteq> (Inl e, t)"
  "liftS r s = (Inl e, t) \<longleftrightarrow> r = Inl e \<and> t = s"
  "readE g s = (Inl e, t) \<longleftrightarrow> g s = Inl e \<and> t = s"
  "writeE h s = (Inl e, t) \<longleftrightarrow> h s = Inl e \<and> t = s"
  by (auto simp: svc_simps split: sum.splits)

lemma transaction_Inr [simp]: "transaction m s = (Inr x, t) \<longleftrightarrow> m s = (Inr x, t)"
  by (auto simp: transaction_def split: prod.splits sum.splits)

lemma transaction_Inl [simp]:
  "transaction m s = (Inl e, t) \<longleftrightarrow> t = s \<and> (\<exists>u. m s = (Inl e, u))"
  by (auto simp: transaction_def split: prod.splits sum.splits)

lemma transaction_rolls_back: "fst (transaction m s) = Inl e \<Longrightarrow> snd (transaction m s) = s"
  by (auto simp: transaction_def split: prod.splits sum.splits)

section \<open>JavaScript numbers\<close>

text \<open>
  The amounts of the program are integers held in IEEE doubles. An integer double is exact up to
  \<open>2 ^ 53\<close>; above, arithmetic rounds to 53 significant bits, ties to even. \<open>js_round\<close> is that
  rounding and \<open>js_add\<close>, \<open>js_mult\<close> are \<open>+\<close> and \<open>*\<close> on integer doubles. Values
  that leave the finite range of doubles do not occur: \<open>bigint\<close> columns bound them far below.
\<close>

fun bit_length :: "nat \<Rightarrow> nat" where
  "bit_length n = (if n = 0 then 0 else Suc (bit_length (n div 2)))"

declare bit_length.simps [simp del]

definition round53 :: "nat \<Rightarrow> nat" where
  "round53 n =
     (let unit = 2 ^ (bit_length n - 53); q = n div unit; r = n mod unit
      in if 2 * r < unit \<or> (2 * r = unit \<and> even q) then q * unit else (q + 1) * unit)"

definition js_round :: "int \<Rightarrow> int" where
  "js_round x = (if \<bar>x\<bar> \<le> 2 ^ 53 then x else sgn x * int (round53 (nat \<bar>x\<bar>)))"

definition js_add :: "int \<Rightarrow> int \<Rightarrow> int" where
  "js_add x y = js_round (x + y)"

definition js_mult :: "int \<Rightarrow> int \<Rightarrow> int" where
  "js_mult x y = js_round (x * y)"

definition js_safe :: "int \<Rightarrow> bool" where
  "js_safe x \<longleftrightarrow> \<bar>x\<bar> \<le> 2 ^ 53"

lemma js_round_safe [simp]: "js_safe x \<Longrightarrow> js_round x = x"
  by (simp add: js_round_def js_safe_def)

lemma js_round_0 [simp]: "js_round 0 = 0"
  by (simp add: js_round_def)

lemma js_add_safe: "js_safe (x + y) \<Longrightarrow> js_add x y = x + y"
  by (simp add: js_add_def)

lemma js_mult_safe: "js_safe (x * y) \<Longrightarrow> js_mult x y = x * y"
  by (simp add: js_mult_def)

definition fits_bigint :: "int \<Rightarrow> bool" where
  "fits_bigint x \<longleftrightarrow> - (2 ^ 63) \<le> x \<and> x < 2 ^ 63"

lemma js_safe_fits: "js_safe x \<Longrightarrow> fits_bigint x"
  by (auto simp: js_safe_def fits_bigint_def abs_le_iff)

section \<open>Finding rows\<close>

lemma find_append: "List.find p (xs @ ys) = (case List.find p xs of None \<Rightarrow> List.find p ys | r \<Rightarrow> r)"
  by (induction xs) auto

lemma find_key:
  assumes "distinct (map k xs)" "x \<in> set xs"
  shows "List.find (\<lambda>y. k y = k x) xs = Some x"
  using assms by (induction xs) (auto simp: image_iff)

lemma filter_key:
  assumes "distinct (map k xs)" "x \<in> set xs"
  shows "filter (\<lambda>y. k y = k x) xs = [x]"
  using assms
proof (induction xs)
  case (Cons y ys)
  show ?case
  proof (cases "y = x")
    case True
    then have "k x \<notin> k ` set ys" using Cons.prems by simp
    then have "filter (\<lambda>z. k z = k x) ys = []" by (simp add: filter_empty_conv) (metis image_eqI)
    then show ?thesis using True by simp
  next
    case False
    then have "x \<in> set ys" using Cons.prems by simp
    moreover have "k y \<noteq> k x" using Cons.prems \<open>x \<in> set ys\<close> by auto
    ultimately show ?thesis using Cons by simp
  qed
qed simp

lemma find_key_None: "List.find (\<lambda>y. k y = v) xs = None \<longleftrightarrow> v \<notin> k ` set xs"
  by (auto simp: find_None_iff)

lemma find_SomeD: "List.find p xs = Some x \<Longrightarrow> x \<in> set xs \<and> p x"
  by (auto simp: find_Some_iff)

lemma list_all2_set2: "list_all2 P xs ys \<Longrightarrow> y \<in> set ys \<Longrightarrow> \<exists>x\<in>set xs. P x y"
  by (metis in_set_conv_nth list_all2_conv_all_nth)

lemma enumerate_mem: "x \<in> set xs \<Longrightarrow> \<exists>i. (i, x) \<in> set (enumerate n xs)"
  by (induction xs arbitrary: n) fastforce+

section \<open>Decimal text\<close>

definition digit :: "nat \<Rightarrow> char" where
  "digit n = char_of (48 + n)"

definition digit_val :: "char \<Rightarrow> nat option" where
  "digit_val c = (let n = of_char c in if 48 \<le> n \<and> n \<le> (57::nat) then Some (n - 48) else None)"

text \<open>Fixed width, zero padded: the fields of an ISO timestamp.\<close>

primrec fixed_dec :: "nat \<Rightarrow> nat \<Rightarrow> string" where
  "fixed_dec 0 n = []"
| "fixed_dec (Suc w) n = fixed_dec w (n div 10) @ [digit (n mod 10)]"

text \<open>\<open>String(n)\<close> of a natural number and of an integer.\<close>

fun nat_text :: "nat \<Rightarrow> string" where
  "nat_text n = (if n < 10 then [digit n] else nat_text (n div 10) @ [digit (n mod 10)])"

declare nat_text.simps [simp del]

definition int_text :: "int \<Rightarrow> string" where
  "int_text i = (if i < 0 then CHR ''-'' # nat_text (nat (- i)) else nat_text (nat i))"

text \<open>Reading a run of digits: \<open>None\<close> when a character is not a digit.\<close>

primrec dec_acc :: "nat \<Rightarrow> string \<Rightarrow> nat option" where
  "dec_acc acc [] = Some acc"
| "dec_acc acc (c # cs) =
     (case digit_val c of None \<Rightarrow> None | Some d \<Rightarrow> dec_acc (10 * acc + d) cs)"

definition dec_val :: "string \<Rightarrow> nat option" where
  "dec_val s = (if s = [] then None else dec_acc 0 s)"

lemma digit_val_digit [simp]: "n < 10 \<Longrightarrow> digit_val (digit n) = Some n"
  by (simp add: digit_val_def digit_def Let_def)

lemma digit_less_iff: "m < 10 \<Longrightarrow> n < 10 \<Longrightarrow> digit m < digit n \<longleftrightarrow> m < n"
  by (simp add: digit_def less_char_def)

lemma digit_eq_iff: "m < 10 \<Longrightarrow> n < 10 \<Longrightarrow> digit m = digit n \<longleftrightarrow> m = n"
  by (metis digit_val_digit option.inject)

lemma length_fixed_dec [simp]: "length (fixed_dec w n) = w"
  by (induction w arbitrary: n) auto

lemma dec_acc_append:
  "dec_acc acc (xs @ ys) = (case dec_acc acc xs of None \<Rightarrow> None | Some a \<Rightarrow> dec_acc a ys)"
  by (induction xs arbitrary: acc) (auto split: option.splits)

lemma dec_acc_fixed_dec: "n < 10 ^ w \<Longrightarrow> dec_acc acc (fixed_dec w n) = Some (acc * 10 ^ w + n)"
proof (induction w arbitrary: n acc)
  case 0
  then show ?case by simp
next
  case (Suc w)
  from Suc.prems have "n div 10 < 10 ^ w" by (simp add: div_less_iff_less_mult mult.commute)
  from Suc.IH [OF this] show ?case by (simp add: dec_acc_append algebra_simps)
qed

lemma dec_val_fixed_dec [simp]: "n < 10 ^ w \<Longrightarrow> 0 < w \<Longrightarrow> dec_val (fixed_dec w n) = Some n"
  using dec_acc_fixed_dec [of n w 0] by (cases w) (auto simp: dec_val_def)

lemma nat_text_ne [simp]: "nat_text n \<noteq> []"
  by (subst nat_text.simps) simp

lemma dec_acc_nat_text: "dec_acc 0 (nat_text n) = Some n"
proof (induction n rule: nat_text.induct)
  case (1 n)
  then show ?case by (cases "n < 10") (simp_all add: nat_text.simps [of n] dec_acc_append)
qed

lemma dec_val_nat_text [simp]: "dec_val (nat_text n) = Some n"
  by (simp add: dec_val_def dec_acc_nat_text)

lemma nat_text_inject [simp]: "nat_text m = nat_text n \<longleftrightarrow> m = n"
  by (metis dec_val_nat_text option.inject)

section \<open>Text order\<close>

text \<open>Dates are compared as text. Equal-length prefixes decide first.\<close>

lemma append_less_append:
  fixes a b :: "'a::order list"
  assumes "length a = length b"
  shows "a @ x < b @ y \<longleftrightarrow> a < b \<or> (a = b \<and> x < y)"
  using assms by (induction a b rule: list_induct2) auto

lemma snoc_less_snoc:
  fixes a b :: "'a::order list"
  assumes "length a = length b"
  shows "a @ [x] < b @ [y] \<longleftrightarrow> a < b \<or> (a = b \<and> x < y)"
  using append_less_append [OF assms, of "[x]" "[y]"] by simp

lemma fixed_dec_eq_iff:
  "m < 10 ^ w \<Longrightarrow> n < 10 ^ w \<Longrightarrow> fixed_dec w m = fixed_dec w n \<longleftrightarrow> m = n"
  by (metis dec_acc_fixed_dec add_left_cancel option.inject)

lemma div_mod_10_less:
  "m div 10 < n div 10 \<or> (m div 10 = n div 10 \<and> m mod 10 < n mod 10) \<longleftrightarrow> m < (n::nat)"
proof -
  have "a < c \<or> (a = c \<and> b < d) \<longleftrightarrow> 10 * a + b < 10 * c + d" if "b < 10" "d < 10" for a b c d :: nat
    using that by arith
  from this [of "m mod 10" "n mod 10" "m div 10" "n div 10"] show ?thesis
    by simp
qed

lemma fixed_dec_less_iff:
  "m < 10 ^ w \<Longrightarrow> n < 10 ^ w \<Longrightarrow> fixed_dec w m < fixed_dec w n \<longleftrightarrow> m < n"
proof (induction w arbitrary: m n)
  case 0
  then show ?case by simp
next
  case (Suc w)
  then have b: "m div 10 < 10 ^ w" "n div 10 < 10 ^ w"
    by (simp_all add: div_less_iff_less_mult mult.commute)
  have "fixed_dec (Suc w) m < fixed_dec (Suc w) n \<longleftrightarrow>
      m div 10 < n div 10 \<or> (m div 10 = n div 10 \<and> m mod 10 < n mod 10)"
    using Suc.IH [OF b] b by (simp add: snoc_less_snoc fixed_dec_eq_iff digit_less_iff)
  then show ?case by (simp only: div_mod_10_less)
qed

section \<open>Strings\<close>

text \<open>\<open>length\<close> of a JavaScript string counts UTF-16 units.\<close>

definition js_length :: "string \<Rightarrow> nat" where
  "js_length s = sum_list (map (\<lambda>c. let n = of_char c in
     if n div 64 = 2 then 0 else if (240::nat) \<le> n then 2 else 1) s)"

text \<open>
  \<open>MaxLength\<close> and the \<open>length\<close> of Postgres count characters, not bytes: the bytes that do not
  continue a UTF-8 sequence.
\<close>

definition char_length :: "string \<Rightarrow> nat" where
  "char_length s = length (filter (\<lambda>c. of_char c div (64::nat) \<noteq> 2) s)"

text \<open>\<open>s.split(c)\<close> for a separator of one character.\<close>

fun js_split :: "char \<Rightarrow> string \<Rightarrow> string list" where
  "js_split c [] = [[]]"
| "js_split c (x # xs) =
     (if x = c then [] # js_split c xs
      else case js_split c xs of [] \<Rightarrow> [[x]] | p # ps \<Rightarrow> (x # p) # ps)"

lemma js_split_plain: "c \<notin> set a \<Longrightarrow> js_split c a = [a]"
  by (induction a) auto

lemma js_split_append: "c \<notin> set a \<Longrightarrow> js_split c (a @ c # b) = a # js_split c b"
  by (induction a) auto

text \<open>The em dash of the messages, in UTF-8.\<close>

definition em_dash :: string where
  "em_dash = [CHR 0xE2, CHR 0x80, CHR 0x94]"

section \<open>Maps and sets in insertion order\<close>

text \<open>
  A JavaScript \<open>Map\<close> iterates in insertion order and \<open>set\<close> on a present key keeps its place:
  this is \<open>AList.update\<close>. \<open>[...new Set(xs)]\<close> keeps the first occurrence of each element.
\<close>

type_synonym ('k, 'v) js_map = "('k \<times> 'v) list"

definition js_map_get :: "('k, 'v) js_map \<Rightarrow> 'k \<Rightarrow> 'v option" where
  "js_map_get m k = map_of m k"

definition js_map_set :: "('k, 'v) js_map \<Rightarrow> 'k \<Rightarrow> 'v \<Rightarrow> ('k, 'v) js_map" where
  "js_map_set m k v = AList.update k v m"

definition js_map_delete :: "('k, 'v) js_map \<Rightarrow> 'k \<Rightarrow> ('k, 'v) js_map" where
  "js_map_delete m k = AList.delete k m"

text \<open>\<open>new Map(pairs)\<close>\<close>

definition js_map_of :: "('k \<times> 'v) list \<Rightarrow> ('k, 'v) js_map" where
  "js_map_of ps = foldl (\<lambda>m (k, v). js_map_set m k v) [] ps"

definition js_uniq :: "'a list \<Rightarrow> 'a list" where
  "js_uniq xs = rev (remdups (rev xs))"

lemma js_map_get_set [simp]:
  "js_map_get (js_map_set m k v) k' = (if k' = k then Some v else js_map_get m k')"
  by (simp add: js_map_get_def js_map_set_def update_conv')

lemma js_map_get_delete [simp]:
  "js_map_get (js_map_delete m k) k' = (if k' = k then None else js_map_get m k')"
  by (simp add: js_map_get_def js_map_delete_def delete_conv')

lemma js_map_get_Nil [simp]: "js_map_get [] k = None"
  by (simp add: js_map_get_def)

lemma distinct_js_map_set [simp]:
  "distinct (map fst m) \<Longrightarrow> distinct (map fst (js_map_set m k v))"
  by (simp add: js_map_set_def distinct_update)

lemma set_keys_js_map_set [simp]:
  "set (map fst (js_map_set m k v)) = insert k (set (map fst m))"
  by (simp only: js_map_set_def set_map dom_update) simp

lemma js_map_get_foldl_set:
  "js_map_get (foldl (\<lambda>m (k, v). js_map_set m k v) m ps) k =
     (case map_of (rev ps) k of Some v \<Rightarrow> Some v | None \<Rightarrow> js_map_get m k)"
  by (induction ps rule: rev_induct) (auto split: option.splits)

lemma js_map_get_of: "js_map_get (js_map_of ps) k = map_of (rev ps) k"
  by (simp add: js_map_of_def js_map_get_foldl_set split: option.splits)

lemma js_map_get_of_distinct:
  "distinct (map fst ps) \<Longrightarrow> js_map_get (js_map_of ps) k = map_of ps k"
  by (metis distinct_map distinct_rev js_map_get_of map_of_inject_set rev_map set_rev)

lemma set_js_uniq [simp]: "set (js_uniq xs) = set xs"
  by (simp add: js_uniq_def)

lemma distinct_js_uniq [simp]: "distinct (js_uniq xs)"
  by (simp add: js_uniq_def)

section \<open>Step systems\<close>

text \<open>
  A component with several concurrent actors is a start state and a step relation. Its safety
  properties are invariants: proved once for every step, they hold in all reachable states.
\<close>

inductive reachable :: "('s \<Rightarrow> bool) \<Rightarrow> ('s \<Rightarrow> 's \<Rightarrow> bool) \<Rightarrow> 's \<Rightarrow> bool" for init step where
  reach_init: "init s \<Longrightarrow> reachable init step s"
| reach_step: "reachable init step s \<Longrightarrow> step s t \<Longrightarrow> reachable init step t"

locale step_system =
  fixes init :: "'s \<Rightarrow> bool"
    and step :: "'s \<Rightarrow> 's \<Rightarrow> bool"
    and inv :: "'s \<Rightarrow> bool"
  assumes inv_init: "init s \<Longrightarrow> inv s"
    and inv_step: "step s t \<Longrightarrow> inv s \<Longrightarrow> inv t"
begin

lemma inv_reachable: "reachable init step s \<Longrightarrow> inv s"
  by (induction rule: reachable.induct) (auto intro: inv_init inv_step)

lemma inv_steps: "step\<^sup>*\<^sup>* s t \<Longrightarrow> inv s \<Longrightarrow> inv t"
  by (induction rule: rtranclp_induct) (auto intro: inv_step)

end

end
