(* ===== verification/Js_Date.thy ===== *)
theory Js_Date
  imports Prelude
begin

text \<open>
  The JavaScript \<open>Date\<close> as the program uses it: \<open>toISOString\<close>, \<open>toDateOnly\<close>, \<open>addDays\<close> and
  \<open>new Date(text)\<close>. A Date is its time value in milliseconds since the epoch, in UTC; the calendar
  is the proleptic Gregorian one of the language specification (DayFromYear). The theory proves
  that printing and parsing are inverse and that date text compares as the days do, which is what
  every \<open>'YYYY-MM-DD'\<close> comparison of the program rests on.
\<close>

section \<open>The calendar\<close>

definition ms_per_day :: int where
  "ms_per_day = 86400000"

definition is_leap :: "int \<Rightarrow> bool" where
  "is_leap y \<longleftrightarrow> y mod 4 = 0 \<and> (y mod 100 \<noteq> 0 \<or> y mod 400 = 0)"

text \<open>The day number of 1 January of a year; day 0 is 1970-01-01.\<close>

definition day_from_year :: "int \<Rightarrow> int" where
  "day_from_year y =
     365 * (y - 1970) + (y - 1969) div 4 - (y - 1901) div 100 + (y - 1601) div 400"

text \<open>The largest year whose first day is not after the given day: an estimate, corrected by one.\<close>

definition year_from_day :: "int \<Rightarrow> int" where
  "year_from_day d =
     (let y = (400 * (d + 719528)) div 146097
      in if day_from_year (y + 1) \<le> d then y + 1
         else if day_from_year y \<le> d then y else y - 1)"

definition month_start :: "bool \<Rightarrow> int \<Rightarrow> int" where
  "month_start leap m =
     (let l = (if leap then 1 else 0) in
      if m \<le> 1 then 0 else if m = 2 then 31 else if m = 3 then 59 + l else if m = 4 then 90 + l
      else if m = 5 then 120 + l else if m = 6 then 151 + l else if m = 7 then 181 + l
      else if m = 8 then 212 + l else if m = 9 then 243 + l else if m = 10 then 273 + l
      else if m = 11 then 304 + l else if m = 12 then 334 + l else 365 + l)"

definition month_from_yday :: "bool \<Rightarrow> int \<Rightarrow> int" where
  "month_from_yday leap n =
     (if n < month_start leap 2 then 1 else if n < month_start leap 3 then 2
      else if n < month_start leap 4 then 3 else if n < month_start leap 5 then 4
      else if n < month_start leap 6 then 5 else if n < month_start leap 7 then 6
      else if n < month_start leap 8 then 7 else if n < month_start leap 9 then 8
      else if n < month_start leap 10 then 9 else if n < month_start leap 11 then 10
      else if n < month_start leap 12 then 11 else 12)"

definition days_in_month :: "int \<Rightarrow> int \<Rightarrow> int" where
  "days_in_month y m = month_start (is_leap y) (m + 1) - month_start (is_leap y) m"

definition civil_from_day :: "int \<Rightarrow> int \<times> int \<times> int" where
  "civil_from_day d =
     (let y = year_from_day d; n = d - day_from_year y; m = month_from_yday (is_leap y) n
      in (y, m, n - month_start (is_leap y) m + 1))"

definition day_from_civil :: "int \<Rightarrow> int \<Rightarrow> int \<Rightarrow> int" where
  "day_from_civil y m d = day_from_year y + month_start (is_leap y) m + d - 1"

lemma floor_bounds:
  fixes z k :: int
  assumes "0 < k"
  shows "k * (z div k) \<le> z" "z \<le> k * (z div k) + (k - 1)"
  using pos_mod_sign [OF assms, of z] pos_mod_bound [OF assms, of z] mult_div_mod_eq [of k z]
  by linarith+

lemma div_step:
  fixes y k :: int
  assumes "1 < k"
  shows "y div k = (y - 1) div k + (if y mod k = 0 then 1 else 0)"
proof (cases "y mod k = 0")
  case True
  then obtain q where y: "y = k * q" by auto
  have "k * q - 1 = k * (q - 1) + (k - 1)" by (simp add: algebra_simps)
  then have "(k * q - 1) div k = q - 1"
    using assms by (simp add: int_div_pos_eq)
  with y assms show ?thesis by simp
next
  case False
  define q r where "q = y div k" and "r = y mod k"
  have y: "y = k * q + r" and r: "0 < r" "r < k"
    using False assms pos_mod_sign [of k y] pos_mod_bound [of k y]
    by (auto simp: q_def r_def order.strict_iff_order)
  have "y - 1 = k * q + (r - 1)" using y by simp
  then have "(y - 1) div k = q" using r by (intro int_div_pos_eq [of _ _ _ "r - 1"]) auto
  with False show ?thesis by (simp add: q_def)
qed

lemma mod_400_100: "(y::int) mod 400 = 0 \<Longrightarrow> y mod 100 = 0"
  by (auto simp: mod_eq_0_iff_dvd intro: dvd_trans [of 100 400])

lemma mod_100_4: "(y::int) mod 100 = 0 \<Longrightarrow> y mod 4 = 0"
  by (auto simp: mod_eq_0_iff_dvd intro: dvd_trans [of 4 100])

text \<open>Linear arithmetic on the quotients, with the divisions as variables.\<close>

lemma year_arith_lo:
  fixes y d a b c :: int
  assumes "146097 * y \<le> 400 * (d + 719528)"
    and "4 * a \<le> y - 1 - 1969" and "y - 1 - 1901 \<le> 100 * b + 99" and "400 * c \<le> y - 1 - 1601"
  shows "365 * (y - 1 - 1970) + a - b + c \<le> d"
proof -
  have "400 * a \<le> 100 * (y - 1970)" "4 * (y - 2001) \<le> 400 * b" using assms by auto
  then have "400 * (365 * (y - 1 - 1970) + a - b + c) \<le> 400 * d" using assms(1,4) by simp
  then show ?thesis by simp
qed

lemma year_arith_hi:
  fixes y d a b c :: int
  assumes "400 * (d + 719528) \<le> 146097 * y + 146096"
    and "y + 1 + 1 - 1969 \<le> 4 * a + 3" and "100 * b \<le> y + 1 + 1 - 1901"
    and "y + 1 + 1 - 1601 \<le> 400 * c + 399"
  shows "d < 365 * (y + 1 + 1 - 1970) + a - b + c"
proof -
  have "100 * (y - 1970) \<le> 400 * a" "400 * b \<le> 4 * (y - 1899)" using assms by auto
  then have "400 * d < 400 * (365 * (y + 1 + 1 - 1970) + a - b + c)" using assms(1,4) by simp
  then show ?thesis by simp
qed

lemma mod_shift: "k dvd c \<Longrightarrow> (y - c) mod k = (y mod k :: int)"
  by (metis diff_zero mod_0_imp_dvd mod_diff_right_eq dvd_imp_mod_0)

lemma leap_arith:
  fixes y a b c A B C :: int
  assumes "A = a + (if p then 1 else 0)" "B = b + (if q then 1 else 0)" "C = c + (if r then 1 else 0)"
    and "r \<Longrightarrow> q" "q \<Longrightarrow> p"
  shows "365 * (y + 1 - 1970) + A - B + C =
    365 * (y - 1970) + a - b + c + (if p \<and> (\<not> q \<or> r) then 366 else 365)"
  using assms by (cases p; cases q; cases r) auto

lemma day_from_year_step: "day_from_year (y + 1) = day_from_year y + (if is_leap y then 366 else 365)"
proof -
  have e: "y + 1 - 1969 = y - 1968" "y + 1 - 1901 = y - 1900" "y + 1 - 1601 = y - 1600"
    "y - 1968 - 1 = y - 1969" "y - 1900 - 1 = y - 1901" "y - 1600 - 1 = y - 1601" by simp_all
  have m: "(y - 1968) mod 4 = y mod 4" "(y - 1900) mod 100 = y mod 100" "(y - 1600) mod 400 = y mod 400"
    by (rule mod_shift; simp)+
  have k: "1 < (4::int)" "1 < (100::int)" "1 < (400::int)" by simp_all
  have s: "(y + 1 - 1969) div 4 = (y - 1969) div 4 + (if y mod 4 = 0 then 1 else 0)"
    "(y + 1 - 1901) div 100 = (y - 1901) div 100 + (if y mod 100 = 0 then 1 else 0)"
    "(y + 1 - 1601) div 400 = (y - 1601) div 400 + (if y mod 400 = 0 then 1 else 0)"
    unfolding e by (rule div_step [OF k(1), of "y - 1968", unfolded e m]
      div_step [OF k(2), of "y - 1900", unfolded e m] div_step [OF k(3), of "y - 1600", unfolded e m])+
  show ?thesis
    unfolding day_from_year_def is_leap_def
    by (rule leap_arith [OF s mod_400_100 mod_100_4])
qed

lemma year_from_day_bounds:
  "day_from_year (year_from_day d) \<le> d \<and> d < day_from_year (year_from_day d + 1)"
proof -
  define y where "y = (400 * (d + 719528)) div 146097"
  have e: "146097 * y \<le> 400 * (d + 719528)" "400 * (d + 719528) \<le> 146097 * y + 146096"
    using floor_bounds [of 146097 "400 * (d + 719528)"] unfolding y_def by simp_all
  have lo: "day_from_year (y - 1) \<le> d" unfolding day_from_year_def
    by (rule year_arith_lo [OF e(1)])
      (use floor_bounds [of 4 "y - 1 - 1969"] floor_bounds [of 100 "y - 1 - 1901"]
        floor_bounds [of 400 "y - 1 - 1601"] in simp_all)
  have hi: "d < day_from_year (y + 1 + 1)" unfolding day_from_year_def
    by (rule year_arith_hi [OF e(2)])
      (use floor_bounds [of 4 "y + 1 + 1 - 1969"] floor_bounds [of 100 "y + 1 + 1 - 1901"]
        floor_bounds [of 400 "y + 1 + 1 - 1601"] in simp_all)
  show ?thesis using lo hi
    unfolding year_from_day_def Let_def y_def [symmetric]
    by (simp split: if_split) linarith?
qed

lemma day_from_year_mono: "y < z \<Longrightarrow> day_from_year (y + 1) \<le> day_from_year z"
proof (induction z rule: int_gr_induct)
  case base
  then show ?case by simp
next
  case (step z)
  then show ?case using day_from_year_step [of z] by (auto split: if_splits)
qed

lemma year_from_day_eq:
  assumes "day_from_year y \<le> d" "d < day_from_year (y + 1)"
  shows "year_from_day d = y"
  using year_from_day_bounds [of d] assms day_from_year_mono [of y "year_from_day d"]
    day_from_year_mono [of "year_from_day d" y] by linarith

definition valid_civil :: "int \<Rightarrow> int \<Rightarrow> int \<Rightarrow> bool" where
  "valid_civil y m d \<longleftrightarrow> 1 \<le> m \<and> m \<le> 12 \<and> 1 \<le> d \<and> d \<le> days_in_month y m"

lemma month_cases:
  fixes m :: int
  assumes "1 \<le> m" "m \<le> 12"
  shows "m = 1 \<or> m = 2 \<or> m = 3 \<or> m = 4 \<or> m = 5 \<or> m = 6 \<or> m = 7 \<or> m = 8 \<or> m = 9 \<or> m = 10
    \<or> m = 11 \<or> m = 12"
  using assms by arith

lemma month_start_less: "1 \<le> m \<Longrightarrow> m \<le> 12 \<Longrightarrow> month_start l m < month_start l (m + 1)"
  using month_cases [of m] by (auto simp: month_start_def)

lemma month_start_mono: "m < n \<Longrightarrow> 1 \<le> m \<Longrightarrow> n \<le> 12 \<Longrightarrow> month_start l (m + 1) \<le> month_start l n"
proof (induction n rule: int_gr_induct)
  case base
  then show ?case by simp
next
  case (step n)
  then show ?case using month_start_less [of n l] by auto
qed

lemma month_start_ends [simp]: "month_start l 1 = 0" "month_start l 13 = (if l then 366 else 365)"
  by (simp_all add: month_start_def)

lemma month_start_nonneg: "1 \<le> m \<Longrightarrow> 0 \<le> month_start l m"
  by (simp add: month_start_def)

lemma month_start_end_le:
  assumes "1 \<le> m" "m \<le> 12"
  shows "month_start l (m + 1) \<le> (if l then 366 else 365)"
  using month_start_mono [of m 12 l] month_start_less [of 12 l] assms
  by (cases "m = 12") auto

lemma month_from_yday_bounds:
  assumes "0 \<le> n" "n < (if l then 366 else 365)"
  shows "1 \<le> month_from_yday l n \<and> month_from_yday l n \<le> 12 \<and>
    month_start l (month_from_yday l n) \<le> n \<and> n < month_start l (month_from_yday l n + 1)"
  using assms by (auto simp: month_from_yday_def)

lemma month_from_yday_eq:
  assumes "1 \<le> m" "m \<le> 12" "month_start l m \<le> n" "n < month_start l (m + 1)"
  shows "month_from_yday l n = m"
proof -
  have n: "0 \<le> n" "n < (if l then 366 else 365)"
    using assms month_start_nonneg [of m l] month_start_end_le [of m l] by auto
  define m' where "m' = month_from_yday l n"
  from month_from_yday_bounds [OF n] have b: "1 \<le> m'" "m' \<le> 12" "month_start l m' \<le> n"
    "n < month_start l (m' + 1)" by (auto simp: m'_def)
  have "\<not> m' < m" using month_start_mono [of m' m l] assms b by linarith
  moreover have "\<not> m < m'" using month_start_mono [of m m' l] assms b by linarith
  ultimately show ?thesis by (simp add: m'_def)
qed

lemma civil_from_day_valid:
  assumes "civil_from_day d = (y, m, dd)"
  shows "valid_civil y m dd \<and> day_from_civil y m dd = d"
proof -
  define n where "n = d - day_from_year (year_from_day d)"
  have n: "0 \<le> n" "n < (if is_leap (year_from_day d) then 366 else 365)"
    using year_from_day_bounds [of d] day_from_year_step [of "year_from_day d"]
    by (auto simp: n_def split: if_splits)
  show ?thesis using assms month_from_yday_bounds [OF n]
    by (auto simp: civil_from_day_def Let_def n_def [symmetric] valid_civil_def days_in_month_def
        day_from_civil_def) (simp_all add: n_def)
qed

lemma civil_from_day_inverse:
  assumes "valid_civil y m d"
  shows "civil_from_day (day_from_civil y m d) = (y, m, d)"
proof -
  let ?l = "is_leap y"
  have v: "1 \<le> m" "m \<le> 12" "1 \<le> d" "month_start ?l m + d - 1 < month_start ?l (m + 1)"
    using assms by (auto simp: valid_civil_def days_in_month_def)
  have n: "0 \<le> month_start ?l m + d - 1" "month_start ?l m + d - 1 < (if ?l then 366 else 365)"
    using v month_start_nonneg [of m ?l] month_start_end_le [of m ?l] by auto
  have y: "year_from_day (day_from_civil y m d) = y"
    using n day_from_year_step [of y] by (intro year_from_day_eq) (auto simp: day_from_civil_def)
  have "month_from_yday ?l (month_start ?l m + d - 1) = m"
    using v by (intro month_from_yday_eq) auto
  moreover have "day_from_civil y m d - day_from_year y = month_start ?l m + d - 1"
    by (simp add: day_from_civil_def)
  ultimately show ?thesis by (simp only: civil_from_day_def y Let_def) simp
qed

section \<open>Printing: toISOString and toDateOnly\<close>

definition year_text :: "int \<Rightarrow> string" where
  "year_text y =
     (if 0 \<le> y \<and> y \<le> 9999 then fixed_dec 4 (nat y)
      else (if y < 0 then CHR ''-'' else CHR ''+'') # fixed_dec 6 (nat \<bar>y\<bar>))"

definition date_text :: "int \<Rightarrow> string" where
  "date_text day =
     (case civil_from_day day of (y, m, d) \<Rightarrow>
        year_text y @ ''-'' @ fixed_dec 2 (nat m) @ ''-'' @ fixed_dec 2 (nat d))"

definition time_text :: "nat \<Rightarrow> string" where
  "time_text r =
     fixed_dec 2 (r div 3600000) @ '':'' @ fixed_dec 2 (r div 60000 mod 60) @ '':'' @
     fixed_dec 2 (r div 1000 mod 60) @ ''.'' @ fixed_dec 3 (r mod 1000)"

definition toISOString :: "millis \<Rightarrow> string" where
  "toISOString t =
     date_text (t div ms_per_day) @ ''T'' @ time_text (nat (t mod ms_per_day)) @ ''Z''"

definition toDateOnly :: "millis \<Rightarrow> string" where
  "toDateOnly t = take 10 (toISOString t)"

section \<open>Parsing: new Date(text)\<close>

text \<open>
  The date-time format of the language: a date, or a date and a time with a zone. Text outside
  this format (and the local-time forms) is left to the engine by the language: \<open>fallback\<close> is
  what it answers there, \<open>None\<close> for an Invalid Date.
\<close>

definition iso_date :: "string \<Rightarrow> int option" where
  "iso_date s =
     (if length s = 10 \<and> s ! 4 = CHR ''-'' \<and> s ! 7 = CHR ''-'' then
        (case (dec_val (take 4 s), dec_val (take 2 (drop 5 s)), dec_val (drop 8 s)) of
           (Some y, Some m, Some d) \<Rightarrow>
             if valid_civil (int y) (int m) (int d) then Some (day_from_civil (int y) (int m) (int d))
             else None
         | _ \<Rightarrow> None)
      else None)"

definition two_digits :: "nat \<Rightarrow> string \<Rightarrow> (nat \<times> string) option" where
  "two_digits limit s =
     (if length s < 2 then None
      else case dec_val (take 2 s) of
        None \<Rightarrow> None | Some n \<Rightarrow> if n < limit then Some (n, drop 2 s) else None)"

definition expect :: "char \<Rightarrow> string \<Rightarrow> string option" where
  "expect c s = (case s of [] \<Rightarrow> None | x # xs \<Rightarrow> if x = c then Some xs else None)"

definition iso_seconds :: "string \<Rightarrow> (nat \<times> string) option" where
  "iso_seconds s =
     (case expect (CHR '':'') s of
        None \<Rightarrow> Some (0, s)
      | Some s1 \<Rightarrow>
          (case two_digits 60 s1 of
             None \<Rightarrow> None
           | Some (sec, s2) \<Rightarrow>
               (case expect (CHR ''.'') s2 of
                  None \<Rightarrow> Some (1000 * sec, s2)
                | Some s3 \<Rightarrow>
                    (let ds = takeWhile (\<lambda>c. digit_val c \<noteq> None) s3 in
                     case dec_val (take 3 (ds @ ''00'')) of
                       None \<Rightarrow> None
                     | Some ms \<Rightarrow> if ds = [] then None
                                  else Some (1000 * sec + ms, drop (length ds) s3)))))"

definition iso_zone :: "string \<Rightarrow> int option" where
  "iso_zone s =
     (if s = ''Z'' then Some 0
      else case s of
        [] \<Rightarrow> None
      | c # s1 \<Rightarrow>
          if c \<noteq> CHR ''+'' \<and> c \<noteq> CHR ''-'' then None
          else (case two_digits 24 s1 of
                  None \<Rightarrow> None
                | Some (h, s2) \<Rightarrow>
                    (case expect (CHR '':'') s2 of
                       None \<Rightarrow> None
                     | Some s3 \<Rightarrow>
                         (case two_digits 60 s3 of
                            Some (mi, []) \<Rightarrow>
                              Some ((if c = CHR ''+'' then 1 else -1) * 60000 * int (60 * h + mi))
                          | _ \<Rightarrow> None))))"

definition iso_time :: "string \<Rightarrow> int option" where
  "iso_time s =
     (case two_digits 24 s of
        None \<Rightarrow> None
      | Some (h, s1) \<Rightarrow>
          (case expect (CHR '':'') s1 of
             None \<Rightarrow> None
           | Some s2 \<Rightarrow>
               (case two_digits 60 s2 of
                  None \<Rightarrow> None
                | Some (mi, s3) \<Rightarrow>
                    (case iso_seconds s3 of
                       None \<Rightarrow> None
                     | Some (ms, s4) \<Rightarrow>
                         (case iso_zone s4 of
                            None \<Rightarrow> None
                          | Some off \<Rightarrow> Some (int (60000 * (60 * h + mi) + ms) - off))))))"

definition iso_parse :: "string \<Rightarrow> millis option" where
  "iso_parse s =
     (case iso_date (take 10 s) of
        None \<Rightarrow> None
      | Some day \<Rightarrow>
          (case drop 10 s of
             [] \<Rightarrow> Some (day * ms_per_day)
           | c # rest \<Rightarrow>
               if c \<noteq> CHR ''T'' then None
               else (case iso_time rest of
                       None \<Rightarrow> None | Some ms \<Rightarrow> Some (day * ms_per_day + ms))))"

definition new_date :: "(string \<Rightarrow> millis option) \<Rightarrow> string \<Rightarrow> millis option" where
  "new_date fallback s = (case iso_parse s of Some t \<Rightarrow> Some t | None \<Rightarrow> fallback s)"

section \<open>Round trip and order\<close>

text \<open>The time values whose year prints with four digits.\<close>

definition iso_day_range :: "int \<Rightarrow> bool" where
  "iso_day_range day \<longleftrightarrow> day_from_year 0 \<le> day \<and> day < day_from_year 10000"

definition iso_range :: "millis \<Rightarrow> bool" where
  "iso_range t \<longleftrightarrow> iso_day_range (t div ms_per_day)"

lemma iso_day_range_year:
  assumes "iso_day_range day"
  shows "0 \<le> year_from_day day \<and> year_from_day day \<le> 9999"
  using year_from_day_bounds [of day] assms day_from_year_mono [of "year_from_day day" 0]
    day_from_year_mono [of 9999 "year_from_day day"]
  by (auto simp: iso_day_range_def not_less [symmetric])

lemma days_in_month_le: "1 \<le> m \<Longrightarrow> m \<le> 12 \<Longrightarrow> days_in_month y m \<le> 31"
  using month_cases [of m] by (auto simp: days_in_month_def month_start_def)

lemma date_text_cases:
  assumes "iso_day_range day"
  obtains y m d where "civil_from_day day = (int y, int m, int d)" "y < 10000" "1 \<le> m" "m \<le> 12"
    "1 \<le> d" "d \<le> 31" "valid_civil (int y) (int m) (int d)" "day_from_civil (int y) (int m) (int d) = day"
    "date_text day = fixed_dec 4 y @ ''-'' @ fixed_dec 2 m @ ''-'' @ fixed_dec 2 d"
proof -
  obtain y m d where c: "civil_from_day day = (y, m, d)" by (metis prod_cases3)
  have y: "0 \<le> y" "y \<le> 9999"
    using iso_day_range_year [OF assms] c by (auto simp: civil_from_day_def Let_def)
  have v: "valid_civil y m d" "day_from_civil y m d = day" using civil_from_day_valid [OF c] by auto
  then have md: "1 \<le> m" "m \<le> 12" "1 \<le> d" "d \<le> 31"
    using days_in_month_le [of m y] by (auto simp: valid_civil_def)
  show thesis
    by (rule that [of "nat y" "nat m" "nat d"])
      (use c y v md in \<open>auto simp: date_text_def year_text_def\<close>)
qed

lemma length_date_text [simp]: "iso_day_range day \<Longrightarrow> length (date_text day) = 10"
  by (erule date_text_cases) simp

lemma iso_date_date_text:
  assumes "iso_day_range day"
  shows "iso_date (date_text day) = Some day"
  using assms
proof (rule date_text_cases)
  fix y m d
  assume b: "y < 10000" "1 \<le> m" "m \<le> 12" "1 \<le> d" "d \<le> 31"
    and v: "valid_civil (int y) (int m) (int d)" "day_from_civil (int y) (int m) (int d) = day"
    and t: "date_text day = fixed_dec 4 y @ ''-'' @ fixed_dec 2 m @ ''-'' @ fixed_dec 2 d"
  show ?thesis using b v by (simp add: iso_date_def t nth_append)
qed

lemma two_digits_fixed_dec [simp]:
  "n < k \<Longrightarrow> k \<le> 100 \<Longrightarrow> two_digits k (fixed_dec 2 n @ s) = Some (n, s)"
  by (simp add: two_digits_def)

lemma expect_Cons [simp]: "expect c (c # s) = Some s"
  by (simp add: expect_def)

lemma takeWhile_digits_fixed_dec:
  "digit_val c = None \<Longrightarrow> takeWhile (\<lambda>c. digit_val c \<noteq> None) (fixed_dec w n @ c # s) = fixed_dec w n"
proof (induction w arbitrary: n c s)
  case 0
  then show ?case by simp
next
  case (Suc w)
  have d: "\<forall>x \<in> set (fixed_dec w k). digit_val x \<noteq> None" for k
    by (induction w arbitrary: k) auto
  show ?case using Suc.prems d [of "n div 10"] by (simp add: takeWhile_append2)
qed

lemma time_split_arith:
  fixes p q r u v w x :: nat
  assumes "60 * x + w = p" "60 * p + v = q" "1000 * q + u = r"
  shows "60000 * (60 * x + w) + (1000 * v + u) = r"
  using assms by (auto simp: algebra_simps)

lemma time_split:
  fixes r :: nat
  shows "60000 * (60 * (r div 3600000) + r div 60000 mod 60) + (1000 * (r div 1000 mod 60) + r mod 1000) = r"
proof (rule time_split_arith)
  have d: "r div 3600000 = r div 1000 div 60 div 60" "r div 60000 = r div 1000 div 60"
    by (simp_all add: div_mult2_eq [symmetric])
  show "60 * (r div 3600000) + r div 60000 mod 60 = r div 1000 div 60" unfolding d by simp
  show "60 * (r div 1000 div 60) + r div 1000 mod 60 = r div 1000" by simp
  show "1000 * (r div 1000) + r mod 1000 = r" by simp
qed

lemma iso_time_time_text:
  assumes "r < 86400000"
  shows "iso_time (time_text r @ ''Z'') = Some (int r)"
proof -
  have h: "r div 3600000 < 24" using assms by (simp add: div_less_iff_less_mult)
  have z: "digit_val (CHR ''Z'') = None" by code_simp
  have ms: "dec_val (take 3 (fixed_dec 3 (r mod 1000) @ ''00'')) = Some (r mod 1000)" by simp
  have s: "iso_seconds (CHR '':'' # fixed_dec 2 (r div 1000 mod 60) @ CHR ''.'' #
      fixed_dec 3 (r mod 1000) @ ''Z'') = Some (1000 * (r div 1000 mod 60) + r mod 1000, ''Z'')"
    using takeWhile_digits_fixed_dec [OF z, of 3 "r mod 1000" "[]"] ms
    by (simp add: iso_seconds_def Let_def del: length_fixed_dec)
      (metis length_fixed_dec length_greater_0_conv zero_less_numeral)
  show ?thesis using h time_split [of r]
    by (simp add: time_text_def iso_time_def s iso_zone_def del: of_nat_add of_nat_mult)
qed

lemma ms_per_day_mod: "0 \<le> t mod ms_per_day" "t mod ms_per_day < ms_per_day"
  by (simp_all add: ms_per_day_def)

lemma toDateOnly_date_text: "iso_range t \<Longrightarrow> toDateOnly t = date_text (t div ms_per_day)"
  by (simp add: toDateOnly_def toISOString_def iso_range_def)

lemma iso_parse_toISOString:
  assumes "iso_range t"
  shows "iso_parse (toISOString t) = Some t"
proof -
  have r: "nat (t mod ms_per_day) < 86400000"
    using ms_per_day_mod [of t] by (simp add: ms_per_day_def nat_less_iff)
  show ?thesis
    using assms iso_date_date_text [of "t div ms_per_day"] iso_time_time_text [OF r]
    by (simp add: iso_parse_def toISOString_def iso_range_def ms_per_day_mod)
qed

lemma new_date_toISOString [simp]: "iso_range t \<Longrightarrow> new_date fb (toISOString t) = Some t"
  by (simp add: new_date_def iso_parse_toISOString)

lemma toISOString_inject:
  "iso_range t \<Longrightarrow> iso_range u \<Longrightarrow> toISOString t = toISOString u \<longleftrightarrow> t = u"
  by (metis iso_parse_toISOString option.inject)

text \<open>Midnight of a date given as text, and the date of a midnight.\<close>

definition day_start :: "int \<Rightarrow> millis" where
  "day_start day = day * ms_per_day"

lemma day_start_div [simp]: "day_start day div ms_per_day = day" "day_start day mod ms_per_day = 0"
  by (simp_all add: day_start_def ms_per_day_def)

lemma iso_parse_midnight:
  assumes "iso_day_range day"
  shows "iso_parse (date_text day @ ''T00:00:00.000Z'') = Some (day_start day)"
proof -
  have t: "time_text 0 @ ''Z'' = ''00:00:00.000Z''" by code_simp
  have "toISOString (day_start day) = date_text day @ ''T00:00:00.000Z''"
    using t by (simp add: toISOString_def)
  with assms iso_parse_toISOString [of "day_start day"] show ?thesis by (simp add: iso_range_def)
qed

lemma civil_less_iff:
  assumes "valid_civil y m d" "valid_civil y' m' d'"
  shows "day_from_civil y m d < day_from_civil y' m' d' \<longleftrightarrow>
    y < y' \<or> (y = y' \<and> (m < m' \<or> (m = m' \<and> d < d')))"
proof -
  have less: "day_from_civil y m d < day_from_civil y' m' d'"
    if v: "valid_civil y m d" "valid_civil y' m' d'"
      and l: "y < y' \<or> (y = y' \<and> (m < m' \<or> (m = m' \<and> d < d')))" for y m d y' m' d'
  proof -
    have a: "month_start (is_leap y) m + d \<le> month_start (is_leap y) (m + 1)"
      "month_start (is_leap y) (m + 1) \<le> (if is_leap y then 366 else 365)" "0 \<le> month_start (is_leap y') m'"
      "1 \<le> d'" "1 \<le> m"
      using v month_start_end_le [of m "is_leap y"] month_start_nonneg [of m' "is_leap y'"]
      by (auto simp: valid_civil_def days_in_month_def)
    from l consider "y < y'" | "y = y'" "m < m'" | "y = y'" "m = m'" "d < d'" by blast
    then show ?thesis
    proof cases
      case 1
      then show ?thesis using day_from_year_mono [of y y'] day_from_year_step [of y] a
        by (simp add: day_from_civil_def)
    next
      case 2
      then show ?thesis using month_start_mono [of m m' "is_leap y"] a v
        by (simp add: day_from_civil_def valid_civil_def)
    next
      case 3
      then show ?thesis by (simp add: day_from_civil_def)
    qed
  qed
  show ?thesis
    using less [OF assms] less [OF assms(2,1)] by (metis less_asym linorder_neqE)
qed

lemma date_text_less_iff:
  assumes "iso_day_range a" "iso_day_range b"
  shows "date_text a < date_text b \<longleftrightarrow> a < b"
proof -
  obtain y m d where 1: "y < 10000" "m \<le> 12" "d \<le> 31" "valid_civil (int y) (int m) (int d)"
    "day_from_civil (int y) (int m) (int d) = a"
    "date_text a = fixed_dec 4 y @ ''-'' @ fixed_dec 2 m @ ''-'' @ fixed_dec 2 d"
    using assms(1) by (rule date_text_cases)
  obtain y' m' d' where 2: "y' < 10000" "m' \<le> 12" "d' \<le> 31" "valid_civil (int y') (int m') (int d')"
    "day_from_civil (int y') (int m') (int d') = b"
    "date_text b = fixed_dec 4 y' @ ''-'' @ fixed_dec 2 m' @ ''-'' @ fixed_dec 2 d'"
    using assms(2) by (rule date_text_cases)
  have "date_text a < date_text b \<longleftrightarrow> y < y' \<or> (y = y' \<and> (m < m' \<or> (m = m' \<and> d < d')))"
    unfolding 1(6) 2(6) using 1(1-3) 2(1-3)
    by (simp add: append_less_append fixed_dec_less_iff fixed_dec_eq_iff del: fixed_dec.simps)
  also have "\<dots> \<longleftrightarrow> a < b" using civil_less_iff [OF 1(4) 2(4)] 1(5) 2(5) by simp
  finally show ?thesis .
qed

lemma date_text_le_iff:
  "iso_day_range a \<Longrightarrow> iso_day_range b \<Longrightarrow> date_text a \<le> date_text b \<longleftrightarrow> a \<le> b"
  using date_text_less_iff [of b a] by (simp add: not_less [symmetric])

section \<open>addDays\<close>

definition addDays :: "(string \<Rightarrow> millis option) \<Rightarrow> string \<Rightarrow> int \<Rightarrow> exn + string" where
  "addDays fallback date days =
     (case new_date fallback (date @ ''T00:00:00.000Z'') of
        None \<Rightarrow> Inl (plain_error ''Invalid time value'')
      | Some d \<Rightarrow> Inr (toDateOnly (d + days * ms_per_day)))"

lemma addDays_date_text:
  assumes "iso_day_range day" "iso_day_range (day + n)"
  shows "addDays fb (date_text day) n = Inr (date_text (day + n))"
proof -
  have "day_start day + n * ms_per_day = day_start (day + n)"
    by (simp add: day_start_def algebra_simps)
  then show ?thesis using assms
    by (simp add: addDays_def new_date_def iso_parse_midnight toDateOnly_date_text iso_range_def)
qed

end
