(* ===== verification/Codec.thy ===== *)
theory Codec
  imports Prelude
begin

text \<open>
  The parts of the JavaScript and Node runtime that the cursors, the domain events and the wire
  formats go through: base64url of a buffer, UTF-8 decoding with replacement, \<open>JSON.stringify\<close> of
  text and objects, and \<open>JSON.parse\<close>. A JavaScript string is held as its UTF-8 bytes (a lone
  surrogate as the three bytes of its code unit).
\<close>

section \<open>base64url\<close>

definition b64_char :: "nat \<Rightarrow> char" where
  "b64_char v = char_of (if v < 26 then 65 + v else if v < 52 then 71 + v
     else if v < 62 then v - 4 else if v = 62 then 45 else 95)"

text \<open>Node reads both alphabets, \<open>+/\<close> and \<open>-_\<close>.\<close>

definition b64_val :: "char \<Rightarrow> nat option" where
  "b64_val c = (let n = of_char c in
     if 65 \<le> n \<and> n \<le> 90 then Some (n - 65) else if 97 \<le> n \<and> n \<le> 122 then Some (n - 71)
     else if 48 \<le> n \<and> n \<le> 57 then Some (n + 4) else if n = 45 \<or> n = 43 then Some 62
     else if n = 95 \<or> n = 47 then Some 63 else None)"

fun b64_sextets :: "nat list \<Rightarrow> nat list" where
  "b64_sextets [] = []"
| "b64_sextets [a] = [a div 4, a mod 4 * 16]"
| "b64_sextets [a, b] = [a div 4, a mod 4 * 16 + b div 16, b mod 16 * 4]"
| "b64_sextets (a # b # c # r) =
     a div 4 # (a mod 4 * 16 + b div 16) # (b mod 16 * 4 + c div 64) # c mod 64 # b64_sextets r"

fun b64_bytes :: "nat list \<Rightarrow> nat list" where
  "b64_bytes (w # x # y # z # r) =
     (w * 4 + x div 16) # (x mod 16 * 16 + y div 4) # (y mod 4 * 64 + z) # b64_bytes r"
| "b64_bytes [w, x, y] = [w * 4 + x div 16, x mod 16 * 16 + y div 4]"
| "b64_bytes [w, x] = [w * 4 + x div 16]"
| "b64_bytes [w] = []"
| "b64_bytes [] = []"

definition to_base64url :: "string \<Rightarrow> string" where
  "to_base64url s = map b64_char (b64_sextets (map of_char s))"

text \<open>Characters outside the alphabets are skipped, a trailing incomplete group is dropped.\<close>

definition from_base64url :: "string \<Rightarrow> string" where
  "from_base64url s = map char_of (b64_bytes (List.map_filter b64_val s))"

lemma b64_val_char: "v < 64 \<Longrightarrow> b64_val (b64_char v) = Some v"
  by (auto simp: b64_val_def b64_char_def Let_def)

lemma map_filter_b64: "\<forall>v\<in>set vs. v < 64 \<Longrightarrow> List.map_filter b64_val (map b64_char vs) = vs"
  by (induction vs) (auto simp: List.map_filter_simps b64_val_char)

lemma b64_sextets_bound: "\<forall>b\<in>set bs. b < 256 \<Longrightarrow> \<forall>v\<in>set (b64_sextets bs). v < 64"
proof (induction bs rule: b64_sextets.induct)
  case (3 a b)
  then have "a mod 4 < 4" "b div 16 < 16" "b mod 16 < 16" by (auto simp: div_less_iff_less_mult)
  with 3 show ?case by (auto simp: div_less_iff_less_mult)
next
  case (4 a b c r)
  then have "a mod 4 < 4" "b div 16 < 16" "b mod 16 < 16" "c div 64 < 4"
    by (auto simp: div_less_iff_less_mult)
  with 4 show ?case by (auto simp: div_less_iff_less_mult)
qed (auto simp: div_less_iff_less_mult)

lemma b64_join: "(b::nat) < 16 \<Longrightarrow> (a * 16 + b) div 16 = a" "(b::nat) < 16 \<Longrightarrow> (a * 16 + b) mod 16 = b"
  by auto

lemma b64_join4: "(b::nat) < 4 \<Longrightarrow> (a * 4 + b) div 4 = a" "(b::nat) < 4 \<Longrightarrow> (a * 4 + b) mod 4 = b"
  by auto

lemma b64_bytes_sextets: "\<forall>b\<in>set bs. b < 256 \<Longrightarrow> b64_bytes (b64_sextets bs) = bs"
proof (induction bs rule: b64_sextets.induct)
  case (3 a b)
  then have "b div 16 < 16" by (auto simp: div_less_iff_less_mult)
  then show ?case by (simp add: b64_join)
next
  case (4 a b c r)
  then have "b div 16 < 16" "c div 64 < 4" by (auto simp: div_less_iff_less_mult)
  with 4 show ?case by (simp add: b64_join b64_join4)
qed auto

lemma from_to_base64url [simp]: "from_base64url (to_base64url s) = s"
proof -
  have b: "\<forall>b\<in>set (map of_char s). b < (256::nat)" by auto
  show ?thesis
    by (simp add: from_base64url_def to_base64url_def map_filter_b64 [OF b64_sextets_bound [OF b]]
        b64_bytes_sextets [OF b] comp_def)
qed

section \<open>UTF-8 decoding with replacement\<close>

text \<open>
  \<open>buffer.toString('utf8')\<close> replaces every maximal ill-formed part by U+FFFD. The lead byte fixes
  the number of continuation bytes and the range of the first of them.
\<close>

definition utf8_lead :: "nat \<Rightarrow> (nat \<times> nat \<times> nat) option" where
  "utf8_lead b =
     (if 194 \<le> b \<and> b \<le> 223 then Some (1, 128, 191) else if b = 224 then Some (2, 160, 191)
      else if b = 237 then Some (2, 128, 159) else if 225 \<le> b \<and> b \<le> 239 then Some (2, 128, 191)
      else if b = 240 then Some (3, 144, 191) else if 241 \<le> b \<and> b \<le> 243 then Some (3, 128, 191)
      else if b = 244 then Some (3, 128, 143) else None)"

text \<open>The continuation bytes found, and how many are still missing.\<close>

fun utf8_tail :: "nat \<Rightarrow> nat \<Rightarrow> nat \<Rightarrow> string \<Rightarrow> string \<times> nat" where
  "utf8_tail 0 lo hi s = ([], 0)"
| "utf8_tail (Suc n) lo hi [] = ([], Suc n)"
| "utf8_tail (Suc n) lo hi (c # cs) =
     (if lo \<le> of_char c \<and> of_char c \<le> hi
      then (case utf8_tail n 128 191 cs of (t, m) \<Rightarrow> (c # t, m)) else ([], Suc n))"

definition utf8_replacement :: string where
  "utf8_replacement = map char_of [239, 191, 189::nat]"

function utf8_fix :: "string \<Rightarrow> string" where
  "utf8_fix [] = []"
| "utf8_fix (c # cs) =
     (if of_char c < (128::nat) then c # utf8_fix cs
      else case utf8_lead (of_char c) of
        None \<Rightarrow> utf8_replacement @ utf8_fix cs
      | Some (n, lo, hi) \<Rightarrow>
          (case utf8_tail n lo hi cs of
             (t, missing) \<Rightarrow>
               (if missing = 0 then c # t else utf8_replacement) @ utf8_fix (drop (length t) cs)))"
  by pat_completeness auto
termination by (relation "measure length") auto

definition ascii :: "string \<Rightarrow> bool" where
  "ascii s \<longleftrightarrow> list_all (\<lambda>c. of_char c < (128::nat)) s"

lemma ascii_simps [simp]: "ascii []" "ascii (c # s) \<longleftrightarrow> of_char c < (128::nat) \<and> ascii s"
    "ascii (s @ t) \<longleftrightarrow> ascii s \<and> ascii t"
  by (auto simp: ascii_def)

lemma utf8_fix_ascii [simp]: "ascii s \<Longrightarrow> utf8_fix s = s"
  by (induction s) auto

section \<open>JSON\<close>

definition dquote :: char where "dquote = CHR 0x22"
definition backslash :: char where "backslash = CHR 0x5C"

datatype json =
    JNull | JBool bool | JNum string | JStr string | JArr "json list" | JObj "(string \<times> json) list"

definition hex_char :: "nat \<Rightarrow> char" where
  "hex_char v = char_of (if v < 10 then 48 + v else 87 + v)"

definition hex_val :: "char \<Rightarrow> nat option" where
  "hex_val c = (let n = of_char c in
     if 48 \<le> n \<and> n \<le> 57 then Some (n - 48) else if 97 \<le> n \<and> n \<le> 102 then Some (n - 87)
     else if 65 \<le> n \<and> n \<le> 70 then Some (n - 55) else None)"

definition json_escape :: "char \<Rightarrow> string" where
  "json_escape c =
     (if c = dquote \<or> c = backslash then [backslash, c]
      else if c = CHR 0x08 then backslash # ''b'' else if c = CHR 0x0C then backslash # ''f''
      else if c = CHR 0x0A then backslash # ''n'' else if c = CHR 0x0D then backslash # ''r''
      else if c = CHR 0x09 then backslash # ''t''
      else if of_char c < (32::nat)
        then backslash # ''u00'' @ [hex_char (of_char c div 16), hex_char (of_char c mod 16)]
      else [c])"

definition json_quote :: "string \<Rightarrow> string" where
  "json_quote s = dquote # concat (map json_escape s) @ [dquote]"

text \<open>UTF-8 of a code unit or code point; \<open>hex4\<close> reads the four digits of a \<open>\u\<close> escape.\<close>

definition utf8_char :: "nat \<Rightarrow> string" where
  "utf8_char u = map char_of
     (if u < 128 then [u] else if u < 2048 then [192 + u div 64, 128 + u mod 64]
      else if u < 65536 then [224 + u div 4096, 128 + u div 64 mod 64, 128 + u mod 64]
      else [240 + u div 262144, 128 + u div 4096 mod 64, 128 + u div 64 mod 64, 128 + u mod 64])"

fun hex4 :: "string \<Rightarrow> (nat \<times> string) option" where
  "hex4 (a # b # c # d # r) =
     (case (hex_val a, hex_val b, hex_val c, hex_val d) of
        (Some w, Some x, Some y, Some z) \<Rightarrow> Some (((w * 16 + x) * 16 + y) * 16 + z, r)
      | _ \<Rightarrow> None)"
| "hex4 _ = None"

lemma hex4_length: "hex4 s = Some (u, r) \<Longrightarrow> length r < length s"
  by (induction s rule: hex4.induct) (auto split: option.splits)

text \<open>A high surrogate followed by an escaped low surrogate is one code point.\<close>

definition unicode_escape :: "string \<Rightarrow> (string \<times> string) option" where
  "unicode_escape s =
     (case hex4 s of None \<Rightarrow> None
      | Some (u, r) \<Rightarrow>
          (if 55296 \<le> u \<and> u < 56320 \<and> take 2 r = backslash # ''u'' then
             (case hex4 (drop 2 r) of
                Some (v, r') \<Rightarrow>
                  if 56320 \<le> v \<and> v < 57344
                  then Some (utf8_char (65536 + (u - 55296) * 1024 + (v - 56320)), r')
                  else Some (utf8_char u, r)
              | None \<Rightarrow> None)
           else Some (utf8_char u, r)))"

lemma unicode_escape_length: "unicode_escape s = Some (t, r) \<Longrightarrow> length r < length s"
  by (auto simp: unicode_escape_def split: option.splits if_splits dest!: hex4_length)

definition simple_escape :: "char \<Rightarrow> char option" where
  "simple_escape c = map_of
     [(dquote, dquote), (backslash, backslash), (CHR ''/'', CHR ''/''), (CHR ''b'', CHR 0x08),
      (CHR ''f'', CHR 0x0C), (CHR ''n'', CHR 0x0A), (CHR ''r'', CHR 0x0D), (CHR ''t'', CHR 0x09)] c"

text \<open>The characters of a string literal after its opening quote, and what follows it.\<close>

function json_chars :: "string \<Rightarrow> (string \<times> string) option" where
  "json_chars [] = None"
| "json_chars (c # cs) =
     (if c = dquote then Some ([], cs)
      else if c = backslash then
        (case cs of [] \<Rightarrow> None
         | e # r \<Rightarrow>
             (if e = CHR ''u'' then
                (case unicode_escape r of None \<Rightarrow> None
                 | Some (t, r') \<Rightarrow>
                     (case json_chars r' of None \<Rightarrow> None | Some (s, q) \<Rightarrow> Some (t @ s, q)))
              else
                (case simple_escape e of None \<Rightarrow> None
                 | Some d \<Rightarrow>
                     (case json_chars r of None \<Rightarrow> None | Some (s, q) \<Rightarrow> Some (d # s, q)))))
      else if of_char c < (32::nat) then None
      else (case json_chars cs of None \<Rightarrow> None | Some (s, q) \<Rightarrow> Some (c # s, q)))"
  by pat_completeness auto
termination by (relation "measure length") (auto dest!: unicode_escape_length)

declare json_chars.simps(2) [simp del]

definition json_space :: "char \<Rightarrow> bool" where
  "json_space c \<longleftrightarrow> c = CHR '' '' \<or> c = CHR 0x09 \<or> c = CHR 0x0A \<or> c = CHR 0x0D"

definition skip_space :: "string \<Rightarrow> string" where
  "skip_space s = dropWhile json_space s"

definition is_digit :: "char \<Rightarrow> bool" where
  "is_digit c \<longleftrightarrow> digit_val c \<noteq> None"

text \<open>
  A number literal: optional minus, an integer part with no leading zero, optional fraction and
  exponent. Its text is kept.
\<close>

definition digits1 :: "string \<Rightarrow> (string \<times> string) option" where
  "digits1 s = (let d = takeWhile is_digit s in if d = [] then None else Some (d, drop (length d) s))"

definition json_int :: "string \<Rightarrow> (string \<times> string) option" where
  "json_int s = (case s of [] \<Rightarrow> None
     | c # r \<Rightarrow> if c = CHR ''0'' then Some (''0'', r) else digits1 s)"

definition json_frac :: "string \<Rightarrow> (string \<times> string) option" where
  "json_frac s = (case s of [] \<Rightarrow> Some ([], s)
     | c # r \<Rightarrow> if c = CHR ''.'' then map_option (\<lambda>(d, q). (CHR ''.'' # d, q)) (digits1 r)
              else Some ([], s))"

definition json_exp :: "string \<Rightarrow> (string \<times> string) option" where
  "json_exp s = (case s of [] \<Rightarrow> Some ([], s)
     | c # r \<Rightarrow>
         if c = CHR ''e'' \<or> c = CHR ''E'' then
           (case r of [] \<Rightarrow> None
            | g # r' \<Rightarrow> if g = CHR ''+'' \<or> g = CHR ''-''
                       then map_option (\<lambda>(d, q). (c # g # d, q)) (digits1 r')
                       else map_option (\<lambda>(d, q). (c # d, q)) (digits1 r))
         else Some ([], s))"

definition json_number :: "string \<Rightarrow> (string \<times> string) option" where
  "json_number s =
     (let (sign, s1) = (if take 1 s = ''-'' then (''-'', drop 1 s) else ([], s))
      in case json_int s1 of None \<Rightarrow> None
         | Some (i, s2) \<Rightarrow> (case json_frac s2 of None \<Rightarrow> None
             | Some (f, s3) \<Rightarrow> (case json_exp s3 of None \<Rightarrow> None
                 | Some (e, s4) \<Rightarrow> Some (sign @ i @ f @ e, s4))))"

definition json_word :: "string \<Rightarrow> json \<Rightarrow> string \<Rightarrow> (json \<times> string) option" where
  "json_word w v s = (if take (length w) s = w then Some (v, drop (length w) s) else None)"

text \<open>
  Every nested call happens after at least one character was consumed, so fuel above twice the
  length of the text is never exhausted. \<open>json_members\<close> and \<open>json_elems\<close> stand before a member or
  an element.
\<close>

fun json_value :: "nat \<Rightarrow> string \<Rightarrow> (json \<times> string) option"
and json_members :: "nat \<Rightarrow> string \<Rightarrow> ((string \<times> json) list \<times> string) option"
and json_elems :: "nat \<Rightarrow> string \<Rightarrow> (json list \<times> string) option" where
  "json_value 0 s = None"
| "json_value (Suc n) s =
     (case skip_space s of [] \<Rightarrow> None
      | c # r \<Rightarrow>
          if c = CHR ''{'' then
            (case skip_space r of [] \<Rightarrow> None
             | d # q \<Rightarrow> if d = CHR ''}'' then Some (JObj [], q)
                       else map_option (\<lambda>(ms, t). (JObj ms, t)) (json_members n (d # q)))
          else if c = CHR ''['' then
            (case skip_space r of [] \<Rightarrow> None
             | d # q \<Rightarrow> if d = CHR '']'' then Some (JArr [], q)
                       else map_option (\<lambda>(es, t). (JArr es, t)) (json_elems n (d # q)))
          else if c = dquote then map_option (\<lambda>(t, q). (JStr t, q)) (json_chars r)
          else if c = CHR ''t'' then json_word ''true'' (JBool True) (c # r)
          else if c = CHR ''f'' then json_word ''false'' (JBool False) (c # r)
          else if c = CHR ''n'' then json_word ''null'' JNull (c # r)
          else map_option (\<lambda>(t, q). (JNum t, q)) (json_number (c # r)))"
| "json_members 0 s = None"
| "json_members (Suc n) s =
     (case skip_space s of [] \<Rightarrow> None
      | c # r \<Rightarrow>
          if c \<noteq> dquote then None
          else (case json_chars r of None \<Rightarrow> None
            | Some (k, q) \<Rightarrow> (case skip_space q of [] \<Rightarrow> None
                | d # q1 \<Rightarrow>
                    if d \<noteq> CHR '':'' then None
                    else (case json_value n q1 of None \<Rightarrow> None
                      | Some (v, q2) \<Rightarrow> (case skip_space q2 of [] \<Rightarrow> None
                          | e # q3 \<Rightarrow>
                              if e = CHR ''}'' then Some ([(k, v)], q3)
                              else if e = CHR '','' then
                                map_option (\<lambda>(ms, t). ((k, v) # ms, t)) (json_members n q3)
                              else None)))))"
| "json_elems 0 s = None"
| "json_elems (Suc n) s =
     (case json_value n s of None \<Rightarrow> None
      | Some (v, q) \<Rightarrow> (case skip_space q of [] \<Rightarrow> None
          | e # q1 \<Rightarrow>
              if e = CHR '']'' then Some ([v], q1)
              else if e = CHR '','' then
                map_option (\<lambda>(es, t). (v # es, t)) (json_elems n q1)
              else None))"

declare json_value.simps(2) [simp del] json_members.simps(2) [simp del] json_elems.simps(2) [simp del]

text \<open>\<open>None\<close> is a SyntaxError.\<close>

definition json_parse :: "string \<Rightarrow> json option" where
  "json_parse s =
     (case json_value (2 * length s + 2) s of
        Some (v, r) \<Rightarrow> if skip_space r = [] then Some v else None
      | None \<Rightarrow> None)"

text \<open>Property access on a parsed value: the last of repeated keys wins.\<close>

definition json_get :: "json \<Rightarrow> string \<Rightarrow> json option" where
  "json_get v k = (case v of JObj ms \<Rightarrow> map_of (rev ms) k | _ \<Rightarrow> None)"

text \<open>\<open>JSON.stringify\<close>; a number carries its text.\<close>

fun join_with :: "string \<Rightarrow> string list \<Rightarrow> string" where
  "join_with sep [] = []"
| "join_with sep [x] = x"
| "join_with sep (x # y # r) = x @ sep @ join_with sep (y # r)"

fun json_stringify :: "json \<Rightarrow> string" where
  "json_stringify JNull = ''null''"
| "json_stringify (JBool b) = (if b then ''true'' else ''false'')"
| "json_stringify (JNum t) = t"
| "json_stringify (JStr s) = json_quote s"
| "json_stringify (JArr vs) = ''['' @ join_with '','' (map json_stringify vs) @ '']''"
| "json_stringify (JObj ms) =
     ''{'' @ join_with '','' (map (\<lambda>(k, v). json_quote k @ '':'' @ json_stringify v) ms) @ ''}''"

lemma hex4_escape:
  assumes "of_char c < (32::nat)"
  shows "hex4 (CHR ''0'' # CHR ''0'' # hex_char (of_char c div 16) # hex_char (of_char c mod 16) # r) =
    Some (of_char c, r)"
proof -
  define n where "n = (of_char c :: nat)"
  have "n div 16 < 16" "n mod 16 < 16" "n div 16 * 16 + n mod 16 = n"
    using assms by (auto simp: n_def div_less_iff_less_mult)
  then have "hex_val (hex_char (n div 16)) = Some (n div 16)" "hex_val (hex_char (n mod 16)) = Some (n mod 16)"
    by (auto simp: hex_val_def hex_char_def Let_def)
  moreover have "hex_val (CHR ''0'') = Some 0" by (simp add: hex_val_def Let_def)
  ultimately show ?thesis
    using \<open>n div 16 * 16 + n mod 16 = n\<close> by (simp add: n_def)
qed

lemma json_chars_escape: "json_chars (json_escape c @ r) = map_option (\<lambda>(s, q). (c # s, q)) (json_chars r)"
proof (cases "of_char c < (32::nat) \<and> c \<notin> {CHR 0x08, CHR 0x0C, CHR 0x0A, CHR 0x0D, CHR 0x09}")
  case True
  then have "of_char c < (32::nat)" by simp
  then have "c \<noteq> dquote" "c \<noteq> backslash" by (auto simp: dquote_def backslash_def)
  moreover have "utf8_char (of_char c) = [c]" using True by (simp add: utf8_char_def)
  ultimately show ?thesis using True
    by (auto simp: json_escape_def json_chars.simps(2) unicode_escape_def hex4_escape
        dquote_def backslash_def simp del: hex4.simps split: option.splits)
next
  case False
  then show ?thesis
    by (auto simp: json_escape_def json_chars.simps(2) simple_escape_def
        dquote_def backslash_def split: option.splits)
qed

lemma json_chars_concat: "json_chars (concat (map json_escape s) @ dquote # r) = Some (s, r)"
  by (induction s) (auto simp: json_chars_escape json_chars.simps(2))

lemma ascii_json_escape [simp]: "of_char c < (128::nat) \<Longrightarrow> ascii (json_escape c)"
  by (auto simp: json_escape_def dquote_def backslash_def hex_char_def)

lemma ascii_json_quote [simp]: "ascii s \<Longrightarrow> ascii (json_quote s)"
proof -
  have "ascii s \<Longrightarrow> ascii (concat (map json_escape s))" by (induction s) auto
  then show "ascii s \<Longrightarrow> ascii (json_quote s)" by (simp add: json_quote_def dquote_def)
qed

section \<open>Parsing what was printed\<close>

primrec json_wf :: "json \<Rightarrow> bool" where
  "json_wf JNull = True"
| "json_wf (JBool b) = True"
| "json_wf (JNum t) = (\<exists>i. t = int_text i)"
| "json_wf (JStr s) = True"
| "json_wf (JArr vs) = list_all id (map json_wf vs)"
| "json_wf (JObj ms) = list_all id (map snd (map (map_prod id json_wf) ms))"

definition json_delim :: "string \<Rightarrow> bool" where
  "json_delim r \<longleftrightarrow> (case r of [] \<Rightarrow> True | c # _ \<Rightarrow> c \<in> {CHR '','', CHR ''}'', CHR '']''})"

lemma is_digit_digit [simp]: "d < 10 \<Longrightarrow> is_digit (digit d)"
  by (simp add: is_digit_def)

lemma digits_nat_text: "\<forall>c\<in>set (nat_text n). is_digit c"
proof (induction n rule: nat_text.induct)
  case (1 n)
  then show ?case by (cases "n < 10") (auto simp: nat_text.simps [of n])
qed

lemma digit_0: "digit 0 = CHR ''0''"
  by code_simp

lemma hd_nat_text: "0 < n \<Longrightarrow> hd (nat_text n) \<noteq> CHR ''0''"
proof (induction n rule: nat_text.induct)
  case (1 n)
  show ?case
  proof (cases "n < 10")
    case True
    then show ?thesis using 1 digit_eq_iff [of n 0] by (simp add: nat_text.simps [of n] digit_0)
  next
    case False
    then have "hd (nat_text n) = hd (nat_text (n div 10))"
      by (subst nat_text.simps) (simp add: hd_append)
    then show ?thesis using 1 False by simp
  qed
qed

lemma nat_text_0: "nat_text 0 = ''0''"
  by (simp add: nat_text.simps digit_0)

lemma digit_chars: "is_digit c \<Longrightarrow> \<not> json_space c \<and> c \<noteq> CHR ''}'' \<and> c \<noteq> CHR '']'' \<and> c \<noteq> CHR ''-'' \<and>
    c \<noteq> CHR ''{'' \<and> c \<noteq> CHR ''['' \<and> c \<noteq> dquote \<and> c \<noteq> CHR ''t'' \<and> c \<noteq> CHR ''f'' \<and> c \<noteq> CHR ''n''"
  by (auto simp: is_digit_def digit_val_def json_space_def dquote_def Let_def split: if_splits)

lemma not_digit_delim: "json_delim r \<Longrightarrow> takeWhile is_digit r = []"
  by (auto simp: json_delim_def is_digit_def digit_val_def split: list.splits)

lemma digits1_nat_text: "json_delim r \<Longrightarrow> digits1 (nat_text n @ r) = Some (nat_text n, r)"
proof -
  assume "json_delim r"
  then have "takeWhile is_digit (nat_text n @ r) = nat_text n"
    using digits_nat_text [of n] by (simp add: takeWhile_append2 not_digit_delim)
  then show ?thesis by (simp add: digits1_def)
qed

lemma json_int_nat_text: "json_delim r \<Longrightarrow> json_int (nat_text n @ r) = Some (nat_text n, r)"
proof (cases "n = 0")
  case False
  then have "hd (nat_text n) \<noteq> CHR ''0''" by (simp add: hd_nat_text)
  moreover assume "json_delim r"
  moreover obtain c s where "nat_text n = c # s" by (cases "nat_text n") auto
  ultimately show ?thesis using digits1_nat_text [of r n] by (simp add: json_int_def)
qed (simp add: nat_text_0 json_int_def)

lemma json_tail_delim: "json_delim r \<Longrightarrow> json_frac r = Some ([], r)" "json_delim r \<Longrightarrow> json_exp r = Some ([], r)"
  by (auto simp: json_delim_def json_frac_def json_exp_def split: list.splits)

lemma json_number_int_text: "json_delim r \<Longrightarrow> json_number (int_text i @ r) = Some (int_text i, r)"
proof (cases "i < 0")
  case False
  obtain c s where c: "nat_text (nat i) = c # s" by (cases "nat_text (nat i)") auto
  then have "is_digit c" using digits_nat_text [of "nat i"] by simp
  then have "c \<noteq> CHR ''-''" using digit_chars by blast
  moreover assume "json_delim r"
  ultimately show ?thesis
    using False c json_int_nat_text [of r "nat i"] by (simp add: json_number_def int_text_def json_tail_delim)
qed (simp add: json_number_def int_text_def json_int_nat_text json_tail_delim)

text \<open>The first character of a printed value decides which rule of the parser reads it.\<close>

lemma int_text_Cons:
  obtains c s where "int_text i = c # s" "is_digit c \<or> c = CHR ''-''"
proof (cases "i < 0")
  case False
  obtain c s where c: "nat_text (nat i) = c # s" by (cases "nat_text (nat i)") auto
  then show ?thesis using that [of c s] digits_nat_text [of "nat i"] False by (simp add: int_text_def)
qed (auto simp: int_text_def intro: that)

lemma json_stringify_Cons:
  assumes "json_wf v"
  obtains c s where "json_stringify v = c # s" "\<not> json_space c" "c \<noteq> CHR ''}''" "c \<noteq> CHR '']''"
proof (cases v)
  case (JNum t)
  then obtain i where "t = int_text i" using assms by auto
  then obtain c s where "t = c # s" "is_digit c \<or> c = CHR ''-''" using int_text_Cons by metis
  then show ?thesis using that [of c s] digit_chars [of c] JNum by (auto simp: json_space_def)
next
  case (JBool b)
  then show ?thesis by (cases b) (auto simp: json_space_def intro: that)
qed (auto simp: json_space_def json_quote_def dquote_def intro: that)

definition parses :: "json \<Rightarrow> bool" where
  "parses v \<longleftrightarrow> (\<forall>n r. length (json_stringify v) \<le> n \<longrightarrow> json_delim r \<longrightarrow>
      json_value n (json_stringify v @ r) = Some (v, r))"

lemma skip_space_nonspace [simp]: "\<not> json_space c \<Longrightarrow> skip_space (c # s) = c # s"
  by (simp add: skip_space_def)

lemma json_space_punct [simp]:
  "\<not> json_space (CHR '','')" "\<not> json_space (CHR ''}'')" "\<not> json_space (CHR '']'')"
  "\<not> json_space (CHR '':'')" "\<not> json_space (CHR ''{'')" "\<not> json_space (CHR ''['')" "\<not> json_space dquote"
  by (auto simp: json_space_def dquote_def)

lemma json_delim_Cons [simp]:
  "json_delim (CHR '','' # r)" "json_delim (CHR ''}'' # r)" "json_delim (CHR '']'' # r)" "json_delim []"
  by (auto simp: json_delim_def)

lemma json_elems_print:
  assumes "vs \<noteq> []" "\<forall>v\<in>set vs. parses v \<and> json_wf v"
    "length (join_with '','' (map json_stringify vs)) < n"
  shows "json_elems n (join_with '','' (map json_stringify vs) @ CHR '']'' # r) = Some (vs, r)"
  using assms
proof (induction vs arbitrary: n)
  case (Cons v vs)
  then obtain k where n: "n = Suc k" by (cases n) auto
  show ?case
  proof (cases vs)
    case Nil
    then show ?thesis using Cons.prems n by (auto simp: json_elems.simps(2) parses_def)
  next
    case (Cons w ws)
    have "json_stringify v \<noteq> []" using Cons.prems json_stringify_Cons [of v] by force
    then have len: "length (json_stringify v) \<le> k" "length (join_with '','' (map json_stringify vs)) < k"
      using Cons.prems n local.Cons by (auto simp: Suc_le_eq)
    then show ?thesis
      using Cons.IH [of k] Cons.prems n local.Cons
      by (auto simp: json_elems.simps(2) parses_def)
  qed
qed simp

definition member_text :: "string \<times> json \<Rightarrow> string" where
  "member_text = (\<lambda>(k, v). json_quote k @ '':'' @ json_stringify v)"

lemma json_members_print:
  assumes "ms \<noteq> []" "\<forall>m\<in>set ms. parses (snd m) \<and> json_wf (snd m)"
    "length (join_with '','' (map member_text ms)) < n"
  shows "json_members n (join_with '','' (map member_text ms) @ CHR ''}'' # r) = Some (ms, r)"
  using assms
proof (induction ms arbitrary: n)
  case (Cons m ms)
  then obtain k where n: "n = Suc k" by (cases n) auto
  obtain key v where m: "m = (key, v)" by fastforce
  show ?case
  proof (cases ms)
    case Nil
    then show ?thesis using Cons.prems n m
      by (auto simp: json_members.simps(2) parses_def member_text_def json_quote_def json_chars_concat)
  next
    case (Cons w ws)
    then have len: "length (json_stringify v) \<le> k" "length (join_with '','' (map member_text ms)) < k"
      using Cons.prems n m by (auto simp: member_text_def json_quote_def)
    then show ?thesis
      using Cons.IH [of k] Cons.prems n m local.Cons
      by (auto simp: json_members.simps(2) parses_def member_text_def json_quote_def json_chars_concat)
  qed
qed simp

lemma json_stringify_JObj:
  "json_stringify (JObj ms) = ''{'' @ join_with '','' (map member_text ms) @ ''}''"
  by (simp add: member_text_def)

lemma join_with_Cons: "(c # x) # xs = ys \<Longrightarrow> \<exists>s. join_with sep ys = c # s"
  by (cases xs) auto

lemma parses_JArr:
  assumes "\<forall>v\<in>set vs. parses v \<and> json_wf v"
  shows "parses (JArr vs)"
proof (cases vs)
  case Nil
  then show ?thesis by (auto simp: parses_def Suc_le_eq json_value.simps(2) dest!: less_imp_Suc_add)
next
  case (Cons w ws)
  then have "json_wf w" using assms by simp
  then obtain c s where c: "json_stringify w = c # s" "\<not> json_space c" "c \<noteq> CHR '']''"
    using json_stringify_Cons by metis
  then obtain t where t: "join_with '','' (map json_stringify vs) = c # t"
    using join_with_Cons [of c s "map json_stringify ws" "map json_stringify vs"] Cons by auto
  show ?thesis unfolding parses_def
  proof (intro allI impI)
    fix n r assume len: "length (json_stringify (JArr vs)) \<le> n"
    then obtain k where n: "n = Suc k" by (cases n) auto
    have "json_elems k (join_with '','' (map json_stringify vs) @ CHR '']'' # r) = Some (vs, r)"
      using assms len n Cons by (intro json_elems_print) auto
    then show "json_value n (json_stringify (JArr vs) @ r) = Some (JArr vs, r)"
      using t c n by (simp add: json_value.simps(2))
  qed
qed

lemma parses_JObj:
  assumes "\<forall>m\<in>set ms. parses (snd m) \<and> json_wf (snd m)"
  shows "parses (JObj ms)"
proof (cases ms)
  case Nil
  then show ?thesis by (auto simp: parses_def Suc_le_eq json_value.simps(2) dest!: less_imp_Suc_add)
next
  case (Cons w ws)
  have "member_text w = dquote # tl (member_text w)"
    by (auto simp: member_text_def json_quote_def split: prod.splits)
  then have "(dquote # tl (member_text w)) # map member_text ws = map member_text ms"
    using Cons by simp
  then obtain t where t: "join_with '','' (map member_text ms) = dquote # t"
    using join_with_Cons by metis
  show ?thesis unfolding parses_def
  proof (intro allI impI)
    fix n r assume len: "length (json_stringify (JObj ms)) \<le> n"
    then obtain k where n: "n = Suc k" by (cases n) auto
    have "json_members k (join_with '','' (map member_text ms) @ CHR ''}'' # r) = Some (ms, r)"
      using assms len n Cons
      by (intro json_members_print) (auto simp: json_stringify_JObj simp del: json_stringify.simps)
    moreover have "dquote \<noteq> CHR ''}''" by (simp add: dquote_def)
    ultimately show "json_value n (json_stringify (JObj ms) @ r) = Some (JObj ms, r)"
      using t n by (simp add: json_value.simps(2) json_stringify_JObj del: json_stringify.simps)
  qed
qed

lemma json_parses: "json_wf v \<Longrightarrow> parses v"
proof (induction v)
  case (JNum t)
  then obtain i where t: "t = int_text i" by auto
  obtain c s where c: "t = c # s" "is_digit c \<or> c = CHR ''-''" using t int_text_Cons by metis
  have "\<not> json_space (CHR ''-'')" "CHR ''-'' \<notin> {CHR ''{'', CHR ''['', dquote, CHR ''t'', CHR ''f'', CHR ''n''}"
    by (simp_all add: json_space_def dquote_def)
  moreover have "\<not> json_space c \<and> c \<notin> {CHR ''{'', CHR ''['', dquote, CHR ''t'', CHR ''f'', CHR ''n''}"
    if "is_digit c"
    using digit_chars [OF that] by simp
  ultimately have
    "\<not> json_space c" "c \<notin> {CHR ''{'', CHR ''['', dquote, CHR ''t'', CHR ''f'', CHR ''n''}"
    using c(2) by metis+
  then have "json_value (Suc k) (c # s @ r) = map_option (\<lambda>(t, q). (JNum t, q)) (json_number (c # s @ r))"
    for k r by (simp add: json_value.simps(2))
  moreover have "json_number (c # s @ r) = Some (c # s, r)" if "json_delim r" for r
    using json_number_int_text [OF that, of i] c(1) t by simp
  ultimately show ?case unfolding c(1)
    by (auto simp: parses_def Suc_le_eq dest!: less_imp_Suc_add)
next
  case (JStr s)
  have "dquote \<noteq> CHR ''{''" "dquote \<noteq> CHR ''[''" by (simp_all add: dquote_def)
  then show ?case
    by (auto simp: parses_def Suc_le_eq json_value.simps(2) json_quote_def json_chars_concat
        dest!: less_imp_Suc_add)
next
  case (JArr vs)
  then show ?case by (intro parses_JArr) (auto simp: list_all_iff)
next
  case (JObj ms)
  then show ?case by (intro parses_JObj) (fastforce simp: list_all_iff)
qed (auto simp: parses_def Suc_le_eq json_value.simps(2) json_word_def json_space_def dquote_def
      split: if_splits dest!: less_imp_Suc_add)

lemma json_parse_stringify [simp]: "json_wf v \<Longrightarrow> json_parse (json_stringify v) = Some v"
proof -
  assume "json_wf v"
  then have "json_value (2 * length (json_stringify v) + 2) (json_stringify v @ []) = Some (v, [])"
    using json_parses unfolding parses_def by (metis json_delim_Cons(4) le_add1 mult_2 add.assoc)
  then show ?thesis by (simp add: json_parse_def skip_space_def)
qed

primrec json_ascii :: "json \<Rightarrow> bool" where
  "json_ascii JNull = True"
| "json_ascii (JBool b) = True"
| "json_ascii (JNum t) = ascii t"
| "json_ascii (JStr s) = ascii s"
| "json_ascii (JArr vs) = list_all id (map json_ascii vs)"
| "json_ascii (JObj ms) = list_all (\<lambda>(k, b). ascii k \<and> b) (map (map_prod id json_ascii) ms)"

lemma ascii_join_with: "ascii sep \<Longrightarrow> \<forall>x\<in>set xs. ascii x \<Longrightarrow> ascii (join_with sep xs)"
  by (induction sep xs rule: join_with.induct) auto

lemma ascii_member_text: "ascii k \<Longrightarrow> ascii (json_stringify v) \<Longrightarrow> ascii (member_text (k, v))"
  by (simp add: member_text_def)

lemma ascii_json_stringify [simp]: "json_ascii v \<Longrightarrow> ascii (json_stringify v)"
proof (induction v)
  case (JArr vs)
  then have "\<forall>x\<in>set (map json_stringify vs). ascii x" by (auto simp: list_all_iff)
  then show ?case by (simp add: ascii_join_with)
next
  case (JObj ms)
  have "ascii (member_text m)" if m: "m \<in> set ms" for m
  proof -
    have "ascii (fst m) \<and> json_ascii (snd m)"
      using JObj.prems m by (cases m) (auto simp: list_all_iff)
    then show ?thesis using JObj.IH [OF m, of "snd m"] ascii_member_text [of "fst m" "snd m"]
      by (simp add: snds.simps)
  qed
  then have "ascii (join_with '','' (map member_text ms))" by (intro ascii_join_with) auto
  then show ?case by (simp add: json_stringify_JObj del: json_stringify.simps)
qed auto

end
