(* ===== verification/Problem.thy ===== *)
theory Problem
  imports Codec
begin

text \<open>
  The error format of the API (\<open>shared/problem.exception.ts\<close>, \<open>problem.format.ts\<close>,
  \<open>problem.filter.ts\<close>): every exception a handler lets through becomes one
  \<open>application/problem+json\<close> body, unless a response has already begun.
\<close>

section \<open>Raising and formatting\<close>

definition problem :: "nat \<Rightarrow> string \<Rightarrow> string \<Rightarrow> exn" where
  "problem status code detail = ProblemException status code detail"

definition PROBLEM_BASE :: string where
  "PROBLEM_BASE = ''https://api.invest.example/problems''"

definition TITLES :: "(nat \<times> string) list" where
  "TITLES =
    [(400, ''Bad request''),
     (401, ''Authentication required''),
     (403, ''Not allowed''),
     (404, ''Resource not found''),
     (409, ''Conflict with resource state''),
     (422, ''The request body failed validation''),
     (500, ''Internal server error''),
     (503, ''Service temporarily unavailable'')]"

definition title_of :: "nat \<Rightarrow> string" where
  "title_of status = (case map_of TITLES status of Some t \<Rightarrow> t | None \<Rightarrow> ''Error'')"

record problem_body =
  pb_type :: string
  pb_title :: string
  pb_status :: nat
  pb_detail :: string
  pb_instance :: string
  pb_code :: "string option"
  pb_errors :: "(string \<times> string) list option"

fun or_else :: "'a option \<Rightarrow> 'a \<Rightarrow> 'a" where
  "or_else (Some x) d = x"
| "or_else None d = d"

fun detailFromHttpException :: "http_response \<Rightarrow> string \<Rightarrow> string" where
  "detailFromHttpException (RespText t) msg = t"
| "detailFromHttpException (RespMessageList ms) msg = join_with ''; '' ms"
| "detailFromHttpException (RespMessage m) msg = m"
| "detailFromHttpException RespOther msg = msg"

fun toProblem :: "exn \<Rightarrow> string \<Rightarrow> problem_body" where
  "toProblem (ProblemException status code detail) originalUrl =
     \<lparr>pb_type = PROBLEM_BASE @ ''/'' @ code, pb_title = title_of status, pb_status = status,
      pb_detail = detail, pb_instance = originalUrl, pb_code = Some code, pb_errors = None\<rparr>"
| "toProblem (HttpException status response msg) originalUrl =
     \<lparr>pb_type = PROBLEM_BASE @ ''/'' @ nat_text status, pb_title = title_of status,
      pb_status = status, pb_detail = detailFromHttpException response msg,
      pb_instance = originalUrl, pb_code = None, pb_errors = None\<rparr>"
| "toProblem (ErrorLike e) originalUrl =
     (let status = or_else (el_status e) (or_else (el_statusCode e) 500)
      in \<lparr>pb_type = PROBLEM_BASE @ ''/'' @ or_else (el_code e) (nat_text status),
          pb_title = title_of status, pb_status = status,
          pb_detail = or_else (el_message e) ''Internal Server Error'',
          pb_instance = originalUrl,
          pb_code = (if el_code e = Some [] then None else el_code e),
          pb_errors = (case el_errors e of
             Some (x # xs) \<Rightarrow> Some (map (\<lambda>(p, m). (or_else p [], or_else m [])) (x # xs))
           | _ \<Rightarrow> None)\<rparr>)"

text \<open>The members in the order in which the object was built; \<open>undefined\<close> ones are left out.\<close>

definition problem_json :: "problem_body \<Rightarrow> json" where
  "problem_json b = JObj
     ([(''type'', JStr (pb_type b)), (''title'', JStr (pb_title b)),
       (''status'', JNum (nat_text (pb_status b))), (''detail'', JStr (pb_detail b)),
       (''instance'', JStr (pb_instance b))]
      @ (case pb_code b of Some c \<Rightarrow> [(''code'', JStr c)] | None \<Rightarrow> [])
      @ (case pb_errors b of
           Some es \<Rightarrow> [(''errors'', JArr (map (\<lambda>(p, m).
             JObj [(''path'', JStr p), (''message'', JStr m)]) es))]
         | None \<Rightarrow> []))"

section \<open>The response\<close>

record http_reply =
  headersSent :: bool
  rp_status :: nat
  rp_type :: string
  rp_body :: string

definition sendProblem :: "exn \<Rightarrow> string \<Rightarrow> http_reply \<Rightarrow> http_reply" where
  "sendProblem err originalUrl res =
     (let body = toProblem err originalUrl
      in \<lparr>headersSent = True, rp_status = pb_status body, rp_type = ''application/problem+json'',
          rp_body = json_stringify (problem_json body)\<rparr>)"

definition filter_catch :: "exn \<Rightarrow> string \<Rightarrow> http_reply \<Rightarrow> http_reply" where
  "filter_catch err originalUrl res =
     (if headersSent res then res else sendProblem err originalUrl res)"

section \<open>Properties\<close>

text \<open>The status the client sees.\<close>

fun status_of :: "exn \<Rightarrow> nat" where
  "status_of (ProblemException status code detail) = status"
| "status_of (HttpException status response msg) = status"
| "status_of (ErrorLike e) = or_else (el_status e) (or_else (el_statusCode e) 500)"

lemma status_of_simps [simp]:
  "status_of (problem st c d) = st" "status_of (db_error q m) = 500" "status_of (plain_error m) = 500"
  by (simp_all add: problem_def db_error_def plain_error_def)

lemma problem_json_wf: "json_wf (problem_json b)"
proof -
  have "\<exists>i. nat_text (pb_status b) = int_text i"
    by (rule exI [of _ "int (pb_status b)"]) (simp add: int_text_def)
  then show ?thesis
    by (auto simp: problem_json_def list_all_iff split: option.splits)
qed

lemma pb_status_toProblem [simp]: "pb_status (toProblem err url) = status_of err"
  by (cases err) (auto simp: Let_def)

lemma pb_title_toProblem [simp]: "pb_title (toProblem err url) = title_of (status_of err)"
  by (cases err) (auto simp: Let_def)

end
