(* ===== verification/Domain.thy ===== *)
theory Domain
  imports Js_Date Problem
begin

text \<open>
  The domain types (\<open>domain/account.ts\<close>, \<open>transaction.ts\<close>, \<open>currency.ts\<close>), the request bodies with
  their validation rules (\<open>accounts/dto\<close>, \<open>transactions/dto\<close>), the mappers to the wire
  (\<open>shared/mappers.ts\<close>) and the ownership check (\<open>auth/ownership.ts\<close>).
\<close>

section \<open>Enumerations\<close>

datatype AccountType = Cash | Bank | Brokerage | Property

datatype TransactionType = Income | Expense | Transfer_in | Transfer_out | Buy | Sell

datatype TransactionStatus = Pending | Posted | Failed

primrec account_type_text :: "AccountType \<Rightarrow> string" where
  "account_type_text Cash = ''cash''"
| "account_type_text Bank = ''bank''"
| "account_type_text Brokerage = ''brokerage''"
| "account_type_text Property = ''property''"

primrec type_text :: "TransactionType \<Rightarrow> string" where
  "type_text Income = ''income''"
| "type_text Expense = ''expense''"
| "type_text Transfer_in = ''transfer_in''"
| "type_text Transfer_out = ''transfer_out''"
| "type_text Buy = ''buy''"
| "type_text Sell = ''sell''"

primrec status_text :: "TransactionStatus \<Rightarrow> string" where
  "status_text Pending = ''pending''"
| "status_text Posted = ''posted''"
| "status_text Failed = ''failed''"

definition Currency :: "string list" where
  "Currency =
    [''UAH'', ''AED'', ''AUD'', ''AZN'', ''BDT'', ''CAD'', ''CHF'', ''CNY'', ''CZK'', ''DKK'', ''DZD'',
     ''EGP'', ''EUR'', ''GBP'', ''GEL'', ''HKD'', ''HUF'', ''IDR'', ''ILS'', ''INR'', ''JPY'', ''KRW'',
     ''KZT'', ''LBP'', ''MDL'', ''MXN'', ''MYR'', ''NOK'', ''NZD'', ''PLN'', ''RON'', ''RSD'', ''SAR'',
     ''SEK'', ''SGD'', ''THB'', ''TND'', ''TRY'', ''USD'', ''VND'', ''ZAR'']"

text \<open>The sign with which an amount enters the balance.\<close>

primrec SIGN :: "TransactionType \<Rightarrow> int" where
  "SIGN Income = 1"
| "SIGN Transfer_in = 1"
| "SIGN Sell = 1"
| "SIGN Expense = -1"
| "SIGN Transfer_out = -1"
| "SIGN Buy = -1"

lemma SIGN_cases: "SIGN k = 1 \<or> SIGN k = -1"
  by (cases k) auto

lemma type_text_inject [simp]: "type_text a = type_text b \<longleftrightarrow> a = b"
  by (cases a; cases b) simp_all

section \<open>Accounts and transactions\<close>

record Account =
  acc_id :: uuid
  acc_name :: string
  acc_type :: AccountType
  acc_currency :: string
  acc_balance_cents :: int
  acc_created_at :: string

record OwnedAccount = Account +
  acc_user_id :: uuid

record Transaction =
  tx_id :: uuid
  tx_account_id :: uuid
  tx_type :: TransactionType
  tx_amount_cents :: int
  tx_currency :: string
  tx_created_at :: string
  tx_booked_at :: string
  tx_description :: "string option"
  tx_instrument_symbol :: "string option"
  tx_quantity_micro :: "int option"

text \<open>On the wire the amount is \<open>amount_cents\<close>, or \<open>amountCents\<close> when the drift flag is set.\<close>

record TransactionResponse =
  tr_id :: uuid
  tr_account_id :: uuid
  tr_type :: TransactionType
  tr_amount_cents :: "int option"
  tr_amountCents :: "int option"
  tr_currency :: string
  tr_created_at :: string
  tr_booked_at :: string
  tr_description :: "string option"
  tr_quantity_micro :: "int option"
  tr_instrument_symbol :: "string option"

definition toAccount :: "'x Account_scheme \<Rightarrow> Account" where
  "toAccount account =
     \<lparr>acc_id = acc_id account, acc_name = acc_name account, acc_type = acc_type account,
      acc_currency = acc_currency account, acc_balance_cents = acc_balance_cents account,
      acc_created_at = acc_created_at account\<rparr>"

definition toTransaction :: "Transaction \<Rightarrow> bool \<Rightarrow> TransactionResponse" where
  "toTransaction t drift =
     \<lparr>tr_id = tx_id t, tr_account_id = tx_account_id t, tr_type = tx_type t,
      tr_amount_cents = (if drift then None else Some (tx_amount_cents t)),
      tr_amountCents = (if drift then Some (tx_amount_cents t) else None),
      tr_currency = tx_currency t, tr_created_at = tx_created_at t, tr_booked_at = tx_booked_at t,
      tr_description = tx_description t, tr_quantity_micro = tx_quantity_micro t,
      tr_instrument_symbol = tx_instrument_symbol t\<rparr>"

section \<open>Request bodies\<close>

record CreateAccountDto =
  ca_name :: string
  ca_type :: AccountType
  ca_currency :: string
  ca_opening_balance_cents :: int

definition create_account_dto_ok :: "CreateAccountDto \<Rightarrow> bool" where
  "create_account_dto_ok d \<longleftrightarrow>
     1 \<le> char_length (ca_name d) \<and> char_length (ca_name d) \<le> 120 \<and>
     ca_currency d \<in> set Currency"

record TransactionEntryDto =
  e_account_id :: string
  e_type :: TransactionType
  e_amount_cents :: int
  e_currency :: string
  e_booked_at :: string
  e_description :: "string option"
  e_instrument_symbol :: "string option"
  e_quantity_micro :: "int option"

text \<open>
  The validators \<open>IsUUID('4')\<close> and \<open>IsISO8601\<close> belong to class-validator and are parameters.
\<close>

definition entry_dto_ok ::
  "(string \<Rightarrow> bool) \<Rightarrow> (string \<Rightarrow> bool) \<Rightarrow> TransactionEntryDto \<Rightarrow> bool" where
  "entry_dto_ok isUUID4 isISO8601 e \<longleftrightarrow>
     isUUID4 (e_account_id e) \<and> 0 \<le> e_amount_cents e \<and> e_currency e \<in> set Currency \<and>
     isISO8601 (e_booked_at e) \<and>
     (case e_description e of None \<Rightarrow> True | Some s \<Rightarrow> char_length s \<le> 500) \<and>
     (case e_instrument_symbol e of None \<Rightarrow> True | Some s \<Rightarrow> char_length s \<le> 20)"

definition create_transactions_dto_ok ::
  "(string \<Rightarrow> bool) \<Rightarrow> (string \<Rightarrow> bool) \<Rightarrow> TransactionEntryDto list \<Rightarrow> bool" where
  "create_transactions_dto_ok isUUID4 isISO8601 entries \<longleftrightarrow>
     1 \<le> length entries \<and> length entries \<le> 100 \<and>
     list_all (entry_dto_ok isUUID4 isISO8601) entries"

section \<open>Users and ownership\<close>

datatype Role = Viewer | Member

record AuthUser =
  au_id :: uuid
  au_role :: Role
  au_jti :: uuid
  au_sid :: uuid
  au_exp :: int

definition assertOwner :: "uuid \<Rightarrow> AuthUser \<Rightarrow> string \<Rightarrow> exn + unit" where
  "assertOwner ownerId user what =
     (if ownerId \<noteq> au_id user
      then Inl (problem 403 ''forbidden'' (what @ '' belongs to another user''))
      else Inr ())"

lemma assertOwner_Inr [simp]: "assertOwner o' u w = Inr x \<longleftrightarrow> o' = au_id u"
  by (simp add: assertOwner_def)

lemma assertOwner_self [simp]: "assertOwner (au_id u) u w = Inr ()"
  by (simp add: assertOwner_def)

end
