(* ===== verification/Database.thy ===== *)
theory Database
  imports Domain
begin

text \<open>
  The schema of \<open>entities/\<close> and \<open>migrations/\<close>: one record per table row, the CHECK, UNIQUE and
  FOREIGN KEY constraints as executable predicates, INSERT and UPDATE with the errors Postgres
  raises for them, and the invariant \<open>db_ok\<close> that the constraints maintain. What belongs to
  Postgres itself (how it reads text as uuid, timestamptz, date and numeric, how it sorts text) is
  a parameter \<open>runtime\<close>; \<open>pg_ok\<close> states the documented behaviour the program relies on.

  An error of the database is \<open>db_error sqlstate what\<close>, where \<open>what\<close> names the constraint or the
  type. A \<open>bigint\<close> is an \<open>int\<close> with its range checked on every write; \<open>numeric(20,10)\<close> is an \<open>int\<close>
  scaled by \<open>10 ^ 10\<close>; a \<open>timestamptz(3)\<close> is a number of milliseconds; a \<open>date\<close> is a day number.
\<close>

section \<open>Rows\<close>

record user_row =
  u_id :: uuid
  u_email :: string
  u_display_name :: string
  u_password_hash :: "string option"
  u_role :: Role

record currency_row =
  c_code :: string
  c_numeric_code :: int
  c_exponent :: int
  c_name :: string

record account_row =
  a_id :: uuid
  a_user_id :: uuid
  a_currency :: string
  a_name :: string
  a_type :: AccountType
  a_balance_cents :: int
  a_is_archived :: bool
  a_created_at :: millis

record instrument_row =
  i_id :: uuid
  i_symbol :: string
  i_name :: string
  i_asset_class :: string
  i_currency :: string
  i_created_at :: millis

record category_row =
  g_id :: uuid
  g_name :: string
  g_kind :: string

record fx_row =
  f_currency :: string
  f_rate_date :: int
  f_source :: string
  f_raw_rate :: int
  f_raw_units :: int
  f_rate :: int

record tx_row =
  t_id :: uuid
  t_account_id :: uuid
  t_instrument_id :: "uuid option"
  t_category_id :: "uuid option"
  t_currency :: string
  t_type :: TransactionType
  t_status :: TransactionStatus
  t_amount_cents :: int
  t_fx_rate :: int
  t_quantity_micro :: "int option"
  t_unit_price :: "int option"
  t_booked_at :: millis
  t_description :: "string option"
  t_created_at :: millis

datatype JobStatus = Job_pending | Job_done

record job_row =
  j_id :: uuid
  j_type :: string
  j_payload :: "(string \<times> string) list"
  j_status :: JobStatus
  j_processed :: int
  j_worker_id :: "string option"
  j_created_at :: millis

record refresh_row =
  rt_id :: uuid
  rt_user_id :: uuid
  rt_family_id :: uuid
  rt_token_hash :: string
  rt_used_at :: "millis option"
  rt_revoked_at :: "millis option"
  rt_expires_at :: millis

record revoked_row =
  rv_jti :: uuid
  rv_expires_at :: millis

record receipt_row =
  rc_order_id :: uuid
  rc_event_id :: uuid

record db =
  users :: "user_row list"
  currencies :: "currency_row list"
  accounts :: "account_row list"
  instruments :: "instrument_row list"
  categories :: "category_row list"
  fx_rates :: "fx_row list"
  transactions :: "tx_row list"
  job_queue :: "job_row list"
  refresh_tokens :: "refresh_row list"
  revoked_access_tokens :: "revoked_row list"
  order_receipts :: "receipt_row list"

section \<open>Postgres\<close>

record runtime =
  pg_uuid_in :: "string \<Rightarrow> uuid option"
  pg_timestamptz_in :: "string \<Rightarrow> millis option"
  pg_date_in :: "string \<Rightarrow> int option"
  pg_numeric_in :: "string \<Rightarrow> int option"
  pg_text_key :: "string \<Rightarrow> string"
  pg_divide :: "int \<Rightarrow> int \<Rightarrow> int"
  date_fallback :: "string \<Rightarrow> millis option"

text \<open>The text of a \<open>numeric(20,10)\<close>: ten decimals.\<close>

definition numeric_out :: "int \<Rightarrow> string" where
  "numeric_out r =
     (if r < 0 then ''-'' else []) @ nat_text (nat (\<bar>r\<bar> div 10000000000)) @ ''.'' @
     fixed_dec 10 (nat (\<bar>r\<bar> mod 10000000000))"

definition numeric_one :: int where
  "numeric_one = 10000000000"

definition numeric_ok :: "int \<Rightarrow> bool" where
  "numeric_ok r \<longleftrightarrow> \<bar>r\<bar> < 100000000000000000000"

text \<open>The canonical form in which a \<open>uuid\<close> is stored and returned: 8-4-4-4-12 lower-case digits.\<close>

definition lower_hex :: "char \<Rightarrow> bool" where
  "lower_hex c \<longleftrightarrow> (let n = of_char c in (48 \<le> n \<and> n \<le> 57) \<or> (97 \<le> n \<and> n \<le> (102::nat)))"

definition is_uuid :: "string \<Rightarrow> bool" where
  "is_uuid s \<longleftrightarrow> length s = 36 \<and>
     list_all (\<lambda>(i, c). if i \<in> {8, 13, 18, 23} then c = CHR ''-'' else lower_hex c) (enumerate 0 s)"

text \<open>Documented behaviour of Postgres that the program relies on.\<close>

definition pg_ok :: "runtime \<Rightarrow> bool" where
  "pg_ok rt \<longleftrightarrow>
     (\<forall>s. is_uuid s \<longrightarrow> pg_uuid_in rt s = Some s) \<and>
     (\<forall>s u. pg_uuid_in rt s = Some u \<longrightarrow> is_uuid u) \<and>
     (\<forall>t. iso_range t \<longrightarrow> pg_timestamptz_in rt (toISOString t) = Some t) \<and>
     (\<forall>d. iso_day_range d \<longrightarrow> pg_date_in rt (date_text d) = Some d) \<and>
     (\<forall>r. numeric_ok r \<longrightarrow> pg_numeric_in rt (numeric_out r) = Some r) \<and>
     pg_numeric_in rt ''1'' = Some numeric_one \<and>
     inj (pg_text_key rt)"

lemma pg_okD:
  assumes "pg_ok rt"
  shows "is_uuid s \<Longrightarrow> pg_uuid_in rt s = Some s"
    and "pg_uuid_in rt s = Some u \<Longrightarrow> is_uuid u"
    and "iso_range t \<Longrightarrow> pg_timestamptz_in rt (toISOString t) = Some t"
    and "iso_day_range d \<Longrightarrow> pg_date_in rt (date_text d) = Some d"
    and "numeric_ok r \<Longrightarrow> pg_numeric_in rt (numeric_out r) = Some r"
    and "pg_numeric_in rt ''1'' = Some numeric_one"
    and "inj (pg_text_key rt)"
  using assms by (auto simp: pg_ok_def)

text \<open>A runtime that behaves so, for evaluation: it reads canonical text only.\<close>

definition split_at :: "char \<Rightarrow> string \<Rightarrow> string \<times> string" where
  "split_at c s = (takeWhile (\<lambda>x. x \<noteq> c) s, drop 1 (dropWhile (\<lambda>x. x \<noteq> c) s))"

definition canonical_numeric_in :: "string \<Rightarrow> int option" where
  "canonical_numeric_in s =
     (let (neg, body) = (if take 1 s = ''-'' then (True, drop 1 s) else (False, s));
          (i, f) = split_at (CHR ''.'') body
      in case (dec_val i, if f = [] then Some 0 else if length f = 10 then dec_val f else None) of
           (Some a, Some b) \<Rightarrow>
             let v = int a * 10000000000 + int b in Some (if neg then - v else v)
         | _ \<Rightarrow> None)"

definition canonical_runtime :: runtime where
  "canonical_runtime = \<lparr>
     pg_uuid_in = (\<lambda>s. if is_uuid s then Some s else None),
     pg_timestamptz_in = iso_parse,
     pg_date_in = iso_date,
     pg_numeric_in = canonical_numeric_in,
     pg_text_key = (\<lambda>s. s),
     pg_divide = (\<lambda>a b. a div b),
     date_fallback = (\<lambda>s. None)\<rparr>"

lemma digit_val_point: "digit_val (CHR ''.'') = None" "digit_val (CHR ''-'') = None"
  by (simp_all add: digit_val_def)

lemma dec_acc_digits: "dec_acc a s = Some n \<Longrightarrow> c \<in> set s \<Longrightarrow> digit_val c \<noteq> None"
  by (induction s arbitrary: a) (auto split: option.splits)

lemma nat_text_digits: "c \<in> set (nat_text n) \<Longrightarrow> digit_val c \<noteq> None"
  using dec_acc_digits dec_acc_nat_text by blast

text \<open>The integer that a text stands for.\<close>

definition int_val :: "string \<Rightarrow> int option" where
  "int_val s = (if take 1 s = ''-'' then map_option (\<lambda>n. - int n) (dec_val (drop 1 s))
     else map_option int (dec_val s))"

lemma int_val_int_text [simp]: "int_val (int_text i) = Some i"
proof (cases "i < 0")
  case True
  then show ?thesis by (simp add: int_val_def int_text_def)
next
  case False
  obtain c s where c: "nat_text (nat i) = c # s" by (cases "nat_text (nat i)") auto
  then have "c \<noteq> CHR ''-''" using nat_text_digits [of c "nat i"] digit_val_point(2) by auto
  then show ?thesis
    using False c dec_val_nat_text [of "nat i"] by (simp add: int_val_def int_text_def)
qed

lemma split_nat_text: "split_at (CHR ''.'') (nat_text n @ CHR ''.'' # f) = (nat_text n, f)"
proof -
  have "\<forall>c\<in>set (nat_text n). c \<noteq> CHR ''.''" using nat_text_digits digit_val_point(1) by metis
  then have "takeWhile (\<lambda>x. x \<noteq> CHR ''.'') (nat_text n @ CHR ''.'' # f) = nat_text n"
      "dropWhile (\<lambda>x. x \<noteq> CHR ''.'') (nat_text n @ CHR ''.'' # f) = CHR ''.'' # f"
    by (simp_all add: takeWhile_append2 dropWhile_append2)
  then show ?thesis by (simp add: split_at_def)
qed

lemma canonical_numeric_parts:
  assumes "b < 10000000000"
  shows "canonical_numeric_in ((if neg then ''-'' else []) @ nat_text a @ ''.'' @ fixed_dec 10 b) =
    Some (if neg then - (int a * 10000000000 + int b) else int a * 10000000000 + int b)"
proof -
  have f: "dec_val (fixed_dec 10 b) = Some b" using assms by (intro dec_val_fixed_dec) simp_all
  obtain c s where c: "nat_text a = c # s" by (cases "nat_text a") auto
  have "c \<noteq> CHR ''-''" using nat_text_digits [of c a] c digit_val_point(2) by auto
  then have "take 1 (nat_text a @ x) \<noteq> ''-''" for x using c by simp
  moreover have "length (fixed_dec 10 b) \<noteq> 0" by simp
  then have "fixed_dec 10 b \<noteq> []" by blast
  moreover have "split_at (CHR ''.'') (nat_text a @ ''.'' @ fixed_dec 10 b) = (nat_text a, fixed_dec 10 b)"
    using split_nat_text by simp
  ultimately show ?thesis
    using f by (auto simp: canonical_numeric_in_def Let_def simp del: take_append)
qed

lemma canonical_numeric_out: "canonical_numeric_in (numeric_out r) = Some r"
proof -
  define q where "q = \<bar>r\<bar> div 10000000000"
  define m where "m = \<bar>r\<bar> mod 10000000000"
  have b: "0 \<le> m" "m < 10000000000" "0 \<le> q" and s: "q * 10000000000 + m = \<bar>r\<bar>"
    unfolding q_def m_def by (rule pos_mod_sign, simp, rule pos_mod_bound, simp,
      rule pos_imp_zdiv_nonneg_iff [THEN iffD2], simp_all)
  have "numeric_out r = (if r < 0 then ''-'' else []) @ nat_text (nat q) @ ''.'' @ fixed_dec 10 (nat m)"
    by (simp only: numeric_out_def q_def m_def)
  moreover have "nat m < 10000000000" using b by simp
  ultimately have "canonical_numeric_in (numeric_out r) = Some (if r < 0 then - \<bar>r\<bar> else \<bar>r\<bar>)"
    using canonical_numeric_parts [of "nat m" "r < 0" "nat q"] b s by simp
  then show ?thesis by (auto split: if_splits)
qed

lemma canonical_numeric_one: "canonical_numeric_in ''1'' = Some numeric_one"
  by code_simp

lemma canonical_runtime_ok: "pg_ok canonical_runtime"
  using iso_parse_toISOString iso_date_date_text canonical_numeric_out canonical_numeric_one
  by (auto simp: pg_ok_def canonical_runtime_def split: if_splits)

section \<open>Binding parameters\<close>

text \<open>
  A JavaScript number bound to a \<open>bigint\<close> is sent as text; from \<open>10 ^ 21\<close> on that text has an
  exponent, which is not integer syntax. Text may not contain the character NUL.
\<close>

definition bind_bigint :: "int \<Rightarrow> exn + int" where
  "bind_bigint x =
     (if fits_bigint x then Inr x
      else Inl (db_error (if 10 ^ 21 \<le> \<bar>x\<bar> then ''22P02'' else ''22003'') ''bigint''))"

definition bind_text :: "string \<Rightarrow> exn + string" where
  "bind_text s = (if CHR 0x00 \<in> set s then Inl (db_error ''22021'' ''text'') else Inr s)"

definition bind_uuid :: "runtime \<Rightarrow> string \<Rightarrow> exn + uuid" where
  "bind_uuid rt s = (case pg_uuid_in rt s of Some u \<Rightarrow> Inr u | None \<Rightarrow> Inl (db_error ''22P02'' ''uuid''))"

definition bind_numeric :: "runtime \<Rightarrow> string \<Rightarrow> exn + int" where
  "bind_numeric rt s =
     (case pg_numeric_in rt s of
        None \<Rightarrow> Inl (db_error ''22P02'' ''numeric'')
      | Some r \<Rightarrow> if numeric_ok r then Inr r else Inl (db_error ''22003'' ''numeric''))"

definition bind_timestamptz :: "runtime \<Rightarrow> string \<Rightarrow> exn + millis" where
  "bind_timestamptz rt s =
     (case pg_timestamptz_in rt s of
        Some t \<Rightarrow> Inr t | None \<Rightarrow> Inl (db_error ''22007'' ''timestamptz''))"

definition bind_date :: "runtime \<Rightarrow> string \<Rightarrow> exn + int" where
  "bind_date rt s =
     (case pg_date_in rt s of Some d \<Rightarrow> Inr d | None \<Rightarrow> Inl (db_error ''22007'' ''date''))"

text \<open>Sequencing of fallible conversions, and a list of them: the first error wins.\<close>

definition bindE :: "exn + 'a \<Rightarrow> ('a \<Rightarrow> exn + 'b) \<Rightarrow> exn + 'b" where
  "bindE m f = (case m of Inl e \<Rightarrow> Inl e | Inr x \<Rightarrow> f x)"

fun mapE :: "('a \<Rightarrow> exn + 'b) \<Rightarrow> 'a list \<Rightarrow> exn + 'b list" where
  "mapE f [] = Inr []"
| "mapE f (x # xs) = bindE (f x) (\<lambda>y. bindE (mapE f xs) (\<lambda>ys. Inr (y # ys)))"

fun optE :: "('a \<Rightarrow> exn + 'b) \<Rightarrow> 'a option \<Rightarrow> exn + 'b option" where
  "optE f None = Inr None"
| "optE f (Some x) = bindE (f x) (\<lambda>y. Inr (Some y))"

lemma bindE_Inr [simp]: "bindE m f = Inr y \<longleftrightarrow> (\<exists>x. m = Inr x \<and> f x = Inr y)"
  by (auto simp: bindE_def split: sum.splits)

lemma bindE_Inl: "bindE m f = Inl e \<longleftrightarrow> m = Inl e \<or> (\<exists>x. m = Inr x \<and> f x = Inl e)"
  by (auto simp: bindE_def split: sum.splits)

lemma bindE_Inr_eq [simp]: "bindE (Inr x) f = f x"
  by (simp add: bindE_def)

lemma mapE_Inr: "mapE f xs = Inr ys \<longleftrightarrow> list_all2 (\<lambda>x y. f x = Inr y) xs ys"
  by (induction xs arbitrary: ys) (auto simp: list_all2_Cons1)

lemma mapE_Inl: "mapE f xs = Inl e \<Longrightarrow> \<exists>x\<in>set xs. f x = Inl e"
  by (induction xs) (auto simp: bindE_Inl)

lemma optE_Inr: "optE f x = Inr y \<longleftrightarrow> rel_option (\<lambda>a b. f a = Inr b) x y"
  by (cases x; cases y) auto

section \<open>Constraints\<close>

definition first_violated :: "(string \<times> bool) list \<Rightarrow> string option" where
  "first_violated cs = map_option fst (List.find (\<lambda>(n, ok). \<not> ok) cs)"

lemma first_violated_None: "first_violated cs = None \<longleftrightarrow> list_all snd cs"
  by (induction cs) (auto simp: first_violated_def)

definition null_or :: "('a \<Rightarrow> bool) \<Rightarrow> 'a option \<Rightarrow> bool" where
  "null_or p x = (case x of None \<Rightarrow> True | Some y \<Rightarrow> p y)"

definition account_check :: "account_row \<Rightarrow> string option" where
  "account_check a = first_violated
     [(''accounts_name_length'', 1 \<le> char_length (a_name a) \<and> char_length (a_name a) \<le> 120)]"

definition transaction_check :: "tx_row \<Rightarrow> string option" where
  "transaction_check t = first_violated
     [(''transactions_amount_non_negative'', 0 \<le> t_amount_cents t),
      (''transactions_base_currency_rate_is_one'',
         (t_currency t = ''UAH'') = (t_fx_rate t = numeric_one)),
      (''transactions_description_length'', null_or (\<lambda>d. char_length d \<le> 500) (t_description t)),
      (''transactions_fx_rate_positive'', 0 < t_fx_rate t),
      (''transactions_instrument_matches_type'',
         (t_type t \<in> {Buy, Sell}) = (t_instrument_id t \<noteq> None)),
      (''transactions_quantity_positive'', null_or (\<lambda>q. 0 < q) (t_quantity_micro t)),
      (''transactions_unit_price_positive'', null_or (\<lambda>p. 0 < p) (t_unit_price t))]"

definition fx_rate_check :: "fx_row \<Rightarrow> string option" where
  "fx_rate_check f = first_violated
     [(''fx_rate_base_is_not_quoted'', f_currency f \<noteq> ''UAH''),
      (''fx_rate_raw_rate_positive'', 0 < f_raw_rate f),
      (''fx_rate_raw_units_positive'', 0 < f_raw_units f),
      (''fx_rate_source_length'', 1 \<le> char_length (f_source f) \<and> char_length (f_source f) \<le> 40)]"

definition job_check :: "job_row \<Rightarrow> string option" where
  "job_check j = first_violated
     [(''job_queue_processed_non_negative'', 0 \<le> j_processed j),
      (''job_queue_type_length'', 1 \<le> char_length (j_type j) \<and> char_length (j_type j) \<le> 60)]"

definition currency_check :: "currency_row \<Rightarrow> string option" where
  "currency_check r = first_violated
     [(''currency_code_format'', length (c_code r) = 3 \<and>
         list_all (\<lambda>x. (65::nat) \<le> of_char x \<and> of_char x \<le> (90::nat)) (c_code r)),
      (''currency_exponent_range'', 0 \<le> c_exponent r \<and> c_exponent r \<le> 6),
      (''currency_name_length'', 1 \<le> char_length (c_name r) \<and> char_length (c_name r) \<le> 80),
      (''currency_numeric_code_range'', 1 \<le> c_numeric_code r \<and> c_numeric_code r \<le> 999)]"

definition symbol_char :: "char \<Rightarrow> bool" where
  "symbol_char c \<longleftrightarrow> (let n = of_char c in
     (65 \<le> n \<and> n \<le> 90) \<or> (48 \<le> n \<and> n \<le> 57) \<or> n = 46 \<or> n = (45::nat))"

definition instrument_check :: "instrument_row \<Rightarrow> string option" where
  "instrument_check i = first_violated
     [(''instruments_asset_class_enum'', i_asset_class i \<in> {''equity'', ''etf'', ''bond'', ''crypto''}),
      (''instruments_name_length'', 1 \<le> char_length (i_name i) \<and> char_length (i_name i) \<le> 120),
      (''instruments_symbol_format'', 1 \<le> length (i_symbol i) \<and> length (i_symbol i) \<le> 20 \<and>
         list_all symbol_char (i_symbol i))]"

definition account_fk :: "db \<Rightarrow> account_row \<Rightarrow> string option" where
  "account_fk db a = first_violated
     [(''accounts_user_id_fk'', a_user_id a \<in> u_id ` set (users db)),
      (''accounts_currency_fk'', a_currency a \<in> c_code ` set (currencies db))]"

text \<open>The composite key ties the currency of a transaction to that of its account.\<close>

definition transaction_fk :: "db \<Rightarrow> tx_row \<Rightarrow> string option" where
  "transaction_fk db t = first_violated
     [(''transactions_currency_matches_account'',
         (t_account_id t, t_currency t) \<in> (\<lambda>a. (a_id a, a_currency a)) ` set (accounts db)),
      (''transactions_instrument_id_fk'',
         null_or (\<lambda>i. i \<in> i_id ` set (instruments db)) (t_instrument_id t)),
      (''transactions_category_id_fk'',
         null_or (\<lambda>g. g \<in> g_id ` set (categories db)) (t_category_id t)),
      (''transactions_currency_fk'', t_currency t \<in> c_code ` set (currencies db))]"

section \<open>Writes\<close>

fun add_rows :: "('r \<Rightarrow> string option) \<Rightarrow> ('r \<Rightarrow> 'k) \<Rightarrow> string \<Rightarrow> 'r list \<Rightarrow> 'r list \<Rightarrow> exn + 'r list" where
  "add_rows check key pk table [] = Inr table"
| "add_rows check key pk table (r # rs) =
     (case check r of
        Some name \<Rightarrow> Inl (db_error ''23514'' name)
      | None \<Rightarrow> if key r \<in> key ` set table then Inl (db_error ''23505'' pk)
                else add_rows check key pk (table @ [r]) rs)"

fun check_fks :: "('r \<Rightarrow> string option) \<Rightarrow> 'r list \<Rightarrow> exn + unit" where
  "check_fks fk [] = Inr ()"
| "check_fks fk (r # rs) =
     (case fk r of Some name \<Rightarrow> Inl (db_error ''23503'' name) | None \<Rightarrow> check_fks fk rs)"

lemma add_rows_Inr:
  "add_rows check key pk table rs = Inr t \<longleftrightarrow>
     t = table @ rs \<and> (\<forall>r\<in>set rs. check r = None) \<and> distinct (map key rs) \<and>
     (\<forall>r\<in>set rs. key r \<notin> key ` set table)"
  by (induction check key pk table rs rule: add_rows.induct) (auto simp: image_iff split: option.splits)

lemma check_fks_Inr: "check_fks fk rs = Inr u \<longleftrightarrow> (\<forall>r\<in>set rs. fk r = None)"
  by (induction rs) (auto split: option.splits)

definition insert_account :: "account_row \<Rightarrow> db \<Rightarrow> exn + db" where
  "insert_account a db =
     bindE (add_rows account_check a_id ''accounts_pkey'' (accounts db) [a]) (\<lambda>t.
     bindE (check_fks (account_fk db) [a]) (\<lambda>_. Inr (db\<lparr>accounts := t\<rparr>)))"

text \<open>One multi-row INSERT: checks and keys row by row, foreign keys at the end of the statement.\<close>

definition insert_transactions :: "tx_row list \<Rightarrow> db \<Rightarrow> exn + db" where
  "insert_transactions rows db =
     bindE (add_rows transaction_check t_id ''transactions_pkey'' (transactions db) rows) (\<lambda>t.
     bindE (check_fks (transaction_fk db) rows) (\<lambda>_. Inr (db\<lparr>transactions := t\<rparr>)))"

definition insert_job :: "job_row \<Rightarrow> db \<Rightarrow> exn + db" where
  "insert_job j db =
     bindE (add_rows job_check j_id ''job_queue_pkey'' (job_queue db) [j]) (\<lambda>t.
       Inr (db\<lparr>job_queue := t\<rparr>))"

definition update_where :: "('r \<Rightarrow> bool) \<Rightarrow> ('r \<Rightarrow> 'r) \<Rightarrow> 'r list \<Rightarrow> 'r list" where
  "update_where p f rows = map (\<lambda>r. if p r then f r else r) rows"

text \<open>\<open>UPDATE accounts SET balance_cents = balance_cents + delta WHERE id = ...\<close>: exact, or 22003.\<close>

definition add_balance :: "uuid \<Rightarrow> int \<Rightarrow> db \<Rightarrow> exn + db" where
  "add_balance aid delta db =
     (if list_all (\<lambda>a. a_id a = aid \<longrightarrow> fits_bigint (a_balance_cents a + delta)) (accounts db)
      then Inr (db\<lparr>accounts := update_where (\<lambda>a. a_id a = aid)
             (\<lambda>a. a\<lparr>a_balance_cents := a_balance_cents a + delta\<rparr>) (accounts db)\<rparr>)
      else Inl (db_error ''22003'' ''bigint''))"

lemma update_where_simps [simp]:
  "length (update_where p f rows) = length rows"
  "update_where p f [] = []"
  "update_where p f (r # rs) = (if p r then f r else r) # update_where p f rs"
  by (simp_all add: update_where_def)

lemma set_update_where: "set (update_where p f rows) = (\<lambda>r. if p r then f r else r) ` set rows"
  by (simp add: update_where_def)

lemma map_update_where: "(\<And>r. p r \<Longrightarrow> g (f r) = g r) \<Longrightarrow> map g (update_where p f rows) = map g rows"
  by (simp add: update_where_def)

section \<open>Results of binding and of the constraints\<close>

lemma bind_bigint_Inr: "bind_bigint x = Inr y \<longleftrightarrow> y = x \<and> fits_bigint x"
  by (auto simp: bind_bigint_def)

lemma bind_text_Inr: "bind_text s = Inr t \<longleftrightarrow> t = s \<and> CHR 0x00 \<notin> set s"
  by (auto simp: bind_text_def)

lemma bind_uuid_Inr: "bind_uuid rt s = Inr u \<longleftrightarrow> pg_uuid_in rt s = Some u"
  by (auto simp: bind_uuid_def split: option.splits)

lemma bind_numeric_Inr: "bind_numeric rt s = Inr r \<longleftrightarrow> pg_numeric_in rt s = Some r \<and> numeric_ok r"
  by (auto simp: bind_numeric_def split: option.splits)

lemma numeric_ok_one [simp]: "numeric_ok numeric_one"
  by (simp add: numeric_ok_def numeric_one_def)

lemma optE_bind:
  "optE bind_bigint x = Inr y \<longleftrightarrow> y = x \<and> null_or fits_bigint x"
  "optE bind_text s = Inr t \<longleftrightarrow> t = s \<and> null_or (\<lambda>c. CHR 0x00 \<notin> set c) s"
  by (cases x; auto simp: null_or_def bind_bigint_Inr) (cases s; auto simp: null_or_def bind_text_Inr)

lemmas bind_results = bind_bigint_Inr bind_text_Inr bind_uuid_Inr bind_numeric_Inr optE_bind

lemma optE_Inl: "optE f x = Inl e \<Longrightarrow> \<exists>y. f y = Inl e"
  by (cases x) (auto simp: bindE_Inl)

lemma add_rows_Inl:
  "add_rows check key pk table rs = Inl e \<Longrightarrow> distinct (map key rs) \<Longrightarrow>
   \<forall>r\<in>set rs. key r \<notin> key ` set table \<Longrightarrow>
   \<exists>r\<in>set rs. \<exists>n. check r = Some n \<and> e = db_error ''23514'' n"
proof (induction check key pk table rs rule: add_rows.induct)
  case (2 check key pk table r rs)
  show ?case
  proof (cases "check r")
    case None
    have "key r \<notin> key ` set table" "\<forall>q\<in>set rs. key q \<notin> key ` set (table @ [r])"
      using "2.prems"(2,3) by (auto simp: image_iff)
    then show ?thesis using "2.IH" [OF None] "2.prems"(1,2) None by auto
  next
    case (Some n)
    then show ?thesis using "2.prems"(1) by auto
  qed
qed simp

lemma check_fks_Inl: "check_fks fk rs = Inl e \<Longrightarrow> \<exists>r\<in>set rs. \<exists>n. fk r = Some n \<and> e = db_error ''23503'' n"
  by (induction rs) (auto split: option.splits)

lemma first_violated_Some: "first_violated cs = Some n \<Longrightarrow> (n, False) \<in> set cs"
  by (induction cs) (auto simp: first_violated_def split: if_splits)

section \<open>The invariant that the constraints maintain\<close>

definition account_ok :: "db \<Rightarrow> account_row \<Rightarrow> bool" where
  "account_ok db a \<longleftrightarrow> is_uuid (a_id a) \<and> account_check a = None \<and> account_fk db a = None \<and>
     fits_bigint (a_balance_cents a)"

definition transaction_ok :: "db \<Rightarrow> tx_row \<Rightarrow> bool" where
  "transaction_ok db t \<longleftrightarrow> is_uuid (t_id t) \<and> transaction_check t = None \<and>
     transaction_fk db t = None \<and> fits_bigint (t_amount_cents t) \<and> numeric_ok (t_fx_rate t) \<and>
     null_or fits_bigint (t_quantity_micro t)"

definition fx_row_ok :: "db \<Rightarrow> fx_row \<Rightarrow> bool" where
  "fx_row_ok db f \<longleftrightarrow> fx_rate_check f = None \<and> f_currency f \<in> c_code ` set (currencies db) \<and>
     numeric_ok (f_raw_rate f) \<and> numeric_ok (f_rate f)"

definition refresh_ok :: "db \<Rightarrow> refresh_row \<Rightarrow> bool" where
  "refresh_ok db r \<longleftrightarrow> is_uuid (rt_id r) \<and> is_uuid (rt_family_id r) \<and>
     rt_user_id r \<in> u_id ` set (users db)"

definition fx_key :: "fx_row \<Rightarrow> string \<times> int \<times> string" where
  "fx_key f = (f_currency f, f_rate_date f, f_source f)"

definition db_ok :: "db \<Rightarrow> bool" where
  "db_ok db \<longleftrightarrow>
     distinct (map u_id (users db)) \<and> distinct (map u_email (users db)) \<and>
     list_all (\<lambda>u. is_uuid (u_id u)) (users db) \<and>
     distinct (map c_code (currencies db)) \<and> list_all (\<lambda>r. currency_check r = None) (currencies db) \<and>
     distinct (map a_id (accounts db)) \<and> list_all (account_ok db) (accounts db) \<and>
     distinct (map i_id (instruments db)) \<and> distinct (map i_symbol (instruments db)) \<and>
     list_all (\<lambda>i. instrument_check i = None) (instruments db) \<and>
     distinct (map fx_key (fx_rates db)) \<and> list_all (fx_row_ok db) (fx_rates db) \<and>
     distinct (map t_id (transactions db)) \<and> list_all (transaction_ok db) (transactions db) \<and>
     distinct (map j_id (job_queue db)) \<and> list_all (\<lambda>j. job_check j = None) (job_queue db) \<and>
     distinct (map rt_id (refresh_tokens db)) \<and> distinct (map rt_token_hash (refresh_tokens db)) \<and>
     list_all (refresh_ok db) (refresh_tokens db) \<and>
     distinct (map rv_jti (revoked_access_tokens db)) \<and>
     distinct (map rc_order_id (order_receipts db)) \<and> distinct (map rc_event_id (order_receipts db)) \<and>
     list_all (\<lambda>r. rc_order_id r \<in> t_id ` set (transactions db)) (order_receipts db)"

lemma db_ok_accounts:
  assumes "db_ok db" "a \<in> set (accounts db)"
  shows "is_uuid (a_id a)" "fits_bigint (a_balance_cents a)" "a_user_id a \<in> u_id ` set (users db)"
    "a_currency a \<in> c_code ` set (currencies db)" "account_check a = None"
  using assms by (auto simp: db_ok_def list_all_iff account_ok_def account_fk_def first_violated_None)

lemma db_ok_distinct:
  assumes "db_ok db"
  shows "distinct (map a_id (accounts db))" "distinct (map t_id (transactions db))"
    "distinct (map i_id (instruments db))" "distinct (map i_symbol (instruments db))"
    "distinct (map fx_key (fx_rates db))" "distinct (map j_id (job_queue db))"
    "distinct (map rt_id (refresh_tokens db))" "distinct (map rt_token_hash (refresh_tokens db))"
  using assms by (auto simp: db_ok_def)

lemma db_ok_transactions:
  assumes "db_ok db" "t \<in> set (transactions db)"
  shows "is_uuid (t_id t)" "transaction_check t = None" "transaction_fk db t = None"
    "fits_bigint (t_amount_cents t)"
  using assms by (auto simp: db_ok_def list_all_iff transaction_ok_def)

lemma db_ok_instrument_symbol: "db_ok db \<Longrightarrow> i \<in> set (instruments db) \<Longrightarrow> i_symbol i \<noteq> []"
  by (auto simp: db_ok_def list_all_iff instrument_check_def first_violated_None)

lemma db_ok_transaction_account:
  assumes "db_ok db" "t \<in> set (transactions db)"
  obtains a where "a \<in> set (accounts db)" "a_id a = t_account_id t" "a_currency a = t_currency t"
  using db_ok_transactions(3) [OF assms]
  by (auto simp: transaction_fk_def first_violated_None)

end
