(* ===== verification/Pagination.thy ===== *)
theory Pagination
  imports Problem "HOL-Library.Multiset"
begin

text \<open>
  Cursors and page limits (\<open>shared/pagination.ts\<close>, \<open>shared/dto/page-query.dto.ts\<close>), and the
  contract of keyset paging as a locale: a repository that returns the rows strictly below the
  cursor, in descending key order, at most \<open>limit\<close> of them. Whoever follows \<open>next_cursor\<close> from the
  first page to the last reads every row exactly once, in order.
\<close>

section \<open>Cursors\<close>

definition DEFAULT_PAGE_LIMIT :: int where "DEFAULT_PAGE_LIMIT = 20"
definition MIN_PAGE_LIMIT :: int where "MIN_PAGE_LIMIT = 1"
definition MAX_PAGE_LIMIT :: int where "MAX_PAGE_LIMIT = 100"

record CursorPayload =
  cur_c :: string
  cur_id :: string

definition encodeCursor :: "string \<Rightarrow> string \<Rightarrow> string" where
  "encodeCursor sortKey ident =
     to_base64url (json_stringify (JObj [(''c'', JStr sortKey), (''id'', JStr ident)]))"

definition bad_cursor :: exn where
  "bad_cursor = ProblemException 400 ''bad-cursor''
     (''cursor not recognised '' @ map char_of [226, 128, 148::nat] @
      '' it is opaque and belongs to the server'')"

definition decodeCursor :: "string \<Rightarrow> exn + CursorPayload" where
  "decodeCursor raw =
     (case json_parse (utf8_fix (from_base64url raw)) of
        None \<Rightarrow> Inl bad_cursor
      | Some parsed \<Rightarrow>
          (case (json_get parsed ''c'', json_get parsed ''id'') of
             (Some (JStr c), Some (JStr i)) \<Rightarrow> Inr \<lparr>cur_c = c, cur_id = i\<rparr>
           | _ \<Rightarrow> Inl bad_cursor))"

lemma decode_encode_ascii [simp]:
  "ascii c \<Longrightarrow> ascii i \<Longrightarrow> decodeCursor (encodeCursor c i) = Inr \<lparr>cur_c = c, cur_id = i\<rparr>"
  by (simp add: decodeCursor_def encodeCursor_def json_get_def del: json_stringify.simps)

lemma decodeCursor_error: "decodeCursor raw = Inl e \<Longrightarrow> e = bad_cursor"
  by (auto simp: decodeCursor_def split: option.splits json.splits)

section \<open>The page query\<close>

text \<open>
  The query string value of \<open>limit\<close>: absent or empty gives the default; other text goes through
  \<open>Number\<close>, of which only integer text matters here since \<open>IsInt\<close> rejects the rest. \<open>None\<close> of
  \<open>number_of\<close> stands for \<open>NaN\<close> and for fractions.
\<close>

definition page_limit :: "(string \<Rightarrow> int option) \<Rightarrow> string option \<Rightarrow> int option" where
  "page_limit number_of value =
     (let n = (case value of None \<Rightarrow> Some DEFAULT_PAGE_LIMIT
               | Some v \<Rightarrow> if v = [] then Some DEFAULT_PAGE_LIMIT else number_of v)
      in case n of None \<Rightarrow> None
         | Some k \<Rightarrow> if MIN_PAGE_LIMIT \<le> k \<and> k \<le> MAX_PAGE_LIMIT then Some k else None)"

definition cursor_ok :: "string option \<Rightarrow> bool" where
  "cursor_ok c = (case c of None \<Rightarrow> True | Some s \<Rightarrow> 1 \<le> char_length s \<and> char_length s \<le> 512)"

lemma page_limit_bounds: "page_limit f v = Some k \<Longrightarrow> 1 \<le> k \<and> k \<le> 100"
  by (auto simp: page_limit_def Let_def MIN_PAGE_LIMIT_def MAX_PAGE_LIMIT_def
      split: option.splits if_splits)

section \<open>Keyset paging\<close>

text \<open>
  \<open>keyset_query\<close> is the query both repositories run: the rows strictly below the cursor by row
  comparison, \<open>ORDER BY key DESC\<close>, \<open>LIMIT limit\<close>. \<open>page_of\<close> is what both services build from its
  result.
\<close>

definition keyset_query :: "('r \<Rightarrow> 'k::linorder) \<Rightarrow> nat \<Rightarrow> 'k option \<Rightarrow> 'r list \<Rightarrow> 'r list" where
  "keyset_query key limit after rows =
     take limit (rev (sort_key key
       (case after of None \<Rightarrow> rows | Some k \<Rightarrow> filter (\<lambda>r. key r < k) rows)))"

text \<open>All rows in the order of the pages.\<close>

definition newest_first :: "('r \<Rightarrow> 'k::linorder) \<Rightarrow> 'r list \<Rightarrow> 'r list" where
  "newest_first key rows = rev (sort_key key rows)"

definition page_of :: "('r \<Rightarrow> 'v) \<Rightarrow> ('r \<Rightarrow> 'c) \<Rightarrow> nat \<Rightarrow> 'r list \<Rightarrow> 'v list \<times> 'c option" where
  "page_of view cursor_of limit rows =
     (map view rows,
      if length rows = limit \<and> rows \<noteq> [] then Some (cursor_of (last rows)) else None)"

text \<open>
  Following the cursors: all items that a client reads in at most \<open>n\<close> requests, and whether the
  last page was reached.
\<close>

fun walk :: "('c option \<Rightarrow> exn + ('v list \<times> 'c option)) \<Rightarrow> nat \<Rightarrow> 'c option \<Rightarrow> exn + ('v list \<times> bool)" where
  "walk page 0 c = Inr ([], False)"
| "walk page (Suc n) c =
     (case page c of
        Inl e \<Rightarrow> Inl e
      | Inr (items, None) \<Rightarrow> Inr (items, True)
      | Inr (items, Some c') \<Rightarrow>
          (case walk page n (Some c') of
             Inl e \<Rightarrow> Inl e
           | Inr (rest, fin) \<Rightarrow> Inr (items @ rest, fin)))"

locale keyset =
  fixes key :: "'r \<Rightarrow> 'k::linorder"
    and rows :: "'r list"
    and limit :: nat
    and view :: "'r \<Rightarrow> 'v"
    and cursor_of :: "'r \<Rightarrow> 'c"
    and page :: "'c option \<Rightarrow> exn + ('v list \<times> 'c option)"
  assumes keys: "distinct (map key rows)"
    and positive: "0 < limit"
    and first_page: "page None = Inr (page_of view cursor_of limit (keyset_query key limit None rows))"
    and next_page: "r \<in> set rows \<Longrightarrow> page (Some (cursor_of r)) =
      Inr (page_of view cursor_of limit (keyset_query key limit (Some (key r)) rows))"
begin

lemma all_rows_descending: "sorted_wrt (\<lambda>a b. key b < key a) (newest_first key rows)"
proof -
  have "sorted_wrt (<) (map key (sort_key key rows))"
    using keys by (simp add: strict_sorted_iff distinct_map)
  then show ?thesis by (simp add: newest_first_def sorted_wrt_rev sorted_wrt_map)
qed

lemma query_all_rows:
  "keyset_query key limit after rows =
     take limit (case after of None \<Rightarrow> newest_first key rows | Some k \<Rightarrow> filter (\<lambda>r. key r < k) (newest_first key rows))"
  by (simp add: keyset_query_def newest_first_def rev_filter [symmetric] filter_sort split: option.splits)

lemma below_nth:
  assumes "newest_first key rows = xs @ r # ys"
  shows "filter (\<lambda>q. key q < key r) (newest_first key rows) = ys"
proof -
  have "\<forall>q\<in>set xs. key r < key q" "\<forall>q\<in>set ys. key q < key r"
    using all_rows_descending assms by (auto simp: sorted_wrt_append)
  then show ?thesis using assms by (auto simp: filter_empty_conv filter_id_conv)
qed

text \<open>The page after the row that ends a prefix \<open>xs\<close> of the rows.\<close>

lemma page_after:
  assumes "newest_first key rows = xs @ ys" "c = (if xs = [] then None else Some (cursor_of (last xs)))"
  shows "page c = Inr (page_of view cursor_of limit (take limit ys))"
proof (cases xs rule: rev_cases)
  case Nil
  then show ?thesis using assms first_page by (simp add: query_all_rows)
next
  case (snoc zs r)
  then have split: "newest_first key rows = zs @ r # ys" using assms by simp
  then have "r \<in> set (newest_first key rows)" by simp
  then have "r \<in> set rows" by (simp add: newest_first_def)
  then show ?thesis
    using below_nth [OF split] next_page [of r] assms snoc by (simp add: query_all_rows)
qed

lemma walk_from:
  assumes "newest_first key rows = xs @ ys" "c = (if xs = [] then None else Some (cursor_of (last xs)))"
    "length ys < n"
  shows "walk page n c = Inr (map view ys, True)"
  using assms
proof (induction n arbitrary: xs ys c)
  case (Suc n)
  have items: "page c = Inr (page_of view cursor_of limit (take limit ys))"
    using page_after Suc.prems(1,2) .
  show ?case
  proof (cases "length ys < limit")
    case True
    then show ?thesis using items by (simp add: page_of_def)
  next
    case False
    then have ne: "take limit ys \<noteq> []" using positive by auto
    have "walk page n (Some (cursor_of (last (take limit ys)))) = Inr (map view (drop limit ys), True)"
      using Suc.prems ne positive False
      by (intro Suc.IH [of "xs @ take limit ys"]) auto
    then show ?thesis using items ne False
      by (simp add: page_of_def flip: map_append)
  qed
qed simp

text \<open>A client that follows the cursors reads all rows, in order, and reaches the last page.\<close>

lemma walk_all: "length rows < n \<Longrightarrow> walk page n None = Inr (map view (newest_first key rows), True)"
  by (rule walk_from [of "[]" "newest_first key rows"]) (auto simp: newest_first_def)

lemma all_rows_perm: "mset (newest_first key rows) = mset rows" "distinct (newest_first key rows)"
  using keys by (auto simp: newest_first_def distinct_map)

end

lemma to_base64url_ne: "s \<noteq> [] \<Longrightarrow> to_base64url s \<noteq> []"
  by (cases "map of_char s :: nat list" rule: b64_sextets.cases) (auto simp: to_base64url_def)

lemma encodeCursor_ne [simp]: "encodeCursor c i \<noteq> []"
  by (simp add: encodeCursor_def to_base64url_ne)

end
