(* ===== verification/Example_Data.thy ===== *)
theory Example_Data
  imports Database
begin

text \<open>
  A small database that satisfies every constraint: the concrete input at which properties with
  hypotheses are instantiated.
\<close>

definition uid :: "char \<Rightarrow> uuid" where
  "uid c = replicate 8 c @ ''-'' @ replicate 4 c @ ''-4'' @ replicate 3 c @ ''-8'' @ replicate 3 c @
     ''-'' @ replicate 12 c"

definition alice :: AuthUser where
  "alice = \<lparr>au_id = uid (CHR ''a''), au_role = Member, au_jti = uid (CHR ''1''),
     au_sid = uid (CHR ''2''), au_exp = 1767226200\<rparr>"

definition bob :: AuthUser where
  "bob = \<lparr>au_id = uid (CHR ''b''), au_role = Viewer, au_jti = uid (CHR ''3''),
     au_sid = uid (CHR ''4''), au_exp = 1767226200\<rparr>"

definition uah_account :: account_row where
  "uah_account = \<lparr>a_id = uid (CHR ''c''), a_user_id = au_id alice, a_currency = ''UAH'',
     a_name = ''Cash'', a_type = Cash, a_balance_cents = 100000, a_is_archived = False,
     a_created_at = 1767225600000\<rparr>"

definition usd_account :: account_row where
  "usd_account = \<lparr>a_id = uid (CHR ''d''), a_user_id = au_id alice, a_currency = ''USD'',
     a_name = ''IBKR'', a_type = Brokerage, a_balance_cents = 500000, a_is_archived = False,
     a_created_at = 1767225601000\<rparr>"

definition bob_account :: account_row where
  "bob_account = \<lparr>a_id = uid (CHR ''e''), a_user_id = au_id bob, a_currency = ''UAH'',
     a_name = ''Card'', a_type = Bank, a_balance_cents = 0, a_is_archived = False,
     a_created_at = 1767225602000\<rparr>"

definition voo :: instrument_row where
  "voo = \<lparr>i_id = uid (CHR ''5''), i_symbol = ''VOO'', i_name = ''Vanguard S&P 500'',
     i_asset_class = ''etf'', i_currency = ''USD'', i_created_at = 1767225600000\<rparr>"

definition usd_rate :: "int \<Rightarrow> string \<Rightarrow> int \<Rightarrow> fx_row" where
  "usd_rate day source rate = \<lparr>f_currency = ''USD'', f_rate_date = day, f_source = source,
     f_raw_rate = rate, f_raw_units = 1, f_rate = rate\<rparr>"

definition tx_row_of :: "char \<Rightarrow> account_row \<Rightarrow> TransactionType \<Rightarrow> TransactionStatus \<Rightarrow> int \<Rightarrow> millis \<Rightarrow> tx_row" where
  "tx_row_of c a k st amount at = \<lparr>t_id = uid c, t_account_id = a_id a,
     t_instrument_id = (if k \<in> {Buy, Sell} then Some (i_id voo) else None), t_category_id = None,
     t_currency = a_currency a, t_type = k, t_status = st, t_amount_cents = amount,
     t_fx_rate = (if a_currency a = ''UAH'' then numeric_one else 423456000000),
     t_quantity_micro = None, t_unit_price = None, t_booked_at = at, t_description = None,
     t_created_at = at\<rparr>"

definition order_tx :: tx_row where
  "order_tx = tx_row_of (CHR ''6'') usd_account Buy Pending 4599 1767225700000"

definition example_db :: db where
  "example_db = \<lparr>
     users = [\<lparr>u_id = au_id alice, u_email = ''alice@x.io'', u_display_name = ''Alice'',
                u_password_hash = None, u_role = Member\<rparr>,
              \<lparr>u_id = au_id bob, u_email = ''bob@x.io'', u_display_name = ''Bob'',
                u_password_hash = None, u_role = Viewer\<rparr>],
     currencies = [\<lparr>c_code = ''UAH'', c_numeric_code = 980, c_exponent = 2, c_name = ''Hryvnia''\<rparr>,
                   \<lparr>c_code = ''USD'', c_numeric_code = 840, c_exponent = 2, c_name = ''US Dollar''\<rparr>],
     accounts = [uah_account, usd_account, bob_account],
     instruments = [voo],
     categories = [],
     fx_rates = [usd_rate 20454 ''nbu'' 423456000000, usd_rate 20454 ''seed'' 400000000000,
                 usd_rate 20455 ''nbu'' 424000000000],
     transactions = [order_tx,
                     tx_row_of (CHR ''7'') uah_account Income Posted 100000 1767225650000,
                     tx_row_of (CHR ''8'') bob_account Expense Failed 700 1767225640000],
     job_queue = [],
     refresh_tokens = [],
     revoked_access_tokens = [],
     order_receipts = []\<rparr>"

lemma example_db_ok: "db_ok example_db"
  by code_simp

lemma example_uuids [simp]:
  "is_uuid (uid (CHR ''0''))" "is_uuid (uid (CHR ''9''))" "is_uuid (uid (CHR ''f''))"
  by code_simp+

end
