(* ===== verification/Accounts.thy ===== *)
theory Accounts
  imports Database Pagination Example_Data
begin

text \<open>
  Accounts (\<open>accounts/accounts.repository.ts\<close>, \<open>accounts.service.ts\<close>): one user's accounts page by
  page, creation, and reading one account. The repository functions work on the database state;
  \<open>new Date()\<close> and \<open>randomUUID()\<close> are arguments.
\<close>

section \<open>AccountsRepository\<close>

definition account_toDomain :: "account_row \<Rightarrow> OwnedAccount" where
  "account_toDomain a =
     \<lparr>acc_id = a_id a, acc_name = a_name a, acc_type = a_type a, acc_currency = a_currency a,
      acc_balance_cents = js_round (a_balance_cents a), acc_created_at = toISOString (a_created_at a),
      acc_user_id = a_user_id a\<rparr>"

definition accounts_findById :: "runtime \<Rightarrow> string \<Rightarrow> (db, OwnedAccount option) svc" where
  "accounts_findById rt ident =
     bindS (liftS (bind_uuid rt ident)) (\<lambda>u.
       readS (\<lambda>db. map_option account_toDomain (List.find (\<lambda>a. a_id a = u) (accounts db))))"

definition accounts_findByIds :: "runtime \<Rightarrow> string list \<Rightarrow> (db, OwnedAccount list) svc" where
  "accounts_findByIds rt ids =
     (if ids = [] then returnS []
      else bindS (liftS (mapE (bind_uuid rt) ids)) (\<lambda>us.
        readS (\<lambda>db. map account_toDomain (filter (\<lambda>a. a_id a \<in> set us) (accounts db)))))"

definition bind_cursor :: "runtime \<Rightarrow> CursorPayload \<Rightarrow> exn + (millis \<times> uuid)" where
  "bind_cursor rt c =
     bindE (bind_timestamptz rt (cur_c c)) (\<lambda>t. bindE (bind_uuid rt (cur_id c)) (\<lambda>u. Inr (t, u)))"

definition account_key :: "account_row \<Rightarrow> millis \<times> uuid" where
  "account_key a = (a_created_at a, a_id a)"

definition accounts_findPage ::
  "runtime \<Rightarrow> string \<Rightarrow> nat \<Rightarrow> CursorPayload option \<Rightarrow> (db, OwnedAccount list) svc" where
  "accounts_findPage rt userId limit cursor =
     bindS (liftS (bind_uuid rt userId)) (\<lambda>uid.
     bindS (liftS (optE (bind_cursor rt) cursor)) (\<lambda>after.
       readS (\<lambda>db. map account_toDomain
         (keyset_query account_key limit after
           (filter (\<lambda>a. a_user_id a = uid) (accounts db))))))"

text \<open>
  \<open>repo.save\<close> looks the primary key up and updates the row it finds, or inserts a new one. All
  columns are given, so the update replaces the row.
\<close>

definition accounts_save ::
  "runtime \<Rightarrow> Account \<Rightarrow> string \<Rightarrow> (db, Account) svc" where
  "accounts_save rt account userId =
     bindS (liftS (case new_date (date_fallback rt) (acc_created_at account) of
              None \<Rightarrow> Inl (plain_error ''Invalid time value'') | Some t \<Rightarrow> Inr t)) (\<lambda>createdAt.
     bindS (liftS (bind_uuid rt (acc_id account))) (\<lambda>ident.
     bindS (liftS (bind_uuid rt userId)) (\<lambda>uid.
     bindS (liftS (bind_text (acc_name account))) (\<lambda>nm.
     bindS (liftS (bind_text (acc_currency account))) (\<lambda>cur.
     bindS (liftS (bind_bigint (acc_balance_cents account))) (\<lambda>bal.
       let row = \<lparr>a_id = ident, a_user_id = uid, a_currency = cur, a_name = nm,
             a_type = acc_type account, a_balance_cents = bal, a_is_archived = False,
             a_created_at = createdAt\<rparr>
       in (\<lambda>db.
         case (if ident \<in> a_id ` set (accounts db) then
                 (case account_check row of
                    Some name \<Rightarrow> Inl (db_error ''23514'' name)
                  | None \<Rightarrow>
                      if \<exists>t\<in>set (transactions db). t_account_id t = ident \<and> t_currency t \<noteq> cur
                      then Inl (db_error ''23001'' ''transactions_currency_matches_account'')
                      else bindE (check_fks (account_fk db) [row]) (\<lambda>_.
                        Inr (db\<lparr>accounts := update_where (\<lambda>a. a_id a = ident) (\<lambda>_. row) (accounts db)\<rparr>)))
               else insert_account row db)
         of Inl e \<Rightarrow> (Inl e, db) | Inr db' \<Rightarrow> (Inr account, db'))))))))"

definition accounts_updateBalance :: "runtime \<Rightarrow> string \<Rightarrow> int \<Rightarrow> (db, unit) svc" where
  "accounts_updateBalance rt ident delta =
     bindS (liftS (bind_uuid rt ident)) (\<lambda>u. writeE (add_balance u delta))"

section \<open>AccountsService\<close>

text \<open>The empty cursor is falsy: it asks for the first page.\<close>

definition decode_optional :: "string option \<Rightarrow> exn + CursorPayload option" where
  "decode_optional cursor =
     (case cursor of None \<Rightarrow> Inr None
      | Some c \<Rightarrow> if c = [] then Inr None else bindE (decodeCursor c) (\<lambda>p. Inr (Some p)))"

definition accounts_list ::
  "runtime \<Rightarrow> AuthUser \<Rightarrow> nat \<Rightarrow> string option \<Rightarrow> (db, Account list \<times> string option) svc" where
  "accounts_list rt user limit cursor =
     bindS (liftS (decode_optional cursor)) (\<lambda>c.
     bindS (accounts_findPage rt (au_id user) limit c) (\<lambda>rows.
       returnS (page_of toAccount (\<lambda>l. encodeCursor (acc_created_at l) (acc_id l)) limit rows)))"

definition accounts_create ::
  "runtime \<Rightarrow> millis \<Rightarrow> uuid \<Rightarrow> CreateAccountDto \<Rightarrow> AuthUser \<Rightarrow> (db, Account) svc" where
  "accounts_create rt now fresh input user =
     (let account = \<lparr>acc_id = fresh, acc_name = ca_name input, acc_type = ca_type input,
            acc_currency = ca_currency input, acc_balance_cents = ca_opening_balance_cents input,
            acc_created_at = toISOString now\<rparr>
      in bindS (accounts_save rt account (au_id user)) (\<lambda>_. returnS (toAccount account)))"

definition account_not_found :: "string \<Rightarrow> exn" where
  "account_not_found ident =
     problem 404 ''account-not-found'' (''account '' @ ident @ '' was not found'')"

definition accounts_getById :: "runtime \<Rightarrow> string \<Rightarrow> AuthUser \<Rightarrow> (db, Account) svc" where
  "accounts_getById rt accountId user =
     bindS (accounts_findById rt accountId) (\<lambda>found.
       case found of
         None \<Rightarrow> throwS (account_not_found accountId)
       | Some account \<Rightarrow>
           bindS (liftS (assertOwner (acc_user_id account) user (''account '' @ accountId))) (\<lambda>_.
             returnS (toAccount account)))"

section \<open>Lemmas\<close>

lemma toAccount_simps [simp]:
  "acc_id (toAccount a) = acc_id a" "acc_name (toAccount a) = acc_name a"
  "acc_created_at (toAccount a) = acc_created_at a" "acc_currency (toAccount a) = acc_currency a"
  "acc_balance_cents (toAccount a) = acc_balance_cents a" "acc_type (toAccount a) = acc_type a"
  by (simp_all add: toAccount_def)

lemma account_toDomain_simps [simp]:
  "acc_id (account_toDomain a) = a_id a" "acc_user_id (account_toDomain a) = a_user_id a"
  "acc_created_at (account_toDomain a) = toISOString (a_created_at a)"
  "acc_currency (account_toDomain a) = a_currency a"
  "acc_balance_cents (account_toDomain a) = js_round (a_balance_cents a)"
  by (simp_all add: account_toDomain_def)

text \<open>The texts that go into a cursor are ASCII.\<close>

lemma ascii_digit: "n < 10 \<Longrightarrow> of_char (digit n) < (128::nat)"
  by (simp add: digit_def)

lemma ascii_fixed_dec [simp]: "ascii (fixed_dec w n)"
  by (induction w arbitrary: n) (auto simp: ascii_digit)

lemma ascii_toISOString [simp]: "ascii (toISOString t)"
  by (auto simp: toISOString_def date_text_def time_text_def year_text_def split: prod.splits)

lemma is_uuid_ascii: "is_uuid s \<Longrightarrow> ascii s"
proof -
  assume u: "is_uuid s"
  have "of_char c < (128::nat)" if "c \<in> set s" for c
  proof -
    obtain i where i: "i < length s" "s ! i = c" using \<open>c \<in> set s\<close> by (auto simp: in_set_conv_nth)
    then have "(i, c) \<in> set (enumerate 0 s)" by (auto simp: in_set_enumerate_eq)
    then have "c = CHR ''-'' \<or> lower_hex c"
      using u by (fastforce simp: is_uuid_def list_all_iff split: if_splits)
    then show ?thesis by (auto simp: lower_hex_def Let_def)
  qed
  then show "ascii s" by (simp add: ascii_def list_all_iff)
qed

lemma decode_optional_cursor:
  assumes "iso_range t" "is_uuid u"
  shows "decode_optional (Some (encodeCursor (toISOString t) u)) = Inr (Some \<lparr>cur_c = toISOString t, cur_id = u\<rparr>)"
  using assms by (simp add: decode_optional_def is_uuid_ascii)

lemma bind_cursor_canonical:
  assumes "pg_ok rt" "iso_range t" "is_uuid u"
  shows "bind_cursor rt \<lparr>cur_c = toISOString t, cur_id = u\<rparr> = Inr (t, u)"
  using pg_okD [OF assms(1)] assms(2,3) by (simp add: bind_cursor_def bind_timestamptz_def bind_uuid_def)

lemma bind_uuid_canonical: "pg_ok rt \<Longrightarrow> is_uuid u \<Longrightarrow> bind_uuid rt u = Inr u"
  using pg_okD by (simp add: bind_uuid_def)

lemma page_of_map:
  "page_of view cur limit (map f rows) = page_of (view \<circ> f) (cur \<circ> f) limit rows"
  by (auto simp: page_of_def last_map)

section \<open>Paging\<close>

text \<open>
  The conditions under which the pages of a user are read, and the keyset contract they give: the
  cursor of a row decodes, and Postgres reads its two parts back, as the key of that row.
\<close>

definition page_db_ok :: "runtime \<Rightarrow> db \<Rightarrow> AuthUser \<Rightarrow> nat \<Rightarrow> bool" where
  "page_db_ok rt db user limit \<longleftrightarrow>
     pg_ok rt \<and> db_ok db \<and> is_uuid (au_id user) \<and> 0 < limit \<and>
     list_all (\<lambda>a. iso_range (a_created_at a)) (accounts db) \<and>
     list_all (\<lambda>t. iso_range (t_booked_at t)) (transactions db)"

definition accounts_of :: "db \<Rightarrow> AuthUser \<Rightarrow> account_row list" where
  "accounts_of db user = filter (\<lambda>a. a_user_id a = au_id user) (accounts db)"

definition accounts_page ::
  "runtime \<Rightarrow> db \<Rightarrow> AuthUser \<Rightarrow> nat \<Rightarrow> string option \<Rightarrow> exn + (Account list \<times> string option)" where
  "accounts_page rt db user limit cursor = fst (accounts_list rt user limit cursor db)"

definition account_cursor :: "account_row \<Rightarrow> string" where
  "account_cursor a = encodeCursor (toISOString (a_created_at a)) (a_id a)"

locale accounts_paging =
  fixes rt :: runtime and db :: db and user :: AuthUser and limit :: nat
  assumes page_db_ok: "page_db_ok rt db user limit"
begin

lemma user_rows:
  assumes "decode_optional c = Inr p" "optE (bind_cursor rt) p = Inr after"
  shows "accounts_page rt db user limit c =
    Inr (page_of (toAccount \<circ> account_toDomain) account_cursor limit
      (keyset_query account_key limit after (accounts_of db user)))"
proof -
  have "bind_uuid rt (au_id user) = Inr (au_id user)"
    using page_db_ok by (simp add: page_db_ok_def bind_uuid_canonical)
  then show ?thesis using assms
    by (simp add: accounts_page_def accounts_list_def accounts_findPage_def svc_simps page_of_map
        accounts_of_def) (simp add: comp_def account_cursor_def [abs_def])
qed

lemma account_row_cursor:
  assumes "a \<in> set (accounts_of db user)"
  shows "decode_optional (Some (account_cursor a)) = Inr (Some \<lparr>cur_c = toISOString (a_created_at a), cur_id = a_id a\<rparr>)"
    "bind_cursor rt \<lparr>cur_c = toISOString (a_created_at a), cur_id = a_id a\<rparr> = Inr (account_key a)"
proof -
  have "is_uuid (a_id a)" "iso_range (a_created_at a)" "pg_ok rt"
    using assms page_db_ok db_ok_accounts(1) by (auto simp: page_db_ok_def accounts_of_def list_all_iff)
  then show "decode_optional (Some (account_cursor a)) = Inr (Some \<lparr>cur_c = toISOString (a_created_at a), cur_id = a_id a\<rparr>)"
      "bind_cursor rt \<lparr>cur_c = toISOString (a_created_at a), cur_id = a_id a\<rparr> = Inr (account_key a)"
    by (simp_all add: account_cursor_def decode_optional_cursor bind_cursor_canonical account_key_def)
qed

end

sublocale accounts_paging \<subseteq> keyset account_key "accounts_of db user" limit
  "toAccount \<circ> account_toDomain" account_cursor "accounts_page rt db user limit"
proof
  have "distinct (map a_id (accounts_of db user))"
    using page_db_ok db_ok_distinct(1) by (auto simp: page_db_ok_def accounts_of_def distinct_map_filter)
  then show "distinct (map account_key (accounts_of db user))"
    by (auto simp: account_key_def [abs_def] distinct_map inj_on_def)
  show "0 < limit" using page_db_ok by (simp add: page_db_ok_def)
  show "accounts_page rt db user limit None =
    Inr (page_of (toAccount \<circ> account_toDomain) account_cursor limit
      (keyset_query account_key limit None (accounts_of db user)))"
    by (rule user_rows [of None None None]) (simp_all add: decode_optional_def)
  show "accounts_page rt db user limit (Some (account_cursor a)) =
    Inr (page_of (toAccount \<circ> account_toDomain) account_cursor limit
      (keyset_query account_key limit (Some (account_key a)) (accounts_of db user)))"
    if "a \<in> set (accounts_of db user)" for a
    by (rule user_rows [OF account_row_cursor(1) [OF that]])
      (simp add: account_row_cursor(2) [OF that])
qed

context accounts_paging
begin

lemma accounts_read:
  "length (accounts_of db user) < n \<Longrightarrow>
   walk (\<lambda>c. fst (accounts_list rt user limit c db)) n None =
     Inr (map (toAccount \<circ> account_toDomain) (newest_first account_key (accounts_of db user)), True)"
  using walk_all by (simp add: accounts_page_def [abs_def])

end

interpretation example_pages: accounts_paging canonical_runtime example_db alice 1
proof
  have "is_uuid (au_id alice)" by code_simp
  moreover have "list_all (\<lambda>a. iso_range (a_created_at a)) (accounts example_db)" by code_simp
  moreover have "list_all (\<lambda>t. iso_range (t_booked_at t)) (transactions example_db)" by code_simp
  ultimately show "page_db_ok canonical_runtime example_db alice 1"
    using canonical_runtime_ok example_db_ok by (simp add: page_db_ok_def)
qed

lemma accounts_getById_own:
  assumes "pg_uuid_in rt ident = Some u" "List.find (\<lambda>a. a_id a = u) (accounts db) = Some a"
    "a_user_id a = au_id user"
  shows "fst (accounts_getById rt ident user db) = Inr (toAccount (account_toDomain a))"
  using assms by (simp add: accounts_getById_def accounts_findById_def svc_simps bind_uuid_def)

section \<open>Properties\<close>

text \<open>
  Paging through accounts: a client that requests the first page and follows \<open>next_cursor\<close>
  reads every account of its user exactly once, newest first, and no account of anyone else, for
  every page size. One request more than there are accounts is always enough to reach the end.
\<close>

theorem accounts_walk:
  assumes "page_db_ok rt db user limit" "length (accounts_of db user) < n"
  shows "walk (\<lambda>c. fst (accounts_list rt user limit c db)) n None =
    Inr (map (toAccount \<circ> account_toDomain) (newest_first account_key (accounts_of db user)), True)"
  using assms by (intro accounts_paging.accounts_read) (simp_all add: accounts_paging_def)

theorem accounts_walk_witness:
  "walk (\<lambda>c. fst (accounts_list canonical_runtime alice 1 c example_db)) 3 None =
     Inr (map (toAccount \<circ> account_toDomain) [usd_account, uah_account], True)"
proof -
  have "newest_first account_key (accounts_of example_db alice) = [usd_account, uah_account]"
    by code_simp
  moreover have "length (accounts_of example_db alice) < 3" by code_simp
  ultimately show ?thesis
    using accounts_walk [OF example_pages.page_db_ok, of 3] by simp
qed

text \<open>
  Reading one account, on every branch: an id that is no uuid is a database error, an unknown
  id is 404, an account of another user is 403 and reveals nothing of it, an own account is
  returned as stored. The database is not changed.
\<close>

theorem accounts_getById_cases:
  "accounts_getById rt ident user db =
     (case pg_uuid_in rt ident of
        None \<Rightarrow> Inl (db_error ''22P02'' ''uuid'')
      | Some u \<Rightarrow>
          (case List.find (\<lambda>a. a_id a = u) (accounts db) of
             None \<Rightarrow> Inl (ProblemException 404 ''account-not-found'' (''account '' @ ident @ '' was not found''))
           | Some a \<Rightarrow>
               if a_user_id a = au_id user then Inr (toAccount (account_toDomain a))
               else Inl (ProblemException 403 ''forbidden'' (''account '' @ ident @ '' belongs to another user''))), db)"
  by (simp add: accounts_getById_def accounts_findById_def svc_simps bind_uuid_def
      account_not_found_def problem_def assertOwner_def split: option.splits)

text \<open>
  (C37) Creating an account with a valid body: it succeeds whenever the opening balance fits the
  column, the stored row is the one the response describes, the constraints still hold, and a read
  by the same user returns the response of the create (for amounts a double holds exactly).
\<close>

theorem accounts_create_then_get:
  assumes "pg_ok rt" "db_ok db" "create_account_dto_ok input"
    and "is_uuid fresh" "fresh \<notin> a_id ` set (accounts db)" "iso_range now"
    and "au_id user \<in> u_id ` set (users db)" "ca_currency input \<in> c_code ` set (currencies db)"
    and "js_safe (ca_opening_balance_cents input)"
    and "CHR 0x00 \<notin> set (ca_name input)"
  shows "\<exists>account db'. accounts_create rt now fresh input user db = (Inr account, db') \<and>
    db_ok db' \<and> acc_id account = fresh \<and>
    fst (accounts_getById rt fresh user db') = Inr account"
proof -
  define row where "row = \<lparr>a_id = fresh, a_user_id = au_id user, a_currency = ca_currency input,
    a_name = ca_name input, a_type = ca_type input, a_balance_cents = ca_opening_balance_cents input,
    a_is_archived = False, a_created_at = now\<rparr>"
  have uid: "is_uuid (au_id user)" using assms(2,7) by (auto simp: db_ok_def list_all_iff)
  have fits: "fits_bigint (ca_opening_balance_cents input)"
    using assms(9) by (rule js_safe_fits)
  have nul: "CHR 0x00 \<notin> set (ca_currency input)"
    using assms(3) by (auto simp: create_account_dto_ok_def Currency_def)
  have check: "account_check row = None" "account_fk db row = None"
    using assms(3,7,8) by (auto simp: account_check_def account_fk_def first_violated_None
        create_account_dto_ok_def row_def)
  define db' where "db' = db\<lparr>accounts := accounts db @ [row]\<rparr>"
  have ins: "insert_account row db = Inr db'"
    using check assms(5) by (auto simp: insert_account_def db'_def row_def)
  have "accounts_create rt now fresh input user db = (Inr (toAccount (account_toDomain row)), db')"
    using ins uid assms fits nul
    by (simp add: accounts_create_def accounts_save_def svc_simps bind_uuid_canonical
        bind_text_def bind_bigint_def row_def Let_def toAccount_def account_toDomain_def)
  moreover have "db_ok db'"
    using assms(2,4,5) check fits by (auto simp: db_ok_def db'_def account_ok_def account_fk_def
        transaction_ok_def transaction_fk_def fx_row_ok_def refresh_ok_def row_def list_all_iff
        first_violated_None)
  moreover have "List.find (\<lambda>a. a_id a = fresh) (accounts db') = Some row"
    using assms(5) find_key_None [of a_id fresh "accounts db"]
    by (simp add: db'_def row_def find_append)
  then have "fst (accounts_getById rt fresh user db') = Inr (toAccount (account_toDomain row))"
    using assms(1,4) by (intro accounts_getById_own) (auto simp: pg_okD row_def)
  ultimately show ?thesis by (auto simp: row_def)
qed

definition example_account_input :: CreateAccountDto where
  "example_account_input = \<lparr>ca_name = ''Savings'', ca_type = Bank, ca_currency = ''USD'',
     ca_opening_balance_cents = 1250000\<rparr>"

theorem accounts_create_then_get_witness:
  "\<exists>account db'. accounts_create canonical_runtime 1767225600000 (uid (CHR ''9''))
      example_account_input alice example_db = (Inr account, db') \<and> db_ok db' \<and>
    acc_id account = uid (CHR ''9'') \<and>
    fst (accounts_getById canonical_runtime (uid (CHR ''9'')) alice db') = Inr account"
proof (rule accounts_create_then_get [OF canonical_runtime_ok example_db_ok])
  show "create_account_dto_ok example_account_input" by code_simp
  show "is_uuid (uid (CHR ''9''))" by simp
  show "uid (CHR ''9'') \<notin> a_id ` set (accounts example_db)" by code_simp
  show "iso_range 1767225600000" by code_simp
  show "au_id alice \<in> u_id ` set (users example_db)" by code_simp
  show "ca_currency example_account_input \<in> c_code ` set (currencies example_db)" by code_simp
  show "js_safe (ca_opening_balance_cents example_account_input)" by code_simp
  show "CHR 0x00 \<notin> set (ca_name example_account_input)" by code_simp
qed

end
