(* ===== verification/Fx_Cache.thy ===== *)
theory Fx_Cache
  imports Prelude
begin

text \<open>
  \<open>FxRateCache\<close> (\<open>fx-rates/fx-rate.cache.ts\<close>): the whole rate history in memory, one sorted series
  per currency, read by binary search. The text order of \<open>YYYY-MM-DD\<close> dates is the order of the
  search. Indices are integers: \<open>found\<close> starts at \<open>-1\<close> and \<open>hi\<close> may reach it. \<open>(lo + hi) >>> 1\<close> is the
  midpoint, since a series is far shorter than \<open>2 ^ 31\<close>.
\<close>

record CachedFxRate =
  cf_rateDate :: string
  cf_rate :: string
  cf_source :: string

type_synonym fx_cache = "(string, CachedFxRate list) js_map"

section \<open>Loading\<close>

definition load_row :: "fx_cache \<Rightarrow> string \<times> CachedFxRate \<Rightarrow> fx_cache" where
  "load_row next row =
     (case row of (currency, r) \<Rightarrow>
        (case js_map_get next currency of
           None \<Rightarrow> js_map_set next currency [r]
         | Some series \<Rightarrow> js_map_set next currency (series @ [r])))"

definition cache_load :: "(string \<times> CachedFxRate) list \<Rightarrow> fx_cache" where
  "cache_load rows = foldl load_row [] rows"

definition cache_size :: "fx_cache \<Rightarrow> nat" where
  "cache_size c = foldl (\<lambda>total series. total + length series) 0 (map snd c)"

section \<open>Lookup\<close>

function search :: "CachedFxRate list \<Rightarrow> string \<Rightarrow> int \<Rightarrow> int \<Rightarrow> int \<Rightarrow> int" where
  "search series onDate lo hi found =
     (if lo \<le> hi then
        (let mid = (lo + hi) div 2
         in if cf_rateDate (series ! nat mid) \<le> onDate
            then search series onDate (mid + 1) hi mid
            else search series onDate lo (mid - 1) found)
      else found)"
  by pat_completeness auto
termination
  by (relation "measure (\<lambda>(series, onDate, lo, hi, found). nat (hi - lo + 1))") auto

declare search.simps [simp del]

definition cache_findLatest :: "fx_cache \<Rightarrow> string \<Rightarrow> string \<Rightarrow> CachedFxRate option" where
  "cache_findLatest c currency onDate =
     (case js_map_get c currency of
        None \<Rightarrow> None
      | Some series \<Rightarrow>
          if series = [] then None
          else if cf_rateDate (last series) < onDate then None
          else let found = search series onDate 0 (int (length series) - 1) (-1)
               in if found = -1 then None else Some (series ! nat found))"

section \<open>Correctness of the search\<close>

definition dates_ascending :: "CachedFxRate list \<Rightarrow> bool" where
  "dates_ascending series \<longleftrightarrow> sorted_wrt (\<lambda>a b. cf_rateDate a < cf_rateDate b) series"

text \<open>Among the rows on or before a date, the search returns the last; its index is one less than their number.\<close>

lemma search_index:
  assumes "dates_ascending series"
    and "0 \<le> lo" "hi < int (length series)" "lo \<le> hi + 1" "found = lo - 1"
    and "\<forall>i<nat lo. cf_rateDate (series ! i) \<le> onDate"
    and "\<forall>i<length series. hi < int i \<longrightarrow> \<not> cf_rateDate (series ! i) \<le> onDate"
  shows "\<exists>k. search series onDate lo hi found = int k - 1 \<and> k \<le> length series \<and>
    (\<forall>i<length series. cf_rateDate (series ! i) \<le> onDate \<longleftrightarrow> i < k)"
  using assms
proof (induction series onDate lo hi found rule: search.induct)
  case (1 series onDate lo hi found)
  show ?case
  proof (cases "lo \<le> hi")
    case False
    then have "hi = lo - 1" using 1 by simp
    moreover have "search series onDate lo hi found = found"
      using False by (subst search.simps) simp
    ultimately show ?thesis using 1 False
      by (intro exI [of _ "nat lo"]) (auto simp: not_less zless_nat_eq_int_zless)
  next
    case True
    define mid where "mid = (lo + hi) div 2"
    have mid: "lo \<le> mid" "mid \<le> hi" using True by (auto simp: mid_def)
    have mono: "cf_rateDate (series ! i) \<le> cf_rateDate (series ! j)" if "i \<le> j" "j < length series" for i j
      using "1.prems"(1) that by (cases "i = j") (auto simp: dates_ascending_def sorted_wrt_iff_nth_less less_imp_le)
    show ?thesis
    proof (cases "cf_rateDate (series ! nat mid) \<le> onDate")
      case le: True
      have "cf_rateDate (series ! i) \<le> onDate" if "i < nat (mid + 1)" for i
      proof -
        have "i \<le> nat mid" "nat mid < length series" using that mid "1.prems"(2,3) by auto
        then show ?thesis using mono le by (blast intro: order_trans)
      qed
      moreover have "search series onDate lo hi found = search series onDate (mid + 1) hi mid"
        using True le by (subst search.simps) (simp add: mid_def Let_def)
      ultimately show ?thesis
        using "1.IH"(1) [OF True mid_def le] "1.prems" mid by simp
    next
      case gt: False
      have "\<not> cf_rateDate (series ! i) \<le> onDate" if "i < length series" "mid - 1 < int i" for i
      proof -
        have "nat mid \<le> i" using that mid "1.prems"(2) by auto
        then show ?thesis using mono [of "nat mid" i] gt that(1) by (meson order_trans)
      qed
      moreover have "search series onDate lo hi found = search series onDate lo (mid - 1) found"
        using True gt by (subst search.simps) (simp add: mid_def Let_def)
      ultimately show ?thesis
        using "1.IH"(2) [OF True mid_def gt] "1.prems" mid by simp
    qed
  qed
qed

lemma filter_prefix:
  assumes "\<forall>i<length xs. P (xs ! i) \<longleftrightarrow> i < k" "k \<le> length xs"
  shows "filter P xs = take k xs"
  using assms
proof (induction xs arbitrary: k)
  case (Cons x xs)
  show ?case
  proof (cases k)
    case 0
    then have "\<not> P y" if "y \<in> set (x # xs)" for y
      using Cons.prems that in_set_conv_nth [of y "x # xs"] by auto
    then have "filter P (x # xs) = []" by (subst filter_empty_conv) blast
    then show ?thesis using 0 by simp
  next
    case (Suc n)
    have "P (xs ! i) \<longleftrightarrow> i < n" if "i < length xs" for i
      using Cons.prems(1) [rule_format, of "Suc i"] that Suc by simp
    then have "filter P xs = take n xs"
      using Cons.prems(2) Suc by (intro Cons.IH) auto
    moreover have "P x" using Cons.prems Suc by force
    ultimately show ?thesis using Suc by simp
  qed
qed simp

lemma search_last:
  assumes "dates_ascending series"
  shows "(let found = search series onDate 0 (int (length series) - 1) (-1)
          in if found = -1 then None else Some (series ! nat found)) =
    (let before = filter (\<lambda>r. cf_rateDate r \<le> onDate) series
     in if before = [] then None else Some (last before))"
proof -
  have "\<exists>k. search series onDate 0 (int (length series) - 1) (-1) = int k - 1 \<and> k \<le> length series \<and>
      (\<forall>i<length series. cf_rateDate (series ! i) \<le> onDate \<longleftrightarrow> i < k)"
    by (rule search_index [OF assms]) simp_all
  then obtain k where k: "search series onDate 0 (int (length series) - 1) (-1) = int k - 1"
      "k \<le> length series" "\<forall>i<length series. cf_rateDate (series ! i) \<le> onDate \<longleftrightarrow> i < k"
    by blast
  have f: "filter (\<lambda>r. cf_rateDate r \<le> onDate) series = take k series"
    using filter_prefix [OF k(3,2)] .
  show ?thesis
  proof (cases k)
    case 0
    then show ?thesis unfolding f k(1) Let_def by simp
  next
    case (Suc n)
    then have "last (take k series) = series ! n" "take k series \<noteq> []"
      using k(2) by (auto simp: take_Suc_conv_app_nth Suc_le_eq)
    then show ?thesis unfolding f k(1) Let_def using Suc by simp
  qed
qed

section \<open>Correctness of loading\<close>

definition series_of :: "(string \<times> CachedFxRate) list \<Rightarrow> string \<Rightarrow> CachedFxRate list" where
  "series_of rows currency = map snd (filter (\<lambda>r. fst r = currency) rows)"

lemma js_map_get_cache_load:
  "js_map_get (cache_load rows) currency =
     (if series_of rows currency = [] then None else Some (series_of rows currency))"
  unfolding cache_load_def
  by (induction rows rule: rev_induct) (auto simp: load_row_def series_of_def split: option.splits prod.splits)

lemma cache_findLatest_spec:
  assumes "dates_ascending (series_of rows currency)"
  shows "cache_findLatest (cache_load rows) currency onDate =
    (let before = filter (\<lambda>r. cf_rateDate r \<le> onDate) (series_of rows currency)
     in if before = [] \<or> cf_rateDate (last (series_of rows currency)) < onDate then None
        else Some (last before))"
  using search_last [OF assms, of onDate]
  by (auto simp: cache_findLatest_def js_map_get_cache_load Let_def)

end
