(* ===== verification/Fx_Rates.thy ===== *)
theory Fx_Rates
  imports Database Example_Data Fx_Cache
begin

text \<open>
  Exchange rates (\<open>fx-rates/fx-rate.repository.ts\<close>, \<open>fx-rates.service.ts\<close>,
  \<open>fx-rates.controller.ts\<close>): the latest rate on or before a day, from memory when the cache can
  answer, from the table otherwise; the batched lookup of the write path; the read endpoint with
  its Cache-Control. A JavaScript Date is its time value; the callers turn text into one.
\<close>

section \<open>FxRateRepository\<close>

definition fxRateKey :: "string \<Rightarrow> millis \<Rightarrow> string" where
  "fxRateKey currency on = currency @ '':'' @ toDateOnly on"

text \<open>\<open>ORDER BY rate_date DESC, source ASC LIMIT 1\<close>\<close>

definition latest_order :: "runtime \<Rightarrow> fx_row \<Rightarrow> int \<times> string" where
  "latest_order rt f = (- f_rate_date f, pg_text_key rt (f_source f))"

definition fx_findLatest :: "runtime \<Rightarrow> string \<Rightarrow> millis \<Rightarrow> db \<Rightarrow> exn + fx_row option" where
  "fx_findLatest rt currency onOrBefore db =
     bindE (bind_date rt (toDateOnly onOrBefore)) (\<lambda>day.
       Inr (case sort_key (latest_order rt)
              (filter (\<lambda>f. f_currency f = currency \<and> f_rate_date f \<le> day) (fx_rates db))
            of [] \<Rightarrow> None | f # _ \<Rightarrow> Some f))"

definition findQuotedCurrencies :: "runtime \<Rightarrow> db \<Rightarrow> (string \<times> int) list" where
  "findQuotedCurrencies rt db =
     map (\<lambda>c. (c_code c, c_numeric_code c))
       (sort_key (\<lambda>c. pg_text_key rt (c_code c)) (filter (\<lambda>c. c_code c \<noteq> ''UAH'') (currencies db)))"

text \<open>One row per currency of the source; \<open>new Map\<close> of them.\<close>

definition findLastDates :: "string \<Rightarrow> db \<Rightarrow> (string, string) js_map" where
  "findLastDates source db =
     (let rows = filter (\<lambda>f. f_source f = source) (fx_rates db)
      in js_map_of (map (\<lambda>cur. (cur, date_text
           (Max (f_rate_date ` set (filter (\<lambda>f. f_currency f = cur) rows)))))
         (js_uniq (map f_currency rows))))"

text \<open>\<open>SELECT DISTINCT ON (currency, rate_date) ... ORDER BY currency, rate_date, source\<close>\<close>

definition effective_order :: "runtime \<Rightarrow> fx_row \<Rightarrow> string \<times> int \<times> string" where
  "effective_order rt f =
     (pg_text_key rt (f_currency f), f_rate_date f, pg_text_key rt (f_source f))"

fun distinct_on :: "('r \<Rightarrow> 'k) \<Rightarrow> 'r list \<Rightarrow> 'r list" where
  "distinct_on key [] = []"
| "distinct_on key (r # rs) = r # distinct_on key (filter (\<lambda>q. key q \<noteq> key r) rs)"

definition currency_day :: "fx_row \<Rightarrow> string \<times> int" where
  "currency_day f = (f_currency f, f_rate_date f)"

definition toCached :: "fx_row \<Rightarrow> CachedFxRate" where
  "toCached f = \<lparr>cf_rateDate = date_text (f_rate_date f), cf_rate = numeric_out (f_rate f),
     cf_source = f_source f\<rparr>"

definition effective_rows :: "runtime \<Rightarrow> db \<Rightarrow> fx_row list" where
  "effective_rows rt db = distinct_on currency_day (sort_key (effective_order rt) (fx_rates db))"

definition findAllEffective :: "runtime \<Rightarrow> db \<Rightarrow> (string \<times> CachedFxRate) list" where
  "findAllEffective rt db = map (\<lambda>f. (f_currency f, toCached f)) (effective_rows rt db)"

section \<open>FxRatesService\<close>

definition service_findLatest ::
  "runtime \<Rightarrow> fx_cache \<Rightarrow> string \<Rightarrow> millis \<Rightarrow> db \<Rightarrow> exn + CachedFxRate option" where
  "service_findLatest rt cache currency on db =
     (case cache_findLatest cache currency (toDateOnly on) of
        Some r \<Rightarrow> Inr (Some r)
      | None \<Rightarrow> bindE (fx_findLatest rt currency on db) (\<lambda>f. Inr (map_option toCached f)))"

definition no_rate_detail :: "string \<Rightarrow> millis \<Rightarrow> string" where
  "no_rate_detail currency on = ''no fx rate for '' @ currency @ '' on or before '' @ toDateOnly on"

definition getEffectiveRate ::
  "runtime \<Rightarrow> fx_cache \<Rightarrow> string \<Rightarrow> millis \<Rightarrow> db \<Rightarrow> exn + string" where
  "getEffectiveRate rt cache currency on db =
     (if currency = ''UAH'' then Inr ''1''
      else bindE (service_findLatest rt cache currency on db) (\<lambda>row.
        case row of
          None \<Rightarrow> Inl (problem 422 ''fx-rate-unavailable'' (no_rate_detail currency on))
        | Some r \<Rightarrow> Inr (cf_rate r)))"

text \<open>
  The two loops of \<open>getEffectiveRates\<close>: the pairs deduplicated by key, then one lookup per key.
\<close>

definition unique_pairs :: "(string \<times> millis) list \<Rightarrow> (string, string \<times> millis) js_map" where
  "unique_pairs pairs = foldl (\<lambda>m (c, on). js_map_set m (fxRateKey c on) (c, on)) [] pairs"

fun resolve_pairs ::
  "(string \<Rightarrow> millis \<Rightarrow> exn + string) \<Rightarrow> (string, string \<times> millis) js_map \<Rightarrow>
   (string, string) js_map \<Rightarrow> exn + (string, string) js_map" where
  "resolve_pairs rate_of [] result = Inr result"
| "resolve_pairs rate_of ((key, (currency, on)) # rest) result =
     bindE (rate_of currency on) (\<lambda>r. resolve_pairs rate_of rest (js_map_set result key r))"

definition getEffectiveRates ::
  "runtime \<Rightarrow> fx_cache \<Rightarrow> (string \<times> millis) list \<Rightarrow> db \<Rightarrow> exn + (string, string) js_map" where
  "getEffectiveRates rt cache pairs db =
     resolve_pairs (\<lambda>c on. getEffectiveRate rt cache c on db) (unique_pairs pairs) []"

record EffectiveFxRate =
  ef_currency :: string
  ef_rate :: string
  ef_rateDate :: string
  ef_source :: string

definition getLatest ::
  "runtime \<Rightarrow> fx_cache \<Rightarrow> string \<Rightarrow> millis \<Rightarrow> db \<Rightarrow> exn + EffectiveFxRate" where
  "getLatest rt cache currency on db =
     (if currency = ''UAH''
      then Inr \<lparr>ef_currency = currency, ef_rate = ''1'', ef_rateDate = toDateOnly on, ef_source = ''base''\<rparr>
      else bindE (service_findLatest rt cache currency on db) (\<lambda>row.
        case row of
          None \<Rightarrow> Inl (problem 404 ''fx-rate-not-found'' (no_rate_detail currency on))
        | Some r \<Rightarrow> Inr \<lparr>ef_currency = currency, ef_rate = cf_rate r, ef_rateDate = cf_rateDate r,
                         ef_source = cf_source r\<rparr>))"

section \<open>FxRatesController\<close>

definition TODAY_MAX_AGE_SECONDS :: nat where "TODAY_MAX_AGE_SECONDS = 60"
definition PAST_DAY_MAX_AGE_SECONDS :: nat where "PAST_DAY_MAX_AGE_SECONDS = 24 * 60 * 60"

record FxRateDto =
  fd_currency :: string
  fd_rate :: string
  fd_rate_date :: string
  fd_source :: string

definition toFxRateDto :: "EffectiveFxRate \<Rightarrow> FxRateDto" where
  "toFxRateDto r = \<lparr>fd_currency = ef_currency r, fd_rate = ef_rate r, fd_rate_date = ef_rateDate r,
     fd_source = ef_source r\<rparr>"

definition cacheControlFor :: "millis \<Rightarrow> millis \<Rightarrow> string" where
  "cacheControlFor now on =
     (let isClosedDay = toDateOnly on < toDateOnly now
      in ''public, max-age='' @
         nat_text (if isClosedDay then PAST_DAY_MAX_AGE_SECONDS else TODAY_MAX_AGE_SECONDS))"

text \<open>
  The Cache-Control header of the response together with the result. An \<open>on\<close> that \<open>new Date\<close> cannot
  read makes the first \<open>toISOString\<close> throw.
\<close>

definition requested_time :: "runtime \<Rightarrow> millis \<Rightarrow> string option \<Rightarrow> millis option" where
  "requested_time rt now on =
     (case on of None \<Rightarrow> Some now
      | Some s \<Rightarrow> if s = [] then Some now else new_date (date_fallback rt) s)"

definition controller_getLatest ::
  "runtime \<Rightarrow> fx_cache \<Rightarrow> millis \<Rightarrow> string \<Rightarrow> string option \<Rightarrow> db \<Rightarrow> string \<times> (exn + FxRateDto)" where
  "controller_getLatest rt cache now currency q db =
     (case requested_time rt now q of
        None \<Rightarrow> (''no-store'', Inl (plain_error ''Invalid time value''))
      | Some on \<Rightarrow>
          (case getLatest rt cache currency on db of
             Inl e \<Rightarrow> (''no-store'', Inl e)
           | Inr rate \<Rightarrow> (cacheControlFor now on, Inr (toFxRateDto rate))))"

section \<open>The row a lookup has to find\<close>

definition is_latest :: "runtime \<Rightarrow> fx_row list \<Rightarrow> string \<Rightarrow> int \<Rightarrow> fx_row \<Rightarrow> bool" where
  "is_latest rt rows currency day f \<longleftrightarrow>
     f \<in> set rows \<and> f_currency f = currency \<and> f_rate_date f \<le> day \<and>
     (\<forall>g\<in>set rows. f_currency g = currency \<and> f_rate_date g \<le> day \<longrightarrow> latest_order rt f \<le> latest_order rt g)"

lemma latest_order_inj:
  assumes "pg_ok rt" "latest_order rt f = latest_order rt g" "f_currency f = f_currency g"
  shows "fx_key f = fx_key g"
  using assms pg_okD(7) [OF assms(1)] by (auto simp: latest_order_def fx_key_def inj_eq)

lemma is_latest_unique:
  assumes "pg_ok rt" "distinct (map fx_key rows)" "is_latest rt rows c d f" "is_latest rt rows c d g"
  shows "f = g"
proof -
  have "latest_order rt f = latest_order rt g" "f_currency f = f_currency g"
    using assms(3,4) by (auto simp: is_latest_def intro: antisym)
  then have "fx_key f = fx_key g" using latest_order_inj [OF assms(1)] by blast
  then show ?thesis using assms(2-4) by (auto simp: is_latest_def distinct_map inj_on_def)
qed

lemma sort_key_hd_least: "sort_key k xs = y # ys \<Longrightarrow> y \<in> set xs \<and> (\<forall>x\<in>set xs. k y \<le> k x)"
proof -
  assume e: "sort_key k xs = y # ys"
  have "sorted (map k (sort_key k xs))" by simp
  then have "\<forall>z\<in>set (y # ys). k y \<le> k z" unfolding e by auto
  moreover have "set (y # ys) = set xs" using e by (metis set_sort)
  ultimately show ?thesis by auto
qed

lemma fx_findLatest_spec:
  assumes "pg_date_in rt (toDateOnly on) = Some day"
  shows "fx_findLatest rt c on db = Inr (Some f) \<Longrightarrow> is_latest rt (fx_rates db) c day f"
    and "fx_findLatest rt c on db = Inr None \<Longrightarrow>
      \<forall>g\<in>set (fx_rates db). f_currency g = c \<longrightarrow> day < f_rate_date g"
    and "\<exists>r. fx_findLatest rt c on db = Inr r"
proof -
  let ?rows = "filter (\<lambda>f. f_currency f = c \<and> f_rate_date f \<le> day) (fx_rates db)"
  have q: "fx_findLatest rt c on db = Inr (case sort_key (latest_order rt) ?rows of [] \<Rightarrow> None | f # _ \<Rightarrow> Some f)"
    using assms by (simp add: fx_findLatest_def bind_date_def)
  show "is_latest rt (fx_rates db) c day f" if "fx_findLatest rt c on db = Inr (Some f)"
    using that q sort_key_hd_least [of "latest_order rt" ?rows f]
    by (auto simp: is_latest_def split: list.splits)
  show "\<forall>g\<in>set (fx_rates db). f_currency g = c \<longrightarrow> day < f_rate_date g"
    if "fx_findLatest rt c on db = Inr None"
  proof -
    have "sort_key (latest_order rt) ?rows = []" using that q by (auto split: list.splits)
    then have "set ?rows = {}" by (metis set_sort list.set(1))
    then show ?thesis by (auto simp: not_le)
  qed
  show "\<exists>r. fx_findLatest rt c on db = Inr r" using q by blast
qed

section \<open>What the cache is loaded with\<close>

lemma distinct_on_subset: "set (distinct_on g xs) \<subseteq> set xs"
  by (induction g xs rule: distinct_on.induct) auto

lemma distinct_on_covers: "x \<in> set xs \<Longrightarrow> \<exists>y\<in>set (distinct_on g xs). g y = g x"
  by (induction g xs rule: distinct_on.induct) (auto, metis)

lemma distinct_on_distinct: "distinct (map g (distinct_on g xs))"
proof (induction g xs rule: distinct_on.induct)
  case (2 g r rs)
  have "g r \<notin> g ` set (distinct_on g (filter (\<lambda>q. g q \<noteq> g r) rs))"
    using distinct_on_subset [of g "filter (\<lambda>q. g q \<noteq> g r) rs"] by force
  then show ?case using 2 by simp
qed simp

lemma distinct_on_sorted: "sorted (map k xs) \<Longrightarrow> sorted (map k (distinct_on g xs))"
proof (induction g xs rule: distinct_on.induct)
  case (2 g r rs)
  have "sorted (map k (filter (\<lambda>q. g q \<noteq> g r) rs))"
    using 2 by (auto intro: sorted_filter)
  then show ?case
    using 2 distinct_on_subset [of g "filter (\<lambda>q. g q \<noteq> g r) rs"] by fastforce
qed simp

lemma distinct_on_least:
  "sorted (map k xs) \<Longrightarrow> y \<in> set (distinct_on g xs) \<Longrightarrow> x \<in> set xs \<Longrightarrow> g x = g y \<Longrightarrow> k y \<le> (k x :: 'k::linorder)"
proof (induction g xs rule: distinct_on.induct)
  case (2 g r rs)
  show ?case
  proof (cases "y = r")
    case False
    then have y: "y \<in> set (distinct_on g (filter (\<lambda>q. g q \<noteq> g r) rs))" using 2 by simp
    then have "g y \<noteq> g r" using distinct_on_subset by fastforce
    then have "x \<in> set (filter (\<lambda>q. g q \<noteq> g r) rs)" using 2 by auto
    then show ?thesis using 2 y by (auto intro: sorted_filter)
  qed (use 2 in auto)
qed simp

lemma effective_rows_sorted: "sorted (map (effective_order rt) (effective_rows rt db))"
  unfolding effective_rows_def by (rule distinct_on_sorted) simp

lemma effective_rows_least:
  assumes "f \<in> set (effective_rows rt db)" "g \<in> set (fx_rates db)" "currency_day g = currency_day f"
  shows "effective_order rt f \<le> effective_order rt g"
  using assms unfolding effective_rows_def
  by (intro distinct_on_least [where g = currency_day and xs = "sort_key (effective_order rt) (fx_rates db)"])
    auto

lemma effective_rows_mem:
  "f \<in> set (effective_rows rt db) \<Longrightarrow> f \<in> set (fx_rates db)"
  "g \<in> set (fx_rates db) \<Longrightarrow> \<exists>f\<in>set (effective_rows rt db). currency_day f = currency_day g"
  using distinct_on_subset [of currency_day "sort_key (effective_order rt) (fx_rates db)"]
    distinct_on_covers [of g "sort_key (effective_order rt) (fx_rates db)" currency_day]
  by (auto simp: effective_rows_def)

text \<open>The rows of one currency have strictly ascending days.\<close>

lemma effective_days_ascending:
  "sorted_wrt (\<lambda>a b. f_rate_date a < f_rate_date b) (filter (\<lambda>f. f_currency f = c) (effective_rows rt db))"
proof -
  let ?L = "filter (\<lambda>f. f_currency f = c) (effective_rows rt db)"
  have "sorted (map (effective_order rt) ?L)" by (rule sorted_filter) (rule effective_rows_sorted)
  then have s: "sorted_wrt (\<lambda>a b. effective_order rt a \<le> effective_order rt b) ?L"
    by (simp add: sorted_map)
  have "distinct (map currency_day ?L)"
    unfolding effective_rows_def by (rule distinct_map_filter [OF distinct_on_distinct])
  then have d: "sorted_wrt (\<lambda>a b. currency_day a \<noteq> currency_day b) ?L"
    by (simp add: distinct_conv_nth sorted_wrt_iff_nth_less)
  have "sorted_wrt (\<lambda>a b. effective_order rt a \<le> effective_order rt b \<and> currency_day a \<noteq> currency_day b) ?L"
    using s d by (simp add: sorted_wrt_iff_nth_less)
  then show ?thesis
    by (rule sorted_wrt_mono_rel [rotated]) (auto simp: effective_order_def currency_day_def)
qed

section \<open>The cache answers what the table would\<close>

definition rate_days_ok :: "db \<Rightarrow> bool" where
  "rate_days_ok db \<longleftrightarrow> list_all (\<lambda>f. iso_day_range (f_rate_date f)) (fx_rates db)"

text \<open>Rates written after the load: of days after every day then stored for the currency.\<close>

definition later_rates :: "fx_row list \<Rightarrow> fx_row list \<Rightarrow> bool" where
  "later_rates old new \<longleftrightarrow>
     list_all (\<lambda>n. list_all (\<lambda>f. f_currency f = f_currency n \<longrightarrow> f_rate_date f < f_rate_date n) old) new"

definition effective_of :: "runtime \<Rightarrow> db \<Rightarrow> string \<Rightarrow> fx_row list" where
  "effective_of rt db c = filter (\<lambda>f. f_currency f = c) (effective_rows rt db)"

lemma series_of_findAllEffective:
  "series_of (findAllEffective rt db) c = map toCached (effective_of rt db c)"
  by (simp add: series_of_def findAllEffective_def effective_of_def filter_map comp_def)

lemma effective_of_days:
  "rate_days_ok db \<Longrightarrow> f \<in> set (effective_of rt db c) \<Longrightarrow> iso_day_range (f_rate_date f)"
  by (auto simp: rate_days_ok_def effective_of_def list_all_iff dest: effective_rows_mem(1))

lemma cached_dates_ascending:
  assumes "rate_days_ok db"
  shows "dates_ascending (series_of (findAllEffective rt db) c)"
proof -
  have "sorted_wrt (\<lambda>a b. f_rate_date a < f_rate_date b) (effective_of rt db c)"
    unfolding effective_of_def by (rule effective_days_ascending)
  then have "sorted_wrt (\<lambda>a b. date_text (f_rate_date a) < date_text (f_rate_date b)) (effective_of rt db c)"
    by (rule sorted_wrt_mono_rel [rotated])
      (simp add: date_text_less_iff effective_of_days [OF assms])
  then show ?thesis
    by (simp add: series_of_findAllEffective dates_ascending_def sorted_wrt_map toCached_def)
qed

lemma last_ascending:
  assumes "sorted_wrt (\<lambda>a b. k a < (k b :: int)) xs" "x \<in> set xs"
  shows "k x \<le> k (last xs)" and "k x = k (last xs) \<Longrightarrow> x = last xs"
  using assms by (induction xs rule: rev_induct) (auto simp: sorted_wrt_append)

text \<open>The last effective row on or before a day is the one the table's own order puts first.\<close>

lemma effective_last_is_latest:
  assumes before: "before = filter (\<lambda>f. f_rate_date f \<le> day) (effective_of rt db c)" "before \<noteq> []"
  shows "is_latest rt (fx_rates db) c day (last before)"
  unfolding is_latest_def
proof (intro conjI ballI impI)
  let ?f = "last before"
  have f: "?f \<in> set before" using before(2) by (rule last_in_set)
  then have fe: "?f \<in> set (effective_rows rt db)" "f_currency ?f = c" "f_rate_date ?f \<le> day"
    using before by (auto simp: effective_of_def)
  show "?f \<in> set (fx_rates db)" using fe effective_rows_mem by blast
  show "f_currency ?f = c" "f_rate_date ?f \<le> day" using fe by auto
  fix g assume g: "g \<in> set (fx_rates db)" "f_currency g = c \<and> f_rate_date g \<le> day"
  obtain h where h: "h \<in> set (effective_rows rt db)" "currency_day h = currency_day g"
    using effective_rows_mem(2) [OF g(1)] by blast
  have asc: "sorted_wrt (\<lambda>a b. f_rate_date a < f_rate_date b) before"
    unfolding before(1) effective_of_def by (rule sorted_wrt_filter) (rule effective_days_ascending)
  have "h \<in> set before" using h g before by (auto simp: effective_of_def currency_day_def)
  then have "f_rate_date h \<le> f_rate_date ?f" "f_rate_date h = f_rate_date ?f \<Longrightarrow> h = ?f"
    using last_ascending [OF asc, of h] by auto
  then show "latest_order rt ?f \<le> latest_order rt g"
    using effective_rows_least [OF h(1) g(1)] h(2) fe g
    by (auto simp: latest_order_def effective_order_def currency_day_def less_le)
qed

lemma is_latest_append:
  assumes "is_latest rt old c day f" "\<forall>n\<in>set new. f_currency n = c \<longrightarrow> day < f_rate_date n"
  shows "is_latest rt (old @ new) c day f"
  using assms by (fastforce simp: is_latest_def)

lemma cache_hit_is_latest:
  assumes "rate_days_ok db" "iso_range on" "fx_rates db' = fx_rates db @ new"
    and "later_rates (fx_rates db) new"
    and "cache_findLatest (cache_load (findAllEffective rt db)) c (toDateOnly on) = Some r"
  shows "\<exists>f. r = toCached f \<and> is_latest rt (fx_rates db') c (on div ms_per_day) f"
proof -
  define day where "day = on div ms_per_day"
  define L where "L = effective_of rt db c"
  have day: "iso_day_range day" "toDateOnly on = date_text day"
    using assms(2) toDateOnly_date_text by (auto simp: day_def iso_range_def)
  have le: "cf_rateDate (toCached f) \<le> toDateOnly on \<longleftrightarrow> f_rate_date f \<le> day"
    if "f \<in> set L" for f
    using effective_of_days [OF assms(1)] that day by (simp add: toCached_def date_text_le_iff L_def)
  define before where "before = filter (\<lambda>f. f_rate_date f \<le> day) L"
  have "filter (\<lambda>r. cf_rateDate r \<le> toDateOnly on) (map toCached L) = map toCached before"
    unfolding before_def filter_map comp_def by (rule arg_cong [OF filter_cong]) (simp_all add: le)
  then have hit: "before \<noteq> []" "r = toCached (last before)" "\<not> cf_rateDate (last (map toCached L)) < toDateOnly on"
    using assms(5) cache_findLatest_spec [OF cached_dates_ascending [OF assms(1)], of rt c "toDateOnly on"]
    by (auto simp: series_of_findAllEffective L_def Let_def last_map split: if_splits)
  have ne: "L \<noteq> []" using hit(1) by (auto simp: before_def)
  have "day \<le> f_rate_date (last L)"
    using hit(3) ne effective_of_days [OF assms(1), of "last L" rt c] day
    by (simp add: last_map toCached_def L_def date_text_le_iff not_less)
  moreover have "last L \<in> set (fx_rates db)" "f_currency (last L) = c"
    using ne last_in_set [of L] effective_rows_mem(1) by (auto simp: L_def effective_of_def)
  ultimately have "day < f_rate_date n" if "n \<in> set new" "f_currency n = c" for n
    using assms(4) that by (force simp: later_rates_def list_all_iff)
  moreover have "is_latest rt (fx_rates db) c day (last before)"
    using effective_last_is_latest before_def hit(1) by (simp add: L_def)
  ultimately show ?thesis
    using hit(2) is_latest_append assms(3) by (auto simp: day_def)
qed

section \<open>Batched lookups\<close>

text \<open>
  What a client of the rate lookups relies on: the rate depends on the day only, so one lookup per
  key serves every entry with that key.
\<close>

lemma length_toDateOnly [simp]: "length (toDateOnly t) = 10"
  by (simp add: toDateOnly_def toISOString_def time_text_def)

lemma fxRateKey_inject: "fxRateKey c t = fxRateKey d u \<longleftrightarrow> c = d \<and> toDateOnly t = toDateOnly u"
  by (auto simp: fxRateKey_def)

locale rate_source =
  fixes rate_of :: "string \<Rightarrow> millis \<Rightarrow> exn + string"
  assumes same_day: "toDateOnly t = toDateOnly u \<Longrightarrow> rate_of c t = rate_of c u"
begin

lemma resolve_pairs_Inr:
  "resolve_pairs rate_of ps result = Inr m \<Longrightarrow> distinct (map fst ps) \<Longrightarrow>
   js_map_get m k = (case map_of ps k of None \<Rightarrow> js_map_get result k
     | Some (c, t) \<Rightarrow> (case rate_of c t of Inl _ \<Rightarrow> None | Inr r \<Rightarrow> Some r))"
proof (induction rate_of ps result rule: resolve_pairs.induct)
  case (2 rate_of key currency on rest result)
  then obtain r where r: "rate_of currency on = Inr r" by auto
  have "map_of rest key = None" using 2 by (auto simp: map_of_eq_None_iff)
  then show ?case using 2 r by (auto split: option.splits)
qed simp

lemma resolve_pairs_all:
  "resolve_pairs rate_of ps result = Inr m \<Longrightarrow> (k, c, t) \<in> set ps \<Longrightarrow> \<exists>r. rate_of c t = Inr r"
  by (induction rate_of ps result rule: resolve_pairs.induct) auto

lemma resolve_pairs_Inl:
  "resolve_pairs rate_of ps result = Inl e \<Longrightarrow> \<exists>(k, c, t)\<in>set ps. rate_of c t = Inl e"
  by (induction rate_of ps result rule: resolve_pairs.induct) (auto simp: bindE_Inl)

end

lemma unique_pairs_keys: "distinct (map fst (unique_pairs pairs))"
  unfolding unique_pairs_def
  by (induction pairs rule: rev_induct) (auto split: prod.splits)

lemma unique_pairs_get:
  "(case js_map_get (unique_pairs pairs) k of
      None \<Rightarrow> k \<notin> (\<lambda>(c, t). fxRateKey c t) ` set pairs
    | Some (c, t) \<Rightarrow> (c, t) \<in> set pairs \<and> fxRateKey c t = k)"
  unfolding unique_pairs_def
  by (induction pairs rule: rev_induct) (auto split: prod.splits option.splits)

context rate_source
begin

text \<open>Every entry finds its own rate under its key, and an error is the error of some entry.\<close>

lemma batch_Inr:
  assumes "resolve_pairs rate_of (unique_pairs pairs) [] = Inr m" "(c, t) \<in> set pairs"
  shows "\<exists>r. rate_of c t = Inr r \<and> js_map_get m (fxRateKey c t) = Some r"
proof -
  obtain d u where d: "map_of (unique_pairs pairs) (fxRateKey c t) = Some (d, u)" "fxRateKey d u = fxRateKey c t"
  proof (cases "js_map_get (unique_pairs pairs) (fxRateKey c t)")
    case None
    then have "fxRateKey c t \<notin> (\<lambda>(c, t). fxRateKey c t) ` set pairs"
      using unique_pairs_get [of "fxRateKey c t" pairs] by simp
    then show ?thesis using assms(2) by (metis case_prod_conv image_eqI)
  next
    case (Some p)
    then have "fxRateKey (fst p) (snd p) = fxRateKey c t"
      using unique_pairs_get [of "fxRateKey c t" pairs] by (simp split: prod.splits)
    then show ?thesis using that [of "fst p" "snd p"] Some by (simp add: js_map_get_def)
  qed
  then have dc: "d = c" "toDateOnly t = toDateOnly u" by (simp_all add: fxRateKey_inject)
  then have "rate_of c t = rate_of d u" using same_day [OF dc(2)] by simp
  moreover have "\<exists>r. rate_of d u = Inr r"
    using resolve_pairs_all [OF assms(1) map_of_SomeD [OF d(1)]] .
  ultimately show ?thesis
    using resolve_pairs_Inr [OF assms(1) unique_pairs_keys, of "fxRateKey c t"] d by auto
qed

lemma batch_Inl:
  assumes "resolve_pairs rate_of (unique_pairs pairs) [] = Inl e"
  shows "\<exists>(c, t)\<in>set pairs. rate_of c t = Inl e"
proof -
  obtain k c t where k: "(k, c, t) \<in> set (unique_pairs pairs)" "rate_of c t = Inl e"
    using resolve_pairs_Inl [OF assms] by auto
  then have "map_of (unique_pairs pairs) k = Some (c, t)"
    using unique_pairs_keys by (simp add: map_of_eq_Some_iff)
  then have "(c, t) \<in> set pairs"
    using unique_pairs_get [of k pairs] by (simp add: js_map_get_def)
  then show ?thesis using k(2) by blast
qed

end

lemma getEffectiveRate_same_day:
  assumes "toDateOnly t = toDateOnly u"
  shows "getEffectiveRate rt cache c t db = getEffectiveRate rt cache c u db"
  unfolding getEffectiveRate_def service_findLatest_def fx_findLatest_def no_rate_detail_def assms ..

interpretation rates: rate_source "\<lambda>c t. getEffectiveRate rt cache c t db"
  for rt cache db
  by unfold_locales (rule getEffectiveRate_same_day)

lemmas getEffectiveRates_Inr = rates.batch_Inr [folded getEffectiveRates_def]
lemmas getEffectiveRates_Inl = rates.batch_Inl [folded getEffectiveRates_def]

lemma service_findLatest_table:
  assumes "pg_ok rt" "rate_days_ok db" "distinct (map fx_key (fx_rates db'))" "iso_range on"
    and "fx_rates db' = fx_rates db @ new" "later_rates (fx_rates db) new"
  shows "service_findLatest rt (cache_load (findAllEffective rt db)) c on db' =
    bindE (fx_findLatest rt c on db') (\<lambda>f. Inr (map_option toCached f))"
proof (cases "cache_findLatest (cache_load (findAllEffective rt db)) c (toDateOnly on)")
  case None
  then show ?thesis by (simp add: service_findLatest_def)
next
  case (Some r)
  then obtain f where f: "r = toCached f" "is_latest rt (fx_rates db') c (on div ms_per_day) f"
    using cache_hit_is_latest [OF assms(2,4,5,6)] by blast
  have d: "pg_date_in rt (toDateOnly on) = Some (on div ms_per_day)"
    using assms(1,4) toDateOnly_date_text by (simp add: pg_okD iso_range_def)
  obtain g where g: "fx_findLatest rt c on db' = Inr g" using fx_findLatest_spec(3) [OF d] by blast
  have "g = Some f"
  proof (cases g)
    case None
    then show ?thesis using fx_findLatest_spec(2) [OF d] g f(2) by (force simp: is_latest_def)
  next
    case (Some h)
    then show ?thesis
      using fx_findLatest_spec(1) [OF d] g f(2) is_latest_unique [OF assms(1,3)] by blast
  qed
  then show ?thesis using Some f(1) g by (simp add: service_findLatest_def)
qed

section \<open>Properties\<close>

text \<open>
  (C30) The in-memory cache is equivalent to the table. After the cache is loaded from
  \<open>findAllEffective\<close>, every lookup of the service returns exactly what \<open>FxRateRepository.findLatest\<close>
  returns for the same currency and day (same date, rate and source, the same miss), and it stays
  so after rates of later days are written behind the cache's back.
\<close>

theorem cache_equivalent_to_table:
  assumes "pg_ok rt" "rate_days_ok db" "db_ok db'" "iso_range on"
    and "fx_rates db' = fx_rates db @ new" "later_rates (fx_rates db) new"
  shows "service_findLatest rt (cache_load (findAllEffective rt db)) currency on db' =
    bindE (fx_findLatest rt currency on db') (\<lambda>f. Inr (map_option toCached f))"
  by (rule service_findLatest_table [OF assms(1,2) db_ok_distinct(5) [OF assms(3)] assms(4-6)])

definition next_day_db :: db where
  "next_day_db = example_db\<lparr>fx_rates := fx_rates example_db @ [usd_rate 20456 ''nbu'' 425000000000]\<rparr>"

theorem cache_equivalent_to_table_witness:
  "service_findLatest canonical_runtime (cache_load (findAllEffective canonical_runtime example_db))
     ''USD'' 1767268800000 next_day_db =
   bindE (fx_findLatest canonical_runtime ''USD'' 1767268800000 next_day_db) (\<lambda>f. Inr (map_option toCached f))"
proof (rule cache_equivalent_to_table [OF canonical_runtime_ok])
  show "rate_days_ok example_db" by code_simp
  show "db_ok next_day_db" by code_simp
  show "iso_range 1767268800000" by code_simp
  show "fx_rates next_day_db = fx_rates example_db @ [usd_rate 20456 ''nbu'' 425000000000]"
    by (simp add: next_day_db_def)
  show "later_rates (fx_rates example_db) [usd_rate 20456 ''nbu'' 425000000000]" by code_simp
qed

text \<open>
  \<open>FxRateRepository.findLatest\<close> returns a row of the currency on or before the day that no other
  such row beats: no later day, and on the same day no source earlier in the database's text order.
  It misses exactly when there is no rate on or before the day. It never changes the table.
\<close>

theorem findLatest_is_latest:
  assumes "pg_ok rt" "iso_range on"
  shows "(\<exists>f. fx_findLatest rt currency on db = Inr (Some f) \<and>
      f \<in> set (fx_rates db) \<and> f_currency f = currency \<and> f_rate_date f \<le> on div ms_per_day \<and>
      (\<forall>g\<in>set (fx_rates db). f_currency g = currency \<and> f_rate_date g \<le> on div ms_per_day \<longrightarrow>
         f_rate_date g < f_rate_date f \<or> f_rate_date g = f_rate_date f \<and>
           pg_text_key rt (f_source f) \<le> pg_text_key rt (f_source g))) \<or>
    (fx_findLatest rt currency on db = Inr None \<and>
      (\<forall>g\<in>set (fx_rates db). f_currency g = currency \<longrightarrow> on div ms_per_day < f_rate_date g))"
proof -
  have d: "pg_date_in rt (toDateOnly on) = Some (on div ms_per_day)"
    using assms toDateOnly_date_text by (simp add: pg_okD iso_range_def)
  obtain r where r: "fx_findLatest rt currency on db = Inr r" using fx_findLatest_spec(3) [OF d] by blast
  show ?thesis
  proof (cases r)
    case None
    then show ?thesis using fx_findLatest_spec(2) [OF d] r by auto
  next
    case (Some f)
    then have "is_latest rt (fx_rates db) currency (on div ms_per_day) f"
      using fx_findLatest_spec(1) [OF d] r by auto
    then show ?thesis using r Some by (auto simp: is_latest_def latest_order_def less_le)
  qed
qed

theorem findLatest_is_latest_witness:
  "(\<exists>f. fx_findLatest canonical_runtime ''USD'' 1767268800000 example_db = Inr (Some f) \<and>
      f \<in> set (fx_rates example_db) \<and> f_currency f = ''USD'' \<and> f_rate_date f \<le> 1767268800000 div ms_per_day \<and>
      (\<forall>g\<in>set (fx_rates example_db). f_currency g = ''USD'' \<and> f_rate_date g \<le> 1767268800000 div ms_per_day \<longrightarrow>
         f_rate_date g < f_rate_date f \<or> f_rate_date g = f_rate_date f \<and>
           pg_text_key canonical_runtime (f_source f) \<le> pg_text_key canonical_runtime (f_source g))) \<or>
    (fx_findLatest canonical_runtime ''USD'' 1767268800000 example_db = Inr None \<and>
      (\<forall>g\<in>set (fx_rates example_db). f_currency g = ''USD'' \<longrightarrow> 1767268800000 div ms_per_day < f_rate_date g))"
proof (rule findLatest_is_latest [OF canonical_runtime_ok])
  show "iso_range 1767268800000" by code_simp
qed

text \<open>
  The batched lookup gives every entry of the batch its own rate: when \<open>getEffectiveRates\<close>
  succeeds, the map holds under each entry's key exactly what \<open>getEffectiveRate\<close> returns for that
  entry, and \<open>'1'\<close> for the base currency; when it fails, it fails with the error of one of the
  entries.
\<close>

theorem getEffectiveRates_per_entry:
  "case getEffectiveRates rt cache pairs db of
     Inr m \<Rightarrow> list_all (\<lambda>(c, t). \<exists>r. getEffectiveRate rt cache c t db = Inr r \<and>
        js_map_get m (fxRateKey c t) = Some r \<and> r = (if c = ''UAH'' then ''1'' else r)) pairs
   | Inl e \<Rightarrow> list_ex (\<lambda>(c, t). getEffectiveRate rt cache c t db = Inl e) pairs"
proof (cases "getEffectiveRates rt cache pairs db")
  case (Inl e)
  then show ?thesis using getEffectiveRates_Inl by (fastforce simp: list_ex_iff)
next
  case (Inr m)
  have "\<exists>r. getEffectiveRate rt cache c t db = Inr r \<and> js_map_get m (fxRateKey c t) = Some r \<and>
      r = (if c = ''UAH'' then ''1'' else r)" if "(c, t) \<in> set pairs" for c t
    using getEffectiveRates_Inr [OF Inr that] by (cases "c = ''UAH''") (auto simp: getEffectiveRate_def)
  then show ?thesis using Inr by (simp add: list_all_iff split_beta del: if_split)
qed

text \<open>
  Cache-Control of the read endpoint: an error is never stored, a rate of today or later may be
  stored for a minute, only a closed day for a day.
\<close>

theorem fx_cache_control:
  assumes "iso_range now" "requested_time rt now q = Some on" "iso_range on"
  shows "fst (controller_getLatest rt cache now currency q db) =
    (case snd (controller_getLatest rt cache now currency q db) of
       Inl e \<Rightarrow> ''no-store''
     | Inr dto \<Rightarrow> if on div ms_per_day < now div ms_per_day
                 then ''public, max-age=86400'' else ''public, max-age=60'')"
proof -
  have "toDateOnly on < toDateOnly now \<longleftrightarrow> on div ms_per_day < now div ms_per_day"
    using assms by (simp add: toDateOnly_date_text iso_range_def date_text_less_iff)
  moreover have "nat_text 86400 = ''86400''" "nat_text 60 = ''60''" by code_simp+
  ultimately have "cacheControlFor now on = (if on div ms_per_day < now div ms_per_day
      then ''public, max-age=86400'' else ''public, max-age=60'')"
    by (simp add: cacheControlFor_def PAST_DAY_MAX_AGE_SECONDS_def TODAY_MAX_AGE_SECONDS_def)
  then show ?thesis using assms(2) by (simp add: controller_getLatest_def split: sum.splits)
qed

theorem fx_cache_control_witness:
  "fst (controller_getLatest canonical_runtime [] 1767268800000 ''USD'' (Some ''2025-12-31'') example_db) =
    (case snd (controller_getLatest canonical_runtime [] 1767268800000 ''USD'' (Some ''2025-12-31'') example_db) of
       Inl e \<Rightarrow> ''no-store''
     | Inr dto \<Rightarrow> if 1767139200000 div ms_per_day < 1767268800000 div ms_per_day
                 then ''public, max-age=86400'' else ''public, max-age=60'')"
proof (rule fx_cache_control)
  show "iso_range 1767268800000" by code_simp
  show "requested_time canonical_runtime 1767268800000 (Some ''2025-12-31'') = Some 1767139200000" by code_simp
  show "iso_range 1767139200000" by code_simp
qed

end
