(* ===== verification/Ledger.thy ===== *)
theory Ledger
  imports Database
begin

text \<open>
  The ledger of an account: what its balance is made of. The balance column is maintained by
  increments next to the inserts and status changes of \<open>transactions\<close>; the ledger invariant says
  that the difference between the balance and the signed sum of the posted transactions, the
  opening balance, never changes. The lemmas here state what the database writes do to it.
\<close>

definition signed :: "tx_row \<Rightarrow> int" where
  "signed t = SIGN (t_type t) * t_amount_cents t"

definition posted_sum :: "tx_row list \<Rightarrow> uuid \<Rightarrow> int" where
  "posted_sum ts aid =
     sum_list (map signed (filter (\<lambda>t. t_account_id t = aid \<and> t_status t = Posted) ts))"

definition balance_of :: "db \<Rightarrow> uuid \<Rightarrow> int" where
  "balance_of db aid = sum_list (map a_balance_cents (filter (\<lambda>a. a_id a = aid) (accounts db)))"

definition opening_balance :: "db \<Rightarrow> uuid \<Rightarrow> int" where
  "opening_balance db aid = balance_of db aid - posted_sum (transactions db) aid"

lemma posted_sum_append: "posted_sum (xs @ ys) aid = posted_sum xs aid + posted_sum ys aid"
  by (simp add: posted_sum_def)

lemma posted_sum_Nil [simp]: "posted_sum [] aid = 0"
  by (simp add: posted_sum_def)

lemma posted_sum_Cons:
  "posted_sum (t # ts) aid =
     (if t_account_id t = aid \<and> t_status t = Posted then signed t else 0) + posted_sum ts aid"
  by (simp add: posted_sum_def)

section \<open>Balance updates\<close>

text \<open>The accounts after adding \<open>d a\<close> to the balance of every account \<open>a\<close>.\<close>

definition shift_balances :: "(uuid \<Rightarrow> int) \<Rightarrow> account_row list \<Rightarrow> account_row list" where
  "shift_balances d = map (\<lambda>a. a\<lparr>a_balance_cents := a_balance_cents a + d (a_id a)\<rparr>)"

lemma shift_balances_keys [simp]:
  "map a_id (shift_balances d as) = map a_id as"
  "map (\<lambda>a. (a_id a, a_currency a)) (shift_balances d as) = map (\<lambda>a. (a_id a, a_currency a)) as"
  "map (\<lambda>a. (a_id a, a_user_id a)) (shift_balances d as) = map (\<lambda>a. (a_id a, a_user_id a)) as"
  by (simp_all add: shift_balances_def)

lemma shift_balances_sets [simp]:
  "a_id ` set (shift_balances d as) = a_id ` set as"
  "(\<lambda>a. (a_id a, a_currency a)) ` set (shift_balances d as) = (\<lambda>a. (a_id a, a_currency a)) ` set as"
  by (simp_all add: shift_balances_def image_image)

lemma shift_balances_0 [simp]: "shift_balances (\<lambda>_. 0) as = as"
  by (simp add: shift_balances_def)

lemma shift_balances_add:
  "shift_balances e (shift_balances d as) = shift_balances (\<lambda>i. d i + e i) as"
  by (simp add: shift_balances_def)

lemma balance_of_shift:
  assumes "distinct (map a_id (accounts db))" "aid \<in> a_id ` set (accounts db)"
  shows "balance_of (db\<lparr>accounts := shift_balances d (accounts db)\<rparr>) aid = balance_of db aid + d aid"
proof -
  obtain a where a: "a \<in> set (accounts db)" "a_id a = aid" using assms(2) by auto
  have "filter (\<lambda>r. a_id r = aid) (accounts db) = [a]"
    using filter_key [OF assms(1) a(1)] a(2) by simp
  then show ?thesis
    using a by (simp add: balance_of_def shift_balances_def filter_map comp_def)
qed

lemma add_balance_shift:
  "add_balance aid delta db = Inr db' \<longleftrightarrow>
     (\<forall>a\<in>set (accounts db). a_id a = aid \<longrightarrow> fits_bigint (a_balance_cents a + delta)) \<and>
     db' = db\<lparr>accounts := shift_balances (\<lambda>i. if i = aid then delta else 0) (accounts db)\<rparr>"
  by (auto simp: add_balance_def list_all_iff update_where_def shift_balances_def
      intro!: arg_cong [where f = "\<lambda>x. db\<lparr>accounts := x\<rparr>"] map_cong split: if_splits)

section \<open>The constraints survive the writes\<close>

lemma db_ok_shift:
  assumes "db_ok db" "\<forall>a\<in>set (accounts db). fits_bigint (a_balance_cents a + d (a_id a))"
  shows "db_ok (db\<lparr>accounts := shift_balances d (accounts db)\<rparr>)"
proof -
  let ?db = "db\<lparr>accounts := shift_balances d (accounts db)\<rparr>"
  have "transaction_ok ?db = transaction_ok db" "fx_row_ok ?db = fx_row_ok db" "refresh_ok ?db = refresh_ok db"
    by (auto simp: fun_eq_iff transaction_ok_def transaction_fk_def fx_row_ok_def refresh_ok_def)
  moreover have "list_all (account_ok ?db) (accounts ?db)"
    using assms by (auto simp: db_ok_def list_all_iff account_ok_def account_fk_def account_check_def
        first_violated_None shift_balances_def)
  ultimately show ?thesis
    using assms(1) by (simp add: db_ok_def)
qed

lemma add_balance_db_ok: "db_ok db \<Longrightarrow> add_balance aid delta db = Inr db' \<Longrightarrow> db_ok db'"
  using db_ok_accounts(2) by (auto simp: add_balance_shift intro!: db_ok_shift)

lemma insert_transactions_Inr:
  "insert_transactions rows db = Inr db' \<longleftrightarrow>
     db' = db\<lparr>transactions := transactions db @ rows\<rparr> \<and>
     (\<forall>r\<in>set rows. transaction_check r = None \<and> transaction_fk db r = None) \<and>
     distinct (map t_id rows) \<and> (\<forall>r\<in>set rows. t_id r \<notin> t_id ` set (transactions db))"
  by (auto simp: insert_transactions_def add_rows_Inr check_fks_Inr)

definition bound_row :: "tx_row \<Rightarrow> bool" where
  "bound_row r \<longleftrightarrow> is_uuid (t_id r) \<and> fits_bigint (t_amount_cents r) \<and> numeric_ok (t_fx_rate r) \<and>
     null_or fits_bigint (t_quantity_micro r)"

lemma db_ok_insert_transactions:
  assumes "db_ok db" "insert_transactions rows db = Inr db'" "\<forall>r\<in>set rows. bound_row r"
  shows "db_ok db'"
proof -
  let ?db = "db\<lparr>transactions := transactions db @ rows\<rparr>"
  have "transaction_ok ?db = transaction_ok db" "fx_row_ok ?db = fx_row_ok db"
      "refresh_ok ?db = refresh_ok db" "account_ok ?db = account_ok db"
    by (auto simp: fun_eq_iff transaction_ok_def transaction_fk_def fx_row_ok_def refresh_ok_def
        account_ok_def account_fk_def)
  moreover have "list_all (transaction_ok db) rows"
    using assms by (auto simp: list_all_iff transaction_ok_def insert_transactions_Inr bound_row_def)
  moreover have "distinct (map t_id (transactions db @ rows))"
    using assms(2) db_ok_distinct(2) [OF assms(1)]
    by (simp add: insert_transactions_Inr disjoint_iff) blast
  ultimately show ?thesis
    using assms(1,2) by (auto simp: db_ok_def insert_transactions_Inr list_all_iff)
qed

text \<open>A change of status keeps every constraint.\<close>

definition set_status :: "uuid \<Rightarrow> TransactionStatus \<Rightarrow> tx_row list \<Rightarrow> tx_row list" where
  "set_status tid st = update_where (\<lambda>t. t_id t = tid) (\<lambda>t. t\<lparr>t_status := st\<rparr>)"

lemma set_status_ids [simp]: "map t_id (set_status tid st ts) = map t_id ts"
  unfolding set_status_def by (rule map_update_where) simp

lemma set_status_id_set [simp]: "t_id ` set (set_status tid st ts) = t_id ` set ts"
  by (metis set_status_ids set_map)

lemma transaction_ok_status [simp]:
  "transaction_ok db (t\<lparr>t_status := st\<rparr>) = transaction_ok db t"
  "transaction_ok (db\<lparr>transactions := ts\<rparr>) t = transaction_ok db t"
  by (simp_all add: transaction_ok_def transaction_check_def transaction_fk_def)

lemma db_ok_set_status:
  assumes "db_ok db"
  shows "db_ok (db\<lparr>transactions := set_status tid st (transactions db)\<rparr>)"
proof -
  let ?db = "db\<lparr>transactions := set_status tid st (transactions db)\<rparr>"
  have "fx_row_ok ?db = fx_row_ok db" "refresh_ok ?db = refresh_ok db" "account_ok ?db = account_ok db"
    by (auto simp: fun_eq_iff fx_row_ok_def refresh_ok_def account_ok_def account_fk_def)
  moreover have "list_all (transaction_ok ?db) (transactions ?db)"
  proof -
    have "list_all (transaction_ok db) (transactions db)" using assms by (simp add: db_ok_def)
    then show ?thesis by (auto simp: list_all_iff set_status_def set_update_where)
  qed
  ultimately show ?thesis
    using assms by (simp add: db_ok_def)
qed

lemma posted_sum_set_status:
  assumes "distinct (map t_id ts)" "t \<in> set ts"
  shows "posted_sum (set_status (t_id t) st ts) aid = posted_sum ts aid +
    (if t_account_id t = aid
     then (if st = Posted then signed t else 0) - (if t_status t = Posted then signed t else 0)
     else 0)"
  using assms
proof (induction ts)
  case (Cons x xs)
  show ?case
  proof (cases "x = t")
    case True
    then have "set_status (t_id t) st xs = xs"
      using Cons.prems by (force simp: set_status_def update_where_def image_iff intro: map_idI)
    then show ?thesis using True
      by (simp add: set_status_def posted_sum_Cons signed_def)
  next
    case False
    then have "t_id x \<noteq> t_id t" using Cons.prems by (auto simp: image_iff)
    then show ?thesis using Cons False
      by (simp add: set_status_def posted_sum_Cons)
  qed
qed simp

end
