(* ===== verification/Transactions.thy ===== *)
theory Transactions
  imports Accounts Fx_Rates Ledger
begin

text \<open>
  Transactions (\<open>transactions/transactions.repository.ts\<close>, \<open>transactions.service.ts\<close>): the batched
  create with its validation, the bulk insert with instrument and rate resolution, the balance
  updates, all in one database transaction; reading one; paging. \<open>new Date()\<close> is the argument \<open>now\<close>,
  the results of \<open>randomUUID()\<close> are the sequence \<open>fresh\<close>.
\<close>

section \<open>TransactionsRepository\<close>

definition symbol_of :: "db \<Rightarrow> uuid option \<Rightarrow> string option" where
  "symbol_of db iid =
     (case iid of None \<Rightarrow> None
      | Some i \<Rightarrow> map_option i_symbol (List.find (\<lambda>r. i_id r = i) (instruments db)))"

definition tx_toDomain :: "db \<Rightarrow> tx_row \<Rightarrow> Transaction" where
  "tx_toDomain db t =
     \<lparr>tx_id = t_id t, tx_account_id = t_account_id t, tx_type = t_type t,
      tx_amount_cents = js_round (t_amount_cents t), tx_currency = t_currency t,
      tx_created_at = toISOString (t_created_at t), tx_booked_at = toISOString (t_booked_at t),
      tx_description = t_description t, tx_instrument_symbol = symbol_of db (t_instrument_id t),
      tx_quantity_micro = map_option js_round (t_quantity_micro t)\<rparr>"

definition transactions_findById :: "runtime \<Rightarrow> string \<Rightarrow> (db, Transaction option) svc" where
  "transactions_findById rt ident =
     bindS (liftS (bind_uuid rt ident)) (\<lambda>u.
       readS (\<lambda>db. map_option (tx_toDomain db) (List.find (\<lambda>t. t_id t = u) (transactions db))))"

definition tx_key :: "tx_row \<Rightarrow> millis \<times> uuid" where
  "tx_key t = (t_booked_at t, t_id t)"

text \<open>The inner join keeps the transactions on accounts of the user.\<close>

definition owned_by :: "db \<Rightarrow> uuid \<Rightarrow> tx_row \<Rightarrow> bool" where
  "owned_by db u t \<longleftrightarrow> list_ex (\<lambda>a. a_id a = t_account_id t \<and> a_user_id a = u) (accounts db)"

definition truthy :: "string option \<Rightarrow> string option" where
  "truthy s = (if s = Some [] then None else s)"

definition transactions_findPage ::
  "runtime \<Rightarrow> string \<Rightarrow> nat \<Rightarrow> CursorPayload option \<Rightarrow> string option \<Rightarrow> (db, Transaction list) svc" where
  "transactions_findPage rt userId limit cursor accountId =
     bindS (liftS (bind_uuid rt userId)) (\<lambda>u.
     bindS (liftS (optE (bind_uuid rt) (truthy accountId))) (\<lambda>aid.
     bindS (liftS (optE (bind_cursor rt) cursor)) (\<lambda>after.
       readS (\<lambda>db. map (tx_toDomain db)
         (keyset_query tx_key limit after
           (filter (\<lambda>t. owned_by db u t \<and> null_or (\<lambda>i. t_account_id t = i) aid) (transactions db)))))))"

text \<open>The symbols of a batch, each once, and the instruments found for them.\<close>

definition batch_symbols :: "Transaction list \<Rightarrow> string list" where
  "batch_symbols txs = js_uniq (List.map_filter tx_instrument_symbol txs)"

definition instrument_ids :: "string list \<Rightarrow> db \<Rightarrow> exn + (string, uuid) js_map" where
  "instrument_ids symbols db =
     (if symbols = [] then Inr []
      else bindE (mapE bind_text symbols) (\<lambda>ss.
        Inr (js_map_of (map (\<lambda>i. (i_symbol i, i_id i))
          (filter (\<lambda>i. i_symbol i \<in> set ss) (instruments db))))))"

definition unknown_instruments :: "string list \<Rightarrow> exn" where
  "unknown_instruments unknown =
     problem 422 ''instrument-not-found'' (''unknown instrument_symbol: '' @ join_with '', '' unknown)"

definition date_of :: "runtime \<Rightarrow> string \<Rightarrow> exn + millis" where
  "date_of rt s =
     (case new_date (date_fallback rt) s of
        Some t \<Rightarrow> Inr t | None \<Rightarrow> Inl (plain_error ''Invalid time value''))"

text \<open>The row of one transaction, with every value as Postgres reads it.\<close>

definition save_row ::
  "runtime \<Rightarrow> (string, uuid) js_map \<Rightarrow> (string, string) js_map \<Rightarrow> Transaction \<Rightarrow> exn + tx_row" where
  "save_row rt instrumentIdBySymbol fxRateByKey tx =
     bindE (date_of rt (tx_booked_at tx)) (\<lambda>bookedAt.
     bindE (date_of rt (tx_created_at tx)) (\<lambda>createdAt.
     bindE (bind_uuid rt (tx_id tx)) (\<lambda>ident.
     bindE (bind_uuid rt (tx_account_id tx)) (\<lambda>accountId.
     bindE (bind_text (tx_currency tx)) (\<lambda>cur.
     bindE (bind_bigint (tx_amount_cents tx)) (\<lambda>amount.
     bindE (case js_map_get fxRateByKey (fxRateKey (tx_currency tx) bookedAt) of
              None \<Rightarrow> Inr numeric_one | Some r \<Rightarrow> bind_numeric rt r) (\<lambda>rate.
     bindE (optE bind_bigint (tx_quantity_micro tx)) (\<lambda>quantity.
     bindE (optE bind_text (tx_description tx)) (\<lambda>description.
       Inr \<lparr>t_id = ident, t_account_id = accountId,
            t_instrument_id = (case truthy (tx_instrument_symbol tx) of
               None \<Rightarrow> None | Some s \<Rightarrow> js_map_get instrumentIdBySymbol s),
            t_category_id = None, t_currency = cur, t_type = tx_type tx, t_status = Posted,
            t_amount_cents = amount, t_fx_rate = rate, t_quantity_micro = quantity,
            t_unit_price = None, t_booked_at = bookedAt, t_description = description,
            t_created_at = createdAt\<rparr>)))))))))"

definition saveMany :: "runtime \<Rightarrow> fx_cache \<Rightarrow> Transaction list \<Rightarrow> (db, Transaction list) svc" where
  "saveMany rt cache txs =
     (if txs = [] then returnS txs
      else
        let symbols = batch_symbols txs
        in bindS (readE (instrument_ids symbols)) (\<lambda>instrumentIdBySymbol.
           let unknown = filter (\<lambda>s. js_map_get instrumentIdBySymbol s = None) symbols
           in if unknown \<noteq> [] then throwS (unknown_instruments unknown)
              else
                bindS (liftS (mapE (\<lambda>tx. date_of rt (tx_booked_at tx)) txs)) (\<lambda>dates.
                bindS (readE (getEffectiveRates rt cache (zip (map tx_currency txs) dates))) (\<lambda>fxRateByKey.
                bindS (liftS (mapE (save_row rt instrumentIdBySymbol fxRateByKey) txs)) (\<lambda>rows.
                bindS (writeE (insert_transactions rows)) (\<lambda>_. returnS txs))))))"

section \<open>TransactionsService\<close>

definition transactions_list ::
  "runtime \<Rightarrow> bool \<Rightarrow> AuthUser \<Rightarrow> nat \<Rightarrow> string option \<Rightarrow> string option \<Rightarrow>
   (db, TransactionResponse list \<times> string option) svc" where
  "transactions_list rt drift user limit cursor accountId =
     bindS (case truthy accountId of
              None \<Rightarrow> returnS ()
            | Some aid \<Rightarrow>
                bindS (accounts_findById rt aid) (\<lambda>found.
                  case found of
                    None \<Rightarrow> throwS (account_not_found aid)
                  | Some account \<Rightarrow> liftS (assertOwner (acc_user_id account) user (''account '' @ aid)))) (\<lambda>_.
     bindS (liftS (decode_optional cursor)) (\<lambda>c.
     bindS (transactions_findPage rt (au_id user) limit c accountId) (\<lambda>rows.
       returnS (page_of (\<lambda>t. toTransaction t drift)
         (\<lambda>l. encodeCursor (tx_booked_at l) (tx_id l)) limit rows))))"

definition needsInstrument :: "TransactionEntryDto \<Rightarrow> bool" where
  "needsInstrument e \<longleftrightarrow> e_type e = Buy \<or> e_type e = Sell"

text \<open>The checks on one entry, in the order of the loop body.\<close>

definition check_entry ::
  "AuthUser \<Rightarrow> (string, OwnedAccount) js_map \<Rightarrow> TransactionEntryDto \<Rightarrow> exn + OwnedAccount" where
  "check_entry user accountById e =
     (case js_map_get accountById (e_account_id e) of
        None \<Rightarrow> Inl (account_not_found (e_account_id e))
      | Some account \<Rightarrow>
          bindE (assertOwner (acc_user_id account) user (''account '' @ acc_id account)) (\<lambda>_.
          if acc_currency account \<noteq> e_currency e
          then Inl (problem 422 ''currency-mismatch''
                 (''currency '' @ e_currency e @ '' does not match the currency of account '' @
                  acc_id account @ '' ('' @ acc_currency account @ '')''))
          else if needsInstrument e \<noteq> (truthy (e_instrument_symbol e) \<noteq> None)
          then Inl (problem 422 ''instrument-type-mismatch''
                 (if needsInstrument e then ''type '' @ type_text (e_type e) @ '' requires instrument_symbol''
                  else ''instrument_symbol is only valid for buy and sell, not '' @ type_text (e_type e)))
          else Inr account))"

definition batch_entry :: "string \<Rightarrow> uuid \<Rightarrow> TransactionEntryDto \<Rightarrow> Transaction" where
  "batch_entry now ident e =
     \<lparr>tx_id = ident, tx_account_id = e_account_id e, tx_type = e_type e,
      tx_amount_cents = e_amount_cents e, tx_currency = e_currency e, tx_created_at = now,
      tx_booked_at = e_booked_at e, tx_description = e_description e,
      tx_instrument_symbol = e_instrument_symbol e, tx_quantity_micro = e_quantity_micro e\<rparr>"

definition add_delta :: "(string, int) js_map \<Rightarrow> TransactionEntryDto \<Rightarrow> (string, int) js_map" where
  "add_delta deltas e =
     js_map_set deltas (e_account_id e)
       (js_add (or_else (js_map_get deltas (e_account_id e)) 0) (SIGN (e_type e) * e_amount_cents e))"

fun build_batch ::
  "AuthUser \<Rightarrow> (string, OwnedAccount) js_map \<Rightarrow> string \<Rightarrow> (nat \<Rightarrow> uuid) \<Rightarrow> TransactionEntryDto list \<Rightarrow>
   Transaction list \<Rightarrow> (string, int) js_map \<Rightarrow> exn + (Transaction list \<times> (string, int) js_map)" where
  "build_batch user accountById now fresh [] batch deltas = Inr (batch, deltas)"
| "build_batch user accountById now fresh (e # es) batch deltas =
     bindE (check_entry user accountById e) (\<lambda>_.
       build_batch user accountById now fresh es
         (batch @ [batch_entry now (fresh (length batch)) e]) (add_delta deltas e))"

fun update_balances :: "runtime \<Rightarrow> (string, int) js_map \<Rightarrow> (db, unit) svc" where
  "update_balances rt [] = returnS ()"
| "update_balances rt ((ident, delta) # rest) =
     bindS (accounts_updateBalance rt ident delta) (\<lambda>_. update_balances rt rest)"

definition create_body ::
  "runtime \<Rightarrow> fx_cache \<Rightarrow> string \<Rightarrow> (nat \<Rightarrow> uuid) \<Rightarrow> TransactionEntryDto list \<Rightarrow> AuthUser \<Rightarrow>
   (db, Transaction list) svc" where
  "create_body rt cache now fresh entries user =
     bindS (accounts_findByIds rt (js_uniq (map e_account_id entries))) (\<lambda>found.
     bindS (liftS (build_batch user (js_map_of (map (\<lambda>a. (acc_id a, a)) found)) now fresh entries [] []))
       (\<lambda>(batch, deltas).
         bindS (saveMany rt cache batch) (\<lambda>_.
         bindS (update_balances rt deltas) (\<lambda>_. returnS batch))))"

definition transactions_create ::
  "runtime \<Rightarrow> fx_cache \<Rightarrow> bool \<Rightarrow> millis \<Rightarrow> (nat \<Rightarrow> uuid) \<Rightarrow> TransactionEntryDto list \<Rightarrow> AuthUser \<Rightarrow>
   (db, TransactionResponse list) svc" where
  "transactions_create rt cache drift now fresh entries user =
     bindS (transaction (create_body rt cache (toISOString now) fresh entries user)) (\<lambda>created.
       returnS (map (\<lambda>t. toTransaction t drift) created))"

definition transactions_getById ::
  "runtime \<Rightarrow> bool \<Rightarrow> string \<Rightarrow> AuthUser \<Rightarrow> (db, TransactionResponse) svc" where
  "transactions_getById rt drift transactionId user =
     bindS (transactions_findById rt transactionId) (\<lambda>found.
       case found of
         None \<Rightarrow> throwS (problem 404 ''transaction-not-found''
                   (''transaction '' @ transactionId @ '' was not found''))
       | Some tx \<Rightarrow>
           bindS (accounts_findById rt (tx_account_id tx)) (\<lambda>account.
             case account of
               None \<Rightarrow> throwS (plain_error ''Cannot read properties of undefined'')
             | Some a \<Rightarrow>
                 bindS (liftS (assertOwner (acc_user_id a) user (''transaction '' @ transactionId))) (\<lambda>_.
                   returnS (toTransaction tx drift))))"

end
