(* ===== verification/Transactions_Correct.thy ===== *)
theory Transactions_Correct
  imports Transactions
begin

text \<open>
  Correctness of the batched create: what a successful create did to the tables, that it keeps the
  constraints and the ledger, which errors it can end with, that what it returned can be read back;
  and paging through transactions.
\<close>

declare bind_results [simp]

section \<open>The steps of a create\<close>

lemma build_batch_Inr:
  "build_batch user m now fresh es batch deltas = Inr (batch', deltas') \<longleftrightarrow>
     (\<forall>e\<in>set es. \<exists>a. check_entry user m e = Inr a) \<and>
     batch' = batch @ map (\<lambda>(i, e). batch_entry now (fresh i) e) (enumerate (length batch) es) \<and>
     deltas' = foldl add_delta deltas es"
  by (induction user m now fresh es batch deltas rule: build_batch.induct) auto

lemma check_entry_Inr:
  "check_entry user m e = Inr a \<longleftrightarrow>
     js_map_get m (e_account_id e) = Some a \<and> acc_user_id a = au_id user \<and>
     acc_currency a = e_currency e \<and>
     needsInstrument e = (truthy (e_instrument_symbol e) \<noteq> None)"
  by (auto simp: check_entry_def split: option.splits if_splits)

text \<open>The accounts of a batch, as the loop sees them.\<close>

definition account_index :: "runtime \<Rightarrow> string list \<Rightarrow> db \<Rightarrow> (string, OwnedAccount) js_map" where
  "account_index rt ids db =
     js_map_of (map (\<lambda>a. (a_id a, account_toDomain a))
       (filter (\<lambda>a. a_id a \<in> set (List.map_filter (pg_uuid_in rt) ids)) (accounts db)))"

lemma account_index_get:
  assumes "distinct (map a_id (accounts db))" "js_map_get (account_index rt ids db) k = Some x"
  obtains a where "a \<in> set (accounts db)" "a_id a = k" "x = account_toDomain a"
    "k \<in> set (List.map_filter (pg_uuid_in rt) ids)"
proof -
  let ?rows = "filter (\<lambda>a. a_id a \<in> set (List.map_filter (pg_uuid_in rt) ids)) (accounts db)"
  have "distinct (map fst (map (\<lambda>a. (a_id a, account_toDomain a)) ?rows))"
    using assms(1) by (simp add: comp_def distinct_map_filter)
  then have "map_of (map (\<lambda>a. (a_id a, account_toDomain a)) ?rows) k = Some x"
    using assms(2) by (simp add: account_index_def js_map_get_of_distinct)
  then have "(k, x) \<in> set (map (\<lambda>a. (a_id a, account_toDomain a)) ?rows)" by (rule map_of_SomeD)
  then show thesis using that by auto
qed

lemma mapE_bind_uuid: "mapE (bind_uuid rt) ids = Inr us \<Longrightarrow> us = List.map_filter (pg_uuid_in rt) ids"
  by (induction ids arbitrary: us) (auto simp: bind_uuid_def List.map_filter_simps split: option.splits)

lemma findByIds_Inr:
  assumes "accounts_findByIds rt ids db = (Inr found, db1)"
  shows "db1 = db" "js_map_of (map (\<lambda>a. (acc_id a, a)) found) = account_index rt ids db"
proof -
  show "db1 = db" using assms by (auto simp: accounts_findByIds_def bindS_Inr split: if_splits)
  show "js_map_of (map (\<lambda>a. (acc_id a, a)) found) = account_index rt ids db"
  proof (cases "ids = []")
    case True
    then show ?thesis using assms
      by (auto simp: accounts_findByIds_def account_index_def List.map_filter_simps)
  next
    case False
    then obtain us where "mapE (bind_uuid rt) ids = Inr us"
        "found = map account_toDomain (filter (\<lambda>a. a_id a \<in> set us) (accounts db))"
      using assms by (auto simp: accounts_findByIds_def bindS_Inr)
    then show ?thesis using mapE_bind_uuid by (simp add: account_index_def comp_def)
  qed
qed

text \<open>A saved row carries the account, type, amount and currency of its transaction and is posted.\<close>

definition row_of :: "runtime \<Rightarrow> Transaction \<Rightarrow> tx_row \<Rightarrow> bool" where
  "row_of rt tx r \<longleftrightarrow>
     pg_uuid_in rt (tx_id tx) = Some (t_id r) \<and> pg_uuid_in rt (tx_account_id tx) = Some (t_account_id r) \<and>
     t_type r = tx_type tx \<and> t_status r = Posted \<and> t_amount_cents r = tx_amount_cents tx \<and>
     t_currency r = tx_currency tx \<and> t_description r = tx_description tx \<and>
     t_quantity_micro r = tx_quantity_micro tx \<and> t_category_id r = None \<and> t_unit_price r = None \<and>
     date_of rt (tx_booked_at tx) = Inr (t_booked_at r) \<and>
     date_of rt (tx_created_at tx) = Inr (t_created_at r) \<and>
     fits_bigint (t_amount_cents r) \<and> null_or fits_bigint (t_quantity_micro r) \<and> numeric_ok (t_fx_rate r)"

lemma save_row_row_of: "save_row rt ids rates tx = Inr r \<Longrightarrow> row_of rt tx r"
  by (auto simp: save_row_def row_of_def split: option.splits)

lemma save_row_instrument:
  "save_row rt ids rates tx = Inr r \<Longrightarrow>
   t_instrument_id r = (case truthy (tx_instrument_symbol tx) of None \<Rightarrow> None | Some s \<Rightarrow> js_map_get ids s)"
  by (auto simp: save_row_def)

lemma saveMany_Inr:
  assumes "saveMany rt cache txs db = (Inr out, db')"
  obtains ids rates dates rows where
    "out = txs" "insert_transactions rows db = Inr db'" "list_all2 (row_of rt) txs rows"
    "list_all2 (\<lambda>tx r. save_row rt ids rates tx = Inr r) txs rows"
    "txs \<noteq> [] \<Longrightarrow> instrument_ids (batch_symbols txs) db = Inr ids"
    "\<forall>s\<in>set (batch_symbols txs). js_map_get ids s \<noteq> None"
    "txs \<noteq> [] \<Longrightarrow> mapE (\<lambda>tx. date_of rt (tx_booked_at tx)) txs = Inr dates"
    "txs \<noteq> [] \<Longrightarrow> getEffectiveRates rt cache (zip (map tx_currency txs) dates) db = Inr rates"
proof (cases "txs = []")
  case True
  then show thesis using assms
    by (intro that [of "[]" "[]" "[]" "[]"]) (auto simp: saveMany_def returnS_def insert_transactions_Inr batch_symbols_def
        js_uniq_def List.map_filter_simps)
next
  case False
  obtain ids dates rates rows where
    "instrument_ids (batch_symbols txs) db = Inr ids"
    "filter (\<lambda>s. js_map_get ids s = None) (batch_symbols txs) = []"
    "mapE (\<lambda>tx. date_of rt (tx_booked_at tx)) txs = Inr dates"
    "getEffectiveRates rt cache (zip (map tx_currency txs) dates) db = Inr rates"
    and rows: "mapE (save_row rt ids rates) txs = Inr rows" "insert_transactions rows db = Inr db'" "out = txs"
    using assms False
    by (auto simp: saveMany_def Let_def bindS_Inr split: if_splits)
  moreover have "list_all2 (row_of rt) txs rows"
    using rows(1) by (auto simp: mapE_Inr intro: list_all2_mono save_row_row_of)
  ultimately show thesis
    by (intro that [of rows ids rates dates]) (auto simp: mapE_Inr filter_empty_conv)
qed

text \<open>The balance updates of a batch: each account moves by the deltas of its id.\<close>

definition delta_for :: "runtime \<Rightarrow> (string, int) js_map \<Rightarrow> uuid \<Rightarrow> int" where
  "delta_for rt deltas aid =
     sum_list (map snd (filter (\<lambda>(k, d). pg_uuid_in rt k = Some aid) deltas))"

lemma update_balances_Inr:
  assumes "update_balances rt deltas db = (Inr u, db')" "db_ok db"
  shows "db' = db\<lparr>accounts := shift_balances (delta_for rt deltas) (accounts db)\<rparr> \<and> db_ok db'"
  using assms
proof (induction rt deltas arbitrary: db rule: update_balances.induct)
  case (1 rt)
  then show ?case by (simp add: returnS_def delta_for_def shift_balances_def)
next
  case (2 rt ident delta rest)
  then obtain aid db1 where a: "pg_uuid_in rt ident = Some aid" "add_balance aid delta db = Inr db1"
      "update_balances rt rest db1 = (Inr u, db')"
    by (auto simp: bindS_Inr accounts_updateBalance_def)
  then have "db_ok db1" using add_balance_db_ok "2.prems"(2) by blast
  then have "db' = db1\<lparr>accounts := shift_balances (delta_for rt rest) (accounts db1)\<rparr>" "db_ok db'"
    using "2.IH" a(3) by auto
  moreover have "(\<lambda>i. (if i = aid then delta else 0) + delta_for rt rest i) = delta_for rt ((ident, delta) # rest)"
    using a(1) by (auto simp: fun_eq_iff delta_for_def)
  ultimately show ?case
    using a(2) by (simp add: add_balance_shift shift_balances_add)
qed

section \<open>Deltas\<close>

definition exact_delta :: "TransactionEntryDto list \<Rightarrow> string \<Rightarrow> int" where
  "exact_delta es k = sum_list (map (\<lambda>e. if e_account_id e = k then SIGN (e_type e) * e_amount_cents e else 0) es)"

text \<open>The amounts of a batch stay in the range where doubles are exact.\<close>

definition safe_batch :: "TransactionEntryDto list \<Rightarrow> bool" where
  "safe_batch es \<longleftrightarrow> sum_list (map (\<lambda>e. \<bar>e_amount_cents e\<bar>) es) \<le> 2 ^ 53"

lemma abs_exact_delta: "\<bar>exact_delta es k\<bar> \<le> sum_list (map (\<lambda>e. \<bar>e_amount_cents e\<bar>) es)"
proof (induction es)
  case (Cons e es)
  have "\<bar>SIGN (e_type e) * e_amount_cents e\<bar> = \<bar>e_amount_cents e\<bar>"
    using SIGN_cases [of "e_type e"] by auto
  then show ?case using Cons by (auto simp: exact_delta_def)
qed (simp add: exact_delta_def)

lemma amount_le_total: "e \<in> set es \<Longrightarrow> \<bar>e_amount_cents e\<bar> \<le> sum_list (map (\<lambda>e. \<bar>e_amount_cents e\<bar>) es)"
proof (induction es)
  case (Cons x xs)
  have "0 \<le> sum_list (map (\<lambda>e. \<bar>e_amount_cents e\<bar>) xs)" by (rule sum_list_nonneg) auto
  then show ?case using Cons by auto
qed simp

lemma safe_batch_entry: "safe_batch es \<Longrightarrow> e \<in> set es \<Longrightarrow> js_safe (e_amount_cents e)"
  unfolding safe_batch_def js_safe_def by (rule order_trans [OF amount_le_total])

lemma foldl_add_delta:
  assumes "safe_batch es"
  shows "js_map_get (foldl add_delta [] es) k =
    (if k \<in> e_account_id ` set es then Some (exact_delta es k) else None)"
  using assms
proof (induction es arbitrary: k rule: rev_induct)
  case (snoc e es)
  have "safe_batch es" using snoc.prems by (auto simp: safe_batch_def)
  then have IH: "js_map_get (foldl add_delta [] es) k =
      (if k \<in> e_account_id ` set es then Some (exact_delta es k) else None)" for k
    by (rule snoc.IH)
  have zero: "exact_delta es k = 0" if "k \<notin> e_account_id ` set es" for k
    using that by (induction es) (auto simp: exact_delta_def)
  have app: "exact_delta (es @ [e]) k = exact_delta es k + (if e_account_id e = k then SIGN (e_type e) * e_amount_cents e else 0)" for k
    by (simp add: exact_delta_def)
  have "or_else (js_map_get (foldl add_delta [] es) (e_account_id e)) 0 = exact_delta es (e_account_id e)"
    using IH zero by auto
  moreover have "js_safe (exact_delta (es @ [e]) (e_account_id e))"
    using abs_exact_delta [of "es @ [e]" "e_account_id e"] snoc.prems by (simp add: js_safe_def safe_batch_def)
  then have "js_add (exact_delta es (e_account_id e)) (SIGN (e_type e) * e_amount_cents e) =
      exact_delta (es @ [e]) (e_account_id e)"
    using app [of "e_account_id e"] js_add_safe by simp
  ultimately have "add_delta (foldl add_delta [] es) e =
      js_map_set (foldl add_delta [] es) (e_account_id e) (exact_delta (es @ [e]) (e_account_id e))"
    by (simp only: add_delta_def [of "foldl add_delta [] es" e])
  then show ?case using IH app by auto
qed simp

lemma distinct_deltas: "distinct (map fst (foldl add_delta [] es))"
  by (induction es rule: rev_induct) (auto simp: add_delta_def)

lemma delta_for_exact:
  assumes "safe_batch es" "\<forall>e\<in>set es. pg_uuid_in rt (e_account_id e) = Some (e_account_id e)"
  shows "delta_for rt (foldl add_delta [] es) aid = exact_delta es aid"
proof -
  let ?ds = "foldl add_delta [] es"
  have keys: "k \<in> e_account_id ` set es" if "(k, d) \<in> set ?ds" for k d
    using foldl_add_delta [OF assms(1), of k] that
    by (metis js_map_get_def map_of_eq_None_iff image_eqI fst_conv option.distinct(1))
  have "filter (\<lambda>(k, d). pg_uuid_in rt k = Some aid) ?ds = filter (\<lambda>p. fst p = aid) ?ds"
    using keys assms(2) by (intro filter_cong) fastforce+
  moreover have "filter (\<lambda>p. fst p = aid) ?ds =
      (case map_of ?ds aid of None \<Rightarrow> [] | Some d \<Rightarrow> [(aid, d)])"
  proof (cases "map_of ?ds aid")
    case None
    then have "\<forall>p\<in>set ?ds. fst p \<noteq> aid" by (auto simp: map_of_eq_None_iff)
    then show ?thesis using None by (simp add: filter_empty_conv)
  next
    case (Some d)
    then show ?thesis using filter_key [OF distinct_deltas map_of_SomeD [OF Some]] by simp
  qed
  moreover have "exact_delta es aid = 0" if "aid \<notin> e_account_id ` set es"
    using that by (induction es) (auto simp: exact_delta_def)
  ultimately show ?thesis
    using foldl_add_delta [OF assms(1), of aid] by (auto simp: delta_for_def js_map_get_def)
qed

lemma posted_sum_rows:
  assumes "list_all2 (row_of rt) (map (\<lambda>(i, e). batch_entry now (fresh i) e) (enumerate n es)) rows"
    and "\<forall>e\<in>set es. pg_uuid_in rt (e_account_id e) = Some (e_account_id e)"
  shows "posted_sum rows aid = exact_delta es aid"
  using assms
proof (induction es arbitrary: n rows)
  case (Cons e es)
  then obtain r rs where r: "rows = r # rs" "row_of rt (batch_entry now (fresh n) e) r"
      "list_all2 (row_of rt) (map (\<lambda>(i, e). batch_entry now (fresh i) e) (enumerate (Suc n) es)) rs"
    by (auto simp: list_all2_Cons1)
  then have "t_account_id r = e_account_id e" "t_status r = Posted" "signed r = SIGN (e_type e) * e_amount_cents e"
    using Cons.prems(2) by (auto simp: row_of_def batch_entry_def signed_def)
  then show ?case using Cons.IH [OF r(3)] Cons.prems(2) r(1) by (auto simp: posted_sum_Cons exact_delta_def)
qed (simp add: exact_delta_def)

section \<open>What a successful create did\<close>

lemma create_body_Inr:
  assumes "create_body rt cache now fresh entries user db = (Inr batch, db')" "pg_ok rt" "db_ok db"
  obtains rows where
    "batch = map (\<lambda>(i, e). batch_entry now (fresh i) e) (enumerate 0 entries)"
    "list_all2 (row_of rt) batch rows"
    "db' = db\<lparr>transactions := transactions db @ rows,
             accounts := shift_balances (delta_for rt (foldl add_delta [] entries)) (accounts db)\<rparr>"
    "saveMany rt cache batch db = (Inr batch, db\<lparr>transactions := transactions db @ rows\<rparr>)"
    "\<forall>e\<in>set entries. \<exists>a\<in>set (accounts db). a_id a = e_account_id e \<and> a_user_id a = au_id user \<and> a_currency a = e_currency e"
    "db_ok db'"
proof -
  obtain found deltas db1 u where f: "accounts_findByIds rt (js_uniq (map e_account_id entries)) db = (Inr found, db)"
      and b: "build_batch user (js_map_of (map (\<lambda>a. (acc_id a, a)) found)) now fresh entries [] [] = Inr (batch, deltas)"
      and s: "saveMany rt cache batch db = (Inr u, db1)"
      and up: "update_balances rt deltas db1 = (Inr (), db')"
    using assms(1) by (force simp: create_body_def bindS_Inr dest: findByIds_Inr(1))
  have batch: "batch = map (\<lambda>(i, e). batch_entry now (fresh i) e) (enumerate 0 entries)"
      "deltas = foldl add_delta [] entries"
    using b by (auto simp: build_batch_Inr)
  obtain rows where rows: "list_all2 (row_of rt) batch rows" "insert_transactions rows db = Inr db1" "u = batch"
    using saveMany_Inr [OF s] by metis
  have "bound_row r" if r: "r \<in> set rows" for r
  proof -
    obtain tx where "row_of rt tx r" using list_all2_set2 [OF rows(1) r] by blast
    then show ?thesis using pg_okD(2) [OF assms(2)] by (auto simp: row_of_def bound_row_def)
  qed
  then have ok1: "db_ok db1" using db_ok_insert_transactions assms(3) rows(2) by blast
  have db1: "db1 = db\<lparr>transactions := transactions db @ rows\<rparr>" using rows(2) by (simp add: insert_transactions_Inr)
  have "\<exists>a\<in>set (accounts db). a_id a = e_account_id e \<and> a_user_id a = au_id user \<and> a_currency a = e_currency e"
    if e: "e \<in> set entries" for e
  proof -
    obtain x where "check_entry user (account_index rt (js_uniq (map e_account_id entries)) db) e = Inr x"
      using b e findByIds_Inr(2) [OF f] by (auto simp: build_batch_Inr)
    then show ?thesis
      using account_index_get [OF db_ok_distinct(1) [OF assms(3)]] by (fastforce simp: check_entry_Inr)
  qed
  then show thesis
    using that [of rows] batch rows db1 s update_balances_Inr [OF up ok1] by auto
qed

lemma batch_ids_canonical:
  assumes "db_ok db" "pg_ok rt"
    "\<forall>e\<in>set entries. \<exists>a\<in>set (accounts db). a_id a = e_account_id e \<and> P a e"
  shows "\<forall>e\<in>set entries. pg_uuid_in rt (e_account_id e) = Some (e_account_id e)"
  using assms db_ok_accounts(1) pg_okD(1) by metis

lemma create_ledger_step:
  assumes "create_body rt cache now fresh entries user db = (Inr batch, db')" "pg_ok rt" "db_ok db"
    and "safe_batch entries" "aid \<in> a_id ` set (accounts db)"
  shows "opening_balance db' aid = opening_balance db aid"
proof -
  obtain rows where rows: "batch = map (\<lambda>(i, e). batch_entry now (fresh i) e) (enumerate 0 entries)"
    "list_all2 (row_of rt) batch rows"
    "db' = db\<lparr>transactions := transactions db @ rows,
             accounts := shift_balances (delta_for rt (foldl add_delta [] entries)) (accounts db)\<rparr>"
    "\<forall>e\<in>set entries. \<exists>a\<in>set (accounts db). a_id a = e_account_id e \<and> a_user_id a = au_id user \<and> a_currency a = e_currency e"
    by (rule create_body_Inr [OF assms(1-3)]) blast
  have ids: "\<forall>e\<in>set entries. pg_uuid_in rt (e_account_id e) = Some (e_account_id e)"
    using batch_ids_canonical [OF assms(3,2) rows(4)] .
  have "balance_of db' aid = balance_of db aid + exact_delta entries aid"
    using balance_of_shift [OF db_ok_distinct(1) [OF assms(3)] assms(5)] delta_for_exact [OF assms(4) ids] rows(3)
    by (simp add: balance_of_def)
  moreover have "posted_sum rows aid = exact_delta entries aid"
    using posted_sum_rows rows(1,2) ids by blast
  ultimately show ?thesis using rows(3) by (simp add: opening_balance_def posted_sum_append)
qed

section \<open>Errors of a create\<close>

text \<open>The instrument of a row is there exactly when the type needs one.\<close>

lemma instrument_ids_get:
  assumes "instrument_ids symbols db = Inr ids" "js_map_get ids s = Some i"
  shows "i \<in> i_id ` set (instruments db)"
proof (cases "symbols = []")
  case False
  then obtain ss where "ids = js_map_of (map (\<lambda>i. (i_symbol i, i_id i)) (filter (\<lambda>i. i_symbol i \<in> set ss) (instruments db)))"
    using assms(1) by (auto simp: instrument_ids_def)
  then have "map_of (rev (map (\<lambda>i. (i_symbol i, i_id i)) (filter (\<lambda>i. i_symbol i \<in> set ss) (instruments db)))) s = Some i"
    using assms(2) by (simp add: js_map_get_of)
  then show ?thesis by (auto dest!: map_of_SomeD)
qed (use assms in \<open>simp add: instrument_ids_def\<close>)

lemma set_batch_symbols: "set (batch_symbols txs) = {s. \<exists>tx\<in>set txs. tx_instrument_symbol tx = Some s}"
  by (induction txs) (auto simp: batch_symbols_def List.map_filter_simps split: option.splits)

text \<open>
  The errors that reach the client although the body was valid: the ones the service reports
  itself, and those of values that the columns cannot hold.
\<close>

definition client_error :: "exn \<Rightarrow> bool" where
  "client_error e = (case e of
     ProblemException st code d \<Rightarrow> (st, code) \<in>
       {(404, ''account-not-found''), (403, ''forbidden''), (422, ''currency-mismatch''),
        (422, ''instrument-type-mismatch''), (422, ''instrument-not-found''), (422, ''fx-rate-unavailable'')}
   | _ \<Rightarrow> False)"

definition value_error :: "exn \<Rightarrow> bool" where
  "value_error e \<longleftrightarrow> e \<in> {plain_error ''Invalid time value'', db_error ''22003'' ''bigint'', db_error ''22P02'' ''bigint'',
     db_error ''22003'' ''numeric'', db_error ''22P02'' ''numeric'', db_error ''22021'' ''text'',
     db_error ''22P02'' ''uuid'', db_error ''22007'' ''date'',
     db_error ''23514'' ''transactions_quantity_positive'',
     db_error ''23514'' ''transactions_fx_rate_positive'',
     db_error ''23514'' ''transactions_base_currency_rate_is_one''}"

lemma client_error_problem [simp]:
  "client_error (account_not_found i)" "client_error (unknown_instruments u)"
  "client_error (problem 422 ''fx-rate-unavailable'' d)" "client_error (problem 403 ''forbidden'' d)"
  "client_error (problem 422 ''currency-mismatch'' d)" "client_error (problem 422 ''instrument-type-mismatch'' d)"
  by (auto simp: client_error_def account_not_found_def unknown_instruments_def problem_def)

lemma value_error_bind:
  "bind_uuid rt s = Inl e \<Longrightarrow> value_error e" "bind_bigint x = Inl e \<Longrightarrow> value_error e"
  "bind_text s = Inl e \<Longrightarrow> value_error e" "bind_numeric rt s = Inl e \<Longrightarrow> value_error e"
  "bind_date rt s = Inl e \<Longrightarrow> value_error e" "date_of rt s = Inl e \<Longrightarrow> value_error e"
  by (auto simp: bind_uuid_def bind_bigint_def bind_text_def bind_numeric_def bind_date_def date_of_def
      value_error_def split: option.splits if_splits)

lemma save_row_Inl: "save_row rt ids rates tx = Inl e \<Longrightarrow> value_error e"
  by (auto simp: save_row_def bindE_Inl dest: value_error_bind optE_Inl split: option.splits)

lemma check_entry_Inl: "check_entry user m e = Inl x \<Longrightarrow> client_error x"
  by (auto simp: check_entry_def bindE_Inl assertOwner_def split: option.splits if_splits)

lemma build_batch_Inl:
  "build_batch user m now fresh es b d = Inl x \<Longrightarrow> client_error x"
  by (induction user m now fresh es b d rule: build_batch.induct) (auto simp: bindE_Inl dest: check_entry_Inl)

lemma getEffectiveRate_Inl:
  "getEffectiveRate rt cache c t db = Inl e \<Longrightarrow> client_error e \<or> value_error e"
  by (auto simp: getEffectiveRate_def service_findLatest_def fx_findLatest_def bindE_Inl
      dest: value_error_bind split: if_splits option.splits)

lemma getEffectiveRates_error:
  "getEffectiveRates rt cache pairs db = Inl e \<Longrightarrow> client_error e \<or> value_error e"
  using getEffectiveRates_Inl getEffectiveRate_Inl by fastforce

text \<open>A row of a checked entry violates only the constraints on quantity and rate.\<close>

lemma checked_row_constraints:
  assumes "row_of rt (batch_entry now u e) r" "save_row rt ids rates (batch_entry now u e) = Inr r"
    and "entry_dto_ok isUUID4 isISO8601 e" "needsInstrument e = (truthy (e_instrument_symbol e) \<noteq> None)"
    and "\<And>s. e_instrument_symbol e = Some s \<Longrightarrow> js_map_get ids s \<noteq> None"
    and "transaction_check r = Some n"
  shows "value_error (db_error ''23514'' n)"
proof -
  have "(t_type r \<in> {Buy, Sell}) = (t_instrument_id r \<noteq> None)"
    using save_row_instrument [OF assms(2)] assms(1,4,5)
    by (auto simp: row_of_def batch_entry_def needsInstrument_def truthy_def split: option.splits if_splits)
  then show ?thesis
    using first_violated_Some [OF assms(6) [unfolded transaction_check_def]] assms(1,3)
    by (auto simp: row_of_def batch_entry_def entry_dto_ok_def null_or_def value_error_def split: option.splits)
qed

lemma checked_row_fk:
  assumes "db_ok db" "a \<in> set (accounts db)" "t_account_id r = a_id a" "t_currency r = a_currency a"
    and "t_category_id r = None" "null_or (\<lambda>i. i \<in> i_id ` set (instruments db)) (t_instrument_id r)"
  shows "transaction_fk db r = None"
  using assms db_ok_accounts(4) [OF assms(1,2)] by (auto simp: transaction_fk_def first_violated_None null_or_def)

definition fresh_ids :: "(nat \<Rightarrow> uuid) \<Rightarrow> nat \<Rightarrow> db \<Rightarrow> bool" where
  "fresh_ids fresh n db \<longleftrightarrow> distinct (map fresh [0..<n]) \<and>
     list_all (\<lambda>i. is_uuid (fresh i) \<and> fresh i \<notin> t_id ` set (transactions db)) [0..<n]"

lemma fresh_row_ids:
  assumes "list_all2 (row_of rt) (map (\<lambda>(i, e). batch_entry now (fresh i) e) (enumerate 0 entries)) rows"
    and "pg_ok rt" "fresh_ids fresh (length entries) db"
  shows "map t_id rows = map fresh [0..<length entries]"
proof (rule nth_equalityI)
  show len: "length (map t_id rows) = length (map fresh [0..<length entries])"
    using list_all2_lengthD [OF assms(1)] by simp
  fix i assume "i < length (map t_id rows)"
  then have i: "i < length entries" "i < length rows" using len by auto
  have "row_of rt (batch_entry now (fresh i) (entries ! i)) (rows ! i)"
    using list_all2_nthD2 [OF assms(1) i(2)] i by (simp add: nth_enumerate_eq)
  moreover have "is_uuid (fresh i)" using assms(3) i by (auto simp: fresh_ids_def list_all_iff)
  ultimately show "map t_id rows ! i = map fresh [0..<length entries] ! i"
    using i pg_okD(1) [OF assms(2)] by (simp add: row_of_def batch_entry_def)
qed

lemma list_all2_enumerateD:
  assumes "list_all2 P (map (\<lambda>(i, e). f i e) (enumerate 0 es)) rs" "r \<in> set rs"
  shows "\<exists>i e. e \<in> set es \<and> P (f i e) r"
proof -
  obtain x where "x \<in> set (map (\<lambda>(i, e). f i e) (enumerate 0 es))" "P x r"
    using list_all2_set2 [OF assms] by blast
  then show ?thesis by (auto simp: in_set_enumerate_eq) (metis nth_mem)
qed

lemma insert_batch_error:
  assumes ok: "pg_ok rt" "db_ok db" "fresh_ids fresh (length entries) db"
    and batch: "batch = map (\<lambda>(i, e). batch_entry now (fresh i) e) (enumerate 0 entries)"
    and dto: "list_all (entry_dto_ok isUUID4 isISO8601) entries"
    and acc: "\<forall>e\<in>set entries. needsInstrument e = (truthy (e_instrument_symbol e) \<noteq> None) \<and>
        (\<exists>a\<in>set (accounts db). a_id a = e_account_id e \<and> a_currency a = e_currency e)"
    and ids: "instrument_ids (batch_symbols batch) db = Inr ids"
      "\<forall>s\<in>set (batch_symbols batch). js_map_get ids s \<noteq> None"
    and rows: "list_all2 (\<lambda>tx r. save_row rt ids rates tx = Inr r) batch rows"
    and err: "insert_transactions rows db = Inl x"
  shows "value_error x"
proof -
  have rof: "list_all2 (row_of rt) batch rows" using rows by (auto intro: list_all2_mono save_row_row_of)
  have tids: "map t_id rows = map fresh [0..<length entries]"
    using fresh_row_ids rof batch ok by blast
  then have new: "distinct (map t_id rows)" using ok(3) by (simp add: fresh_ids_def)
  have unused: "\<forall>r\<in>set rows. t_id r \<notin> t_id ` set (transactions db)"
  proof
    fix r assume "r \<in> set rows"
    then have "t_id r \<in> set (map fresh [0..<length entries])" using tids by (metis image_eqI set_map)
    then obtain i where i: "i < length entries" "t_id r = fresh i" by auto
    then have "fresh i \<notin> t_id ` set (transactions db)" using ok(3) by (simp add: fresh_ids_def list_all_iff)
    then show "t_id r \<notin> t_id ` set (transactions db)" using i(2) by simp
  qed
  have fk: "transaction_fk db r = None" if r: "r \<in> set rows" for r
  proof -
    obtain i e where e: "e \<in> set entries" "save_row rt ids rates (batch_entry now (fresh i) e) = Inr r"
      using list_all2_enumerateD [OF rows [unfolded batch] r] by blast
    then obtain a where a: "a \<in> set (accounts db)" "a_id a = e_account_id e" "a_currency a = e_currency e"
      using acc by blast
    have "row_of rt (batch_entry now (fresh i) e) r" using e(2) by (rule save_row_row_of)
    then have "t_account_id r = a_id a" "t_currency r = a_currency a" "t_category_id r = None"
      using a pg_okD(1) [OF ok(1)] db_ok_accounts(1) [OF ok(2) a(1)] by (auto simp: row_of_def batch_entry_def)
    moreover have "null_or (\<lambda>i. i \<in> i_id ` set (instruments db)) (t_instrument_id r)"
      using save_row_instrument [OF e(2)] instrument_ids_get [OF ids(1)]
      by (auto simp: null_or_def split: option.splits)
    ultimately show ?thesis using checked_row_fk ok(2) a(1) by blast
  qed
  have "\<exists>r\<in>set rows. \<exists>n. transaction_check r = Some n \<and> x = db_error ''23514'' n"
    using err fk new unused by (auto simp: insert_transactions_def bindE_Inl dest: add_rows_Inl check_fks_Inl)
  then obtain r n where r: "r \<in> set rows" "transaction_check r = Some n" "x = db_error ''23514'' n" by blast
  obtain i e where e: "e \<in> set entries" "save_row rt ids rates (batch_entry now (fresh i) e) = Inr r"
    using list_all2_enumerateD [OF rows [unfolded batch] r(1)] by blast
  have "js_map_get ids s \<noteq> None" if "e_instrument_symbol e = Some s" for s
  proof -
    obtain j where "(j, e) \<in> set (enumerate 0 entries)" using enumerate_mem [OF e(1), of 0] by blast
    then have "batch_entry now (fresh j) e \<in> set batch" unfolding batch by force
    then have "s \<in> set (batch_symbols batch)"
      using that by (auto simp: set_batch_symbols batch_entry_def intro!: bexI [of _ "batch_entry now (fresh j) e"])
    then show ?thesis using ids(2) by blast
  qed
  then show ?thesis
    using checked_row_constraints [OF save_row_row_of [OF e(2)] e(2) _ _ _ r(2)] dto acc e(1) r(3)
    by (auto simp: list_all_iff)
qed

lemma saveMany_Inl:
  assumes ok: "pg_ok rt" "db_ok db" "fresh_ids fresh (length entries) db"
    and batch: "batch = map (\<lambda>(i, e). batch_entry now (fresh i) e) (enumerate 0 entries)"
    and dto: "list_all (entry_dto_ok isUUID4 isISO8601) entries"
    and acc: "\<forall>e\<in>set entries. needsInstrument e = (truthy (e_instrument_symbol e) \<noteq> None) \<and>
        (\<exists>a\<in>set (accounts db). a_id a = e_account_id e \<and> a_currency a = e_currency e)"
    and err: "saveMany rt cache batch db = (Inl x, db')"
  shows "client_error x \<or> value_error x"
proof -
  have ne: "batch \<noteq> []" using err by (auto simp: saveMany_def)
  then consider "instrument_ids (batch_symbols batch) db = Inl x"
    | u where "x = unknown_instruments u"
    | "mapE (\<lambda>tx. date_of rt (tx_booked_at tx)) batch = Inl x"
    | dates where "getEffectiveRates rt cache (zip (map tx_currency batch) dates) db = Inl x"
    | ids rates where "mapE (save_row rt ids rates) batch = Inl x"
    | ids rates rows where "instrument_ids (batch_symbols batch) db = Inr ids"
        "\<forall>s\<in>set (batch_symbols batch). js_map_get ids s \<noteq> None"
        "mapE (save_row rt ids rates) batch = Inr rows" "insert_transactions rows db = Inl x"
    using err by (auto simp: saveMany_def Let_def bindS_Inl filter_empty_conv split: if_splits)
  then show ?thesis
  proof cases
    case 1
    then show ?thesis by (auto simp: instrument_ids_def bindE_Inl dest!: mapE_Inl dest: value_error_bind split: if_splits)
  next
    case 5
    then show ?thesis by (auto dest!: mapE_Inl dest: save_row_Inl)
  next
    case 6
    then show ?thesis using insert_batch_error [OF ok batch dto acc] by (auto simp: mapE_Inr)
  qed (auto dest!: mapE_Inl dest: value_error_bind getEffectiveRates_error)
qed

lemma update_balances_Inl: "update_balances rt ds db = (Inl x, db') \<Longrightarrow> value_error x"
proof (induction rt ds arbitrary: db rule: update_balances.induct)
  case (2 rt ident delta rest)
  have "add_balance u delta d = Inl x \<Longrightarrow> value_error x" for u d
    by (auto simp: add_balance_def value_error_def split: if_splits)
  then show ?case using 2
    by (auto simp: bindS_Inl accounts_updateBalance_def dest: value_error_bind)
qed simp

lemma create_body_Inl:
  assumes "pg_ok rt" "db_ok db" "fresh_ids fresh (length entries) db"
    and "list_all (entry_dto_ok isUUID4 isISO8601) entries"
    and "create_body rt cache now fresh entries user db = (Inl x, db')"
  shows "client_error x \<or> value_error x"
proof -
  consider d where "accounts_findByIds rt (js_uniq (map e_account_id entries)) db = (Inl x, d)"
    | m where "build_batch user m now fresh entries [] [] = Inl x"
    | found batch deltas d where "accounts_findByIds rt (js_uniq (map e_account_id entries)) db = (Inr found, db)"
        "build_batch user (js_map_of (map (\<lambda>a. (acc_id a, a)) found)) now fresh entries [] [] = Inr (batch, deltas)"
        "saveMany rt cache batch db = (Inl x, d)"
    | deltas d d' where "update_balances rt deltas d = (Inl x, d')"
  proof (cases "accounts_findByIds rt (js_uniq (map e_account_id entries)) db")
    case (Pair r d)
    show thesis
    proof (cases r)
      case (Inl y)
      then show thesis using Pair assms(5) that(1) [of d] by (simp add: create_body_def bindS_def)
    next
      case (Inr found)
      then have f: "accounts_findByIds rt (js_uniq (map e_account_id entries)) db = (Inr found, db)"
        using Pair findByIds_Inr(1) by blast
      show thesis
      proof (cases "build_batch user (js_map_of (map (\<lambda>a. (acc_id a, a)) found)) now fresh entries [] []")
        case (Inl y)
        then show thesis using f assms(5) that(2) by (simp add: create_body_def bindS_def [of "accounts_findByIds _ _"] throwS_def)
      next
        case (Inr p)
        obtain batch deltas where p: "p = (batch, deltas)" by fastforce
        then have "bindS (saveMany rt cache batch) (\<lambda>_. bindS (update_balances rt deltas) (\<lambda>_. returnS batch)) db = (Inl x, db')"
          using f Inr assms(5) by (simp add: create_body_def bindS_def [of "accounts_findByIds _ _"])
        then show thesis using that(3) [OF f] that(4) Inr p by (auto simp: bindS_Inl)
      qed
    qed
  qed
  then show ?thesis
  proof cases
    case 1
    then show ?thesis
      by (auto simp: accounts_findByIds_def bindS_Inl dest!: mapE_Inl dest: value_error_bind split: if_splits)
  next
    case 3
    let ?m = "account_index rt (js_uniq (map e_account_id entries)) db"
    have checks: "\<forall>e\<in>set entries. \<exists>a. check_entry user ?m e = Inr a"
      and batch: "batch = map (\<lambda>(i, e). batch_entry now (fresh i) e) (enumerate 0 entries)"
      using 3(2) findByIds_Inr(2) [OF 3(1)] by (auto simp: build_batch_Inr)
    have "needsInstrument e = (truthy (e_instrument_symbol e) \<noteq> None) \<and>
        (\<exists>a\<in>set (accounts db). a_id a = e_account_id e \<and> a_currency a = e_currency e)" if e: "e \<in> set entries" for e
    proof -
      obtain x where "check_entry user ?m e = Inr x" using checks e by blast
      then show ?thesis
        using account_index_get [OF db_ok_distinct(1) [OF assms(2)]] by (fastforce simp: check_entry_Inr)
    qed
    then show ?thesis using saveMany_Inl [OF assms(1-3) batch assms(4) _ 3(3)] by blast
  qed (auto dest: build_batch_Inl update_balances_Inl)
qed

section \<open>Reading back\<close>

lemma instrument_symbol_back:
  assumes "db_ok db" "instrument_ids symbols db = Inr ids" "js_map_get ids s = Some i"
  shows "symbol_of db (Some i) = Some s"
proof -
  obtain ss where "ids = js_map_of (map (\<lambda>i. (i_symbol i, i_id i)) (filter (\<lambda>i. i_symbol i \<in> set ss) (instruments db)))"
    using assms(2,3) by (auto simp: instrument_ids_def split: if_splits)
  then have "map_of (rev (map (\<lambda>i. (i_symbol i, i_id i)) (filter (\<lambda>i. i_symbol i \<in> set ss) (instruments db)))) s = Some i"
    using assms(3) by (simp add: js_map_get_of)
  then obtain r where "r \<in> set (instruments db)" "i_symbol r = s" "i_id r = i"
    by (auto dest!: map_of_SomeD)
  then show ?thesis
    using find_key [OF db_ok_distinct(3) [OF assms(1)]] by (auto simp: symbol_of_def)
qed

lemma transactions_getById_own:
  assumes "pg_ok rt" "db_ok db" "t \<in> set (transactions db)" "a \<in> set (accounts db)"
    and "a_id a = t_account_id t" "a_user_id a = au_id user"
  shows "transactions_getById rt drift (t_id t) user db = (Inr (toTransaction (tx_toDomain db t) drift), db)"
proof -
  have "List.find (\<lambda>r. t_id r = t_id t) (transactions db) = Some t"
    using find_key [OF db_ok_distinct(2) [OF assms(2)] assms(3)] .
  moreover have "List.find (\<lambda>r. a_id r = a_id a) (accounts db) = Some a"
    using find_key [OF db_ok_distinct(1) [OF assms(2)] assms(4)] .
  moreover have "pg_uuid_in rt (t_id t) = Some (t_id t)" "pg_uuid_in rt (a_id a) = Some (a_id a)"
    using assms(1-4) db_ok_transactions(1) db_ok_accounts(1) pg_okD(1) by blast+
  ultimately show ?thesis
    using assms(5,6) by (simp add: transactions_getById_def transactions_findById_def accounts_findById_def
        bind_uuid_def svc_simps tx_toDomain_def)
qed

text \<open>The domain object of a saved row is the transaction of the batch, its date normalised.\<close>

lemma tx_toDomain_saved:
  assumes "pg_ok rt" "db_ok db" "save_row rt ids rates tx = Inr r" "instrument_ids symbols db = Inr ids"
    and "\<And>s. tx_instrument_symbol tx = Some s \<Longrightarrow> s \<noteq> [] \<and> js_map_get ids s \<noteq> None"
    and "is_uuid (tx_id tx)" "is_uuid (tx_account_id tx)" "js_safe (tx_amount_cents tx)"
    and "null_or js_safe (tx_quantity_micro tx)" "tx_created_at tx = toISOString now" "iso_range now"
    and "instruments db' = instruments db"
  shows "tx_toDomain db' r = tx\<lparr>tx_booked_at := toISOString (t_booked_at r)\<rparr>"
proof -
  have r: "row_of rt tx r" using assms(3) by (rule save_row_row_of)
  have "symbol_of db' = symbol_of db" using assms(12) by (simp add: fun_eq_iff symbol_of_def split: option.splits)
  moreover have "symbol_of db (t_instrument_id r) = tx_instrument_symbol tx"
    using save_row_instrument [OF assms(3)] assms(5) instrument_symbol_back [OF assms(2,4)]
    by (cases "tx_instrument_symbol tx") (auto simp: truthy_def symbol_of_def split: option.splits)
  moreover have "map_option js_round (tx_quantity_micro tx) = tx_quantity_micro tx"
    using assms(9) by (cases "tx_quantity_micro tx") (auto simp: null_or_def)
  moreover have "t_created_at r = now"
    using r assms(10,11) by (simp add: row_of_def date_of_def)
  ultimately show ?thesis
    using r assms(1,6-10) by (simp add: tx_toDomain_def row_of_def pg_okD(1))
qed

section \<open>Paging\<close>

text \<open>The transactions on all accounts of a user, or on one of them.\<close>

definition transactions_of :: "db \<Rightarrow> AuthUser \<Rightarrow> uuid option \<Rightarrow> tx_row list" where
  "transactions_of db user account =
     filter (\<lambda>t. owned_by db (au_id user) t \<and> null_or (\<lambda>i. t_account_id t = i) account) (transactions db)"

text \<open>The parameter \<open>account_id\<close> of a request: absent (or empty), or the id of an account of the user.\<close>

definition account_choice :: "runtime \<Rightarrow> db \<Rightarrow> AuthUser \<Rightarrow> string option \<Rightarrow> uuid option \<Rightarrow> bool" where
  "account_choice rt db user account_id account \<longleftrightarrow>
     (case truthy account_id of
        None \<Rightarrow> account = None
      | Some aid \<Rightarrow> \<exists>a\<in>set (accounts db). pg_uuid_in rt aid = Some (a_id a) \<and> a_user_id a = au_id user \<and>
          account = Some (a_id a))"

definition tx_cursor :: "tx_row \<Rightarrow> string" where
  "tx_cursor t = encodeCursor (toISOString (t_booked_at t)) (t_id t)"

definition tx_view :: "db \<Rightarrow> bool \<Rightarrow> tx_row \<Rightarrow> TransactionResponse" where
  "tx_view db drift t = toTransaction (tx_toDomain db t) drift"

locale transactions_paging =
  fixes rt :: runtime and db :: db and user :: AuthUser and limit :: nat and drift :: bool
    and account_id :: "string option" and account :: "uuid option"
  assumes page_db_ok: "page_db_ok rt db user limit"
    and choice: "account_choice rt db user account_id account"
begin

text \<open>The checks of \<open>list\<close> on the chosen account pass, and its query gets the id of the account.\<close>

lemma chosen:
  "bindS (case truthy account_id of
      None \<Rightarrow> returnS ()
    | Some aid \<Rightarrow> bindS (accounts_findById rt aid) (\<lambda>found.
        case found of
          None \<Rightarrow> throwS (account_not_found aid)
        | Some a \<Rightarrow> liftS (assertOwner (acc_user_id a) user (''account '' @ aid)))) k db = k () db"
  "optE (bind_uuid rt) (truthy account_id) = Inr account"
proof -
  consider "truthy account_id = None" "account = None"
    | aid a where "truthy account_id = Some aid" "a \<in> set (accounts db)" "pg_uuid_in rt aid = Some (a_id a)"
        "a_user_id a = au_id user" "account = Some (a_id a)"
    using choice by (auto simp: account_choice_def split: option.splits)
  then show "bindS (case truthy account_id of
      None \<Rightarrow> returnS ()
    | Some aid \<Rightarrow> bindS (accounts_findById rt aid) (\<lambda>found.
        case found of
          None \<Rightarrow> throwS (account_not_found aid)
        | Some a \<Rightarrow> liftS (assertOwner (acc_user_id a) user (''account '' @ aid)))) k db = k () db"
      "optE (bind_uuid rt) (truthy account_id) = Inr account"
  proof (atomize(full), cases)
    case (2 aid a)
    have "db_ok db" using page_db_ok by (simp add: page_db_ok_def)
    then have "List.find (\<lambda>r. a_id r = a_id a) (accounts db) = Some a"
      using find_key [OF db_ok_distinct(1) 2(2)] by simp
    then show "bindS (case truthy account_id of
        None \<Rightarrow> returnS ()
      | Some aid \<Rightarrow> bindS (accounts_findById rt aid) (\<lambda>found.
          case found of
            None \<Rightarrow> throwS (account_not_found aid)
          | Some a \<Rightarrow> liftS (assertOwner (acc_user_id a) user (''account '' @ aid)))) k db = k () db \<and>
        optE (bind_uuid rt) (truthy account_id) = Inr account"
      using 2 by (simp add: accounts_findById_def bind_uuid_def svc_simps assertOwner_def)
  qed (simp add: svc_simps)
qed

lemma user_rows:
  assumes "decode_optional c = Inr p" "optE (bind_cursor rt) p = Inr after"
  shows "fst (transactions_list rt drift user limit c account_id db) =
    Inr (page_of (tx_view db drift) tx_cursor limit
      (keyset_query tx_key limit after (transactions_of db user account)))"
proof -
  have "bind_uuid rt (au_id user) = Inr (au_id user)"
    using page_db_ok bind_uuid_canonical by (simp add: page_db_ok_def pg_okD)
  moreover have "(\<lambda>l. encodeCursor (tx_booked_at l) (tx_id l)) \<circ> tx_toDomain db = tx_cursor"
    by (simp add: fun_eq_iff tx_cursor_def tx_toDomain_def)
  moreover have "(\<lambda>t. toTransaction t drift) \<circ> tx_toDomain db = tx_view db drift"
    by (simp add: fun_eq_iff tx_view_def)
  ultimately show ?thesis using assms
    unfolding transactions_list_def chosen(1)
    by (simp add: transactions_findPage_def svc_simps chosen(2) page_of_map transactions_of_def del: bind_results)
qed

lemma tx_row_cursor:
  assumes "t \<in> set (transactions_of db user account)"
  shows "decode_optional (Some (tx_cursor t)) = Inr (Some \<lparr>cur_c = toISOString (t_booked_at t), cur_id = t_id t\<rparr>)"
    "bind_cursor rt \<lparr>cur_c = toISOString (t_booked_at t), cur_id = t_id t\<rparr> = Inr (tx_key t)"
proof -
  have "is_uuid (t_id t)" "iso_range (t_booked_at t)" "pg_ok rt"
    using assms page_db_ok db_ok_transactions(1) by (auto simp: page_db_ok_def transactions_of_def list_all_iff)
  then show "decode_optional (Some (tx_cursor t)) = Inr (Some \<lparr>cur_c = toISOString (t_booked_at t), cur_id = t_id t\<rparr>)"
      "bind_cursor rt \<lparr>cur_c = toISOString (t_booked_at t), cur_id = t_id t\<rparr> = Inr (tx_key t)"
    by (simp_all add: tx_cursor_def decode_optional_cursor bind_cursor_canonical tx_key_def)
qed

end

sublocale transactions_paging \<subseteq> keyset tx_key "transactions_of db user account" limit
  "tx_view db drift" tx_cursor "\<lambda>c. fst (transactions_list rt drift user limit c account_id db)"
proof
  have "distinct (map t_id (transactions_of db user account))"
    using page_db_ok db_ok_distinct(2) by (auto simp: page_db_ok_def transactions_of_def distinct_map_filter)
  then show "distinct (map tx_key (transactions_of db user account))"
    by (auto simp: tx_key_def [abs_def] distinct_map inj_on_def)
  show "0 < limit" using page_db_ok by (simp add: page_db_ok_def)
  show "fst (transactions_list rt drift user limit None account_id db) =
    Inr (page_of (tx_view db drift) tx_cursor limit (keyset_query tx_key limit None (transactions_of db user account)))"
    by (rule user_rows [of None None None]) (simp_all add: decode_optional_def)
  show "fst (transactions_list rt drift user limit (Some (tx_cursor t)) account_id db) =
    Inr (page_of (tx_view db drift) tx_cursor limit
      (keyset_query tx_key limit (Some (tx_key t)) (transactions_of db user account)))"
    if "t \<in> set (transactions_of db user account)" for t
    by (rule user_rows [OF tx_row_cursor(1) [OF that]]) (simp add: tx_row_cursor(2) [OF that])
qed

context transactions_paging
begin

lemma transactions_read:
  "length (transactions_of db user account) < n \<Longrightarrow>
   walk (\<lambda>c. fst (transactions_list rt drift user limit c account_id db)) n None =
     Inr (map (tx_view db drift) (newest_first tx_key (transactions_of db user account)), True)"
  by (rule walk_all)

end

lemma example_choices:
  "account_choice canonical_runtime example_db alice None None"
  "account_choice canonical_runtime example_db alice (Some (a_id usd_account)) (Some (a_id usd_account))"
  by code_simp+

interpretation example_tx_pages: transactions_paging canonical_runtime example_db alice 1 False None None
  by unfold_locales (rule example_pages.page_db_ok, rule example_choices(1))

interpretation example_account_pages: transactions_paging canonical_runtime example_db alice 1 False
    "Some (a_id usd_account)" "Some (a_id usd_account)"
  by unfold_locales (rule example_pages.page_db_ok, rule example_choices(2))

section \<open>Evaluating a create\<close>

lemma saveMany_eval:
  assumes "txs \<noteq> []" "instrument_ids (batch_symbols txs) db = Inr ids"
    "filter (\<lambda>s. js_map_get ids s = None) (batch_symbols txs) = []"
    "mapE (\<lambda>tx. date_of rt (tx_booked_at tx)) txs = Inr dates"
    "getEffectiveRates rt cache (zip (map tx_currency txs) dates) db = Inr rates"
    "mapE (save_row rt ids rates) txs = Inr rows" "insert_transactions rows db = Inr db1"
  shows "saveMany rt cache txs db = (Inr txs, db1)"
  using assms by (simp add: saveMany_def Let_def bindS_Inr)

lemma save_row_eval:
  assumes "date_of rt (tx_booked_at tx) = Inr b" "date_of rt (tx_created_at tx) = Inr c"
    "bind_uuid rt (tx_id tx) = Inr i" "bind_uuid rt (tx_account_id tx) = Inr a"
    "bind_text (tx_currency tx) = Inr cur" "bind_bigint (tx_amount_cents tx) = Inr amount"
    "js_map_get rates (fxRateKey (tx_currency tx) b) = Some r" "bind_numeric rt r = Inr q"
    "optE bind_bigint (tx_quantity_micro tx) = Inr quantity" "optE bind_text (tx_description tx) = Inr d"
  shows "save_row rt ids rates tx = Inr \<lparr>t_id = i, t_account_id = a,
    t_instrument_id = (case truthy (tx_instrument_symbol tx) of None \<Rightarrow> None | Some s \<Rightarrow> js_map_get ids s),
    t_category_id = None, t_currency = cur, t_type = tx_type tx, t_status = Posted,
    t_amount_cents = amount, t_fx_rate = q, t_quantity_micro = quantity, t_unit_price = None,
    t_booked_at = b, t_description = d, t_created_at = c\<rparr>"
  using assms by (simp add: save_row_def)

lemma create_eval:
  assumes "accounts_findByIds rt (js_uniq (map e_account_id entries)) db = (Inr found, db)"
    "build_batch user (js_map_of (map (\<lambda>a. (acc_id a, a)) found)) (toISOString now) fresh entries [] [] = Inr (batch, deltas)"
    "saveMany rt cache batch db = (Inr u, db1)" "update_balances rt deltas db1 = (Inr (), db2)"
  shows "transactions_create rt cache drift now fresh entries user db = (Inr (map (\<lambda>t. toTransaction t drift) batch), db2)"
  using assms by (simp add: transactions_create_def transaction_def create_body_def returnS_def
      bindS_def [of "accounts_findByIds _ _"] bindS_def [of "saveMany _ _ _"] bindS_def [of "update_balances _ _"] bindS_def [of "transaction _"])

lemma create_eval_Inl:
  assumes "accounts_findByIds rt (js_uniq (map e_account_id entries)) db = (Inr found, db)"
    "build_batch user (js_map_of (map (\<lambda>a. (acc_id a, a)) found)) (toISOString now) fresh entries [] [] = Inl x"
  shows "transactions_create rt cache drift now fresh entries user db = (Inl x, db)"
  using assms by (simp add: transactions_create_def transaction_def create_body_def throwS_def
      bindS_def [of "accounts_findByIds _ _"] bindS_def [of "transaction _"])

definition example_entries :: "TransactionEntryDto list" where
  "example_entries =
    [\<lparr>e_account_id = a_id usd_account, e_type = Buy, e_amount_cents = 52000, e_currency = ''USD'',
      e_booked_at = ''2026-01-02T12:00:00.000Z'', e_description = None,
      e_instrument_symbol = Some ''VOO'', e_quantity_micro = Some 1000000\<rparr>,
     \<lparr>e_account_id = a_id uah_account, e_type = Expense, e_amount_cents = 4599, e_currency = ''UAH'',
      e_booked_at = ''2026-01-01T10:00:00.000Z'', e_description = Some ''Lunch'',
      e_instrument_symbol = None, e_quantity_micro = None\<rparr>]"

definition example_fresh :: "nat \<Rightarrow> uuid" where
  "example_fresh i = uid (if i = 0 then CHR ''0'' else CHR ''9'')"

definition example_now :: string where "example_now = ''2026-01-01T12:00:00.000Z''"

definition example_batch :: "Transaction list" where
  "example_batch = [batch_entry example_now (uid (CHR ''0'')) (example_entries ! 0),
     batch_entry example_now (uid (CHR ''9'')) (example_entries ! 1)]"

definition example_rates :: "(string, string) js_map" where
  "example_rates = [(''USD:2026-01-02'', ''42.4000000000''), (''UAH:2026-01-01'', ''1'')]"

definition example_rows :: "tx_row list" where
  "example_rows =
    [\<lparr>t_id = uid (CHR ''0''), t_account_id = a_id usd_account, t_instrument_id = Some (i_id voo), t_category_id = None,
      t_currency = ''USD'', t_type = Buy, t_status = Posted, t_amount_cents = 52000, t_fx_rate = 424000000000,
      t_quantity_micro = Some 1000000, t_unit_price = None, t_booked_at = 1767355200000, t_description = None,
      t_created_at = 1767268800000\<rparr>,
     \<lparr>t_id = uid (CHR ''9''), t_account_id = a_id uah_account, t_instrument_id = None, t_category_id = None,
      t_currency = ''UAH'', t_type = Expense, t_status = Posted, t_amount_cents = 4599, t_fx_rate = numeric_one,
      t_quantity_micro = None, t_unit_price = None, t_booked_at = 1767261600000, t_description = Some ''Lunch'',
      t_created_at = 1767268800000\<rparr>]"

definition example_db1 :: db where
  "example_db1 = example_db\<lparr>transactions := transactions example_db @ example_rows\<rparr>"

definition example_db2 :: db where
  "example_db2 = example_db1\<lparr>accounts := [uah_account\<lparr>a_balance_cents := 95401\<rparr>, usd_account\<lparr>a_balance_cents := 448000\<rparr>, bob_account]\<rparr>"

lemma example_save: "saveMany canonical_runtime [] example_batch example_db = (Inr example_batch, example_db1)"
proof (rule saveMany_eval)
  show "example_batch \<noteq> []" by (simp add: example_batch_def)
  show "instrument_ids (batch_symbols example_batch) example_db = Inr [(''VOO'', i_id voo)]" by code_simp
  show "filter (\<lambda>s. js_map_get [(''VOO'', i_id voo)] s = None) (batch_symbols example_batch) = []" by code_simp
  show "mapE (\<lambda>tx. date_of canonical_runtime (tx_booked_at tx)) example_batch = Inr [1767355200000, 1767261600000]" by code_simp
  show "getEffectiveRates canonical_runtime [] (zip (map tx_currency example_batch) [1767355200000, 1767261600000]) example_db = Inr example_rates"
  proof -
    have days: "toDateOnly 1767355200000 = ''2026-01-02''" "toDateOnly 1767261600000 = ''2026-01-01''" by code_simp+
    have usd: "getEffectiveRate canonical_runtime [] ''USD'' 1767355200000 example_db = Inr ''42.4000000000''"
      by code_simp
    have "map tx_currency example_batch = [''USD'', ''UAH'']" by code_simp
    then show ?thesis
      by (simp add: getEffectiveRates_def unique_pairs_def fxRateKey_def js_map_set_def days usd example_rates_def)
        (simp add: getEffectiveRate_def)
  qed
  have r0: "save_row canonical_runtime [(''VOO'', i_id voo)] example_rates (example_batch ! 0) = Inr (example_rows ! 0)"
    by (rule trans [OF save_row_eval [where b = 1767355200000 and c = 1767268800000 and i = "uid (CHR ''0'')"
          and a = "a_id usd_account" and cur = "''USD''" and amount = 52000 and r = "''42.4000000000''"
          and q = 424000000000 and quantity = "Some 1000000" and d = None]]) code_simp+
  have r1: "save_row canonical_runtime [(''VOO'', i_id voo)] example_rates (example_batch ! 1) = Inr (example_rows ! 1)"
    by (rule trans [OF save_row_eval [where b = 1767261600000 and c = 1767268800000 and i = "uid (CHR ''9'')"
          and a = "a_id uah_account" and cur = "''UAH''" and amount = 4599 and r = "''1''"
          and q = numeric_one and quantity = None and d = "Some ''Lunch''"]]) code_simp+
  show "mapE (save_row canonical_runtime [(''VOO'', i_id voo)] example_rates) example_batch = Inr example_rows"
    using r0 r1 by (simp add: example_batch_def example_rows_def)
  show "insert_transactions example_rows example_db = Inr example_db1" by code_simp
qed

lemma example_create:
  "transactions_create canonical_runtime [] False 1767268800000 example_fresh example_entries alice example_db =
     (Inr (map (\<lambda>t. toTransaction t False) example_batch), example_db2)"
proof (rule create_eval)
  show "accounts_findByIds canonical_runtime (js_uniq (map e_account_id example_entries)) example_db =
      (Inr (map account_toDomain [uah_account, usd_account]), example_db)" by code_simp
  show "build_batch alice (js_map_of (map (\<lambda>a. (acc_id a, a)) (map account_toDomain [uah_account, usd_account])))
      (toISOString 1767268800000) example_fresh example_entries [] [] =
    Inr (example_batch, [(a_id usd_account, -52000), (a_id uah_account, -4599)])" by code_simp
  show "saveMany canonical_runtime [] example_batch example_db = (Inr example_batch, example_db1)" by (rule example_save)
  show "update_balances canonical_runtime [(a_id usd_account, -52000), (a_id uah_account, -4599)] example_db1 = (Inr (), example_db2)"
    by code_simp
qed
section \<open>Properties\<close>

text \<open>
  (C2) The ledger survives a batch. When a create succeeds on a database that satisfies its
  constraints, every account still has the opening balance it had (its balance moved by exactly the
  signed sum of the transactions inserted for it, also when a batch repeats an account), and the
  constraints hold again. The batch's amounts must sum to at most \<open>2 ^ 53\<close>, since the deltas are
  added in doubles.
\<close>

theorem create_keeps_ledger:
  assumes "transactions_create rt cache drift now fresh entries user db = (Inr resp, db')"
    and "pg_ok rt" "db_ok db" "safe_batch entries"
  shows "db_ok db' \<and> map a_id (accounts db') = map a_id (accounts db) \<and>
    (\<forall>aid\<in>a_id ` set (accounts db). opening_balance db' aid = opening_balance db aid)"
proof -
  obtain batch where b: "create_body rt cache (toISOString now) fresh entries user db = (Inr batch, db')"
    using assms(1) by (auto simp: transactions_create_def bindS_Inr)
  then have "db_ok db'" "map a_id (accounts db') = map a_id (accounts db)"
    by (auto elim: create_body_Inr [OF _ assms(2,3)])
  then show ?thesis using create_ledger_step [OF b assms(2,3,4)] by blast
qed

lemma example_safe: "safe_batch example_entries"
  by code_simp

theorem create_keeps_ledger_witness:
  "\<exists>resp db'. transactions_create canonical_runtime [] False 1767268800000 example_fresh
      example_entries alice example_db = (Inr resp, db') \<and>
    db_ok db' \<and> map a_id (accounts db') = map a_id (accounts example_db) \<and>
    (\<forall>aid\<in>a_id ` set (accounts example_db). opening_balance db' aid = opening_balance example_db aid)"
  using example_create create_keeps_ledger [OF example_create canonical_runtime_ok example_db_ok example_safe] by blast

text \<open>
  (C3) All or nothing. A create that fails leaves the database exactly as it was, whatever step
  failed. A create that succeeds appended one posted row per entry, in the order of the entries,
  every entry on an account of the calling user in that account's currency, and returned one
  transaction per entry.
\<close>

theorem create_all_or_nothing:
  assumes "pg_ok rt" "db_ok db"
  shows "case transactions_create rt cache drift now fresh entries user db of
      (Inl e, db') \<Rightarrow> db' = db
    | (Inr resp, db') \<Rightarrow>
        (\<exists>rows. transactions db' = transactions db @ rows \<and>
          list_all2 (\<lambda>e r. pg_uuid_in rt (e_account_id e) = Some (t_account_id r) \<and> t_type r = e_type e \<and>
            t_amount_cents r = e_amount_cents e \<and> t_currency r = e_currency e \<and> t_status r = Posted) entries rows) \<and>
        list_all (\<lambda>e. \<exists>a\<in>set (accounts db). a_id a = e_account_id e \<and> a_user_id a = au_id user \<and>
            a_currency a = e_currency e) entries \<and>
        map tr_id resp = map fresh [0..<length entries] \<and> map tr_account_id resp = map e_account_id entries"
proof (cases "create_body rt cache (toISOString now) fresh entries user db")
  case (Pair r d)
  show ?thesis
  proof (cases r)
    case (Inl e)
    then show ?thesis using Pair by (simp add: transactions_create_def transaction_def bindS_def)
  next
    case (Inr batch)
    then have c: "create_body rt cache (toISOString now) fresh entries user db = (Inr batch, d)" using Pair by simp
    obtain rows where rows: "batch = map (\<lambda>(i, e). batch_entry (toISOString now) (fresh i) e) (enumerate 0 entries)"
        "list_all2 (row_of rt) batch rows" "transactions d = transactions db @ rows"
        "\<forall>e\<in>set entries. \<exists>a\<in>set (accounts db). a_id a = e_account_id e \<and> a_user_id a = au_id user \<and> a_currency a = e_currency e"
      by (rule create_body_Inr [OF c assms]) auto
    have "list_all2 (\<lambda>e r. pg_uuid_in rt (e_account_id e) = Some (t_account_id r) \<and> t_type r = e_type e \<and>
        t_amount_cents r = e_amount_cents e \<and> t_currency r = e_currency e \<and> t_status r = Posted) entries rows"
      using rows(1,2) by (auto simp: list_all2_conv_all_nth nth_enumerate_eq row_of_def batch_entry_def)
    moreover have "map tx_id batch = map fresh [0..<length entries]" "map tx_account_id batch = map e_account_id entries"
      using rows(1) by (auto simp: batch_entry_def nth_enumerate_eq intro: nth_equalityI)
    ultimately show ?thesis
      using Pair Inr rows(3,4)
      by (auto simp: transactions_create_def transaction_def bindS_def returnS_def list_all_iff comp_def toTransaction_def)
  qed
qed

theorem create_all_or_nothing_witness:
  "case transactions_create canonical_runtime [] False 1767268800000 example_fresh (tl example_entries) bob example_db of
      (Inl e, db') \<Rightarrow> db' = example_db
    | (Inr resp, db') \<Rightarrow>
        (\<exists>rows. transactions db' = transactions example_db @ rows \<and>
          list_all2 (\<lambda>e r. pg_uuid_in canonical_runtime (e_account_id e) = Some (t_account_id r) \<and> t_type r = e_type e \<and>
            t_amount_cents r = e_amount_cents e \<and> t_currency r = e_currency e \<and> t_status r = Posted) (tl example_entries) rows) \<and>
        list_all (\<lambda>e. \<exists>a\<in>set (accounts example_db). a_id a = e_account_id e \<and> a_user_id a = au_id bob \<and>
            a_currency a = e_currency e) (tl example_entries) \<and>
        map tr_id resp = map example_fresh [0..<length (tl example_entries)] \<and>
        map tr_account_id resp = map e_account_id (tl example_entries)"
  by (rule create_all_or_nothing [OF canonical_runtime_ok example_db_ok])

text \<open>
  (C4) The errors of a create on a valid body. Either the service reports the problem itself (404
  for a missing account, 403 for a foreign one, 422 for a currency or instrument mismatch, an
  unknown instrument or a missing rate), or a value does not fit its column (a timestamp that is no
  date, an amount outside bigint, a quantity that is not positive, a rate that is not positive or
  equals one for a foreign currency). The instrument CHECK, the length CHECKs, every foreign key and
  the primary key are never what fails.
\<close>

theorem create_errors:
  assumes "pg_ok rt" "db_ok db" "fresh_ids fresh (length entries) db"
    and "create_transactions_dto_ok isUUID4 isISO8601 entries"
    and "fst (transactions_create rt cache drift now fresh entries user db) = Inl e"
  shows "client_error e \<or> value_error e"
proof -
  obtain d where "create_body rt cache (toISOString now) fresh entries user db = (Inl e, d)"
    using assms(5) by (auto simp: transactions_create_def transaction_def bindS_def returnS_def split: prod.splits sum.splits)
  moreover have "list_all (entry_dto_ok isUUID4 isISO8601) entries"
    using assms(4) by (simp add: create_transactions_dto_ok_def)
  ultimately show ?thesis by (intro create_body_Inl [OF assms(1-3)])
qed

theorem create_errors_witness:
  "\<exists>e. fst (transactions_create canonical_runtime [] False 1767268800000 example_fresh example_entries bob example_db) = Inl e \<and>
     (client_error e \<or> value_error e)"
proof -
  obtain e where "transactions_create canonical_runtime [] False 1767268800000 example_fresh
      example_entries bob example_db = (Inl e, example_db)"
  proof (rule create_eval_Inl [THEN that])
    show "accounts_findByIds canonical_runtime (js_uniq (map e_account_id example_entries)) example_db =
        (Inr (map account_toDomain [uah_account, usd_account]), example_db)" by code_simp
    show "build_batch bob (js_map_of (map (\<lambda>a. (acc_id a, a)) (map account_toDomain [uah_account, usd_account])))
        (toISOString 1767268800000) example_fresh example_entries [] [] =
      Inl (problem 403 ''forbidden'' (''account '' @ a_id usd_account @ '' belongs to another user''))" by code_simp
  qed
  then have e: "fst (transactions_create canonical_runtime [] False 1767268800000 example_fresh
      example_entries bob example_db) = Inl e" by simp
  have "fresh_ids example_fresh (length example_entries) example_db" by code_simp
  moreover have "create_transactions_dto_ok (\<lambda>_. True) (\<lambda>_. True) example_entries" by code_simp
  ultimately show ?thesis using create_errors [OF canonical_runtime_ok example_db_ok _ _ e] e by blast
qed

text \<open>
  (C5) What a create returned can be read back. After a successful create the caller reads each new
  transaction by the id in the response and gets the same body, except that \<open>booked_at\<close> comes back in
  the canonical form of the stored instant.
\<close>

theorem create_then_get:
  assumes "transactions_create rt cache drift now fresh entries user db = (Inr resp, db')"
    and "pg_ok rt" "db_ok db" "fresh_ids fresh (length entries) db" "safe_batch entries" "iso_range now"
    and "list_all (\<lambda>e. null_or js_safe (e_quantity_micro e)) entries" "i < length entries"
  shows "\<exists>t. date_of rt (e_booked_at (entries ! i)) = Inr t \<and>
    transactions_getById rt drift (fresh i) user db' = (Inr ((resp ! i)\<lparr>tr_booked_at := toISOString t\<rparr>), db')"
proof -
  obtain batch where b: "create_body rt cache (toISOString now) fresh entries user db = (Inr batch, db')"
      and resp: "resp = map (\<lambda>t. toTransaction t drift) batch"
    using assms(1) by (auto simp: transactions_create_def bindS_Inr)
  obtain rows where rows: "batch = map (\<lambda>(i, e). batch_entry (toISOString now) (fresh i) e) (enumerate 0 entries)"
      "db' = db\<lparr>transactions := transactions db @ rows,
             accounts := shift_balances (delta_for rt (foldl add_delta [] entries)) (accounts db)\<rparr>"
      "saveMany rt cache batch db = (Inr batch, db\<lparr>transactions := transactions db @ rows\<rparr>)" "db_ok db'"
      "\<forall>e\<in>set entries. \<exists>a\<in>set (accounts db). a_id a = e_account_id e \<and> a_user_id a = au_id user \<and> a_currency a = e_currency e"
    by (rule create_body_Inr [OF b assms(2,3)]) blast
  define tx where "tx = batch_entry (toISOString now) (fresh i) (entries ! i)"
  have len: "length batch = length entries" and nth: "batch ! i = tx"
    using rows(1) assms(8) by (simp_all add: tx_def nth_enumerate_eq)
  then have tx: "batch ! i = tx" "tx \<in> set batch" "length batch = length entries"
    using assms(8) nth_mem [of i batch] by auto
  obtain ids rates rows' where ids: "instrument_ids (batch_symbols batch) db = Inr ids"
      "\<forall>s\<in>set (batch_symbols batch). js_map_get ids s \<noteq> None"
      "list_all2 (\<lambda>tx r. save_row rt ids rates tx = Inr r) batch rows'"
      "insert_transactions rows' db = Inr (db\<lparr>transactions := transactions db @ rows\<rparr>)"
    using saveMany_Inr [OF rows(3)] tx(2) by (metis empty_iff list.set(1))
  have "transactions (db\<lparr>transactions := transactions db @ rows\<rparr>) = transactions db @ rows'"
    using ids(4) unfolding insert_transactions_Inr by (metis db.select_convs(7) db.surjective db.update_convs(7))
  then have same: "rows' = rows" by simp
  define r where "r = rows ! i"
  have r: "save_row rt ids rates tx = Inr r" "r \<in> set rows"
    using ids(3) same tx assms(8) by (auto simp: list_all2_conv_all_nth r_def)
  have sym: "s \<noteq> [] \<and> js_map_get ids s \<noteq> None" if s: "tx_instrument_symbol tx = Some s" for s
  proof -
    have get: "js_map_get ids s \<noteq> None" using ids(2) tx(2) s by (auto simp: set_batch_symbols)
    then obtain k where "js_map_get ids s = Some k" by blast
    then have "\<exists>q\<in>set (instruments db). i_symbol q = s"
      using instrument_symbol_back [OF assms(3) ids(1)] by (auto simp: symbol_of_def dest!: find_SomeD)
    then show ?thesis using get db_ok_instrument_symbol [OF assms(3)] by auto
  qed
  obtain a where a: "a \<in> set (accounts db)" "a_id a = e_account_id (entries ! i)" "a_user_id a = au_id user"
    using rows(5) assms(8) nth_mem by blast
  have uu: "is_uuid (fresh i)" "is_uuid (e_account_id (entries ! i))"
    using assms(4,8) db_ok_accounts(1) [OF assms(3) a(1)] a(2) by (auto simp: fresh_ids_def list_all_iff)
  have amount: "js_safe (e_amount_cents (entries ! i))"
    using assms(5,8) safe_batch_entry nth_mem by blast
  have dom: "tx_toDomain db' r = tx\<lparr>tx_booked_at := toISOString (t_booked_at r)\<rparr>"
    using assms(6,7,8) uu amount rows(2)
    by (intro tx_toDomain_saved [OF assms(2,3) r(1) ids(1) sym]) (auto simp: tx_def batch_entry_def list_all_length)
  have rof: "row_of rt tx r" using r(1) by (rule save_row_row_of)
  then have ra: "t_id r = fresh i" "t_account_id r = a_id a" "date_of rt (e_booked_at (entries ! i)) = Inr (t_booked_at r)"
    using uu a(2) pg_okD(1) [OF assms(2)] by (auto simp: row_of_def tx_def batch_entry_def)
  obtain a' where a': "a' \<in> set (accounts db')" "a_id a' = a_id a" "a_user_id a' = a_user_id a"
    using a(1) rows(2) by (force simp: shift_balances_def)
  have "transactions_getById rt drift (t_id r) user db' = (Inr (toTransaction (tx_toDomain db' r) drift), db')"
    using rows(2) r(2) a' ra a(3) by (intro transactions_getById_own [OF assms(2) rows(4) _ a'(1)]) auto
  then show ?thesis
    using ra dom tx assms(8) resp by (auto simp: toTransaction_def)
qed

theorem create_then_get_witness:
  "\<exists>t. date_of canonical_runtime (e_booked_at (example_entries ! 0)) = Inr t \<and>
    transactions_getById canonical_runtime False (example_fresh 0) alice example_db2 =
      (Inr ((map (\<lambda>t. toTransaction t False) example_batch ! 0)\<lparr>tr_booked_at := toISOString t\<rparr>), example_db2)"
proof (rule create_then_get [OF example_create canonical_runtime_ok example_db_ok])
  show "fresh_ids example_fresh (length example_entries) example_db" by code_simp
  show "safe_batch example_entries" by (rule example_safe)
  show "iso_range 1767268800000" by code_simp
  show "list_all (\<lambda>e. null_or js_safe (e_quantity_micro e)) example_entries" by code_simp
  show "0 < length example_entries" by code_simp
qed

text \<open>
  (C6) Paging through transactions: a client that follows \<open>next_cursor\<close> reads every transaction on
  the accounts of its user exactly once, by booking time and id descending, and none on the account
  of anyone else; with \<open>account_id\<close>, an account of the user in any spelling of its uuid, every
  transaction of that account exactly once, and no other.
\<close>

theorem transactions_walk:
  assumes "page_db_ok rt db user limit" "account_choice rt db user account_id account"
    and "length (transactions_of db user account) < n"
  shows "walk (\<lambda>c. fst (transactions_list rt drift user limit c account_id db)) n None =
    Inr (map (tx_view db drift) (newest_first tx_key (transactions_of db user account)), True)"
  using assms by (intro transactions_paging.transactions_read) (simp_all add: transactions_paging_def)

theorem transactions_walk_witness:
  "walk (\<lambda>c. fst (transactions_list canonical_runtime False alice 1 c (Some (a_id usd_account)) example_db)) 3 None =
     Inr (map (tx_view example_db False) (newest_first tx_key
       (transactions_of example_db alice (Some (a_id usd_account)))), True)"
proof -
  have "length (transactions_of example_db alice (Some (a_id usd_account))) < 3" by code_simp
  then show ?thesis using transactions_walk [OF example_pages.page_db_ok example_choices(2)] by blast
qed

end
