(* ===== verification/Auth.thy ===== *)
theory Auth
  imports Example_Data
begin

text \<open>
  Authentication and authorization (\<open>auth/\<close>): passwords, access tokens with their denylist,
  refresh tokens in rotating families, and the two global guards. HMAC, scrypt and the JWT library
  are the parameter \<open>auth_lib\<close>; random values (row ids, token bytes, token ids) are arguments.
  The clock is Postgres' \<open>now()\<close> in whole milliseconds.
\<close>

section \<open>The libraries\<close>

record AccessPayload =
  ap_sub :: uuid
  ap_role :: Role
  ap_sid :: uuid
  ap_jti :: uuid
  ap_exp :: int

text \<open>What \<open>signAsync\<close> gets: the claims of the call and the options of the call and the module.\<close>

record sign_request =
  sr_role :: Role
  sr_sid :: uuid
  sr_subject :: uuid
  sr_jwtid :: uuid
  sr_algorithm :: string
  sr_keyid :: string
  sr_issuer :: string
  sr_audience :: string
  sr_expiresIn :: int

record verify_options =
  vo_publicKey :: string
  vo_algorithms :: "string list"
  vo_issuer :: string
  vo_audience :: string

record auth_lib =
  hmac_sha256_hex :: "string \<Rightarrow> string \<Rightarrow> string"
  scrypt :: "string \<Rightarrow> string \<Rightarrow> nat \<Rightarrow> string"
  jwt_sign :: "sign_request \<Rightarrow> millis \<Rightarrow> string"
  jwt_header_kid :: "string \<Rightarrow> string option"
  jwt_verify :: "verify_options \<Rightarrow> string \<Rightarrow> millis \<Rightarrow> exn + AccessPayload"

text \<open>The configuration: the pepper, and the key id with its public key.\<close>

record token_config =
  tc_pepper :: string
  tc_kid :: string
  tc_keys :: "(string, string) js_map"

text \<open>
  Documented behaviour of the libraries: scrypt returns as many bytes as asked for; the header of a
  signed token carries its key id; a token signed for a key verifies with that key under the same
  algorithm, issuer and audience before its expiry, with the claims it was signed with, and not
  after; no token verifies at or after its expiry, and its claims do not change with time.
\<close>

definition jwt_claims :: "sign_request \<Rightarrow> millis \<Rightarrow> AccessPayload" where
  "jwt_claims r now = \<lparr>ap_sub = sr_subject r, ap_role = sr_role r, ap_sid = sr_sid r,
     ap_jti = sr_jwtid r, ap_exp = now div 1000 + sr_expiresIn r\<rparr>"

definition lib_ok :: "auth_lib \<Rightarrow> token_config \<Rightarrow> bool" where
  "lib_ok lib cfg \<longleftrightarrow>
     (\<forall>p s n. length (scrypt lib p s n) = n) \<and>
     (\<forall>r now. jwt_header_kid lib (jwt_sign lib r now) = Some (sr_keyid r)) \<and>
     (\<forall>r now o' now' key. js_map_get (tc_keys cfg) (sr_keyid r) = Some key \<longrightarrow>
        vo_publicKey o' = key \<longrightarrow> sr_algorithm r \<in> set (vo_algorithms o') \<longrightarrow>
        vo_issuer o' = sr_issuer r \<longrightarrow> vo_audience o' = sr_audience r \<longrightarrow>
        jwt_verify lib o' (jwt_sign lib r now) now' =
          (if now' div 1000 < ap_exp (jwt_claims r now) then Inr (jwt_claims r now)
           else Inl (plain_error ''jwt expired''))) \<and>
     (\<forall>o' token now p. jwt_verify lib o' token now = Inr p \<longrightarrow> now div 1000 < ap_exp p) \<and>
     (\<forall>o' token now now' p q. jwt_verify lib o' token now = Inr p \<longrightarrow>
        jwt_verify lib o' token now' = Inr q \<longrightarrow> p = q) \<and>
     js_map_get (tc_keys cfg) (tc_kid cfg) \<noteq> None"

section \<open>Passwords\<close>

definition KEY_LENGTH :: nat where
  "KEY_LENGTH = 32"

definition hashPassword :: "auth_lib \<Rightarrow> string \<Rightarrow> string \<Rightarrow> string" where
  "hashPassword lib salt password =
     ''scrypt$'' @ to_base64url salt @ ''$'' @ to_base64url (scrypt lib password salt KEY_LENGTH)"

definition DUMMY_HASH :: string where
  "DUMMY_HASH = ''scrypt$'' @ to_base64url (replicate 16 (CHR 0x00)) @ ''$'' @
     to_base64url (replicate KEY_LENGTH (CHR 0x00))"

text \<open>\<open>timingSafeEqual\<close> throws on buffers of different length.\<close>

definition timingSafeEqual :: "string \<Rightarrow> string \<Rightarrow> exn + bool" where
  "timingSafeEqual a b =
     (if length a \<noteq> length b
      then Inl (plain_error ''Input buffers must have the same byte length'') else Inr (a = b))"

definition verifyPassword :: "auth_lib \<Rightarrow> string \<Rightarrow> string option \<Rightarrow> exn + bool" where
  "verifyPassword lib password stored =
     (case js_split (CHR ''$'') (case stored of Some s \<Rightarrow> s | None \<Rightarrow> DUMMY_HASH) of
        scheme # salt # hash # _ \<Rightarrow>
          if scheme \<noteq> ''scrypt'' \<or> salt = [] \<or> hash = [] then Inr False
          else let expected = from_base64url hash;
                   actual = scrypt lib password (from_base64url salt) (length expected)
               in bindE (timingSafeEqual actual expected) (\<lambda>same. Inr (same \<and> stored \<noteq> None))
      | _ \<Rightarrow> Inr False)"

section \<open>Tokens\<close>

definition JWT_ISSUER :: string where
  "JWT_ISSUER = ''invest-api''"

definition JWT_AUDIENCE :: string where
  "JWT_AUDIENCE = ''invest-api''"

definition ACCESS_TTL_SECONDS :: int where
  "ACCESS_TTL_SECONDS = 10 * 60"

definition REFRESH_TTL_SECONDS :: int where
  "REFRESH_TTL_SECONDS = 30 * 24 * 60 * 60"

record TokenPair =
  tp_access_token :: string
  tp_refresh_token :: string
  tp_token_type :: string
  tp_expires_in :: int

definition toAuthUser :: "AccessPayload \<Rightarrow> AuthUser" where
  "toAuthUser payload = \<lparr>au_id = ap_sub payload, au_role = ap_role payload, au_jti = ap_jti payload,
     au_sid = ap_sid payload, au_exp = ap_exp payload\<rparr>"

text \<open>The options that \<open>AuthModule\<close> registers for every signature.\<close>

definition sign_options :: "token_config \<Rightarrow> Role \<Rightarrow> uuid \<Rightarrow> uuid \<Rightarrow> uuid \<Rightarrow> sign_request" where
  "sign_options cfg role sid subject jwtid = \<lparr>sr_role = role, sr_sid = sid, sr_subject = subject,
     sr_jwtid = jwtid, sr_algorithm = ''ES256'', sr_keyid = tc_kid cfg, sr_issuer = JWT_ISSUER,
     sr_audience = JWT_AUDIENCE, sr_expiresIn = ACCESS_TTL_SECONDS\<rparr>"

definition signAccess ::
  "auth_lib \<Rightarrow> token_config \<Rightarrow> millis \<Rightarrow> uuid \<Rightarrow> uuid \<Rightarrow> Role \<Rightarrow> uuid \<Rightarrow> string" where
  "signAccess lib cfg now jti sub role sid = jwt_sign lib (sign_options cfg role sid sub jti) now"

definition newRefresh :: "string \<Rightarrow> string" where
  "newRefresh random32 = to_base64url random32"

definition hashRefresh :: "auth_lib \<Rightarrow> token_config \<Rightarrow> string \<Rightarrow> string" where
  "hashRefresh lib cfg token = hmac_sha256_hex lib (tc_pepper cfg) token"

definition keyFor :: "auth_lib \<Rightarrow> token_config \<Rightarrow> string \<Rightarrow> string option" where
  "keyFor lib cfg rawJwt = (case jwt_header_kid lib rawJwt of
     Some kid \<Rightarrow> js_map_get (tc_keys cfg) kid | None \<Rightarrow> None)"

definition isRevoked :: "runtime \<Rightarrow> millis \<Rightarrow> uuid \<Rightarrow> db \<Rightarrow> exn + bool" where
  "isRevoked rt now jti db = bindE (bind_uuid rt jti) (\<lambda>j.
     Inr (filter (\<lambda>r. rv_jti r = j \<and> rv_expires_at r > now) (revoked_access_tokens db) \<noteq> []))"

definition verifyAccess ::
  "auth_lib \<Rightarrow> token_config \<Rightarrow> runtime \<Rightarrow> millis \<Rightarrow> string \<Rightarrow> db \<Rightarrow> exn + AuthUser" where
  "verifyAccess lib cfg rt now token db =
     (case keyFor lib cfg token of
        None \<Rightarrow> Inl (plain_error ''unknown kid'')
      | Some publicKey \<Rightarrow>
          bindE (jwt_verify lib \<lparr>vo_publicKey = publicKey, vo_algorithms = [''ES256''],
                   vo_issuer = JWT_ISSUER, vo_audience = JWT_AUDIENCE\<rparr> token now) (\<lambda>payload.
          bindE (isRevoked rt now (ap_jti payload) db) (\<lambda>revoked.
          if revoked then Inl (plain_error ''access token was revoked'')
          else Inr (toAuthUser payload))))"

section \<open>Sessions\<close>

type_synonym LoginUser = "uuid \<times> Role"

definition validateUser ::
  "auth_lib \<Rightarrow> string \<Rightarrow> string \<Rightarrow> (db, LoginUser option) svc" where
  "validateUser lib email password =
     bindS (readE (\<lambda>db. bindE (bind_text email) (\<lambda>e.
       Inr (List.find (\<lambda>u. u_email u = e) (users db))))) (\<lambda>user.
     bindS (liftS (verifyPassword lib password
       (case user of Some u \<Rightarrow> u_password_hash u | None \<Rightarrow> None))) (\<lambda>ok.
     returnS (case user of
       Some u \<Rightarrow> if ok then Some (u_id u, u_role u) else None | None \<Rightarrow> None)))"

text \<open>\<open>INSERT INTO refresh_tokens\<close>: the two unique indexes, then the foreign key.\<close>

definition insert_refresh :: "refresh_row \<Rightarrow> db \<Rightarrow> exn + db" where
  "insert_refresh r db =
     (if rt_id r \<in> rt_id ` set (refresh_tokens db)
      then Inl (db_error ''23505'' ''refresh_tokens_pk'')
      else if rt_token_hash r \<in> rt_token_hash ` set (refresh_tokens db)
      then Inl (db_error ''23505'' ''refresh_tokens_token_hash_uk'')
      else if rt_user_id r \<notin> u_id ` set (users db)
      then Inl (db_error ''23503'' ''refresh_tokens_user_id_fkey'')
      else Inr (db\<lparr>refresh_tokens := refresh_tokens db @ [r]\<rparr>))"

text \<open>The random values that one issue draws.\<close>

record fresh_values =
  fv_row_id :: uuid
  fv_bytes :: string
  fv_jti :: uuid

definition issue ::
  "auth_lib \<Rightarrow> token_config \<Rightarrow> runtime \<Rightarrow> millis \<Rightarrow> fresh_values \<Rightarrow> LoginUser \<Rightarrow> uuid \<Rightarrow> (db, TokenPair) svc" where
  "issue lib cfg rt now fv user familyId =
     (let refresh = newRefresh (fv_bytes fv) in
      bindS (writeE (\<lambda>db.
        bindE (bind_uuid rt (fst user)) (\<lambda>uid'.
        bindE (bind_uuid rt familyId) (\<lambda>fam.
        insert_refresh \<lparr>rt_id = fv_row_id fv, rt_user_id = uid', rt_family_id = fam,
          rt_token_hash = hashRefresh lib cfg refresh, rt_used_at = None, rt_revoked_at = None,
          rt_expires_at = now + REFRESH_TTL_SECONDS * 1000\<rparr> db)))) (\<lambda>_.
      returnS \<lparr>tp_access_token = signAccess lib cfg now (fv_jti fv) (fst user) (snd user) familyId,
        tp_refresh_token = refresh, tp_token_type = ''Bearer'',
        tp_expires_in = ACCESS_TTL_SECONDS\<rparr>))"

definition login ::
  "auth_lib \<Rightarrow> token_config \<Rightarrow> runtime \<Rightarrow> millis \<Rightarrow> fresh_values \<Rightarrow> uuid \<Rightarrow> LoginUser \<Rightarrow> (db, TokenPair) svc" where
  "login lib cfg rt now fv newFamily user = issue lib cfg rt now fv user newFamily"

definition revokeFamily :: "runtime \<Rightarrow> millis \<Rightarrow> uuid \<Rightarrow> (db, unit) svc" where
  "revokeFamily rt now familyId = writeE (\<lambda>db. bindE (bind_uuid rt familyId) (\<lambda>fam.
     Inr (db\<lparr>refresh_tokens := update_where (\<lambda>r. rt_family_id r = fam \<and> rt_revoked_at r = None)
       (\<lambda>r. r\<lparr>rt_revoked_at := Some now\<rparr>) (refresh_tokens db)\<rparr>)))"

datatype RefreshOutcome =
    Refresh_ok TokenPair
  | Refresh_invalid
  | Refresh_reuse refresh_row

text \<open>
  The transaction of a refresh: the row that \<open>SELECT ... FOR UPDATE\<close> returns and locks, the three ways
  to go on from it, the rotation of a live token.
\<close>

definition lookup_token :: "auth_lib \<Rightarrow> token_config \<Rightarrow> string \<Rightarrow> db \<Rightarrow> refresh_row option" where
  "lookup_token lib cfg token db =
     List.find (\<lambda>r. rt_token_hash r = hashRefresh lib cfg token) (refresh_tokens db)"

definition dead :: "millis \<Rightarrow> refresh_row \<Rightarrow> bool" where
  "dead now r \<longleftrightarrow> rt_revoked_at r \<noteq> None \<or> rt_expires_at r \<le> now"

datatype refresh_case =
    Case_dead
  | Case_used refresh_row
  | Case_live refresh_row

definition triage :: "millis \<Rightarrow> refresh_row option \<Rightarrow> refresh_case" where
  "triage now found =
     (case found of
        None \<Rightarrow> Case_dead
      | Some row \<Rightarrow>
          if dead now row then Case_dead
          else if rt_used_at row \<noteq> None then Case_used row else Case_live row)"

definition rotate_token ::
  "auth_lib \<Rightarrow> token_config \<Rightarrow> runtime \<Rightarrow> millis \<Rightarrow> fresh_values \<Rightarrow> refresh_row \<Rightarrow> (db, TokenPair) svc" where
  "rotate_token lib cfg rt now fv row =
     bindS (writeS (\<lambda>db. db\<lparr>refresh_tokens := update_where (\<lambda>r. rt_id r = rt_id row)
       (\<lambda>r. r\<lparr>rt_used_at := Some now\<rparr>) (refresh_tokens db)\<rparr>)) (\<lambda>_.
     bindS (readS (\<lambda>db. List.find (\<lambda>u. u_id u = rt_user_id row) (users db))) (\<lambda>user.
     case user of
       None \<Rightarrow> throwS (plain_error ''Cannot read properties of undefined'')
     | Some u \<Rightarrow> issue lib cfg rt now fv (u_id u, u_role u) (rt_family_id row)))"

definition refresh_body ::
  "auth_lib \<Rightarrow> token_config \<Rightarrow> runtime \<Rightarrow> millis \<Rightarrow> fresh_values \<Rightarrow> string \<Rightarrow> (db, RefreshOutcome) svc" where
  "refresh_body lib cfg rt now fv token =
     bindS (readS (lookup_token lib cfg token)) (\<lambda>found.
     case triage now found of
       Case_dead \<Rightarrow> returnS Refresh_invalid
     | Case_used row \<Rightarrow> bindS (revokeFamily rt now (rt_family_id row)) (\<lambda>_. returnS (Refresh_reuse row))
     | Case_live row \<Rightarrow> bindS (rotate_token lib cfg rt now fv row) (\<lambda>pair. returnS (Refresh_ok pair)))"

text \<open>What the caller gets, once the transaction is over.\<close>

fun refresh_answer :: "RefreshOutcome \<Rightarrow> exn + TokenPair" where
  "refresh_answer (Refresh_reuse row) = Inl (problem 401 ''refresh-reuse-detected''
     ''refresh token reuse detected; the session was revoked'')"
| "refresh_answer Refresh_invalid = Inl (problem 401 ''refresh-invalid''
     ''refresh token is invalid, expired or revoked'')"
| "refresh_answer (Refresh_ok pair) = Inr pair"

definition refresh ::
  "auth_lib \<Rightarrow> token_config \<Rightarrow> runtime \<Rightarrow> millis \<Rightarrow> fresh_values \<Rightarrow> string \<Rightarrow> (db, TokenPair) svc" where
  "refresh lib cfg rt now fv token =
     bindS (transaction (refresh_body lib cfg rt now fv token)) (\<lambda>outcome. liftS (refresh_answer outcome))"

definition deny_access :: "runtime \<Rightarrow> millis \<Rightarrow> AuthUser \<Rightarrow> (db, unit) svc" where
  "deny_access rt now user =
     bindS (writeE (\<lambda>db. bindE (bind_uuid rt (au_jti user)) (\<lambda>jti.
       Inr (if jti \<in> rv_jti ` set (revoked_access_tokens db) then db
            else db\<lparr>revoked_access_tokens := revoked_access_tokens db @
              [\<lparr>rv_jti = jti, rv_expires_at = au_exp user * 1000\<rparr>]\<rparr>)))) (\<lambda>_.
     writeS (\<lambda>db. db\<lparr>revoked_access_tokens :=
       filter (\<lambda>r. \<not> rv_expires_at r \<le> now) (revoked_access_tokens db)\<rparr>))"

definition logout :: "runtime \<Rightarrow> millis \<Rightarrow> AuthUser \<Rightarrow> (db, unit) svc" where
  "logout rt now user = transaction (
     bindS (revokeFamily rt now (au_sid user)) (\<lambda>_. deny_access rt now user))"

section \<open>Strategies and guards\<close>

definition local_validate :: "auth_lib \<Rightarrow> string \<Rightarrow> string \<Rightarrow> (db, LoginUser) svc" where
  "local_validate lib email password =
     bindS (validateUser lib email password) (\<lambda>user.
     case user of
       None \<Rightarrow> throwS (problem 401 ''invalid-credentials'' ''wrong email or password'')
     | Some u \<Rightarrow> returnS u)"

definition jwt_validate :: "runtime \<Rightarrow> millis \<Rightarrow> db \<Rightarrow> AccessPayload \<Rightarrow> exn + AuthUser" where
  "jwt_validate rt now db payload = bindE (isRevoked rt now (ap_jti payload) db) (\<lambda>revoked.
     if revoked then Inl (problem 401 ''token-revoked'' ''access token was revoked'')
     else Inr (toAuthUser payload))"

text \<open>What passport reports to \<open>handleRequest\<close>: an error, no user with an optional message, a user.\<close>

datatype passport_result =
    Passport_err exn
  | Passport_fail "string option"
  | Passport_user AuthUser

fun handleRequest :: "passport_result \<Rightarrow> exn + AuthUser" where
  "handleRequest (Passport_err err) = Inl err"
| "handleRequest (Passport_fail info) =
     Inl (problem 401 ''invalid-token'' (or_else info ''access token required''))"
| "handleRequest (Passport_user user) = Inr user"

text \<open>
  A route carries the metadata of its decorators; \<open>getAllAndOverride\<close> takes the handler's value
  and then the class's. Passport is a parameter: from the key provider, the verify options without
  the key, \<open>validate\<close> and the request's Authorization header to its result.
\<close>

record route =
  ro_public_handler :: "bool option"
  ro_public_class :: "bool option"
  ro_roles_handler :: "Role list option"
  ro_roles_class :: "Role list option"

fun getAllAndOverride :: "'a option \<Rightarrow> 'a option \<Rightarrow> 'a option" where
  "getAllAndOverride (Some x) c = Some x"
| "getAllAndOverride None c = c"

type_synonym passport =
  "(string \<Rightarrow> exn + string) \<Rightarrow> string list \<times> string \<times> string \<Rightarrow>
   (AccessPayload \<Rightarrow> exn + AuthUser) \<Rightarrow> string option \<Rightarrow> passport_result"

definition secretOrKeyProvider :: "auth_lib \<Rightarrow> token_config \<Rightarrow> string \<Rightarrow> exn + string" where
  "secretOrKeyProvider lib cfg rawJwt = (case keyFor lib cfg rawJwt of
     None \<Rightarrow> Inl (plain_error ''unknown kid'') | Some key \<Rightarrow> Inr key)"

text \<open>The user that the guard puts on the request; a public route has none.\<close>

definition jwt_canActivate ::
  "passport \<Rightarrow> auth_lib \<Rightarrow> token_config \<Rightarrow> runtime \<Rightarrow> millis \<Rightarrow> db \<Rightarrow> route \<Rightarrow> string option \<Rightarrow>
   exn + AuthUser option" where
  "jwt_canActivate pp lib cfg rt now db ro authorization =
     (if getAllAndOverride (ro_public_handler ro) (ro_public_class ro) = Some True then Inr None
      else bindE (handleRequest (pp (secretOrKeyProvider lib cfg)
               ([''ES256''], JWT_ISSUER, JWT_AUDIENCE) (jwt_validate rt now db) authorization))
             (\<lambda>user. Inr (Some user)))"

fun role_text :: "Role \<Rightarrow> string" where
  "role_text Viewer = ''viewer''"
| "role_text Member = ''member''"

definition roles_canActivate :: "route \<Rightarrow> AuthUser option \<Rightarrow> exn + unit" where
  "roles_canActivate ro user =
     (case getAllAndOverride (ro_roles_handler ro) (ro_roles_class ro) of
        None \<Rightarrow> Inr ()
      | Some roles \<Rightarrow>
          if (case user of None \<Rightarrow> True | Some u \<Rightarrow> au_role u \<notin> set roles)
          then Inl (problem 403 ''forbidden-role''
                 (''requires role '' @ join_with '' or '' (map role_text roles)))
          else Inr ())"

text \<open>\<open>AuthModule\<close> registers the guards in this order.\<close>

definition guards ::
  "passport \<Rightarrow> auth_lib \<Rightarrow> token_config \<Rightarrow> runtime \<Rightarrow> millis \<Rightarrow> db \<Rightarrow> route \<Rightarrow> string option \<Rightarrow>
   exn + AuthUser option" where
  "guards pp lib cfg rt now db ro authorization =
     bindE (jwt_canActivate pp lib cfg rt now db ro authorization) (\<lambda>user.
     bindE (roles_canActivate ro user) (\<lambda>_. Inr user))"

section \<open>Routes\<close>

text \<open>\<open>POST /auth/login\<close>: the local guard first, then the handler with the user it found.\<close>

definition auth_login ::
  "auth_lib \<Rightarrow> token_config \<Rightarrow> runtime \<Rightarrow> millis \<Rightarrow> fresh_values \<Rightarrow> uuid \<Rightarrow> string \<Rightarrow> string \<Rightarrow> (db, TokenPair) svc" where
  "auth_login lib cfg rt now fv newFamily email password =
     bindS (local_validate lib email password) (\<lambda>user. login lib cfg rt now fv newFamily user)"

end
