(* ===== verification/Auth_Correct.thy ===== *)
theory Auth_Correct
  imports Auth
begin

text \<open>
  Correctness of authentication, operation by operation: what each does to the refresh tokens, the
  rotation of a token, the password format, and the order of the guards. The interleavings of
  concurrent calls are in \<open>Auth_Sessions\<close>.
\<close>

section \<open>Families\<close>

definition live :: "refresh_row \<Rightarrow> bool" where
  "live r \<longleftrightarrow> rt_used_at r = None \<and> rt_revoked_at r = None"

text \<open>
  Per family: one user, and at most one token that is neither used nor revoked.
\<close>

definition siblings_ok :: "refresh_row \<Rightarrow> refresh_row \<Rightarrow> bool" where
  "siblings_ok r q \<longleftrightarrow> rt_user_id r = rt_user_id q \<and> (live r \<longrightarrow> live q \<longrightarrow> rt_id r = rt_id q)"

definition families_ok :: "refresh_row list \<Rightarrow> bool" where
  "families_ok rows \<longleftrightarrow>
     (\<forall>r\<in>set rows. \<forall>q\<in>set rows. rt_family_id r = rt_family_id q \<longrightarrow> siblings_ok r q)"

definition tokens_ok :: "db \<Rightarrow> bool" where
  "tokens_ok db \<longleftrightarrow>
     distinct (map rt_id (refresh_tokens db)) \<and> distinct (map rt_token_hash (refresh_tokens db)) \<and>
     (\<forall>r\<in>set (refresh_tokens db). refresh_ok db r) \<and> distinct (map u_id (users db)) \<and>
     (\<forall>u\<in>set (users db). is_uuid (u_id u)) \<and> families_ok (refresh_tokens db)"

definition revoke_rows :: "millis \<Rightarrow> uuid \<Rightarrow> refresh_row list \<Rightarrow> refresh_row list" where
  "revoke_rows now fam = update_where (\<lambda>r. rt_family_id r = fam \<and> rt_revoked_at r = None)
     (\<lambda>r. r\<lparr>rt_revoked_at := Some now\<rparr>)"

definition use_row :: "millis \<Rightarrow> uuid \<Rightarrow> refresh_row list \<Rightarrow> refresh_row list" where
  "use_row now rid = update_where (\<lambda>r. rt_id r = rid) (\<lambda>r. r\<lparr>rt_used_at := Some now\<rparr>)"

definition token_row ::
  "auth_lib \<Rightarrow> token_config \<Rightarrow> millis \<Rightarrow> fresh_values \<Rightarrow> uuid \<Rightarrow> uuid \<Rightarrow> refresh_row" where
  "token_row lib cfg now fv u fam = \<lparr>rt_id = fv_row_id fv, rt_user_id = u, rt_family_id = fam,
     rt_token_hash = hashRefresh lib cfg (newRefresh (fv_bytes fv)), rt_used_at = None,
     rt_revoked_at = None, rt_expires_at = now + REFRESH_TTL_SECONDS * 1000\<rparr>"

lemma token_row_simps [row_simps]:
  "rt_id (token_row lib cfg now fv u fam) = fv_row_id fv"
  "rt_user_id (token_row lib cfg now fv u fam) = u"
  "rt_family_id (token_row lib cfg now fv u fam) = fam"
  "rt_token_hash (token_row lib cfg now fv u fam) = hashRefresh lib cfg (newRefresh (fv_bytes fv))"
  "rt_revoked_at (token_row lib cfg now fv u fam) = None"
  "live (token_row lib cfg now fv u fam)"
  by (simp_all add: token_row_def live_def)

lemma map_revoke_rows [row_simps]:
  "map rt_id (revoke_rows now fam rows) = map rt_id rows"
  "map rt_token_hash (revoke_rows now fam rows) = map rt_token_hash rows"
  "map rt_family_id (revoke_rows now fam rows) = map rt_family_id rows"
  by (simp_all add: revoke_rows_def map_update_where)

lemma map_use_row [row_simps]:
  "map rt_id (use_row now rid rows) = map rt_id rows"
  "map rt_token_hash (use_row now rid rows) = map rt_token_hash rows"
  "map rt_family_id (use_row now rid rows) = map rt_family_id rows"
  by (simp_all add: use_row_def map_update_where)

lemma image_rows [row_simps]:
  "rt_id ` set (revoke_rows now fam rows) = rt_id ` set rows"
  "rt_token_hash ` set (revoke_rows now fam rows) = rt_token_hash ` set rows"
  "rt_id ` set (use_row now rid rows) = rt_id ` set rows"
  "rt_token_hash ` set (use_row now rid rows) = rt_token_hash ` set rows"
  "rt_family_id ` set (revoke_rows now fam rows) = rt_family_id ` set rows"
  "rt_family_id ` set (use_row now rid rows) = rt_family_id ` set rows"
  by (metis list.set_map map_revoke_rows(1), metis list.set_map map_revoke_rows(2),
      metis list.set_map map_use_row(1), metis list.set_map map_use_row(2),
      metis list.set_map map_revoke_rows(3), metis list.set_map map_use_row(3))

lemma set_revoke_rows:
  "set (revoke_rows now fam rows) =
     (\<lambda>r. if rt_family_id r = fam \<and> rt_revoked_at r = None then r\<lparr>rt_revoked_at := Some now\<rparr> else r) ` set rows"
  by (simp add: revoke_rows_def set_update_where)

lemma set_use_row:
  "set (use_row now rid rows) = (\<lambda>r. if rt_id r = rid then r\<lparr>rt_used_at := Some now\<rparr> else r) ` set rows"
  by (simp add: use_row_def set_update_where)

lemma siblings_ok_sym: "siblings_ok r q \<longleftrightarrow> siblings_ok q r"
  by (auto simp: siblings_ok_def)

lemma siblings_ok_refl [simp]: "siblings_ok r r"
  by (simp add: siblings_ok_def)

lemma families_okD:
  "families_ok rows \<Longrightarrow> r \<in> set rows \<Longrightarrow> q \<in> set rows \<Longrightarrow> rt_family_id r = rt_family_id q \<Longrightarrow> siblings_ok r q"
  unfolding families_ok_def by blast

lemma families_ok_update:
  assumes "families_ok rows" "\<And>r. rt_family_id (f r) = rt_family_id r"
    and "\<And>r q. rt_family_id r = rt_family_id q \<Longrightarrow> siblings_ok r q \<Longrightarrow>
      siblings_ok (if p r then f r else r) (if p q then f q else q)"
  shows "families_ok (update_where p f rows)"
  unfolding families_ok_def set_update_where
proof (intro ballI impI)
  fix r q
  assume "r \<in> (\<lambda>r. if p r then f r else r) ` set rows" "q \<in> (\<lambda>r. if p r then f r else r) ` set rows"
    and fam: "rt_family_id r = rt_family_id q"
  then obtain r0 q0 where q: "r0 \<in> set rows" "q0 \<in> set rows"
    "r = (if p r0 then f r0 else r0)" "q = (if p q0 then f q0 else q0)" by blast
  have "rt_family_id (if p x then f x else x) = rt_family_id x" for x using assms(2) by simp
  then have "rt_family_id r0 = rt_family_id q0" using fam q(3,4) by simp
  then show "siblings_ok r q" using assms(3) families_okD [OF assms(1) q(1,2)] q(3,4) by blast
qed

lemma families_ok_revoke: "families_ok rows \<Longrightarrow> families_ok (revoke_rows now fam rows)"
  unfolding revoke_rows_def by (rule families_ok_update) (auto simp: siblings_ok_def live_def)

lemma families_ok_use: "families_ok rows \<Longrightarrow> families_ok (use_row now rid rows)"
  unfolding use_row_def by (rule families_ok_update) (auto simp: siblings_ok_def live_def)

lemma families_ok_snoc:
  assumes "families_ok rows" "\<And>q. q \<in> set rows \<Longrightarrow> rt_family_id q = rt_family_id r \<Longrightarrow> siblings_ok q r"
  shows "families_ok (rows @ [r])"
  unfolding families_ok_def
proof (intro ballI impI)
  fix x y
  assume m: "x \<in> set (rows @ [r])" "y \<in> set (rows @ [r])" and e: "rt_family_id x = rt_family_id y"
  then consider "x \<in> set rows" "y \<in> set rows" | "x \<in> set rows" "y = r" | "x = r" "y \<in> set rows" | "x = r" "y = r"
    by auto
  then show "siblings_ok x y"
    using assms e families_okD siblings_ok_sym by cases (blast, blast, metis, simp)
qed

lemma families_ok_new_family:
  "families_ok rows \<Longrightarrow> rt_family_id r \<notin> rt_family_id ` set rows \<Longrightarrow> families_ok (rows @ [r])"
  by (rule families_ok_snoc) (auto simp: image_iff)

lemma families_ok_successor:
  assumes "families_ok rows" "row \<in> set rows" "live row"
    and "rt_family_id r = rt_family_id row" "rt_user_id r = rt_user_id row" "rt_revoked_at r = None"
  shows "families_ok (use_row now (rt_id row) rows @ [r])"
proof (rule families_ok_snoc [OF families_ok_use [OF assms(1)]])
  fix q
  assume "q \<in> set (use_row now (rt_id row) rows)" and fam: "rt_family_id q = rt_family_id r"
  then obtain q0 where q0: "q0 \<in> set rows" "q = (if rt_id q0 = rt_id row then q0\<lparr>rt_used_at := Some now\<rparr> else q0)"
    unfolding set_use_row by blast
  then have "rt_family_id q0 = rt_family_id row" using fam assms(4) by (simp split: if_splits)
  then have "siblings_ok q0 row" using families_okD assms(1,2) q0(1) by blast
  then show "siblings_ok q r" using q0(2) assms(3,5,6) by (auto simp: siblings_ok_def live_def split: if_splits)
qed

lemma tokens_ok_lookup:
  assumes "tokens_ok db" "r \<in> set (refresh_tokens db)"
  shows "List.find (\<lambda>q. rt_token_hash q = rt_token_hash r) (refresh_tokens db) = Some r"
  using assms by (simp add: tokens_ok_def find_key)

section \<open>What the operations do\<close>

lemma insert_refresh_Inr:
  "insert_refresh r db = Inr db' \<longleftrightarrow>
     rt_id r \<notin> rt_id ` set (refresh_tokens db) \<and>
     rt_token_hash r \<notin> rt_token_hash ` set (refresh_tokens db) \<and>
     rt_user_id r \<in> u_id ` set (users db) \<and>
     db' = db\<lparr>refresh_tokens := refresh_tokens db @ [r]\<rparr>"
  by (auto simp: insert_refresh_def)

lemma issue_Inr:
  "issue lib cfg rt now fv (u, role) fam db = (Inr pair, db') \<longleftrightarrow>
     (\<exists>u' fam'. pg_uuid_in rt u = Some u' \<and> pg_uuid_in rt fam = Some fam' \<and>
        insert_refresh (token_row lib cfg now fv u' fam') db = Inr db') \<and>
     pair = \<lparr>tp_access_token = signAccess lib cfg now (fv_jti fv) u role fam,
       tp_refresh_token = newRefresh (fv_bytes fv), tp_token_type = ''Bearer'',
       tp_expires_in = ACCESS_TTL_SECONDS\<rparr>"
  by (auto simp: issue_def Let_def bindS_Inr bind_uuid_Inr token_row_def)

lemma issue_Inl: "issue lib cfg rt now fv user fam db = (Inl e, db') \<Longrightarrow> db' = db"
  by (auto simp: issue_def Let_def bindS_Inl)

lemma revokeFamily_eq:
  "pg_uuid_in rt fam = Some fam' \<Longrightarrow>
   revokeFamily rt now fam db = (Inr (), db\<lparr>refresh_tokens := revoke_rows now fam' (refresh_tokens db)\<rparr>)"
  by (simp add: revokeFamily_def writeE_def bind_uuid_def revoke_rows_def)

lemma tokens_ok_revoke:
  "tokens_ok db \<Longrightarrow> tokens_ok (db\<lparr>refresh_tokens := revoke_rows now fam (refresh_tokens db)\<rparr>)"
  unfolding tokens_ok_def
  by (simp add: row_simps families_ok_revoke) (auto simp: set_revoke_rows refresh_ok_def)

lemma tokens_ok_denylist [simp]:
  "tokens_ok (db\<lparr>revoked_access_tokens := x\<rparr>) \<longleftrightarrow> tokens_ok db"
  by (simp add: tokens_ok_def refresh_ok_def)

text \<open>The two refusals of a refresh.\<close>

definition refresh_invalid :: exn where
  "refresh_invalid = problem 401 ''refresh-invalid'' ''refresh token is invalid, expired or revoked''"

definition refresh_reuse :: exn where
  "refresh_reuse = problem 401 ''refresh-reuse-detected''
     ''refresh token reuse detected; the session was revoked''"

lemma lookup_token_Some:
  "lookup_token lib cfg token db = Some r \<Longrightarrow>
   r \<in> set (refresh_tokens db) \<and> rt_token_hash r = hashRefresh lib cfg token"
  unfolding lookup_token_def by (drule find_SomeD) simp

lemma refresh_rejects:
  assumes "case lookup_token lib cfg token db of None \<Rightarrow> True | Some r \<Rightarrow> dead now r"
  shows "refresh lib cfg rt now fv token db = (Inl refresh_invalid, db)"
proof -
  have "triage now (lookup_token lib cfg token db) = Case_dead"
    using assms by (auto simp: triage_def split: option.splits)
  then show ?thesis
    by (simp add: refresh_def refresh_body_def svc_simps transaction_def refresh_invalid_def)
qed

lemma refresh_detects_reuse:
  assumes "pg_ok rt" "tokens_ok db" "lookup_token lib cfg token db = Some row"
    and "\<not> dead now row" "rt_used_at row \<noteq> None"
  shows "refresh lib cfg rt now fv token db =
    (Inl refresh_reuse, db\<lparr>refresh_tokens := revoke_rows now (rt_family_id row) (refresh_tokens db)\<rparr>)"
proof -
  have row: "row \<in> set (refresh_tokens db)"
    using lookup_token_Some assms(3) by blast
  then have "pg_uuid_in rt (rt_family_id row) = Some (rt_family_id row)"
    using assms(1,2) pg_okD(1) by (auto simp: tokens_ok_def refresh_ok_def)
  from revokeFamily_eq [OF this, of now db] show ?thesis
    using assms(3,4,5)
    by (simp add: refresh_def refresh_body_def triage_def svc_simps transaction_def refresh_reuse_def)
qed

lemma refresh_rotates:
  assumes "lookup_token lib cfg token db = Some row" "\<not> dead now row" "rt_used_at row = None"
  shows "refresh lib cfg rt now fv token db = transaction (rotate_token lib cfg rt now fv row) db"
  using assms
  by (simp add: refresh_def refresh_body_def triage_def svc_simps transaction_def split: sum.splits prod.splits)

lemma rotate_token_eq:
  assumes "List.find (\<lambda>u. u_id u = rt_user_id row) (users db) = Some u"
  shows "rotate_token lib cfg rt now fv row db =
    issue lib cfg rt now fv (u_id u, u_role u) (rt_family_id row)
      (db\<lparr>refresh_tokens := use_row now (rt_id row) (refresh_tokens db)\<rparr>)"
  using assms by (simp add: rotate_token_def svc_simps use_row_def)

lemma token_owner:
  assumes "tokens_ok db" "row \<in> set (refresh_tokens db)"
  obtains u where "u \<in> set (users db)" "List.find (\<lambda>u. u_id u = rt_user_id row) (users db) = Some u"
    "u_id u = rt_user_id row"
proof -
  obtain u where u: "u \<in> set (users db)" "u_id u = rt_user_id row"
    using assms unfolding tokens_ok_def refresh_ok_def by fastforce
  then have "List.find (\<lambda>v. u_id v = u_id u) (users db) = Some u"
    using assms(1) by (intro find_key) (auto simp: tokens_ok_def)
  with u that show thesis by simp
qed

lemma rotate_token_Inr:
  assumes "pg_ok rt" "tokens_ok db" "row \<in> set (refresh_tokens db)"
    and "rotate_token lib cfg rt now fv row db = (Inr pair, db')"
  obtains u where "u \<in> set (users db)" "u_id u = rt_user_id row"
    "fv_row_id fv \<notin> rt_id ` set (refresh_tokens db)"
    "hashRefresh lib cfg (newRefresh (fv_bytes fv)) \<notin> rt_token_hash ` set (refresh_tokens db)"
    "db' = db\<lparr>refresh_tokens := use_row now (rt_id row) (refresh_tokens db) @
       [token_row lib cfg now fv (rt_user_id row) (rt_family_id row)]\<rparr>"
    "pair = \<lparr>tp_access_token = signAccess lib cfg now (fv_jti fv) (u_id u) (u_role u) (rt_family_id row),
       tp_refresh_token = newRefresh (fv_bytes fv), tp_token_type = ''Bearer'',
       tp_expires_in = ACCESS_TTL_SECONDS\<rparr>"
proof -
  obtain u where u: "u \<in> set (users db)" "u_id u = rt_user_id row"
      "List.find (\<lambda>u. u_id u = rt_user_id row) (users db) = Some u"
    using token_owner [OF assms(2,3)] by metis
  define used where "used = db\<lparr>refresh_tokens := use_row now (rt_id row) (refresh_tokens db)\<rparr>"
  have "issue lib cfg rt now fv (u_id u, u_role u) (rt_family_id row) used = (Inr pair, db')"
    using assms(4) rotate_token_eq [OF u(3)] by (simp add: used_def)
  moreover have "pg_uuid_in rt (u_id u) = Some (u_id u)" "pg_uuid_in rt (rt_family_id row) = Some (rt_family_id row)"
    using assms(1-3) pg_okD(1) u(1) by (auto simp: tokens_ok_def refresh_ok_def)
  ultimately have "insert_refresh (token_row lib cfg now fv (rt_user_id row) (rt_family_id row)) used = Inr db'"
    and pair: "pair = \<lparr>tp_access_token = signAccess lib cfg now (fv_jti fv) (u_id u) (u_role u) (rt_family_id row),
       tp_refresh_token = newRefresh (fv_bytes fv), tp_token_type = ''Bearer'',
       tp_expires_in = ACCESS_TTL_SECONDS\<rparr>"
    using u(2) by (auto simp: issue_Inr)
  then have "fv_row_id fv \<notin> rt_id ` set (refresh_tokens db)"
    "hashRefresh lib cfg (newRefresh (fv_bytes fv)) \<notin> rt_token_hash ` set (refresh_tokens db)"
    "db' = db\<lparr>refresh_tokens := use_row now (rt_id row) (refresh_tokens db) @
       [token_row lib cfg now fv (rt_user_id row) (rt_family_id row)]\<rparr>"
    by (simp_all add: insert_refresh_Inr row_simps used_def)
  with that [OF u(1,2) _ _ _ pair] show thesis .
qed

lemma refresh_Inr:
  assumes "pg_ok rt" "tokens_ok db" "refresh lib cfg rt now fv token db = (Inr pair, db')"
  obtains row u where "lookup_token lib cfg token db = Some row" "row \<in> set (refresh_tokens db)"
    "\<not> dead now row" "live row" "u \<in> set (users db)" "u_id u = rt_user_id row"
    "fv_row_id fv \<notin> rt_id ` set (refresh_tokens db)"
    "hashRefresh lib cfg (newRefresh (fv_bytes fv)) \<notin> rt_token_hash ` set (refresh_tokens db)"
    "db' = db\<lparr>refresh_tokens := use_row now (rt_id row) (refresh_tokens db) @
       [token_row lib cfg now fv (rt_user_id row) (rt_family_id row)]\<rparr>"
    "pair = \<lparr>tp_access_token = signAccess lib cfg now (fv_jti fv) (u_id u) (u_role u) (rt_family_id row),
       tp_refresh_token = newRefresh (fv_bytes fv), tp_token_type = ''Bearer'',
       tp_expires_in = ACCESS_TTL_SECONDS\<rparr>"
proof -
  obtain row where l: "lookup_token lib cfg token db = Some row"
    using assms(3) refresh_rejects [of now lib cfg token db rt fv]
    by (cases "lookup_token lib cfg token db") auto
  have nd: "\<not> dead now row" using assms(3) refresh_rejects [of now lib cfg token db rt fv] l by auto
  have nu: "rt_used_at row = None"
    using refresh_detects_reuse [OF assms(1,2) l nd] assms(3) by (cases "rt_used_at row") auto
  have row: "row \<in> set (refresh_tokens db)" using l lookup_token_Some by blast
  have "rotate_token lib cfg rt now fv row db = (Inr pair, db')"
    using assms(3) refresh_rotates [OF l nd nu] by simp
  from rotate_token_Inr [OF assms(1,2) row this] that [OF l row nd] nd nu show thesis
    by (metis dead_def live_def)
qed

lemma revoke_uuid_fail:
  "pg_uuid_in rt fam = None \<Longrightarrow> revokeFamily rt now fam db = (Inl (db_error ''22P02'' ''uuid''), db)"
  by (simp add: revokeFamily_def writeE_def bind_uuid_def bindE_def)

definition deny :: "millis \<Rightarrow> uuid \<Rightarrow> int \<Rightarrow> revoked_row list \<Rightarrow> revoked_row list" where
  "deny now jti exp rows = filter (\<lambda>r. \<not> rv_expires_at r \<le> now)
     (if jti \<in> rv_jti ` set rows then rows else rows @ [\<lparr>rv_jti = jti, rv_expires_at = exp * 1000\<rparr>])"

lemma logout_eq:
  assumes "pg_uuid_in rt (au_sid user) = Some fam" "pg_uuid_in rt (au_jti user) = Some jti"
  shows "logout rt now user db = (Inr (), db\<lparr>refresh_tokens := revoke_rows now fam (refresh_tokens db),
    revoked_access_tokens := deny now jti (au_exp user) (revoked_access_tokens db)\<rparr>)"
  using assms
  by (simp add: logout_def deny_access_def transaction_def bindS_def revokeFamily_eq writeE_def writeS_def
      bind_uuid_def deny_def)

lemma logout_Inl:
  assumes "pg_uuid_in rt (au_sid user) = None \<or> pg_uuid_in rt (au_jti user) = None"
  shows "logout rt now user db = (Inl (db_error ''22P02'' ''uuid''), db)"
  using assms
  by (cases "pg_uuid_in rt (au_sid user)")
    (simp_all add: logout_def deny_access_def transaction_def bindS_def revokeFamily_eq revoke_uuid_fail writeE_def
      bind_uuid_def bindE_def)

lemma tokens_ok_snoc:
  assumes "tokens_ok db" "rt_id r \<notin> rt_id ` set (refresh_tokens db)"
    and "rt_token_hash r \<notin> rt_token_hash ` set (refresh_tokens db)" "refresh_ok db r"
    and "families_ok (refresh_tokens db @ [r])"
  shows "tokens_ok (db\<lparr>refresh_tokens := refresh_tokens db @ [r]\<rparr>)"
  using assms by (auto simp: tokens_ok_def refresh_ok_def)

lemma tokens_ok_use:
  "tokens_ok db \<Longrightarrow> tokens_ok (db\<lparr>refresh_tokens := use_row now rid (refresh_tokens db)\<rparr>)"
  unfolding tokens_ok_def
  by (simp add: row_simps families_ok_use) (auto simp: set_use_row refresh_ok_def)

lemma tokens_ok_rotate:
  assumes "tokens_ok db" "row \<in> set (refresh_tokens db)" "live row" "is_uuid (fv_row_id fv)"
    and "fv_row_id fv \<notin> rt_id ` set (refresh_tokens db)"
    and "hashRefresh lib cfg (newRefresh (fv_bytes fv)) \<notin> rt_token_hash ` set (refresh_tokens db)"
  shows "tokens_ok (db\<lparr>refresh_tokens := use_row now (rt_id row) (refresh_tokens db) @
    [token_row lib cfg now fv (rt_user_id row) (rt_family_id row)]\<rparr>)"
proof -
  let ?r = "token_row lib cfg now fv (rt_user_id row) (rt_family_id row)"
  let ?db = "db\<lparr>refresh_tokens := use_row now (rt_id row) (refresh_tokens db)\<rparr>"
  have "families_ok (use_row now (rt_id row) (refresh_tokens db) @ [?r])"
    using assms(1-3) by (intro families_ok_successor) (auto simp: tokens_ok_def row_simps)
  moreover have "refresh_ok ?db ?r"
    using assms(1,2,4) by (auto simp: tokens_ok_def refresh_ok_def row_simps)
  ultimately have "tokens_ok (?db\<lparr>refresh_tokens := refresh_tokens ?db @ [?r]\<rparr>)"
    using assms(5,6) tokens_ok_use [OF assms(1)] by (intro tokens_ok_snoc) (auto simp: row_simps)
  then show ?thesis by simp
qed

lemma tokens_ok_family:
  assumes "tokens_ok db" "u \<in> u_id ` set (users db)" "is_uuid fam" "is_uuid (fv_row_id fv)"
    and "fam \<notin> rt_family_id ` set (refresh_tokens db)"
    and "fv_row_id fv \<notin> rt_id ` set (refresh_tokens db)"
    and "hashRefresh lib cfg (newRefresh (fv_bytes fv)) \<notin> rt_token_hash ` set (refresh_tokens db)"
  shows "tokens_ok (db\<lparr>refresh_tokens := refresh_tokens db @ [token_row lib cfg now fv u fam]\<rparr>)"
  using assms families_ok_new_family [of "refresh_tokens db" "token_row lib cfg now fv u fam"]
  by (intro tokens_ok_snoc) (auto simp: row_simps refresh_ok_def tokens_ok_def)

lemma tokens_ok_role:
  assumes "tokens_ok db"
  shows "tokens_ok (db\<lparr>users := update_where (\<lambda>u. u_id u = i) (\<lambda>u. u\<lparr>u_role := role\<rparr>) (users db)\<rparr>)"
proof -
  let ?us = "update_where (\<lambda>u. u_id u = i) (\<lambda>u. u\<lparr>u_role := role\<rparr>) (users db)"
  have "map u_id ?us = map u_id (users db)" by (simp add: map_update_where)
  then have ids: "u_id ` set ?us = u_id ` set (users db)" "distinct (map u_id ?us) = distinct (map u_id (users db))"
    by (metis list.set_map, metis)
  have "\<forall>i\<in>u_id ` set ?us. is_uuid i" unfolding ids(1) using assms by (simp add: tokens_ok_def)
  then have "\<forall>u\<in>set ?us. is_uuid (u_id u)" by blast
  then show ?thesis using assms ids by (simp add: tokens_ok_def refresh_ok_def)
qed

section \<open>Libraries for evaluation\<close>

text \<open>
  Libraries that behave as documented: a token is the JSON text of its claims and options, the hash
  of a refresh token is the pepper and the token.
\<close>

definition claims_json :: "sign_request \<Rightarrow> millis \<Rightarrow> json" where
  "claims_json r now = JArr
     [JStr (sr_keyid r), JStr (sr_algorithm r), JStr (sr_issuer r), JStr (sr_audience r),
      JStr (sr_subject r), JBool (sr_role r = Member), JStr (sr_sid r), JStr (sr_jwtid r),
      JNum (int_text (now div 1000 + sr_expiresIn r))]"

definition claims_check :: "verify_options \<Rightarrow> json \<Rightarrow> AccessPayload option" where
  "claims_check vo j = (case j of
     JArr [JStr kid, JStr alg, JStr iss, JStr aud, JStr sub, JBool member, JStr sid, JStr jti, JNum e] \<Rightarrow>
       (case int_val e of
          Some exp \<Rightarrow>
            if alg \<in> set (vo_algorithms vo) \<and> iss = vo_issuer vo \<and> aud = vo_audience vo
            then Some \<lparr>ap_sub = sub, ap_role = (if member then Member else Viewer), ap_sid = sid,
              ap_jti = jti, ap_exp = exp\<rparr>
            else None
        | None \<Rightarrow> None)
   | _ \<Rightarrow> None)"

definition json_lib :: auth_lib where
  "json_lib = \<lparr>
     hmac_sha256_hex = (\<lambda>key text. key @ text),
     scrypt = (\<lambda>p s n. take n (p @ s @ replicate n (CHR 0x00))),
     jwt_sign = (\<lambda>r now. json_stringify (claims_json r now)),
     jwt_header_kid = (\<lambda>t. case json_parse t of Some (JArr (JStr kid # _)) \<Rightarrow> Some kid | _ \<Rightarrow> None),
     jwt_verify = (\<lambda>vo t now. case Option.bind (json_parse t) (claims_check vo) of
        Some p \<Rightarrow> if now div 1000 < ap_exp p then Inr p else Inl (plain_error ''jwt expired'')
      | None \<Rightarrow> Inl (plain_error ''jwt malformed''))\<rparr>"

definition example_config :: token_config where
  "example_config = \<lparr>tc_pepper = ''pepper'', tc_kid = ''k1'', tc_keys = [(''k1'', ''key'')]\<rparr>"

lemma claims_json_wf: "json_wf (claims_json r now)"
  by (auto simp: claims_json_def)

lemma claims_check_json:
  "claims_check vo (claims_json r now) =
     (if sr_algorithm r \<in> set (vo_algorithms vo) \<and> sr_issuer r = vo_issuer vo \<and> sr_audience r = vo_audience vo
      then Some (jwt_claims r now) else None)"
  by (cases "sr_role r") (simp_all add: claims_check_def claims_json_def jwt_claims_def)

lemma json_lib_verify:
  "jwt_verify json_lib vo t now =
     (case Option.bind (json_parse t) (claims_check vo) of
        Some p \<Rightarrow> if now div 1000 < ap_exp p then Inr p else Inl (plain_error ''jwt expired'')
      | None \<Rightarrow> Inl (plain_error ''jwt malformed''))"
  by (simp add: json_lib_def)

lemma json_lib_ok: "lib_ok json_lib example_config"
proof -
  have "length (scrypt json_lib p s n) = n" for p s n by (simp add: json_lib_def)
  moreover have "jwt_header_kid json_lib (jwt_sign json_lib r now) = Some (sr_keyid r)" for r now
    using json_parse_stringify [OF claims_json_wf, of r now] by (simp add: json_lib_def) (simp add: claims_json_def)
  moreover have "jwt_verify json_lib vo (jwt_sign json_lib r now) now' =
      (if now' div 1000 < ap_exp (jwt_claims r now) then Inr (jwt_claims r now)
       else Inl (plain_error ''jwt expired''))"
    if "sr_algorithm r \<in> set (vo_algorithms vo)" "vo_issuer vo = sr_issuer r" "vo_audience vo = sr_audience r"
    for r now vo now'
  proof -
    have "jwt_sign json_lib r now = json_stringify (claims_json r now)" by (simp add: json_lib_def)
    then show ?thesis
      using that json_parse_stringify [OF claims_json_wf, of r now]
      by (simp add: json_lib_verify claims_check_json)
  qed
  moreover have "now div 1000 < ap_exp p" if "jwt_verify json_lib vo t now = Inr p" for vo t now p
    using that by (auto simp: json_lib_verify split: option.splits if_splits)
  moreover have "p = q" if "jwt_verify json_lib vo t now = Inr p" "jwt_verify json_lib vo t now' = Inr q"
    for vo t now now' p q
    using that by (auto simp: json_lib_verify split: option.splits if_splits)
  moreover have "js_map_get (tc_keys example_config) (tc_kid example_config) \<noteq> None"
    by (simp add: example_config_def js_map_get_def)
  ultimately show ?thesis unfolding lib_ok_def by blast
qed

section \<open>Properties\<close>

text \<open>Alice logs in, and refreshes a minute later.\<close>

definition login_values :: fresh_values where
  "login_values = \<lparr>fv_row_id = uid (CHR ''0''), fv_bytes = ''secret'', fv_jti = uid (CHR ''9'')\<rparr>"

definition refresh_values :: fresh_values where
  "refresh_values = \<lparr>fv_row_id = uid (CHR ''f''), fv_bytes = ''next'', fv_jti = uid (CHR ''8'')\<rparr>"

definition alice_token :: refresh_row where
  "alice_token = token_row json_lib example_config 1767225600000 login_values (au_id alice) (au_sid alice)"

definition alice_successor :: refresh_row where
  "alice_successor = token_row json_lib example_config 1767225660000 refresh_values (au_id alice) (au_sid alice)"

definition alice_in :: db where
  "alice_in = example_db\<lparr>refresh_tokens := [alice_token]\<rparr>"

definition alice_rotated :: db where
  "alice_rotated = example_db\<lparr>refresh_tokens :=
     [alice_token\<lparr>rt_used_at := Some 1767225660000\<rparr>, alice_successor]\<rparr>"

lemma uuid_alice [simp]: "is_uuid (au_id alice)" "is_uuid (au_sid alice)"
  by code_simp+

lemma alice_user: "(au_id alice, Member) \<in> (\<lambda>u. (u_id u, u_role u)) ` set (users example_db)"
  by (simp add: example_db_def)

lemma example_no_tokens [simp]: "refresh_tokens example_db = []" "revoked_access_tokens example_db = []"
  by (simp_all add: example_db_def)

lemma canonical_uuid [simp]: "is_uuid s \<Longrightarrow> pg_uuid_in canonical_runtime s = Some s"
  using canonical_runtime_ok pg_okD(1) by blast

lemma alice_login:
  "login json_lib example_config canonical_runtime 1767225600000 login_values (au_sid alice)
     (au_id alice, Member) example_db =
   (Inr \<lparr>tp_access_token = signAccess json_lib example_config 1767225600000 (fv_jti login_values)
        (au_id alice) Member (au_sid alice),
      tp_refresh_token = newRefresh (fv_bytes login_values), tp_token_type = ''Bearer'',
      tp_expires_in = ACCESS_TTL_SECONDS\<rparr>, alice_in)"
  unfolding login_def issue_Inr
  using alice_user by (auto simp: insert_refresh_Inr alice_in_def alice_token_def row_simps)

lemma alice_lookup:
  "lookup_token json_lib example_config (newRefresh ''secret'') alice_in = Some alice_token"
  "lookup_token json_lib example_config (newRefresh ''secret'') alice_rotated =
     Some (alice_token\<lparr>rt_used_at := Some 1767225660000\<rparr>)"
  by (simp_all add: lookup_token_def alice_in_def alice_rotated_def alice_token_def token_row_def login_values_def)

lemma distinct_secrets:
  "hashRefresh json_lib example_config (newRefresh ''next'') \<noteq> hashRefresh json_lib example_config (newRefresh ''secret'')"
  "uid (CHR ''f'') \<noteq> uid (CHR ''0'')"
  by code_simp+

lemma alice_refresh:
  "refresh json_lib example_config canonical_runtime 1767225660000 refresh_values (newRefresh ''secret'') alice_in =
   (Inr \<lparr>tp_access_token = signAccess json_lib example_config 1767225660000 (fv_jti refresh_values)
        (au_id alice) Member (au_sid alice),
      tp_refresh_token = newRefresh (fv_bytes refresh_values), tp_token_type = ''Bearer'',
      tp_expires_in = ACCESS_TTL_SECONDS\<rparr>, alice_rotated)"
proof -
  let ?used = "alice_in\<lparr>refresh_tokens := use_row 1767225660000 (rt_id alice_token) (refresh_tokens alice_in)\<rparr>"
  obtain u where u: "List.find (\<lambda>u. u_id u = rt_user_id alice_token) (users alice_in) = Some u"
    "u_id u = au_id alice" "u_role u = Member"
    by (simp add: alice_in_def example_db_def alice_token_def row_simps)
  have "issue json_lib example_config canonical_runtime 1767225660000 refresh_values (u_id u, u_role u)
      (rt_family_id alice_token) ?used =
    (Inr \<lparr>tp_access_token = signAccess json_lib example_config 1767225660000 (fv_jti refresh_values)
        (au_id alice) Member (au_sid alice),
      tp_refresh_token = newRefresh (fv_bytes refresh_values), tp_token_type = ''Bearer'',
      tp_expires_in = ACCESS_TTL_SECONDS\<rparr>, alice_rotated)"
    unfolding issue_Inr u(2,3)
    using alice_user distinct_secrets
    by (auto simp: insert_refresh_Inr alice_in_def alice_rotated_def alice_successor_def alice_token_def
        row_simps use_row_def login_values_def refresh_values_def)
  moreover have "\<not> dead 1767225660000 alice_token" "rt_used_at alice_token = None"
    by (simp_all add: dead_def alice_token_def token_row_def REFRESH_TTL_SECONDS_def)
  ultimately show ?thesis
    by (simp add: refresh_rotates [OF alice_lookup(1)] rotate_token_eq [OF u(1)] transaction_def)
qed

lemma example_tokens_ok: "tokens_ok example_db"
  using example_db_ok by (simp add: tokens_ok_def db_ok_def families_ok_def list_all_iff)

lemma alice_in_ok: "tokens_ok alice_in"
proof -
  have "tokens_ok (example_db\<lparr>refresh_tokens := refresh_tokens example_db @
      [token_row json_lib example_config 1767225600000 login_values (au_id alice) (au_sid alice)]\<rparr>)"
    using alice_user by (intro tokens_ok_family example_tokens_ok) (force simp: login_values_def)+
  then show ?thesis by (simp add: alice_in_def alice_token_def)
qed

text \<open>A freshly signed access token is accepted until it expires or is put on the denylist.\<close>

lemma lib_okD:
  assumes "lib_ok lib cfg"
  shows "length (scrypt lib p s n) = n"
    and "js_map_get (tc_keys cfg) (tc_kid cfg) \<noteq> None"
    and "jwt_verify lib vo token now = Inr pl \<Longrightarrow> now div 1000 < ap_exp pl"
    and "jwt_verify lib vo token now = Inr pl \<Longrightarrow> jwt_verify lib vo token now' = Inr pl' \<Longrightarrow> pl = pl'"
  using assms unfolding lib_ok_def by blast+

lemma signed_verifies:
  assumes "lib_ok lib cfg" "pg_ok rt" "is_uuid jti" "jti \<notin> rv_jti ` set (revoked_access_tokens db)"
    and "now' div 1000 < now div 1000 + ACCESS_TTL_SECONDS"
  shows "verifyAccess lib cfg rt now' (signAccess lib cfg now jti sub role sid) db =
    Inr \<lparr>au_id = sub, au_role = role, au_jti = jti, au_sid = sid,
      au_exp = now div 1000 + ACCESS_TTL_SECONDS\<rparr>"
proof -
  let ?r = "sign_options cfg role sid sub jti"
  obtain key where key: "js_map_get (tc_keys cfg) (tc_kid cfg) = Some key"
    using lib_okD(2) [OF assms(1)] by auto
  let ?vo = "\<lparr>vo_publicKey = key, vo_algorithms = [''ES256''], vo_issuer = JWT_ISSUER, vo_audience = JWT_AUDIENCE\<rparr>"
  have opts: "sr_keyid ?r = tc_kid cfg" "sr_algorithm ?r = ''ES256''" "sr_issuer ?r = JWT_ISSUER"
      "sr_audience ?r = JWT_AUDIENCE" "ap_exp (jwt_claims ?r now) = now div 1000 + ACCESS_TTL_SECONDS"
    by (simp_all add: sign_options_def jwt_claims_def)
  have claims: "jwt_claims ?r now = \<lparr>ap_sub = sub, ap_role = role, ap_sid = sid, ap_jti = jti,
      ap_exp = now div 1000 + ACCESS_TTL_SECONDS\<rparr>"
    by (simp add: sign_options_def jwt_claims_def)
  have kid: "jwt_header_kid lib (jwt_sign lib ?r now) = Some (tc_kid cfg)"
    using assms(1) opts(1) unfolding lib_ok_def by metis
  have "jwt_verify lib ?vo (jwt_sign lib ?r now) now' = Inr (jwt_claims ?r now)"
    using assms(1) unfolding lib_ok_def
    using key opts assms(5) by simp
  moreover have "isRevoked rt now' jti db = Inr False"
    using assms(2-4) pg_okD(1) by (auto simp: isRevoked_def bind_uuid_def filter_empty_conv image_iff)
  ultimately show ?thesis
    by (simp add: verifyAccess_def signAccess_def keyFor_def kid key claims toAuthUser_def)
qed

text \<open>
  (C28) A rotation. A token that is neither used, revoked nor expired is exchanged for a pair: the
  presented token is marked used, its successor lives in the same family for thirty days, and the
  access token verifies with the role that the user has now, not the one at login.
\<close>

theorem refresh_rotation:
  assumes "pg_ok rt" "lib_ok lib cfg" "tokens_ok db" "lookup_token lib cfg token db = Some row"
    and "rt_used_at row = None" "rt_revoked_at row = None" "now < rt_expires_at row"
    and "List.find (\<lambda>u. u_id u = rt_user_id row) (users db) = Some u"
    and "fv_row_id fv \<notin> rt_id ` set (refresh_tokens db)"
    and "hashRefresh lib cfg (newRefresh (fv_bytes fv)) \<notin> rt_token_hash ` set (refresh_tokens db)"
    and "is_uuid (fv_jti fv)" "fv_jti fv \<notin> rv_jti ` set (revoked_access_tokens db)"
  shows "\<exists>pair db'. refresh lib cfg rt now fv token db = (Inr pair, db') \<and>
    tp_refresh_token pair = newRefresh (fv_bytes fv) \<and>
    verifyAccess lib cfg rt now (tp_access_token pair) db' =
      Inr \<lparr>au_id = rt_user_id row, au_role = u_role u, au_jti = fv_jti fv, au_sid = rt_family_id row,
        au_exp = now div 1000 + 600\<rparr> \<and>
    lookup_token lib cfg token db' = Some (row\<lparr>rt_used_at := Some now\<rparr>) \<and>
    lookup_token lib cfg (tp_refresh_token pair) db' =
      Some \<lparr>rt_id = fv_row_id fv, rt_user_id = rt_user_id row, rt_family_id = rt_family_id row,
        rt_token_hash = hashRefresh lib cfg (newRefresh (fv_bytes fv)), rt_used_at = None,
        rt_revoked_at = None, rt_expires_at = now + 2592000000\<rparr>"
proof -
  let ?new = "token_row lib cfg now fv (rt_user_id row) (rt_family_id row)"
  let ?tbl = "use_row now (rt_id row) (refresh_tokens db)"
  let ?db' = "db\<lparr>refresh_tokens := ?tbl @ [?new]\<rparr>"
  have row: "row \<in> set (refresh_tokens db)" "rt_token_hash row = hashRefresh lib cfg token"
    using lookup_token_Some [OF assms(4)] by auto
  have u: "u \<in> set (users db)" "u_id u = rt_user_id row" using find_SomeD [OF assms(8)] by auto
  have ids: "pg_uuid_in rt (rt_user_id row) = Some (rt_user_id row)"
      "pg_uuid_in rt (rt_family_id row) = Some (rt_family_id row)"
    using assms(1,3) pg_okD(1) u row(1) unfolding u(2) [symmetric] by (auto simp: tokens_ok_def refresh_ok_def)
  let ?pair = "\<lparr>tp_access_token = signAccess lib cfg now (fv_jti fv) (rt_user_id row) (u_role u) (rt_family_id row),
      tp_refresh_token = newRefresh (fv_bytes fv), tp_token_type = ''Bearer'', tp_expires_in = ACCESS_TTL_SECONDS\<rparr>"
  have "issue lib cfg rt now fv (rt_user_id row, u_role u) (rt_family_id row) (db\<lparr>refresh_tokens := ?tbl\<rparr>) = (Inr ?pair, ?db')"
    unfolding issue_Inr using ids u(1) assms(9,10) by (auto simp: insert_refresh_Inr row_simps u(2) [symmetric])
  then have r: "refresh lib cfg rt now fv token db = (Inr ?pair, ?db')"
    using refresh_rotates [OF assms(4) _ assms(5), of now rt fv] rotate_token_eq [OF assms(8)] assms(6,7) u(2)
    by (simp add: dead_def transaction_def)
  have v: "verifyAccess lib cfg rt now (tp_access_token ?pair) ?db' =
      Inr \<lparr>au_id = rt_user_id row, au_role = u_role u, au_jti = fv_jti fv, au_sid = rt_family_id row,
        au_exp = now div 1000 + ACCESS_TTL_SECONDS\<rparr>"
    using signed_verifies [OF assms(2,1,11), of ?db' now now "rt_user_id row" "u_role u" "rt_family_id row"] assms(12)
    by (simp add: ACCESS_TTL_SECONDS_def)
  have "rt_token_hash ?new \<noteq> hashRefresh lib cfg token" using assms(10) row by (auto simp: row_simps image_iff)
  have d: "distinct (map rt_token_hash ?tbl)" using assms(3) by (simp add: row_simps tokens_ok_def)
  have "row\<lparr>rt_used_at := Some now\<rparr> \<in> set ?tbl" using row(1) unfolding set_use_row by (force simp: image_iff)
  from find_key [OF d this] row(2)
  have old: "List.find (\<lambda>q. rt_token_hash q = hashRefresh lib cfg token) ?tbl = Some (row\<lparr>rt_used_at := Some now\<rparr>)"
    by simp
  have "List.find (\<lambda>q. rt_token_hash q = rt_token_hash ?new) ?tbl = None"
    using assms(10) by (simp add: find_key_None row_simps)
  with r v old show ?thesis
    by (auto simp: lookup_token_def find_append row_simps ACCESS_TTL_SECONDS_def REFRESH_TTL_SECONDS_def token_row_def)
qed

theorem refresh_rotation_witness:
  "\<exists>pair db'. refresh json_lib example_config canonical_runtime 1767225660000 refresh_values
      (newRefresh ''secret'') alice_in = (Inr pair, db') \<and>
    lookup_token json_lib example_config (newRefresh ''secret'') db' =
      Some (alice_token\<lparr>rt_used_at := Some 1767225660000\<rparr>)"
proof -
  obtain u where u: "List.find (\<lambda>u. u_id u = rt_user_id alice_token) (users alice_in) = Some u"
    by (simp add: alice_in_def example_db_def alice_token_def row_simps)
  have "is_uuid (uid (CHR ''8''))" by code_simp
  then show ?thesis
    using refresh_rotation [OF canonical_runtime_ok json_lib_ok alice_in_ok alice_lookup(1) _ _ _ u,
        of 1767225660000 refresh_values] distinct_secrets
    by (auto simp: alice_in_def alice_token_def token_row_def login_values_def refresh_values_def
        REFRESH_TTL_SECONDS_def)
qed

section \<open>Passwords\<close>

lemma b64_char_dollar: "v < 64 \<Longrightarrow> b64_char v \<noteq> CHR ''$''"
  using b64_val_char [of v] by (auto simp: b64_val_def)

lemma base64url_dollar: "CHR ''$'' \<notin> set (to_base64url s)"
proof -
  have "\<forall>b\<in>set (map of_char s). b < (256::nat)" by auto
  from b64_sextets_bound [OF this] show ?thesis
    using b64_char_dollar by (auto simp: to_base64url_def image_iff) metis
qed

lemma base64url_Nil: "to_base64url s = [] \<longleftrightarrow> s = []"
  using from_to_base64url [of s] from_to_base64url [of "[]"] by (metis to_base64url_def b64_sextets.simps(1) list.map(1))

lemma verifyPassword_stored:
  assumes "scheme = ''scrypt$'' @ to_base64url salt @ ''$'' @ to_base64url hash" "salt \<noteq> []" "hash \<noteq> []"
  shows "js_split (CHR ''$'') scheme = [''scrypt'', to_base64url salt, to_base64url hash]"
proof -
  have "scheme = ''scrypt'' @ CHR ''$'' # to_base64url salt @ CHR ''$'' # to_base64url hash"
    using assms(1) by simp
  then show ?thesis
    using js_split_append [of "CHR ''$''" "''scrypt''"] js_split_append [OF base64url_dollar]
      js_split_plain [OF base64url_dollar] by simp
qed

text \<open>
  (C40) Passwords. What \<open>hashPassword\<close> stores is accepted for that password, and for another one
  exactly when scrypt maps both to the same bytes; a user without a stored hash is never accepted,
  whatever the password. The comparison does not throw.
\<close>

theorem password_round_trip:
  assumes "lib_ok lib cfg" "salt \<noteq> []"
  shows "verifyPassword lib attempt (Some (hashPassword lib salt password)) =
      Inr (scrypt lib attempt salt 32 = scrypt lib password salt 32) \<and>
    verifyPassword lib attempt None = Inr False"
proof -
  have len: "length (scrypt lib p s n) = n" for p s n using lib_okD(1) [OF assms(1)] .
  have ne: "scrypt lib password salt KEY_LENGTH \<noteq> []"
    using len [of password salt KEY_LENGTH] by (auto simp: KEY_LENGTH_def)
  have s: "js_split (CHR ''$'') (hashPassword lib salt password) =
      [''scrypt'', to_base64url salt, to_base64url (scrypt lib password salt KEY_LENGTH)]"
    by (rule verifyPassword_stored [OF hashPassword_def assms(2) ne])
  have d: "js_split (CHR ''$'') DUMMY_HASH =
      [''scrypt'', to_base64url (replicate 16 (CHR 0x00)), to_base64url (replicate KEY_LENGTH (CHR 0x00))]"
    by (rule verifyPassword_stored [OF DUMMY_HASH_def]) (simp_all add: KEY_LENGTH_def)
  show ?thesis
    using assms(2) ne
    by (simp add: verifyPassword_def s d base64url_Nil Let_def timingSafeEqual_def len)
      (simp add: KEY_LENGTH_def)
qed

theorem password_round_trip_witness:
  "verifyPassword json_lib ''hunter2'' (Some (hashPassword json_lib ''salt'' ''hunter2'')) = Inr True"
  using password_round_trip [OF json_lib_ok, of "''salt''" "''hunter2''" "''hunter2''"] by simp

section \<open>Guards\<close>

text \<open>
  \<open>fromAuthHeaderAsBearerToken\<close> takes the token from a header in which the word before it is the
  scheme, in any letter case, with any white space between the two: the ASCII blanks and the no-break
  space, which is two bytes.
\<close>

definition ascii_blanks :: "char list" where
  "ascii_blanks = [CHR 0x09, CHR 0x0A, CHR 0x0B, CHR 0x0C, CHR 0x0D, CHR '' '']"

definition header_blanks :: "char set" where
  "header_blanks = set (ascii_blanks @ [CHR 0xC2, CHR 0xA0])"

definition ascii_lower :: "char \<Rightarrow> char" where
  "ascii_lower c = (if c \<in> set ''ABCDEFGHIJKLMNOPQRSTUVWXYZ'' then char_of (of_char c + (32 :: nat)) else c)"

definition bearer_header :: "string \<Rightarrow> string \<Rightarrow> bool" where
  "bearer_header header token \<longleftrightarrow> token \<noteq> [] \<and> set token \<inter> set ascii_blanks = {} \<and>
     (\<exists>before scheme blanks after. header = before @ scheme @ blanks @ token @ after \<and>
        map ascii_lower scheme = ''bearer'' \<and> blanks \<noteq> [] \<and> set blanks \<subseteq> header_blanks)"

text \<open>
  Documented behaviour of passport with the JWT strategy: a user is one that \<open>validate\<close> returned for
  a payload that verified under the key the provider gave, the token being the request's bearer
  token; an error is one that \<open>validate\<close> threw.
\<close>

definition passport_ok :: "auth_lib \<Rightarrow> millis \<Rightarrow> passport \<Rightarrow> bool" where
  "passport_ok lib now pp \<longleftrightarrow> (\<forall>kp algs iss aud val hdr.
     case pp kp (algs, iss, aud) val hdr of
       Passport_user u \<Rightarrow> (\<exists>header token key p. hdr = Some header \<and> bearer_header header token \<and> kp token = Inr key \<and>
         jwt_verify lib \<lparr>vo_publicKey = key, vo_algorithms = algs, vo_issuer = iss, vo_audience = aud\<rparr>
           token now = Inr p \<and> val p = Inr u)
     | Passport_err e \<Rightarrow> (\<exists>p. val p = Inl e)
     | Passport_fail info \<Rightarrow> True)"

definition is_public :: "route \<Rightarrow> bool" where
  "is_public ro \<longleftrightarrow> getAllAndOverride (ro_public_handler ro) (ro_public_class ro) = Some True"

definition required_roles :: "route \<Rightarrow> Role list option" where
  "required_roles ro = getAllAndOverride (ro_roles_handler ro) (ro_roles_class ro)"

lemma jwt_validate_Inl:
  "jwt_validate rt now db p = Inl e \<Longrightarrow> status_of e = 401 \<or> e = db_error ''22P02'' ''uuid''"
  by (auto simp: jwt_validate_def isRevoked_def bind_uuid_def bindE_def split: option.splits if_splits)

lemma jwt_validate_verifies:
  assumes "secretOrKeyProvider lib cfg token = Inr key"
    and "jwt_verify lib \<lparr>vo_publicKey = key, vo_algorithms = [''ES256''], vo_issuer = JWT_ISSUER,
      vo_audience = JWT_AUDIENCE\<rparr> token now = Inr p" "jwt_validate rt now db p = Inr u"
  shows "verifyAccess lib cfg rt now token db = Inr u"
  using assms
  by (auto simp: verifyAccess_def secretOrKeyProvider_def jwt_validate_def split: option.splits if_splits)

text \<open>
  (C27) The guards. A request passes as a user only with a bearer token that \<open>verifyAccess\<close> accepts,
  and with one of the roles the route asks for; without a user only on a public route that asks for
  none. A failed authentication is 401, and never 403: 403 is answered to an authenticated caller
  whose role the route does not admit, and otherwise only on a public route that asks for roles,
  which no route of the application is (\<open>public_routes_ask_no_role\<close> in \<open>Api_Correct\<close>).
\<close>

theorem guards_order:
  assumes "passport_ok lib now pp"
  shows "case guards pp lib cfg rt now db ro hdr of
      Inr None \<Rightarrow> is_public ro \<and> required_roles ro = None
    | Inr (Some u) \<Rightarrow> \<not> is_public ro \<and>
        (\<exists>header token. hdr = Some header \<and> bearer_header header token \<and>
          verifyAccess lib cfg rt now token db = Inr u) \<and>
        (case required_roles ro of None \<Rightarrow> True | Some roles \<Rightarrow> au_role u \<in> set roles)
    | Inl e \<Rightarrow>
        (case jwt_canActivate pp lib cfg rt now db ro hdr of
           Inl e' \<Rightarrow> e = e' \<and> \<not> is_public ro \<and> (status_of e = 401 \<or> e = db_error ''22P02'' ''uuid'')
         | Inr who \<Rightarrow> status_of e = 403 \<and>
             (\<exists>roles. required_roles ro = Some roles \<and>
                (case who of None \<Rightarrow> is_public ro | Some u \<Rightarrow> au_role u \<notin> set roles)))"
proof -
  let ?p = "pp (secretOrKeyProvider lib cfg) ([''ES256''], JWT_ISSUER, JWT_AUDIENCE) (jwt_validate rt now db) hdr"
  have pp: "case ?p of
       Passport_user u \<Rightarrow> (\<exists>header token key p. hdr = Some header \<and> bearer_header header token \<and>
         secretOrKeyProvider lib cfg token = Inr key \<and>
         jwt_verify lib \<lparr>vo_publicKey = key, vo_algorithms = [''ES256''], vo_issuer = JWT_ISSUER,
           vo_audience = JWT_AUDIENCE\<rparr> token now = Inr p \<and> jwt_validate rt now db p = Inr u)
     | Passport_err e \<Rightarrow> (\<exists>p. jwt_validate rt now db p = Inl e)
     | Passport_fail info \<Rightarrow> True"
    using assms unfolding passport_ok_def by blast
  have user: "\<exists>header token. hdr = Some header \<and> bearer_header header token \<and>
      verifyAccess lib cfg rt now token db = Inr u"
    if is_user: "?p = Passport_user u" for u
  proof -
    obtain header token key p where h: "hdr = Some header" "bearer_header header token"
        "secretOrKeyProvider lib cfg token = Inr key"
        "jwt_verify lib \<lparr>vo_publicKey = key, vo_algorithms = [''ES256''], vo_issuer = JWT_ISSUER,
           vo_audience = JWT_AUDIENCE\<rparr> token now = Inr p" "jwt_validate rt now db p = Inr u"
      using pp unfolding is_user by auto
    show ?thesis using h(1,2) jwt_validate_verifies [OF h(3-5)] by blast
  qed
  have err: "status_of e = 401 \<or> e = db_error ''22P02'' ''uuid''" if "handleRequest ?p = Inl e" for e
  proof (cases ?p)
    case (Passport_err e')
    then obtain p where "jwt_validate rt now db p = Inl e'" using pp by auto
    then show ?thesis using jwt_validate_Inl that Passport_err by fastforce
  qed (use that in auto)
  show ?thesis
  proof (cases "is_public ro")
    case True
    then show ?thesis
      by (cases "required_roles ro") (simp_all add: guards_def jwt_canActivate_def is_public_def
          roles_canActivate_def required_roles_def bindE_def)
  next
    case False
    then show ?thesis
    proof (cases ?p)
      case (Passport_user u)
      then show ?thesis using False user [OF Passport_user]
        by (auto simp: guards_def jwt_canActivate_def is_public_def roles_canActivate_def bindE_def
            required_roles_def split: option.splits)
    next
      case (Passport_err e)
      then show ?thesis using False err [of e]
        by (auto simp: guards_def jwt_canActivate_def is_public_def bindE_def)
    next
      case (Passport_fail info)
      then show ?thesis using False by (auto simp: guards_def jwt_canActivate_def is_public_def bindE_def)
    qed
  qed
qed

text \<open>A passport that behaves so: the first two words of the header are the scheme and the token.\<close>

definition first_word :: "string \<Rightarrow> string \<times> string" where
  "first_word s = (let t = dropWhile (\<lambda>c. c \<in> header_blanks) s
     in (takeWhile (\<lambda>c. c \<notin> header_blanks) t, dropWhile (\<lambda>c. c \<notin> header_blanks) t))"

definition bearer_token :: "string \<Rightarrow> string option" where
  "bearer_token header =
     (case first_word header of (scheme, rest) \<Rightarrow>
        if map ascii_lower scheme = ''bearer'' \<and> fst (first_word rest) \<noteq> [] then Some (fst (first_word rest))
        else None)"

definition bearer_passport :: "auth_lib \<Rightarrow> millis \<Rightarrow> passport" where
  "bearer_passport lib now kp opts val hdr =
     (case Option.bind hdr bearer_token of
        None \<Rightarrow> Passport_fail (Some ''No auth token'')
      | Some token \<Rightarrow>
          (case kp token of
             Inl e \<Rightarrow> Passport_fail (Some ''unknown kid'')
           | Inr key \<Rightarrow>
               (case jwt_verify lib \<lparr>vo_publicKey = key, vo_algorithms = fst opts, vo_issuer = fst (snd opts),
                   vo_audience = snd (snd opts)\<rparr> token now of
                  Inl e \<Rightarrow> Passport_fail None
                | Inr p \<Rightarrow> (case val p of Inl e \<Rightarrow> Passport_err e | Inr u \<Rightarrow> Passport_user u))))"

lemma first_word_split:
  assumes "first_word s = (w, r)"
  shows "\<exists>blanks. s = blanks @ w @ r \<and> set blanks \<subseteq> header_blanks" "set w \<inter> header_blanks = {}"
    "r = [] \<or> hd r \<in> header_blanks"
proof -
  let ?t = "dropWhile (\<lambda>c. c \<in> header_blanks) s"
  have w: "w = takeWhile (\<lambda>c. c \<notin> header_blanks) ?t" "r = dropWhile (\<lambda>c. c \<notin> header_blanks) ?t"
    using assms by (simp_all add: first_word_def Let_def)
  have "s = takeWhile (\<lambda>c. c \<in> header_blanks) s @ w @ r" by (simp add: w)
  moreover have "set (takeWhile (\<lambda>c. c \<in> header_blanks) s) \<subseteq> header_blanks" by (auto dest: set_takeWhileD)
  ultimately show "\<exists>blanks. s = blanks @ w @ r \<and> set blanks \<subseteq> header_blanks" by blast
  show "set w \<inter> header_blanks = {}" unfolding w(1) by (auto dest: set_takeWhileD)
  show "r = [] \<or> hd r \<in> header_blanks"
    unfolding w(2) using hd_dropWhile [of "\<lambda>c. c \<notin> header_blanks" ?t] by blast
qed

lemma bearer_token_header:
  assumes "bearer_token header = Some token"
  shows "bearer_header header token"
proof -
  obtain scheme rest after where f: "first_word header = (scheme, rest)" "first_word rest = (token, after)"
      "map ascii_lower scheme = ''bearer''" "token \<noteq> []"
    using assms by (cases "first_word header"; cases "first_word (snd (first_word header))")
      (auto simp: bearer_token_def split: if_splits)
  obtain before where b: "header = before @ scheme @ rest" using first_word_split(1) [OF f(1)] by blast
  obtain blanks where r: "rest = blanks @ token @ after" "set blanks \<subseteq> header_blanks"
    using first_word_split(1) [OF f(2)] by blast
  have t: "set token \<inter> header_blanks = {}" by (rule first_word_split(2) [OF f(2)])
  then have ascii: "set token \<inter> set ascii_blanks = {}" by (auto simp: header_blanks_def)
  have "rest \<noteq> []" using r(1) f(4) by simp
  then have "hd rest \<in> header_blanks" using first_word_split(3) [OF f(1)] by blast
  moreover have "hd token \<notin> header_blanks" using t f(4) hd_in_set by blast
  ultimately have "blanks \<noteq> []" using r(1) f(4) by auto
  moreover have "header = before @ scheme @ blanks @ token @ after" using b r(1) by simp
  ultimately have "header = before @ scheme @ blanks @ token @ after \<and> map ascii_lower scheme = ''bearer'' \<and>
      blanks \<noteq> [] \<and> set blanks \<subseteq> header_blanks"
    using r(2) f(3) by simp
  then show ?thesis unfolding bearer_header_def using f(4) ascii by (intro conjI) (assumption+, intro exI)
qed

lemma bearer_token_of:
  assumes "token \<noteq> []" "set token \<inter> header_blanks = {}"
  shows "bearer_token (''Bearer '' @ token) = Some token"
proof -
  have all: "\<forall>c\<in>set token. c \<notin> header_blanks" using assms(2) by blast
  have 1: "first_word (''Bearer '' @ token) = (''Bearer'', '' '' @ token)"
    by (simp add: first_word_def header_blanks_def ascii_blanks_def)
  have "dropWhile (\<lambda>c. c \<in> header_blanks) ('' '' @ token) = token"
    using assms all by (cases token) (simp_all add: header_blanks_def ascii_blanks_def)
  then have 2: "first_word ('' '' @ token) = (token, [])"
    using all by (simp add: first_word_def takeWhile_eq_all_conv)
  have "map ascii_lower ''Bearer'' = ''bearer''" by code_simp
  then show ?thesis using 1 2 assms(1) by (simp add: bearer_token_def del: append.simps list.map)
qed

lemma bearer_passport_ok: "passport_ok lib now (bearer_passport lib now)"
  unfolding passport_ok_def
proof (intro allI)
  fix kp :: "string \<Rightarrow> exn + string" and algs iss aud and val :: "AccessPayload \<Rightarrow> exn + AuthUser" and hdr
  show "case bearer_passport lib now kp (algs, iss, aud) val hdr of
     Passport_user u \<Rightarrow> (\<exists>header token key p. hdr = Some header \<and> bearer_header header token \<and> kp token = Inr key \<and>
       jwt_verify lib \<lparr>vo_publicKey = key, vo_algorithms = algs, vo_issuer = iss, vo_audience = aud\<rparr>
         token now = Inr p \<and> val p = Inr u)
   | Passport_err e \<Rightarrow> (\<exists>p. val p = Inl e)
   | Passport_fail info \<Rightarrow> True"
    using bearer_token_header
    by (cases hdr) (auto simp: bearer_passport_def split: option.split sum.split)
qed

theorem guards_order_witness:
  "guards (bearer_passport json_lib 0) json_lib example_config canonical_runtime 0 example_db
     \<lparr>ro_public_handler = None, ro_public_class = None, ro_roles_handler = Some [Member], ro_roles_class = None\<rparr> None =
     Inl (problem 401 ''invalid-token'' ''No auth token'') \<and> passport_ok json_lib 0 (bearer_passport json_lib 0)"
  using guards_order [OF bearer_passport_ok [of json_lib 0]]
    bearer_passport_ok [of json_lib 0]
  by (simp add: guards_def jwt_canActivate_def bearer_passport_def bindE_def)

end

