(* ===== verification/Orders.thy ===== *)
theory Orders
  imports Auth Transactions
begin

text \<open>
  Orders (\<open>orders/\<close>): the change of a status with its balance correction, the in-process event bus
  with its replay buffer, the SSE stream of one order and the WebSocket rooms. The state is the
  database next to the bus; a rollback undoes the database part only.
\<close>

section \<open>The event bus\<close>

record OrderStatusEvent =
  ev_id :: nat
  ev_order_id :: string
  ev_status :: TransactionStatus
  ev_changed_at :: string

definition BUFFER_SIZE :: nat where
  "BUFFER_SIZE = 1000"

text \<open>
  The subscribers of the subject: the open SSE responses with the chunks written to them, in the
  order in which they subscribed, and the gateway, which emits to the sockets of a room.
\<close>

record sse_stream =
  ss_conn :: nat
  ss_order :: string
  ss_chunks :: "string list"

record bus =
  bus_seq :: nat
  bus_buffer :: "OrderStatusEvent list"
  bus_streams :: "sse_stream list"
  bus_rooms :: "(string \<times> nat) list"
  bus_emitted :: "(nat \<times> OrderStatusEvent) list"

definition start_bus :: bus where
  "start_bus = \<lparr>bus_seq = 0, bus_buffer = [], bus_streams = [], bus_rooms = [], bus_emitted = []\<rparr>"

definition newline :: string where
  "newline = [CHR 0x0A]"

definition event_json :: "OrderStatusEvent \<Rightarrow> json" where
  "event_json e = JObj [(''id'', JNum (nat_text (ev_id e))), (''order_id'', JStr (ev_order_id e)),
     (''status'', JStr (status_text (ev_status e))), (''changed_at'', JStr (ev_changed_at e))]"

definition frame :: "OrderStatusEvent \<Rightarrow> string" where
  "frame event = ''id: '' @ nat_text (ev_id event) @ newline @ ''event: order.status'' @ newline @
     ''data: '' @ json_stringify (event_json event) @ newline @ newline"

definition orderRoom :: "string \<Rightarrow> string" where
  "orderRoom orderId = ''orders:'' @ orderId"

text \<open>The subscription of \<open>afterInit\<close>: the sockets in the room of the order.\<close>

definition emit_to_room :: "OrderStatusEvent \<Rightarrow> bus \<Rightarrow> bus" where
  "emit_to_room event b = b\<lparr>bus_emitted := bus_emitted b @
     map (\<lambda>(_, socket). (socket, event))
       (filter (\<lambda>(room, _). room = orderRoom (ev_order_id event)) (bus_rooms b))\<rparr>"

definition write_stream :: "OrderStatusEvent \<Rightarrow> sse_stream \<Rightarrow> sse_stream" where
  "write_stream event s =
     (if ev_order_id event = ss_order s then s\<lparr>ss_chunks := ss_chunks s @ [frame event]\<rparr> else s)"

definition publish :: "millis \<Rightarrow> string \<Rightarrow> TransactionStatus \<Rightarrow> bus \<Rightarrow> bus" where
  "publish now orderId status b =
     (let event = \<lparr>ev_id = bus_seq b + 1, ev_order_id = orderId, ev_status = status,
            ev_changed_at = toISOString now\<rparr>;
          pushed = bus_buffer b @ [event];
          kept = (if length pushed > BUFFER_SIZE then drop 1 pushed else pushed)
      in emit_to_room event (b\<lparr>bus_seq := bus_seq b + 1, bus_buffer := kept,
           bus_streams := map (write_stream event) (bus_streams b)\<rparr>))"

text \<open>\<open>Number(text)\<close>: a run of digits directly, anything else by the parameter. A fraction is its floor.\<close>

datatype js_number = NaN | Finite int | PosInf | NegInf

definition js_number_of :: "(string \<Rightarrow> js_number) \<Rightarrow> string \<Rightarrow> js_number" where
  "js_number_of fallback s = (case dec_val s of Some n \<Rightarrow> Finite (js_round (int n)) | None \<Rightarrow> fallback s)"

fun js_less_id :: "js_number \<Rightarrow> nat \<Rightarrow> bool" where
  "js_less_id (Finite x) n = (x < int n)"
| "js_less_id NegInf n = True"
| "js_less_id _ n = False"

definition since :: "string \<Rightarrow> js_number \<Rightarrow> bus \<Rightarrow> OrderStatusEvent list" where
  "since orderId lastId b = filter (\<lambda>e. ev_order_id e = orderId \<and> js_less_id lastId (ev_id e)) (bus_buffer b)"

section \<open>Changing a status\<close>

record orders_state =
  os_db :: db
  os_bus :: bus

definition with_db :: "(db, 'a) svc \<Rightarrow> (orders_state, 'a) svc" where
  "with_db m s = (case m (os_db s) of (r, db') \<Rightarrow> (r, s\<lparr>os_db := db'\<rparr>))"

record LockedOrder =
  lo_status :: TransactionStatus
  lo_type :: TransactionType
  lo_amount_cents :: int
  lo_account_id :: uuid
  lo_user_id :: uuid

definition lock_order :: "runtime \<Rightarrow> string \<Rightarrow> db \<Rightarrow> exn + LockedOrder list" where
  "lock_order rt orderId db = bindE (bind_uuid rt orderId) (\<lambda>u.
     Inr (concat (map (\<lambda>t. map (\<lambda>a. \<lparr>lo_status = t_status t, lo_type = t_type t,
         lo_amount_cents = t_amount_cents t, lo_account_id = t_account_id t, lo_user_id = a_user_id a\<rparr>)
       (filter (\<lambda>a. a_id a = t_account_id t) (accounts db))) (filter (\<lambda>t. t_id t = u) (transactions db)))))"

definition update_status :: "runtime \<Rightarrow> string \<Rightarrow> TransactionStatus \<Rightarrow> db \<Rightarrow> exn + db" where
  "update_status rt orderId status db = bindE (bind_uuid rt orderId) (\<lambda>u.
     Inr (db\<lparr>transactions := update_where (\<lambda>t. t_id t = u) (\<lambda>t. t\<lparr>t_status := status\<rparr>) (transactions db)\<rparr>))"

definition changeStatus_body ::
  "runtime \<Rightarrow> string \<Rightarrow> TransactionStatus \<Rightarrow> AuthUser \<Rightarrow> (db, bool) svc" where
  "changeStatus_body rt orderId status user =
     bindS (readE (lock_order rt orderId)) (\<lambda>rows.
     case rows of
       [] \<Rightarrow> throwS (problem 404 ''order-not-found'' (''order '' @ orderId @ '' was not found''))
     | order # _ \<Rightarrow>
         bindS (liftS (assertOwner (lo_user_id order) user (''order '' @ orderId))) (\<lambda>_.
         if lo_status order = status then returnS False
         else
           bindS (writeE (update_status rt orderId status)) (\<lambda>_.
           bindS (if (lo_status order = Posted) \<noteq> (status = Posted)
                  then let booked = js_mult (SIGN (lo_type order)) (js_round (lo_amount_cents order))
                       in accounts_updateBalance rt (lo_account_id order)
                            (if status = Posted then booked else - booked)
                  else returnS ()) (\<lambda>_.
           returnS True))))"

definition changeStatus ::
  "runtime \<Rightarrow> millis \<Rightarrow> string \<Rightarrow> TransactionStatus \<Rightarrow> AuthUser \<Rightarrow> (orders_state, string \<times> TransactionStatus) svc" where
  "changeStatus rt now orderId status user =
     bindS (with_db (transaction (changeStatus_body rt orderId status user))) (\<lambda>changed.
     bindS (if changed then writeS (\<lambda>s. s\<lparr>os_bus := publish now orderId status (os_bus s)\<rparr>)
            else returnS ()) (\<lambda>_.
     returnS (orderId, status)))"

section \<open>Streams and rooms\<close>

definition sse_head :: string where
  "sse_head = ''retry: 1000'' @ newline @ newline"

definition events ::
  "(string \<Rightarrow> js_number) \<Rightarrow> nat \<Rightarrow> string \<Rightarrow> string option \<Rightarrow> bus \<Rightarrow> bus" where
  "events fallback conn orderId lastEventId b =
     (let lastId = (case lastEventId of None \<Rightarrow> NaN | Some s \<Rightarrow> js_number_of fallback s);
          lastId = (if lastId = NaN then Finite 0 else lastId);
          stream = \<lparr>ss_conn = conn, ss_order = orderId,
            ss_chunks = sse_head # map frame (since orderId lastId b)\<rparr>
      in b\<lparr>bus_streams := bus_streams b @ [stream]\<rparr>)"

definition close_stream :: "nat \<Rightarrow> bus \<Rightarrow> bus" where
  "close_stream conn b = b\<lparr>bus_streams := filter (\<lambda>s. ss_conn s \<noteq> conn) (bus_streams b)\<rparr>"

datatype JoinAck = Join_ok string | Join_error string

text \<open>
  What the client put into the handshake and into the message: only text is looked at. \<open>isUUID4\<close> is
  class-validator's check.
\<close>

definition join ::
  "auth_lib \<Rightarrow> token_config \<Rightarrow> runtime \<Rightarrow> millis \<Rightarrow> (string \<Rightarrow> bool) \<Rightarrow> bool \<Rightarrow> nat \<Rightarrow> string option \<Rightarrow>
   string option \<Rightarrow> orders_state \<Rightarrow> JoinAck \<times> orders_state" where
  "join lib cfg rt now isUUID4 drift socket token orderId s =
     (case (case token of
              Some t \<Rightarrow> (case verifyAccess lib cfg rt now t (os_db s) of Inr u \<Rightarrow> Some u | Inl _ \<Rightarrow> None)
            | None \<Rightarrow> None) of
        None \<Rightarrow> (Join_error ''unauthorized'', s)
      | Some user \<Rightarrow>
          (case orderId of
             None \<Rightarrow> (Join_error ''transaction-not-found'', s)
           | Some oid \<Rightarrow>
               if \<not> isUUID4 oid then (Join_error ''transaction-not-found'', s)
               else (case fst (transactions_getById rt drift oid user (os_db s)) of
                  Inl (ProblemException _ code _) \<Rightarrow> (Join_error code, s)
                | Inl _ \<Rightarrow> (Join_error ''internal'', s)
                | Inr _ \<Rightarrow>
                    let room = orderRoom oid;
                        rooms = bus_rooms (os_bus s)
                    in (Join_ok room, s\<lparr>os_bus := (os_bus s)\<lparr>bus_rooms :=
                          (if (room, socket) \<in> set rooms then rooms else rooms @ [(room, socket)])\<rparr>\<rparr>))))"

definition disconnect :: "nat \<Rightarrow> bus \<Rightarrow> bus" where
  "disconnect socket b = b\<lparr>bus_rooms := filter (\<lambda>(_, k). k \<noteq> socket) (bus_rooms b)\<rparr>"

end
