(* ===== verification/Orders_Correct.thy ===== *)
theory Orders_Correct
  imports Orders Auth_Correct Transactions_Correct
begin

text \<open>
  Correctness of orders: every outcome of a status change, the ledger invariant under it, the replay
  buffer, the SSE stream as a gapless copy of the published events, and who may join a room.
\<close>

section \<open>Status changes\<close>

definition correction :: "tx_row \<Rightarrow> TransactionStatus \<Rightarrow> int" where
  "correction t status =
     (if (t_status t = Posted) = (status = Posted) then 0
      else (if status = Posted then 1 else - 1) * js_mult (SIGN (t_type t)) (js_round (t_amount_cents t)))"

definition order_moved :: "tx_row \<Rightarrow> TransactionStatus \<Rightarrow> db \<Rightarrow> db" where
  "order_moved t status db = db\<lparr>transactions := set_status (t_id t) status (transactions db),
     accounts := shift_balances (\<lambda>i. if i = t_account_id t then correction t status else 0) (accounts db)\<rparr>"

lemma lock_order_found:
  assumes "db_ok db" "t \<in> set (transactions db)" "a \<in> set (accounts db)" "a_id a = t_account_id t"
    and "pg_uuid_in rt orderId = Some (t_id t)"
  shows "lock_order rt orderId db = Inr [\<lparr>lo_status = t_status t, lo_type = t_type t,
    lo_amount_cents = t_amount_cents t, lo_account_id = t_account_id t, lo_user_id = a_user_id a\<rparr>]"
proof -
  have "filter (\<lambda>r. t_id r = t_id t) (transactions db) = [t]"
    using filter_key [OF db_ok_distinct(2) [OF assms(1)] assms(2)] .
  moreover have "filter (\<lambda>r. a_id r = t_account_id t) (accounts db) = [a]"
    using filter_key [OF db_ok_distinct(1) [OF assms(1)] assms(3)] assms(4) by simp
  ultimately show ?thesis using assms(5) by (simp add: lock_order_def bind_uuid_def)
qed

lemma add_balance_zero: "db_ok db \<Longrightarrow> add_balance aid 0 db = Inr db"
  using db_ok_accounts(2) by (auto simp: add_balance_shift)

lemma add_balance_one:
  assumes "db_ok db" "a \<in> set (accounts db)"
  shows "add_balance (a_id a) d db =
    (if fits_bigint (a_balance_cents a + d)
     then Inr (db\<lparr>accounts := shift_balances (\<lambda>i. if i = a_id a then d else 0) (accounts db)\<rparr>)
     else Inl (db_error ''22003'' ''bigint''))"
proof (cases "fits_bigint (a_balance_cents a + d)")
  case True
  have "b = a" if "b \<in> set (accounts db)" "a_id b = a_id a" for b
    using that db_ok_distinct(1) [OF assms(1)] assms(2) by (auto simp: distinct_map inj_on_def)
  then have "add_balance (a_id a) d db = Inr (db\<lparr>accounts := shift_balances (\<lambda>i. if i = a_id a then d else 0) (accounts db)\<rparr>)"
    using True unfolding add_balance_shift by blast
  then show ?thesis using True by simp
next
  case False
  then show ?thesis using assms(2) by (auto simp: add_balance_def list_all_iff)
qed

lemma changeStatus_body_own:
  assumes "pg_ok rt" "db_ok db" "t \<in> set (transactions db)" "a \<in> set (accounts db)" "a_id a = t_account_id t"
    and "pg_uuid_in rt orderId = Some (t_id t)" "a_user_id a = au_id user" "t_status t \<noteq> status"
  shows "transaction (changeStatus_body rt orderId status user) db =
    (if fits_bigint (a_balance_cents a + correction t status)
     then (Inr True, order_moved t status db) else (Inl (db_error ''22003'' ''bigint''), db))"
proof -
  let ?moved = "db\<lparr>transactions := set_status (t_id t) status (transactions db)\<rparr>"
  have "pg_uuid_in rt (a_id a) = Some (a_id a)"
    using assms(1,2,4) db_ok_accounts(1) pg_okD(1) by blast
  then have bal: "accounts_updateBalance rt (t_account_id t) d ?moved =
      (if fits_bigint (a_balance_cents a + d)
       then (Inr (), ?moved\<lparr>accounts := shift_balances (\<lambda>i. if i = t_account_id t then d else 0) (accounts db)\<rparr>)
       else (Inl (db_error ''22003'' ''bigint''), ?moved))" for d
    using add_balance_one [OF db_ok_set_status [OF assms(2)], of a "t_id t" status d] assms(4)
    unfolding assms(5)
    by (simp add: accounts_updateBalance_def bindS_def liftS_def bind_uuid_def writeE_def)
  have upd: "update_status rt orderId status db = Inr ?moved"
    using assms(6) by (simp add: update_status_def bind_uuid_def set_status_def)
  have zero: "fits_bigint (a_balance_cents a)" using db_ok_accounts(2) assms(2,4) by blast
  note lock = lock_order_found [OF assms(2-6)]
  show ?thesis
  proof (cases "(t_status t = Posted) = (status = Posted)")
    case True
    then have c: "correction t status = 0" by (simp add: correction_def)
    then have "order_moved t status db = ?moved" by (simp add: order_moved_def cong: if_cong)
    then show ?thesis
      using lock assms(7,8) upd zero True c
      by (simp add: changeStatus_body_def transaction_def bindS_def readE_def liftS_def writeE_def returnS_def)
  next
    case False
    define d where "d = correction t status"
    have d: "(let booked = js_mult (SIGN (t_type t)) (js_round (t_amount_cents t))
        in accounts_updateBalance rt (t_account_id t) (if status = Posted then booked else - booked)) =
        accounts_updateBalance rt (t_account_id t) d"
      using False by (simp add: d_def correction_def Let_def)
    show ?thesis
      unfolding order_moved_def d_def [symmetric]
      using lock assms(7,8) upd False bal [of d]
      by (simp add: changeStatus_body_def transaction_def bindS_def readE_def liftS_def writeE_def returnS_def d)
  qed
qed

text \<open>What a status change promises, as one table of cases.\<close>

definition changeStatus_spec ::
  "runtime \<Rightarrow> millis \<Rightarrow> string \<Rightarrow> TransactionStatus \<Rightarrow> AuthUser \<Rightarrow> (orders_state, string \<times> TransactionStatus) svc" where
  "changeStatus_spec rt now orderId status user s =
    (case pg_uuid_in rt orderId of
       None \<Rightarrow> (Inl (db_error ''22P02'' ''uuid''), s)
     | Some u \<Rightarrow>
         (case List.find (\<lambda>t. t_id t = u) (transactions (os_db s)) of
            None \<Rightarrow> (Inl (problem 404 ''order-not-found'' (''order '' @ orderId @ '' was not found'')), s)
          | Some t \<Rightarrow>
              (case List.find (\<lambda>a. a_id a = t_account_id t) (accounts (os_db s)) of
                 None \<Rightarrow> (Inl (problem 404 ''order-not-found'' (''order '' @ orderId @ '' was not found'')), s)
               | Some a \<Rightarrow>
                   if a_user_id a \<noteq> au_id user
                   then (Inl (problem 403 ''forbidden'' (''order '' @ orderId @ '' belongs to another user'')), s)
                   else if t_status t = status then (Inr (orderId, status), s)
                   else if fits_bigint (a_balance_cents a + correction t status)
                   then (Inr (orderId, status), \<lparr>os_db = order_moved t status (os_db s),
                          os_bus = publish now orderId status (os_bus s)\<rparr>)
                   else (Inl (db_error ''22003'' ''bigint''), s))))"

lemma changeStatus_eq:
  assumes "pg_ok rt" "db_ok (os_db s)"
  shows "changeStatus rt now orderId status user s = changeStatus_spec rt now orderId status user s"
proof (cases "pg_uuid_in rt orderId")
  case None
  then show ?thesis
    by (simp add: changeStatus_spec_def changeStatus_def changeStatus_body_def lock_order_def bind_uuid_def bindE_def bindS_def
        readE_def with_db_def transaction_def)
next
  case (Some u)
  note uuid = this
  show ?thesis
  proof (cases "List.find (\<lambda>t. t_id t = u) (transactions (os_db s))")
    case None
    then have "filter (\<lambda>t. t_id t = u) (transactions (os_db s)) = []"
      by (auto simp: find_None_iff filter_empty_conv)
    then show ?thesis using uuid None
      by (simp add: changeStatus_spec_def changeStatus_def changeStatus_body_def lock_order_def bind_uuid_def bindS_def
          readE_def with_db_def transaction_def throwS_def)
  next
    case (Some t)
    then have t: "t \<in> set (transactions (os_db s))" "t_id t = u" using find_SomeD by fastforce+
    obtain a where a: "a \<in> set (accounts (os_db s))" "a_id a = t_account_id t"
      using db_ok_transaction_account [OF assms(2) t(1)] by metis
    have fa: "List.find (\<lambda>a. a_id a = t_account_id t) (accounts (os_db s)) = Some a"
      using find_key [OF db_ok_distinct(1) [OF assms(2)] a(1)] a(2) by simp
    have uuid': "pg_uuid_in rt orderId = Some (t_id t)" using uuid t(2) by simp
    note lock = lock_order_found [OF assms(2) t(1) a uuid']
    consider "a_user_id a \<noteq> au_id user" | "a_user_id a = au_id user" "t_status t = status"
      | "a_user_id a = au_id user" "t_status t \<noteq> status" by blast
    then show ?thesis
    proof cases
      case 1
      then show ?thesis using lock uuid Some fa
        by (simp add: changeStatus_spec_def changeStatus_def changeStatus_body_def bindS_def readE_def with_db_def transaction_def
            liftS_def throwS_def assertOwner_def)
    next
      case 2
      then show ?thesis using lock uuid Some fa
        by (simp add: changeStatus_spec_def changeStatus_def changeStatus_body_def bindS_def readE_def with_db_def transaction_def
            liftS_def returnS_def)
    next
      case 3
      then show ?thesis
        using changeStatus_body_own [OF assms t(1) a uuid' 3] uuid Some fa
        by (simp add: changeStatus_spec_def changeStatus_def bindS_def with_db_def returnS_def writeS_def)
    qed
  qed
qed

lemma correction_exact:
  assumes "js_safe (t_amount_cents t)"
  shows "correction t status =
    (if status = Posted then signed t else 0) - (if t_status t = Posted then signed t else 0)"
proof -
  have "SIGN (t_type t) * t_amount_cents t = t_amount_cents t \<or> SIGN (t_type t) * t_amount_cents t = - t_amount_cents t"
    by (cases "t_type t") (auto simp: SIGN_def)
  then have "js_safe (SIGN (t_type t) * t_amount_cents t)" using assms by (auto simp: js_safe_def)
  then show ?thesis using assms by (auto simp: correction_def signed_def js_mult_safe)
qed

lemma order_moved_db_ok:
  assumes "db_ok db" "a \<in> set (accounts db)" "a_id a = t_account_id t"
    and "fits_bigint (a_balance_cents a + correction t status)"
  shows "db_ok (order_moved t status db)"
proof -
  let ?d = "\<lambda>i. if i = t_account_id t then correction t status else 0"
  have "fits_bigint (a_balance_cents b + ?d (a_id b))" if "b \<in> set (accounts db)" for b
  proof (cases "a_id b = t_account_id t")
    case True
    then have "b = a" using that assms(2,3) db_ok_distinct(1) [OF assms(1)] by (auto simp: distinct_map inj_on_def)
    then show ?thesis using assms(4) True by simp
  next
    case False
    then show ?thesis using db_ok_accounts(2) assms(1) that by simp
  qed
  then have "db_ok ((db\<lparr>transactions := set_status (t_id t) status (transactions db)\<rparr>)
      \<lparr>accounts := shift_balances ?d (accounts (db\<lparr>transactions := set_status (t_id t) status (transactions db)\<rparr>))\<rparr>)"
    by (intro db_ok_shift db_ok_set_status assms(1)) simp
  then show ?thesis by (simp add: order_moved_def)
qed

lemma order_moved_opening:
  assumes "db_ok db" "t \<in> set (transactions db)" "js_safe (t_amount_cents t)" "aid \<in> a_id ` set (accounts db)"
  shows "opening_balance (order_moved t status db) aid = opening_balance db aid"
proof -
  have "balance_of (order_moved t status db) aid =
      balance_of db aid + (if aid = t_account_id t then correction t status else 0)"
    using balance_of_shift [OF db_ok_distinct(1) [OF assms(1)] assms(4)]
    by (simp add: order_moved_def balance_of_def)
  moreover have "posted_sum (transactions (order_moved t status db)) aid =
      posted_sum (transactions db) aid + (if t_account_id t = aid then correction t status else 0)"
    using posted_sum_set_status [OF db_ok_distinct(2) [OF assms(1)] assms(2)] correction_exact [OF assms(3)]
    by (simp add: order_moved_def)
  ultimately show ?thesis by (simp add: opening_balance_def)
qed

text \<open>The outcomes in short: nothing happened, or an own order was moved and announced.\<close>

lemma changeStatus_outcome:
  assumes "pg_ok rt" "db_ok (os_db s)" "changeStatus rt now orderId status user s = (r, s')"
  obtains (unchanged) "s' = s"
  | (moved) t a where "t \<in> set (transactions (os_db s))" "a \<in> set (accounts (os_db s))"
      "a_id a = t_account_id t" "a_user_id a = au_id user" "pg_uuid_in rt orderId = Some (t_id t)"
      "t_status t \<noteq> status" "fits_bigint (a_balance_cents a + correction t status)"
      "r = Inr (orderId, status)" "os_db s' = order_moved t status (os_db s)"
      "os_bus s' = publish now orderId status (os_bus s)"
proof -
  note c = changeStatus_eq [OF assms(1,2), of now orderId status user, unfolded changeStatus_spec_def]
  show thesis
  proof (cases "s' = s")
    case True
    then show thesis by (rule unchanged)
  next
    case False
    then obtain u t a where f: "pg_uuid_in rt orderId = Some u"
        "List.find (\<lambda>t. t_id t = u) (transactions (os_db s)) = Some t"
        "List.find (\<lambda>a. a_id a = t_account_id t) (accounts (os_db s)) = Some a"
        "a_user_id a = au_id user" "t_status t \<noteq> status" "fits_bigint (a_balance_cents a + correction t status)"
        "r = Inr (orderId, status)"
        "s' = \<lparr>os_db = order_moved t status (os_db s), os_bus = publish now orderId status (os_bus s)\<rparr>"
      using assms(3) unfolding c by (auto split: option.splits if_splits)
    then show thesis using moved [of t a] find_SomeD [OF f(2)] find_SomeD [OF f(3)] by simp
  qed
qed

text \<open>
  (C14) The ledger survives a status change. Whatever the outcome, the constraints hold afterwards
  and every account has the opening balance it had: crossing the line of \<open>posted\<close> books or un-books
  exactly the signed amount of the order (the amount being one that a double holds exactly).
\<close>

theorem changeStatus_keeps_ledger:
  assumes "pg_ok rt" "db_ok (os_db s)" "changeStatus rt now orderId status user s = (r, s')"
    and "\<forall>t\<in>set (transactions (os_db s)). js_safe (t_amount_cents t)"
  shows "db_ok (os_db s') \<and> (\<forall>aid\<in>a_id ` set (accounts (os_db s)).
    opening_balance (os_db s') aid = opening_balance (os_db s) aid)"
  using assms(1-3)
proof (cases rule: changeStatus_outcome)
  case unchanged
  then show ?thesis using assms(2) by simp
next
  case (moved t a)
  then show ?thesis
    using order_moved_db_ok [OF assms(2)] order_moved_opening [OF assms(2)] assms(4) by auto
qed

text \<open>
  (C15) Every outcome of a status change. A malformed id is 22P02, an unknown order 404, someone
  else's 403; the same status again changes nothing and publishes nothing; a balance that would
  leave the range of \<open>bigint\<close> undoes the status too. Otherwise the status and the balance move
  together, and exactly then one event is published, under the id as the client wrote it. On every
  error the database and the bus are untouched.
\<close>

theorem changeStatus_refines:
  assumes "pg_ok rt" "db_ok (os_db s)"
  shows "changeStatus rt now orderId status user s = changeStatus_spec rt now orderId status user s"
  using assms by (rule changeStatus_eq)

definition example_orders :: orders_state where
  "example_orders = \<lparr>os_db = example_db, os_bus = start_bus\<rparr>"

theorem changeStatus_refines_witness:
  "\<exists>s'. changeStatus canonical_runtime 1767225800000 (uid (CHR ''6'')) Posted alice example_orders =
     (Inr (uid (CHR ''6''), Posted), s') \<and> bus_seq (os_bus s') = 1"
proof -
  have "db_ok (os_db example_orders)" by (simp add: example_orders_def example_db_ok)
  moreover have "pg_uuid_in canonical_runtime (uid (CHR ''6'')) = Some (uid (CHR ''6''))" by code_simp
  moreover have "List.find (\<lambda>t. t_id t = uid (CHR ''6'')) (transactions (os_db example_orders)) = Some order_tx"
    by (simp add: example_orders_def example_db_def order_tx_def tx_row_of_def)
  moreover have "List.find (\<lambda>a. a_id a = t_account_id order_tx) (accounts (os_db example_orders)) = Some usd_account"
    by code_simp
  moreover have "a_user_id usd_account = au_id alice" "t_status order_tx \<noteq> Posted" by code_simp+
  moreover have "fits_bigint (a_balance_cents usd_account + correction order_tx Posted)" by code_simp
  ultimately show ?thesis
    using changeStatus_refines [OF canonical_runtime_ok, of example_orders 1767225800000 "uid (CHR ''6'')" Posted alice]
    by (simp add: changeStatus_spec_def publish_def Let_def emit_to_room_def example_orders_def start_bus_def)
qed

theorem changeStatus_keeps_ledger_witness:
  "opening_balance (os_db (snd (changeStatus canonical_runtime 1767225800000 (uid (CHR ''6'')) Posted alice
     example_orders))) (uid (CHR ''d'')) = 500000"
proof -
  have "\<forall>t\<in>set (transactions example_db). js_safe (t_amount_cents t)" by code_simp
  moreover have "uid (CHR ''d'') \<in> a_id ` set (accounts example_db)"
    by (simp add: example_db_def usd_account_def)
  moreover have "opening_balance example_db (uid (CHR ''d'')) = 500000" by code_simp
  ultimately show ?thesis
    using changeStatus_keeps_ledger [OF canonical_runtime_ok, of example_orders 1767225800000 "uid (CHR ''6'')" Posted alice]
      example_db_ok
    by (auto simp: example_orders_def prod_eq_iff)
qed

section \<open>The event bus\<close>

text \<open>
  A trace of the bus: publishes, and streams and sockets that come and go. The label is what was
  published. Connection \<open>c\<close> is the one observed: the trace neither opens nor closes it.
\<close>

inductive bus_trace :: "nat \<Rightarrow> bus \<Rightarrow> OrderStatusEvent list \<Rightarrow> bus \<Rightarrow> bool" for c b0 where
  trace_start: "bus_trace c b0 [] b0"
| trace_publish: "bus_trace c b0 h b \<Longrightarrow>
    bus_trace c b0 (h @ [\<lparr>ev_id = bus_seq b + 1, ev_order_id = orderId, ev_status = status,
      ev_changed_at = toISOString now\<rparr>]) (publish now orderId status b)"
| trace_open: "bus_trace c b0 h b \<Longrightarrow> conn \<noteq> c \<Longrightarrow> bus_trace c b0 h (events fb conn orderId last' b)"
| trace_close: "bus_trace c b0 h b \<Longrightarrow> conn \<noteq> c \<Longrightarrow> bus_trace c b0 h (close_stream conn b)"
| trace_rooms: "bus_trace c b0 h b \<Longrightarrow> bus_trace c b0 h (b\<lparr>bus_rooms := rooms\<rparr>)"

definition stream_of :: "nat \<Rightarrow> bus \<Rightarrow> sse_stream list" where
  "stream_of c b = filter (\<lambda>s. ss_conn s = c) (bus_streams b)"

lemma publish_fields [row_simps]:
  "bus_seq (publish now orderId status b) = bus_seq b + 1"
  "bus_rooms (publish now orderId status b) = bus_rooms b"
  "bus_streams (publish now orderId status b) = map (write_stream \<lparr>ev_id = bus_seq b + 1,
     ev_order_id = orderId, ev_status = status, ev_changed_at = toISOString now\<rparr>) (bus_streams b)"
  by (simp_all add: publish_def Let_def emit_to_room_def)

lemma events_fields [row_simps]:
  "bus_seq (events fb conn orderId last' b) = bus_seq b"
  "bus_buffer (events fb conn orderId last' b) = bus_buffer b"
  by (simp_all add: events_def Let_def)

lemma close_fields [row_simps]:
  "bus_seq (close_stream conn b) = bus_seq b" "bus_buffer (close_stream conn b) = bus_buffer b"
  by (simp_all add: close_stream_def)

lemma drop_window: "drop (length (xs @ [x]) - n) (xs @ [x]) =
    (let kept = drop (length xs - n) xs @ [x] in if length kept > n then drop 1 kept else kept)"
  if "0 < n"
proof (cases "length xs < n")
  case False
  then have "length (drop (length xs - n) xs) = n" by simp
  moreover have "drop (Suc (length xs) - n) xs = drop 1 (drop (length xs - n) xs)" using False by (simp add: Suc_diff_le)
  moreover have "Suc (length xs) - n \<le> length xs" using that by simp
  ultimately show ?thesis using that by (simp add: Let_def)
qed simp

text \<open>The buffer is the last thousand events, and ids count them.\<close>

definition bus_ok :: "OrderStatusEvent list \<Rightarrow> bus \<Rightarrow> bool" where
  "bus_ok h b \<longleftrightarrow> bus_seq b = length h \<and> bus_buffer b = drop (length h - BUFFER_SIZE) h \<and>
     map ev_id h = [1..<length h + 1]"

lemma bus_ok_publish:
  assumes "bus_ok h b"
  shows "bus_ok (h @ [\<lparr>ev_id = bus_seq b + 1, ev_order_id = orderId, ev_status = status,
    ev_changed_at = toISOString now\<rparr>]) (publish now orderId status b)" (is "bus_ok (h @ [?e]) _")
proof -
  have "bus_buffer (publish now orderId status b) = drop (length (h @ [?e]) - BUFFER_SIZE) (h @ [?e])"
    using assms drop_window [of BUFFER_SIZE h ?e]
    by (simp add: publish_def emit_to_room_def bus_ok_def Let_def BUFFER_SIZE_def)
  then show ?thesis using assms by (simp add: bus_ok_def row_simps)
qed

lemma trace_bus_ok:
  "bus_trace c b0 h b \<Longrightarrow> bus_ok h0 b0 \<Longrightarrow> bus_ok (h0 @ h) b"
proof (induction rule: bus_trace.induct)
  case (trace_publish h b orderId status now)
  then show ?case using bus_ok_publish [of "h0 @ h" b] by simp
qed (simp_all add: bus_ok_def row_simps)

lemma bus_ok_start: "bus_ok [] start_bus"
  by (simp add: bus_ok_def start_bus_def)

lemma trace_stream:
  assumes "bus_trace c b0 h b"
  shows "stream_of c b = map (\<lambda>s. s\<lparr>ss_chunks := ss_chunks s @
    map frame (filter (\<lambda>e. ev_order_id e = ss_order s) h)\<rparr>) (stream_of c b0)"
  using assms
proof (induction rule: bus_trace.induct)
  case (trace_publish h b orderId status now)
  have "stream_of c (publish now orderId status b) = map (write_stream \<lparr>ev_id = bus_seq b + 1,
     ev_order_id = orderId, ev_status = status, ev_changed_at = toISOString now\<rparr>) (stream_of c b)"
    by (simp add: stream_of_def row_simps filter_map comp_def write_stream_def if_distrib cong: if_cong)
  then show ?case by (simp add: trace_publish.IH write_stream_def)
next
  case (trace_close h b conn)
  have "filter (\<lambda>x. ss_conn x \<noteq> conn \<and> ss_conn x = c) (bus_streams b) = filter (\<lambda>x. ss_conn x = c) (bus_streams b)"
    using trace_close.hyps(2) by (intro filter_cong) auto
  then show ?case using trace_close.IH by (simp add: stream_of_def close_stream_def)
qed (auto simp: stream_of_def events_def close_stream_def Let_def intro: filter_cong)

text \<open>The cursor that a \<open>Last-Event-ID\<close> header stands for.\<close>

definition cursor_of :: "(string \<Rightarrow> js_number) \<Rightarrow> string option \<Rightarrow> js_number" where
  "cursor_of fb last' = (let n = (case last' of None \<Rightarrow> NaN | Some s \<Rightarrow> js_number_of fb s)
     in if n = NaN then Finite 0 else n)"

lemma since_bus_ok:
  assumes "bus_ok h b" "length h \<le> l + BUFFER_SIZE"
  shows "since orderId (Finite (int l)) b = filter (\<lambda>e. ev_order_id e = orderId \<and> l < ev_id e) h"
proof -
  let ?k = "length h - BUFFER_SIZE"
  have "map ev_id (take ?k h) = take ?k [1..<length h + 1]"
    using assms(1) by (simp add: bus_ok_def flip: take_map)
  then have "ev_id ` set (take ?k h) = set (take ?k [1..<length h + 1])" by (metis list.set_map)
  also have "\<dots> \<subseteq> {..l}" using assms(2) by (cases "?k = 0") (auto simp del: upt_Suc simp: take_upt)
  finally have "filter (\<lambda>e. ev_order_id e = orderId \<and> l < ev_id e) (take ?k h) = []"
    by (auto simp: filter_empty_conv image_subset_iff)
  moreover have "filter (\<lambda>e. ev_order_id e = orderId \<and> l < ev_id e) h =
      filter (\<lambda>e. ev_order_id e = orderId \<and> l < ev_id e) (take ?k h) @
      filter (\<lambda>e. ev_order_id e = orderId \<and> l < ev_id e) (drop ?k h)"
    by (metis append_take_drop_id filter_append)
  ultimately show ?thesis using assms(1) by (simp add: since_def bus_ok_def)
qed

lemma trace_fresh: "bus_trace c b0 h b \<Longrightarrow> stream_of c b0 = [] \<Longrightarrow> stream_of c b = []"
  using trace_stream by fastforce

text \<open>
  (C17) The SSE stream has no gap and no duplicate. Let a client connect with the last id it has
  seen (or none), not older than the buffer reaches. Whatever was published before and is published
  afterwards, by whatever interleaving with other clients, the response consists of the retry line
  and then the frame of every event of that order with a larger id, once each and in order; ids
  number all events of the process consecutively.
\<close>

theorem sse_no_gap_no_duplicate:
  assumes "bus_trace c start_bus h1 b1" "cursor_of fb last' = Finite (int l)"
    and "l \<le> length h1" "length h1 \<le> l + 1000"
    and "bus_trace c (events fb c orderId last' b1) h2 b2"
  shows "stream_of c b2 = [\<lparr>ss_conn = c, ss_order = orderId,
      ss_chunks = sse_head # map frame (filter (\<lambda>e. ev_order_id e = orderId \<and> l < ev_id e) (h1 @ h2))\<rparr>] \<and>
    map ev_id (h1 @ h2) = [1..<length (h1 @ h2) + 1]"
proof -
  have ok1: "bus_ok h1 b1" using trace_bus_ok [OF assms(1) bus_ok_start] by simp
  have "bus_ok h1 (events fb c orderId last' b1)" using ok1 by (simp add: bus_ok_def row_simps)
  from trace_bus_ok [OF assms(5) this] have ids: "map ev_id (h1 @ h2) = [1..<length (h1 @ h2) + 1]"
    by (simp add: bus_ok_def)
  have "map ev_id (h1 @ h2) ! (length h1 + i) = length h1 + i + 1" if "i < length h2" for i
    unfolding ids using that by (simp del: upt_Suc)
  then have "ev_id (h2 ! i) = length h1 + i + 1" if "i < length h2" for i
    using that by (simp add: nth_append)
  then have "l < ev_id e" if "e \<in> set h2" for e using that assms(3) by (auto simp: in_set_conv_nth)
  then have h2: "filter (\<lambda>e. ev_order_id e = orderId \<and> l < ev_id e) h2 = filter (\<lambda>e. ev_order_id e = orderId) h2"
    by (intro filter_cong) auto
  have "stream_of c b1 = []" by (rule trace_fresh [OF assms(1)]) (simp add: stream_of_def start_bus_def)
  moreover have "since orderId (cursor_of fb last') b1 = filter (\<lambda>e. ev_order_id e = orderId \<and> l < ev_id e) h1"
    using since_bus_ok [OF ok1] assms(2,4) by (simp add: BUFFER_SIZE_def)
  ultimately have "stream_of c (events fb c orderId last' b1) = [\<lparr>ss_conn = c, ss_order = orderId,
      ss_chunks = sse_head # map frame (filter (\<lambda>e. ev_order_id e = orderId \<and> l < ev_id e) h1)\<rparr>]"
    by (simp add: stream_of_def events_def cursor_of_def Let_def)
  then have "stream_of c b2 = [\<lparr>ss_conn = c, ss_order = orderId,
      ss_chunks = sse_head # map frame (filter (\<lambda>e. ev_order_id e = orderId \<and> l < ev_id e) (h1 @ h2))\<rparr>]"
    using trace_stream [OF assms(5)] h2 by simp
  with ids show ?thesis by blast
qed

theorem sse_no_gap_no_duplicate_witness:
  "stream_of 7 (publish 1767225800000 ''o1'' Posted (events (\<lambda>_. NaN) 7 ''o1'' None
       (publish 1767225700000 ''o1'' Pending start_bus))) =
   [\<lparr>ss_conn = 7, ss_order = ''o1'', ss_chunks = [sse_head,
      frame \<lparr>ev_id = 1, ev_order_id = ''o1'', ev_status = Pending, ev_changed_at = toISOString 1767225700000\<rparr>,
      frame \<lparr>ev_id = 2, ev_order_id = ''o1'', ev_status = Posted, ev_changed_at = toISOString 1767225800000\<rparr>]\<rparr>]"
proof -
  note t1 = trace_publish [OF trace_start, of 7 start_bus "''o1''" Pending 1767225700000]
  note t2 = trace_publish [OF trace_start, of 7 "events (\<lambda>_. NaN) 7 ''o1'' None
    (publish 1767225700000 ''o1'' Pending start_bus)" "''o1''" Posted 1767225800000]
  have "cursor_of (\<lambda>_. NaN) None = Finite (int 0)" by (simp add: cursor_of_def Let_def)
  from sse_no_gap_no_duplicate [OF t1 this _ _ t2] show ?thesis
    by (simp add: row_simps start_bus_def numeral_2_eq_2)
qed

section \<open>Rooms\<close>

lemma transactions_getById_owner:
  assumes "pg_ok rt" "db_ok db" "fst (transactions_getById rt drift oid user db) = Inr x"
  obtains t a where "pg_uuid_in rt oid = Some (t_id t)" "t \<in> set (transactions db)"
    "a \<in> set (accounts db)" "a_id a = t_account_id t" "a_user_id a = au_id user"
proof -
  obtain db' where "transactions_getById rt drift oid user db = (Inr x, db')"
    using assms(3) by (cases "transactions_getById rt drift oid user db") auto
  then obtain found where f: "transactions_findById rt oid db = (Inr (Some found), db)"
    and acc': "\<exists>acc. accounts_findById rt (tx_account_id found) db = (Inr (Some acc), db') \<and> acc_user_id acc = au_id user"
    by (auto simp: transactions_getById_def transactions_findById_def bindS_Inr split: option.splits)
  then obtain u t where u: "pg_uuid_in rt oid = Some u" "List.find (\<lambda>t. t_id t = u) (transactions db) = Some t"
      "found = tx_toDomain db t"
    by (auto simp: transactions_findById_def bindS_Inr bind_uuid_Inr map_option_eq_Some eq_commute [of "Some found"])
  obtain acc where acc: "accounts_findById rt (tx_account_id (tx_toDomain db t)) db = (Inr (Some acc), db')"
      "acc_user_id acc = au_id user" using acc' u(3) by blast
  have t: "t \<in> set (transactions db)" "t_id t = u" using find_SomeD [OF u(2)] by auto
  obtain b where b: "b \<in> set (accounts db)" "a_id b = t_account_id t"
    using db_ok_transaction_account [OF assms(2) t(1)] by metis
  have "pg_uuid_in rt (t_account_id t) = Some (t_account_id t)"
    using assms(1,2) b db_ok_accounts(1) pg_okD(1) by metis
  moreover have "List.find (\<lambda>a. a_id a = t_account_id t) (accounts db) = Some b"
    using find_key [OF db_ok_distinct(1) [OF assms(2)] b(1)] b(2) by simp
  ultimately have "a_user_id b = au_id user"
    using acc by (auto simp: accounts_findById_def bindS_Inr bind_uuid_Inr tx_toDomain_def account_toDomain_def)
  with that [of t b] u(1) t b show thesis by simp
qed

lemma publish_emitted:
  "set (bus_emitted (publish now orderId status b)) = set (bus_emitted b) \<union>
     (\<lambda>k. (k, \<lparr>ev_id = bus_seq b + 1, ev_order_id = orderId, ev_status = status,
       ev_changed_at = toISOString now\<rparr>)) ` {k. (orderRoom orderId, k) \<in> set (bus_rooms b)}"
  by (auto simp: publish_def Let_def emit_to_room_def image_iff)

text \<open>
  (C29) Rooms. A join succeeds only for a socket whose token verifies to the owner of the account of
  that order; it adds that socket to that order's room and nothing else. A failed join changes
  nothing. An event published afterwards is emitted exactly to the sockets in its order's room.
\<close>

theorem join_owner_only:
  assumes "pg_ok rt" "db_ok (os_db s)"
  shows "case join lib cfg rt now isUuid drift socket token orderId s of
      (Join_error e, s') \<Rightarrow> s' = s
    | (Join_ok room, s') \<Rightarrow> (\<exists>jwt oid user t a. token = Some jwt \<and> orderId = Some oid \<and>
        verifyAccess lib cfg rt now jwt (os_db s) = Inr user \<and>
        pg_uuid_in rt oid = Some (t_id t) \<and> t \<in> set (transactions (os_db s)) \<and>
        a \<in> set (accounts (os_db s)) \<and> a_id a = t_account_id t \<and> a_user_id a = au_id user \<and>
        os_db s' = os_db s \<and>
        set (bus_rooms (os_bus s')) = insert (orderRoom oid, socket) (set (bus_rooms (os_bus s))) \<and>
        set (bus_emitted (publish now' oid st (os_bus s'))) = set (bus_emitted (os_bus s)) \<union>
          (\<lambda>k. (k, \<lparr>ev_id = bus_seq (os_bus s) + 1, ev_order_id = oid, ev_status = st,
             ev_changed_at = toISOString now'\<rparr>)) `
            insert socket {k. (orderRoom oid, k) \<in> set (bus_rooms (os_bus s))})"
proof (cases "fst (join lib cfg rt now isUuid drift socket token orderId s)")
  case (Join_error e)
  then have "snd (join lib cfg rt now isUuid drift socket token orderId s) = s"
    by (auto simp: join_def Let_def split: option.splits sum.splits exn.splits if_splits)
  then show ?thesis using Join_error by (simp add: case_prod_unfold)
next
  case (Join_ok room)
  then obtain jwt oid user x where j: "token = Some jwt" "orderId = Some oid"
      "verifyAccess lib cfg rt now jwt (os_db s) = Inr user"
      "fst (transactions_getById rt drift oid user (os_db s)) = Inr x"
    by (auto simp: join_def split: option.splits sum.splits exn.splits if_splits)
  obtain t a where ta: "pg_uuid_in rt oid = Some (t_id t)" "t \<in> set (transactions (os_db s))"
      "a \<in> set (accounts (os_db s))" "a_id a = t_account_id t" "a_user_id a = au_id user"
    using transactions_getById_owner [OF assms j(4)] by metis
  define s' where "s' = snd (join lib cfg rt now isUuid drift socket token orderId s)"
  have s': "os_db s' = os_db s" "set (bus_rooms (os_bus s')) = insert (orderRoom oid, socket) (set (bus_rooms (os_bus s)))"
      "bus_emitted (os_bus s') = bus_emitted (os_bus s)" "bus_seq (os_bus s') = bus_seq (os_bus s)"
    using Join_ok j by (auto simp: s'_def join_def Let_def split: if_splits)
  have "{k. (orderRoom oid, k) \<in> set (bus_rooms (os_bus s'))} =
      insert socket {k. (orderRoom oid, k) \<in> set (bus_rooms (os_bus s))}"
    unfolding s'(2) by auto
  then have "set (bus_emitted (publish now' oid st (os_bus s'))) = set (bus_emitted (os_bus s)) \<union>
      (\<lambda>k. (k, \<lparr>ev_id = bus_seq (os_bus s) + 1, ev_order_id = oid, ev_status = st,
         ev_changed_at = toISOString now'\<rparr>)) `
        insert socket {k. (orderRoom oid, k) \<in> set (bus_rooms (os_bus s))}"
    by (simp add: publish_emitted s'(3,4))
  with j(1-3) ta s'(1,2) have "\<exists>jwt oid user t a. token = Some jwt \<and> orderId = Some oid \<and>
        verifyAccess lib cfg rt now jwt (os_db s) = Inr user \<and>
        pg_uuid_in rt oid = Some (t_id t) \<and> t \<in> set (transactions (os_db s)) \<and>
        a \<in> set (accounts (os_db s)) \<and> a_id a = t_account_id t \<and> a_user_id a = au_id user \<and>
        os_db s' = os_db s \<and>
        set (bus_rooms (os_bus s')) = insert (orderRoom oid, socket) (set (bus_rooms (os_bus s))) \<and>
        set (bus_emitted (publish now' oid st (os_bus s'))) = set (bus_emitted (os_bus s)) \<union>
          (\<lambda>k. (k, \<lparr>ev_id = bus_seq (os_bus s) + 1, ev_order_id = oid, ev_status = st,
             ev_changed_at = toISOString now'\<rparr>)) `
            insert socket {k. (orderRoom oid, k) \<in> set (bus_rooms (os_bus s))}"
    by blast
  with Join_ok show ?thesis unfolding s'_def by (simp add: case_prod_unfold)
qed

theorem join_owner_only_witness:
  "\<exists>s'. join json_lib example_config canonical_runtime 1767225600000 (\<lambda>_. True) False 3
     (Some (signAccess json_lib example_config 1767225600000 (uid (CHR ''9'')) (au_id alice) Member (au_sid alice)))
     (Some (uid (CHR ''6''))) example_orders = (Join_ok (orderRoom (uid (CHR ''6''))), s') \<and>
   (orderRoom (uid (CHR ''6'')), 3) \<in> set (bus_rooms (os_bus s'))"
proof -
  let ?jwt = "signAccess json_lib example_config 1767225600000 (uid (CHR ''9'')) (au_id alice) Member (au_sid alice)"
  let ?user = "\<lparr>au_id = au_id alice, au_role = Member, au_jti = uid (CHR ''9''), au_sid = au_sid alice, au_exp = 1767226200\<rparr>"
  have v: "verifyAccess json_lib example_config canonical_runtime 1767225600000 ?jwt example_db = Inr ?user"
    using signed_verifies [OF json_lib_ok canonical_runtime_ok, of "uid (CHR ''9'')" example_db 1767225600000 1767225600000]
    by (simp add: ACCESS_TTL_SECONDS_def)
  have "order_tx \<in> set (transactions example_db)" "usd_account \<in> set (accounts example_db)"
      "a_id usd_account = t_account_id order_tx" "a_user_id usd_account = au_id ?user" "t_id order_tx = uid (CHR ''6'')"
    by (simp_all add: example_db_def order_tx_def tx_row_of_def usd_account_def)
  then obtain x where "transactions_getById canonical_runtime False (uid (CHR ''6'')) ?user example_db = (Inr x, example_db)"
    using transactions_getById_own [OF canonical_runtime_ok example_db_ok] by metis
  then obtain s' where s': "join json_lib example_config canonical_runtime 1767225600000 (\<lambda>_. True) False 3
      (Some ?jwt) (Some (uid (CHR ''6''))) example_orders = (Join_ok (orderRoom (uid (CHR ''6''))), s')"
    using v by (simp add: join_def example_orders_def Let_def)
  have "db_ok (os_db example_orders)" by (simp add: example_orders_def example_db_ok)
  from join_owner_only [OF canonical_runtime_ok this, where lib = json_lib and cfg = example_config and
      now = 1767225600000 and isUuid = "\<lambda>_. True" and drift = False and socket = 3 and
      token = "Some ?jwt" and orderId = "Some (uid (CHR ''6''))"]
  show ?thesis using s' by auto
qed

end
