(* ===== verification/Idempotency.thy ===== *)
theory Idempotency
  imports Example_Data
begin

text \<open>
  The idempotency interceptor (\<open>shared/idempotency.interceptor.ts\<close>): a process-wide map from the
  caller's key to the record of its request. A request first asks the map; when it proceeds, its
  handler runs concurrently with other requests, and the response's finish event settles the record.
  SHA-256 is a parameter.
\<close>

section \<open>The interceptor\<close>

definition TTL_MS :: int where
  "TTL_MS = 24 * 60 * 60 * 1000"

datatype IdempotencyRecord =
    InFlightRecord (rec_fingerprint: string) (rec_expiresAt: millis)
  | DoneRecord (rec_fingerprint: string) (rec_body: "json option") (rec_expiresAt: millis)

type_synonym idem_store = "(string, IdempotencyRecord) js_map"

definition fingerprint :: "(string \<Rightarrow> string) \<Rightarrow> json option \<Rightarrow> string" where
  "fingerprint sha256 body = sha256 (json_stringify (case body of Some b \<Rightarrow> b | None \<Rightarrow> JNull))"

record idem_request =
  iq_method :: string
  iq_key :: "string option"
  iq_user :: "AuthUser option"
  iq_body :: "json option"

text \<open>
  What the interceptor does with a request: hand it through untouched, throw, answer from the map,
  or run the handler with a finish event registered for the key and fingerprint.
\<close>

datatype intercepted =
    Passes
  | Throws exn
  | Replays "json option"
  | Proceeds string string

definition reuse_problem :: exn where
  "reuse_problem = problem 422 ''idempotency-key-reuse''
     (''This Idempotency-Key was already used with a different request body '' @ em_dash @
      '' one key belongs to one operation'')"

definition in_flight_problem :: exn where
  "in_flight_problem = problem 409 ''idempotency-in-flight''
     (''A request with this Idempotency-Key is still in flight '' @ em_dash @
      '' retry in a moment'')"

definition intercept ::
  "(string \<Rightarrow> string) \<Rightarrow> millis \<Rightarrow> idem_request \<Rightarrow> idem_store \<Rightarrow> intercepted \<times> idem_store" where
  "intercept sha256 now req store =
     (case (iq_key req, iq_user req) of
        (Some rawKey, Some user) \<Rightarrow>
          if iq_method req \<noteq> ''POST'' \<or> rawKey = [] then (Passes, store)
          else
            let key = au_id user @ '':'' @ rawKey;
                fp = fingerprint sha256 (iq_body req);
                (found, store1) = (case js_map_get store key of
                    Some r \<Rightarrow> if rec_expiresAt r \<le> now then (None, js_map_delete store key) else (Some r, store)
                  | None \<Rightarrow> (None, store))
            in (case found of
                  Some r \<Rightarrow>
                    if rec_fingerprint r \<noteq> fp then (Throws reuse_problem, store1)
                    else (case r of
                        InFlightRecord _ _ \<Rightarrow> (Throws in_flight_problem, store1)
                      | DoneRecord _ body _ \<Rightarrow> (Replays body, store1))
                | None \<Rightarrow> (Proceeds key fp, js_map_set store1 key (InFlightRecord fp (now + TTL_MS))))
      | _ \<Rightarrow> (Passes, store))"

text \<open>The finish event of a response whose request proceeded.\<close>

definition on_finish :: "millis \<Rightarrow> string \<Rightarrow> string \<Rightarrow> nat \<Rightarrow> json option \<Rightarrow> idem_store \<Rightarrow> idem_store" where
  "on_finish now key fp statusCode captured store =
     (if statusCode = 201 then js_map_set store key (DoneRecord fp captured (now + TTL_MS))
      else js_map_delete store key)"

section \<open>One request\<close>

definition idem_key :: "AuthUser \<Rightarrow> string \<Rightarrow> string" where
  "idem_key user rawKey = au_id user @ '':'' @ rawKey"

definition post :: "AuthUser \<Rightarrow> string \<Rightarrow> json option \<Rightarrow> idem_request" where
  "post user rawKey body = \<lparr>iq_method = ''POST'', iq_key = Some rawKey, iq_user = Some user, iq_body = body\<rparr>"

text \<open>The record that counts: the one that has not expired.\<close>

definition current :: "millis \<Rightarrow> idem_store \<Rightarrow> string \<Rightarrow> IdempotencyRecord option" where
  "current now store key = (case js_map_get store key of
     Some r \<Rightarrow> if rec_expiresAt r \<le> now then None else Some r | None \<Rightarrow> None)"

lemma intercept_post:
  assumes "rawKey \<noteq> []"
  shows "fst (intercept sha256 now (post user rawKey body) store) =
    (let fp = fingerprint sha256 body in
     case current now store (idem_key user rawKey) of
       None \<Rightarrow> Proceeds (idem_key user rawKey) fp
     | Some r \<Rightarrow> if rec_fingerprint r \<noteq> fp then Throws reuse_problem
         else (case r of InFlightRecord _ _ \<Rightarrow> Throws in_flight_problem | DoneRecord _ b _ \<Rightarrow> Replays b))"
  using assms
  by (auto simp: intercept_def post_def idem_key_def current_def Let_def
      split: option.splits IdempotencyRecord.splits)

lemma intercept_store:
  assumes "rawKey \<noteq> []"
  shows "js_map_get (snd (intercept sha256 now (post user rawKey body) store)) k =
    (if k = idem_key user rawKey \<and> current now store k = None
     then Some (InFlightRecord (fingerprint sha256 body) (now + TTL_MS)) else js_map_get store k)"
  using assms
  by (auto simp: intercept_def post_def idem_key_def current_def Let_def
      split: option.splits IdempotencyRecord.splits)

lemma intercept_passes:
  assumes "iq_method req \<noteq> ''POST'' \<or> iq_key req = None \<or> iq_key req = Some [] \<or> iq_user req = None"
  shows "intercept sha256 now req store = (Passes, store)"
  using assms by (auto simp: intercept_def split: option.splits)

section \<open>Concurrent requests\<close>

text \<open>
  The state: the map, the clock, the handlers that run (with their key, fingerprint and start), and
  a log of the requests that were answered 201. A response finishes, or its connection is lost and
  the finish event never comes.
\<close>

record running =
  rn_id :: nat
  rn_key :: string
  rn_fp :: string
  rn_started :: millis

record idem_state =
  is_store :: idem_store
  is_now :: millis
  is_running :: "running list"
  is_created :: "(string \<times> string \<times> json option \<times> millis) list"

definition idem_start :: "idem_state \<Rightarrow> bool" where
  "idem_start s \<longleftrightarrow> is_store s = [] \<and> is_running s = [] \<and> is_created s = []"

text \<open>A handler that runs for longer than a day would outlive its record: the clock excludes it.\<close>

inductive idem_step :: "(string \<Rightarrow> string) \<Rightarrow> idem_state \<Rightarrow> idem_state \<Rightarrow> bool" for sha256 where
  idem_begin: "intercept sha256 (is_now s) req (is_store s) = (Proceeds key fp, st) \<Longrightarrow>
    i \<notin> rn_id ` set (is_running s) \<Longrightarrow>
    idem_step sha256 s (s\<lparr>is_store := st, is_running := is_running s @
      [\<lparr>rn_id = i, rn_key = key, rn_fp = fp, rn_started = is_now s\<rparr>]\<rparr>)"
| idem_answer: "intercept sha256 (is_now s) req (is_store s) = (a, st) \<Longrightarrow>
    (\<forall>key fp. a \<noteq> Proceeds key fp) \<Longrightarrow> idem_step sha256 s (s\<lparr>is_store := st\<rparr>)"
| idem_finish: "r \<in> set (is_running s) \<Longrightarrow>
    idem_step sha256 s (s\<lparr>is_store := on_finish (is_now s) (rn_key r) (rn_fp r) code body (is_store s),
      is_running := filter (\<lambda>q. rn_id q \<noteq> rn_id r) (is_running s),
      is_created := (if code = 201 then (rn_key r, rn_fp r, body, is_now s) # is_created s else is_created s)\<rparr>)"
| idem_lost: "idem_step sha256 s (s\<lparr>is_running := filter (\<lambda>q. rn_id q \<noteq> i) (is_running s)\<rparr>)"
| idem_clock: "is_now s \<le> t \<Longrightarrow> \<forall>r\<in>set (is_running s). t < rn_started r + TTL_MS \<Longrightarrow>
    idem_step sha256 s (s\<lparr>is_now := t\<rparr>)"

text \<open>
  The invariant: a running handler owns the unexpired in-flight record of its key, no two share a
  key, and a request answered 201 less than a day ago still has its record.
\<close>

definition run_ok :: "millis \<Rightarrow> idem_store \<Rightarrow> running \<Rightarrow> bool" where
  "run_ok now store r \<longleftrightarrow> now < rn_started r + TTL_MS \<and>
     js_map_get store (rn_key r) = Some (InFlightRecord (rn_fp r) (rn_started r + TTL_MS))"

definition one_per_key :: "running list \<Rightarrow> bool" where
  "one_per_key rs \<longleftrightarrow> (\<forall>r\<in>set rs. \<forall>q\<in>set rs. rn_key r = rn_key q \<longrightarrow> rn_id r = rn_id q)"

fun done_ok :: "millis \<Rightarrow> idem_store \<Rightarrow> string \<times> string \<times> json option \<times> millis \<Rightarrow> bool" where
  "done_ok now store (key, fp, body, t) \<longleftrightarrow>
     (now < t + TTL_MS \<longrightarrow> js_map_get store key = Some (DoneRecord fp body (t + TTL_MS)))"

definition idem_inv :: "idem_state \<Rightarrow> bool" where
  "idem_inv s \<longleftrightarrow> list_all (run_ok (is_now s) (is_store s)) (is_running s) \<and> one_per_key (is_running s) \<and>
     list_all (done_ok (is_now s) (is_store s)) (is_created s)"

lemma intercept_Proceeds:
  assumes "intercept sha256 now req store = (Proceeds key fp, st)"
  shows "current now store key = None"
    and "js_map_get st k = (if k = key then Some (InFlightRecord fp (now + TTL_MS)) else js_map_get store k)"
  using assms
  by (auto simp: intercept_def current_def Let_def split: option.splits if_splits IdempotencyRecord.splits)

lemma intercept_keeps:
  assumes "intercept sha256 now req store = (a, st)" "\<forall>key fp. a \<noteq> Proceeds key fp"
  shows "st = store"
  using assms
  by (auto simp: intercept_def Let_def split: option.splits if_splits IdempotencyRecord.splits)

lemma TTL_pos [simp]: "0 < TTL_MS"
  by (simp add: TTL_MS_def)

lemma run_ok_current: "run_ok now store r \<Longrightarrow>
    current now store (rn_key r) = Some (InFlightRecord (rn_fp r) (rn_started r + TTL_MS))"
  by (simp add: run_ok_def current_def)

lemma inv_running:
  "idem_inv s \<Longrightarrow> r \<in> set (is_running s) \<Longrightarrow> run_ok (is_now s) (is_store s) r"
  by (simp add: idem_inv_def list_all_iff)

lemma inv_created:
  assumes "idem_inv s" "(key, fp, body, t) \<in> set (is_created s)" "is_now s < t + TTL_MS"
  shows "js_map_get (is_store s) key = Some (DoneRecord fp body (t + TTL_MS))"
    "current (is_now s) (is_store s) key = Some (DoneRecord fp body (t + TTL_MS))"
proof -
  have "done_ok (is_now s) (is_store s) (key, fp, body, t)"
    using assms(1,2) by (simp only: idem_inv_def list_all_iff)
  then show g: "js_map_get (is_store s) key = Some (DoneRecord fp body (t + TTL_MS))" using assms(3) by simp
  then show "current (is_now s) (is_store s) key = Some (DoneRecord fp body (t + TTL_MS))"
    using assms(3) by (simp add: current_def)
qed

text \<open>A write to a key that no handler runs under and no fresh 201 was stored under disturbs neither.\<close>

lemma run_ok_other: "run_ok now store r \<Longrightarrow> js_map_get st (rn_key r) = js_map_get store (rn_key r) \<Longrightarrow> run_ok now st r"
  by (simp add: run_ok_def)

lemma done_ok_other:
  assumes "idem_inv s" "e \<in> set (is_created s)"
    and "\<And>k f b t. js_map_get (is_store s) k = Some (DoneRecord f b t) \<Longrightarrow> is_now s < t \<Longrightarrow>
      js_map_get st k = js_map_get (is_store s) k"
  shows "done_ok (is_now s) st e"
proof (cases e)
  case (fields key fp body t)
  then show ?thesis using inv_created(1) [OF assms(1)] assms(2,3) by auto
qed

lemma one_per_key_filter: "one_per_key rs \<Longrightarrow> one_per_key (filter p rs)"
  unfolding one_per_key_def set_filter by blast

lemma one_per_key_snoc:
  assumes "one_per_key rs" "\<And>r. r \<in> set rs \<Longrightarrow> rn_key r \<noteq> rn_key new"
  shows "one_per_key (rs @ [new])"
  unfolding one_per_key_def
proof (intro ballI impI)
  fix r q
  assume m: "r \<in> set (rs @ [new])" "q \<in> set (rs @ [new])" and k: "rn_key r = rn_key q"
  then consider "r \<in> set rs" "q \<in> set rs" | "r = new" "q = new" | "r \<in> set rs" "q = new" | "r = new" "q \<in> set rs"
    by auto
  then show "rn_id r = rn_id q"
    using assms k unfolding one_per_key_def by cases (blast, blast, metis, metis)
qed

lemma idem_inv_begin:
  assumes "idem_inv s" "intercept sha256 (is_now s) req (is_store s) = (Proceeds key fp, st)"
  shows "idem_inv (s\<lparr>is_store := st, is_running := is_running s @
      [\<lparr>rn_id = i, rn_key = key, rn_fp = fp, rn_started = is_now s\<rparr>]\<rparr>)"
proof -
  note get = intercept_Proceeds(2) [OF assms(2)] and free = intercept_Proceeds(1) [OF assms(2)]
  have run: "rn_key r \<noteq> key" if "r \<in> set (is_running s)" for r
    using run_ok_current [OF inv_running [OF assms(1) that]] free by auto
  have "list_all (run_ok (is_now s) st) (is_running s)"
    unfolding list_all_iff using run inv_running [OF assms(1)] run_ok_other get by metis
  moreover have "run_ok (is_now s) st \<lparr>rn_id = i, rn_key = key, rn_fp = fp, rn_started = is_now s\<rparr>"
    using get by (simp add: run_ok_def)
  moreover have "list_all (done_ok (is_now s) st) (is_created s)"
    unfolding list_all_iff
  proof
    fix e
    assume e: "e \<in> set (is_created s)"
    show "done_ok (is_now s) st e"
      by (rule done_ok_other [OF assms(1) e]) (use get free in \<open>auto simp: current_def split: if_splits\<close>)
  qed
  moreover have "one_per_key (is_running s @ [\<lparr>rn_id = i, rn_key = key, rn_fp = fp, rn_started = is_now s\<rparr>])"
    using assms(1) run by (intro one_per_key_snoc) (simp_all add: idem_inv_def)
  ultimately show ?thesis by (simp add: idem_inv_def)
qed

lemma idem_inv_finish:
  assumes "idem_inv s" "r \<in> set (is_running s)"
  shows "idem_inv (s\<lparr>is_store := on_finish (is_now s) (rn_key r) (rn_fp r) code body (is_store s),
      is_running := filter (\<lambda>q. rn_id q \<noteq> rn_id r) (is_running s),
      is_created := (if code = 201 then (rn_key r, rn_fp r, body, is_now s) # is_created s else is_created s)\<rparr>)"
proof -
  let ?st = "on_finish (is_now s) (rn_key r) (rn_fp r) code body (is_store s)"
  have one: "one_per_key (is_running s)" using assms(1) by (simp add: idem_inv_def)
  have get: "js_map_get (is_store s) (rn_key r) = Some (InFlightRecord (rn_fp r) (rn_started r + TTL_MS))"
    using inv_running [OF assms] by (simp add: run_ok_def)
  have other: "js_map_get ?st k = js_map_get (is_store s) k" if "k \<noteq> rn_key r" for k
    using that by (simp add: on_finish_def)
  have "list_all (run_ok (is_now s) ?st) (filter (\<lambda>q. rn_id q \<noteq> rn_id r) (is_running s))"
    unfolding list_all_iff
  proof
    fix q
    assume "q \<in> set (filter (\<lambda>q. rn_id q \<noteq> rn_id r) (is_running s))"
    then have q: "q \<in> set (is_running s)" "rn_id q \<noteq> rn_id r" by simp_all
    then have k: "rn_key q \<noteq> rn_key r" using one assms(2) unfolding one_per_key_def by blast
    show "run_ok (is_now s) ?st q" using run_ok_other [OF inv_running [OF assms(1) q(1)] other [OF k]] .
  qed
  moreover have "list_all (done_ok (is_now s) ?st) (is_created s)"
    unfolding list_all_iff
  proof
    fix e
    assume e: "e \<in> set (is_created s)"
    show "done_ok (is_now s) ?st e" by (rule done_ok_other [OF assms(1) e]) (metis IdempotencyRecord.distinct(1) get option.inject other)
  qed
  moreover have "done_ok (is_now s) ?st (rn_key r, rn_fp r, body, is_now s)" if "code = 201"
    using that by (simp add: on_finish_def)
  moreover have "one_per_key (filter (\<lambda>q. rn_id q \<noteq> rn_id r) (is_running s))"
    using one by (rule one_per_key_filter)
  ultimately show ?thesis by (cases "code = 201") (simp_all add: idem_inv_def)
qed

lemma idem_inv_clock:
  assumes "idem_inv s" "is_now s \<le> t" "\<forall>r\<in>set (is_running s). t < rn_started r + TTL_MS"
  shows "idem_inv (s\<lparr>is_now := t\<rparr>)"
proof -
  have "run_ok t (is_store s) r" if "r \<in> set (is_running s)" for r
    using inv_running [OF assms(1) that] assms(3) that by (simp add: run_ok_def)
  moreover have "done_ok t (is_store s) e" if "e \<in> set (is_created s)" for e
  proof (cases e)
    case (fields key fp body u)
    then show ?thesis using inv_created(1) [OF assms(1)] that assms(2) by auto
  qed
  ultimately show ?thesis using assms(1) by (simp add: idem_inv_def list_all_iff)
qed

lemma idem_inv_step: "idem_step sha256 s t \<Longrightarrow> idem_inv s \<Longrightarrow> idem_inv t"
proof (induction rule: idem_step.induct)
  case (idem_begin s req key fp st i)
  then show ?case using idem_inv_begin by blast
next
  case (idem_answer s req a st)
  then show ?case using intercept_keeps [OF idem_answer(1,2)] by simp
next
  case (idem_finish r s code body)
  then show ?case using idem_inv_finish by blast
next
  case (idem_lost s i)
  then show ?case by (simp add: idem_inv_def one_per_key_filter list_all_iff)
next
  case (idem_clock s t)
  then show ?case using idem_inv_clock by blast
qed

interpretation idempotency: step_system idem_start "idem_step sha256" idem_inv for sha256
  by unfold_locales (simp add: idem_start_def idem_inv_def one_per_key_def, rule idem_inv_step)

section \<open>Properties\<close>

text \<open>
  (C11) A key runs at most once. In every reachable state, while a handler runs under a key a second
  request with that key is refused (409 with the same body, 422 with another), so no two handlers
  share a key; and for a day after a 201 a request with that key never reaches the handler: the same
  body gets the stored answer, another body 422.
\<close>

theorem idempotency_at_most_once:
  assumes "reachable idem_start (idem_step sha256) s" "rawKey \<noteq> []"
  shows "(\<forall>r\<in>set (is_running s). rn_key r = idem_key user rawKey \<longrightarrow>
      fst (intercept sha256 (is_now s) (post user rawKey body) (is_store s)) =
        Throws (if fingerprint sha256 body = rn_fp r then in_flight_problem else reuse_problem)) \<and>
    (\<forall>r\<in>set (is_running s). \<forall>q\<in>set (is_running s). rn_key r = rn_key q \<longrightarrow> rn_id r = rn_id q) \<and>
    (\<forall>fp answer t. (idem_key user rawKey, fp, answer, t) \<in> set (is_created s) \<longrightarrow>
      is_now s < t + 86400000 \<longrightarrow>
      fst (intercept sha256 (is_now s) (post user rawKey body) (is_store s)) =
        (if fingerprint sha256 body = fp then Replays answer else Throws reuse_problem))"
proof -
  have inv: "idem_inv s" using idempotency.inv_reachable [OF assms(1)] .
  have "fst (intercept sha256 (is_now s) (post user rawKey body) (is_store s)) =
      Throws (if fingerprint sha256 body = rn_fp r then in_flight_problem else reuse_problem)"
    if "r \<in> set (is_running s)" "rn_key r = idem_key user rawKey" for r
  proof -
    have "current (is_now s) (is_store s) (idem_key user rawKey) =
        Some (InFlightRecord (rn_fp r) (rn_started r + TTL_MS))"
      using run_ok_current [OF inv_running [OF inv that(1)]] that(2) by simp
    then show ?thesis using intercept_post [OF assms(2)] by (simp add: Let_def)
  qed
  moreover have "fst (intercept sha256 (is_now s) (post user rawKey body) (is_store s)) =
      (if fingerprint sha256 body = fp then Replays answer else Throws reuse_problem)"
    if "(idem_key user rawKey, fp, answer, t) \<in> set (is_created s)" "is_now s < t + 86400000" for fp answer t
  proof -
    have "is_now s < t + TTL_MS" using that(2) by (simp add: TTL_MS_def)
    from inv_created(2) [OF inv that(1) this] show ?thesis by (simp add: intercept_post [OF assms(2)] Let_def)
  qed
  moreover have "\<forall>r\<in>set (is_running s). \<forall>q\<in>set (is_running s). rn_key r = rn_key q \<longrightarrow> rn_id r = rn_id q"
    using inv unfolding idem_inv_def one_per_key_def by blast
  ultimately show ?thesis by blast
qed

text \<open>Alice posts an empty object under the key k1 and is answered 201.\<close>

definition after_begin :: idem_state where
  "after_begin = \<lparr>is_store = [(idem_key alice ''k1'', InFlightRecord ''{}'' TTL_MS)], is_now = 0,
     is_running = [\<lparr>rn_id = 1, rn_key = idem_key alice ''k1'', rn_fp = ''{}'', rn_started = 0\<rparr>],
     is_created = []\<rparr>"

definition after_finish :: idem_state where
  "after_finish = \<lparr>is_store = [(idem_key alice ''k1'', DoneRecord ''{}'' (Some (JStr ''made'')) TTL_MS)],
     is_now = 0, is_running = [],
     is_created = [(idem_key alice ''k1'', ''{}'', Some (JStr ''made''), 0)]\<rparr>"

lemma after_finish_reachable: "reachable idem_start (idem_step (\<lambda>x. x)) after_finish"
proof -
  let ?s0 = "\<lparr>is_store = [], is_now = 0, is_running = [], is_created = []\<rparr>"
  have a: "reachable idem_start (idem_step (\<lambda>x. x)) ?s0" by (rule reach_init) (simp add: idem_start_def)
  have i: "intercept (\<lambda>x. x) (is_now ?s0) (post alice ''k1'' (Some (JObj []))) (is_store ?s0) =
      (Proceeds (idem_key alice ''k1'') ''{}'', is_store after_begin)"
    by (simp add: intercept_def post_def idem_key_def fingerprint_def after_begin_def js_map_get_def
        js_map_set_def Let_def)
  have b: "idem_step (\<lambda>x. x) ?s0 after_begin"
    using idem_begin [OF i, of 1] by (simp add: after_begin_def)
  have "idem_step (\<lambda>x. x) after_begin (after_begin
      \<lparr>is_store := on_finish 0 (idem_key alice ''k1'') ''{}'' 201 (Some (JStr ''made'')) (is_store after_begin),
       is_running := [], is_created := [(idem_key alice ''k1'', ''{}'', Some (JStr ''made''), 0)]\<rparr>)"
    using idem_finish [of "\<lparr>rn_id = 1, rn_key = idem_key alice ''k1'', rn_fp = ''{}'', rn_started = 0\<rparr>"
        after_begin "\<lambda>x. x" 201 "Some (JStr ''made'')"]
    by (simp add: after_begin_def)
  then have c: "idem_step (\<lambda>x. x) after_begin after_finish"
    by (simp add: after_begin_def after_finish_def on_finish_def js_map_set_def)
  show ?thesis by (rule reach_step [OF reach_step [OF a b] c])
qed

theorem idempotency_at_most_once_witness:
  "fst (intercept (\<lambda>x. x) 0 (post alice ''k1'' (Some (JObj []))) (is_store after_finish)) =
     Replays (Some (JStr ''made''))"
  using idempotency_at_most_once [OF after_finish_reachable, of "''k1''" alice "Some (JObj [])"]
  by (simp add: after_finish_def fingerprint_def)

text \<open>
  An error releases the key. When the response of a request that proceeded carries any other
  status than 201, its record is gone and the same key proceeds again, with any body; other keys
  keep their records.
\<close>

theorem idempotency_error_releases:
  assumes "rawKey \<noteq> []" "code \<noteq> 201"
  shows "fst (intercept sha256 now' (post user rawKey body)
      (on_finish now (idem_key user rawKey) fp code captured store)) =
      Proceeds (idem_key user rawKey) (fingerprint sha256 body) \<and>
    (\<forall>k. k \<noteq> idem_key user rawKey \<longrightarrow>
      js_map_get (on_finish now (idem_key user rawKey) fp code captured store) k = js_map_get store k)"
  using assms intercept_post [OF assms(1)] by (simp add: on_finish_def current_def)

theorem idempotency_error_releases_witness:
  "fst (intercept (\<lambda>x. x) 5 (post alice ''k1'' None)
      (on_finish 4 (idem_key alice ''k1'') ''{}'' 500 None (is_store after_begin))) =
    Proceeds (idem_key alice ''k1'') ''null''"
  using idempotency_error_releases [of "''k1''" 500 "\<lambda>x. x" 5 alice None 4 "''{}''" None "is_store after_begin"]
  by (simp add: fingerprint_def)

lemma uuid_length: "is_uuid s \<Longrightarrow> length s = 36"
  by (simp add: is_uuid_def)

text \<open>
  Keys are private to a user. Two users never share a record, whatever header values they
  send: a request of one neither sees nor changes the record of the other.
\<close>

theorem idempotency_per_user:
  assumes "is_uuid (au_id user)" "is_uuid (au_id other)" "au_id user \<noteq> au_id other" "rawKey \<noteq> []"
  shows "js_map_get (snd (intercept sha256 now (post user rawKey body) store)) (idem_key other rawKey') =
      js_map_get store (idem_key other rawKey') \<and>
    fst (intercept sha256 now (post user rawKey body) (js_map_set store (idem_key other rawKey') r)) =
      fst (intercept sha256 now (post user rawKey body) store)"
proof -
  have "idem_key other rawKey' \<noteq> idem_key user rawKey"
    using assms(1-3) uuid_length by (auto simp: idem_key_def)
  then show ?thesis
    using intercept_store [OF assms(4)] intercept_post [OF assms(4)] by (simp add: current_def)
qed

theorem idempotency_per_user_witness:
  "fst (intercept (\<lambda>x. x) 0 (post bob ''k1'' (Some (JObj []))) (is_store after_finish)) =
    Proceeds (idem_key bob ''k1'') ''{}''"
proof -
  have "is_uuid (au_id bob)" "is_uuid (au_id alice)" "au_id bob \<noteq> au_id alice" by code_simp+
  moreover have "is_store after_finish = js_map_set [] (idem_key alice ''k1'')
      (DoneRecord ''{}'' (Some (JStr ''made'')) TTL_MS)"
    by (simp add: after_finish_def js_map_set_def)
  ultimately show ?thesis
    using idempotency_per_user [of bob alice "''k1''" "\<lambda>x. x" 0 "Some (JObj [])" "[]" "''k1''"
        "DoneRecord ''{}'' (Some (JStr ''made'')) TTL_MS"]
    by (simp add: intercept_post current_def fingerprint_def Let_def)
qed

text \<open>
  A response that never finishes: when the connection is lost after the request proceeded, nothing
  releases the key, and the client's retries with the same body are refused for a day.
\<close>

lemma lost_connection_blocks:
  assumes "idem_inv s" "r \<in> set (is_running s)" "rn_key r = idem_key user rawKey" "rawKey \<noteq> []"
    and "fingerprint sha256 body = rn_fp r"
    and "lost = s\<lparr>is_running := filter (\<lambda>q. rn_id q \<noteq> rn_id r) (is_running s)\<rparr>"
    and "now < rn_started r + TTL_MS"
  shows "idem_step sha256 s lost"
    and "fst (intercept sha256 now (post user rawKey body) (is_store lost)) = Throws in_flight_problem"
proof -
  have "current now (is_store lost) (idem_key user rawKey) = Some (InFlightRecord (rn_fp r) (rn_started r + TTL_MS))"
    using inv_running [OF assms(1,2)] assms(3,6,7) by (simp add: run_ok_def current_def)
  then show "fst (intercept sha256 now (post user rawKey body) (is_store lost)) = Throws in_flight_problem"
    using intercept_post [OF assms(4)] assms(5) by (simp add: Let_def)
  show "idem_step sha256 s lost" unfolding assms(6) by (rule idem_lost)
qed

end
