(* ===== verification/Broker.thy ===== *)
theory Broker
  imports Example_Data
begin

text \<open>
  The broker side (\<open>broker/\<close>, \<open>order-receipts-consumer.ts\<close>): the order.placed event and its wire
  format, the confirmed publish, the declared topology, and the receipts consumer. Zod's validators
  are a parameter; the queue itself is RabbitMQ's and appears as a step relation with its documented
  moves (deliver, acknowledge, reject, redeliver after a lost connection).
\<close>

section \<open>The event\<close>

definition ORDER_PLACED :: string where
  "ORDER_PLACED = ''order.placed''"

record order_data =
  od_orderId :: string
  od_accountId :: string
  od_instrumentId :: string
  od_quantity :: int
  od_costCents :: int
  od_currency :: string

record OrderPlacedEvent =
  op_eventId :: string
  op_type :: string
  op_occurredAt :: string
  op_data :: order_data

definition orderPlaced :: "string \<Rightarrow> millis \<Rightarrow> order_data \<Rightarrow> OrderPlacedEvent" where
  "orderPlaced newId now data = \<lparr>op_eventId = newId, op_type = ORDER_PLACED,
     op_occurredAt = toISOString now, op_data = data\<rparr>"

definition data_json :: "order_data \<Rightarrow> json" where
  "data_json d = JObj [(''orderId'', JStr (od_orderId d)), (''accountId'', JStr (od_accountId d)),
     (''instrumentId'', JStr (od_instrumentId d)), (''quantity'', JNum (int_text (od_quantity d))),
     (''costCents'', JNum (int_text (od_costCents d))), (''currency'', JStr (od_currency d))]"

definition event_body :: "OrderPlacedEvent \<Rightarrow> json" where
  "event_body e = JObj [(''eventId'', JStr (op_eventId e)), (''type'', JStr (op_type e)),
     (''occurredAt'', JStr (op_occurredAt e)), (''data'', data_json (op_data e))]"

text \<open>
  The validators: \<open>z.uuid()\<close>, \<open>z.iso.datetime()\<close>, and \<open>z.number().int()\<close> as the integer that the
  text of a JSON number stands for, if it does.
\<close>

record zod =
  z_uuid :: "string \<Rightarrow> bool"
  z_datetime :: "string \<Rightarrow> bool"
  z_int :: "string \<Rightarrow> int option"

text \<open>Documented behaviour: canonical uuids, ISO timestamps and safe integers are accepted.\<close>

definition zod_ok :: "zod \<Rightarrow> bool" where
  "zod_ok z \<longleftrightarrow> (\<forall>s. is_uuid s \<longrightarrow> z_uuid z s) \<and> (\<forall>t. iso_range t \<longrightarrow> z_datetime z (toISOString t)) \<and>
     (\<forall>i. \<bar>i\<bar> < 2 ^ 53 \<longrightarrow> z_int z (int_text i) = Some i)"

definition json_str :: "json option \<Rightarrow> string option" where
  "json_str v = (case v of Some (JStr s) \<Rightarrow> Some s | _ \<Rightarrow> None)"

definition json_num :: "zod \<Rightarrow> json option \<Rightarrow> int option" where
  "json_num z v = (case v of Some (JNum t) \<Rightarrow> z_int z t | _ \<Rightarrow> None)"

definition check :: "('a \<Rightarrow> bool) \<Rightarrow> 'a option \<Rightarrow> 'a option" where
  "check p v = (case v of Some x \<Rightarrow> if p x then Some x else None | None \<Rightarrow> None)"

definition orderPlacedSchema_data :: "zod \<Rightarrow> json \<Rightarrow> order_data option" where
  "orderPlacedSchema_data z v =
     (case (check (z_uuid z) (json_str (json_get v ''orderId'')),
            check (z_uuid z) (json_str (json_get v ''accountId'')),
            check (z_uuid z) (json_str (json_get v ''instrumentId'')),
            check (\<lambda>q. 0 < q) (json_num z (json_get v ''quantity'')),
            check (\<lambda>c. 0 \<le> c) (json_num z (json_get v ''costCents'')),
            check (\<lambda>s. js_length s = 3) (json_str (json_get v ''currency''))) of
        (Some oid, Some aid, Some iid, Some q, Some c, Some cur) \<Rightarrow>
          Some \<lparr>od_orderId = oid, od_accountId = aid, od_instrumentId = iid, od_quantity = q,
            od_costCents = c, od_currency = cur\<rparr>
      | _ \<Rightarrow> None)"

definition orderPlacedSchema :: "zod \<Rightarrow> json \<Rightarrow> OrderPlacedEvent option" where
  "orderPlacedSchema z v =
     (case (check (z_uuid z) (json_str (json_get v ''eventId'')),
            check (\<lambda>t. t = ORDER_PLACED) (json_str (json_get v ''type'')),
            check (z_datetime z) (json_str (json_get v ''occurredAt'')),
            Option.bind (json_get v ''data'') (orderPlacedSchema_data z)) of
        (Some eid, Some ty, Some at, Some d) \<Rightarrow>
          Some \<lparr>op_eventId = eid, op_type = ty, op_occurredAt = at, op_data = d\<rparr>
      | _ \<Rightarrow> None)"

definition parseOrderPlaced :: "zod \<Rightarrow> string \<Rightarrow> OrderPlacedEvent option" where
  "parseOrderPlaced z body = Option.bind (json_parse (utf8_fix body)) (orderPlacedSchema z)"

section \<open>Publishing\<close>

definition EXCHANGE :: string where "EXCHANGE = ''invest.events''"
definition RECEIPTS_QUEUE :: string where "RECEIPTS_QUEUE = ''orders.placed.receipts''"
definition DLX :: string where "DLX = ''invest.events.dlx''"
definition DLQ :: string where "DLQ = ''orders.placed.receipts.dlq''"
definition PREFETCH :: nat where "PREFETCH = 10"
definition DELIVERY_LIMIT :: nat where "DELIVERY_LIMIT = 5"

record amqp_message =
  am_exchange :: string
  am_routingKey :: string
  am_content :: string
  am_messageId :: string
  am_persistent :: bool
  am_mandatory :: bool

text \<open>
  What the broker does with a publish before the promise settles: it may return the message (no
  queue is bound), and it confirms or refuses. \<open>returned\<close> is the channel's set of bounced ids.
\<close>

record broker_answer =
  ba_returns :: "string list"
  ba_error :: "exn option"

definition returnedOn :: "string list \<Rightarrow> broker_answer \<Rightarrow> string list" where
  "returnedOn returned answer = js_uniq (returned @ filter (\<lambda>i. i \<noteq> []) (ba_returns answer))"

definition event_message :: "OrderPlacedEvent \<Rightarrow> amqp_message" where
  "event_message event = \<lparr>am_exchange = EXCHANGE, am_routingKey = op_type event,
     am_content = json_stringify (event_body event), am_messageId = op_eventId event,
     am_persistent = True, am_mandatory = True\<rparr>"

definition publishEvent ::
  "(amqp_message \<Rightarrow> broker_answer) \<Rightarrow> OrderPlacedEvent \<Rightarrow> string list \<Rightarrow> (exn + unit) \<times> string list" where
  "publishEvent broker event returned =
     (let answer = broker (event_message event); seen = returnedOn returned answer
      in case ba_error answer of
           Some e \<Rightarrow> (Inl e, seen)
         | None \<Rightarrow>
             if op_eventId event \<in> set seen
             then (Inl (plain_error (op_type event @ '' '' @ op_eventId event @
                     '' was unroutable: no queue is bound to it'')),
                   removeAll (op_eventId event) seen)
             else (Inr (), seen))"

text \<open>The declared topology: exchanges with their kind, queues with their arguments, bindings.\<close>

datatype queue_args = Plain_quorum | Quorum_with_dlx string nat

record topology =
  tp_exchanges :: "(string \<times> string) list"
  tp_queues :: "(string \<times> queue_args) list"
  tp_bindings :: "(string \<times> string \<times> string) list"

definition assertTopology :: topology where
  "assertTopology = \<lparr>
     tp_exchanges = [(EXCHANGE, ''topic''), (DLX, ''fanout'')],
     tp_queues = [(DLQ, Plain_quorum), (RECEIPTS_QUEUE, Quorum_with_dlx DLX DELIVERY_LIMIT)],
     tp_bindings = [(DLQ, DLX, []), (RECEIPTS_QUEUE, EXCHANGE, ORDER_PLACED)]\<rparr>"

section \<open>The receipts consumer\<close>

text \<open>\<open>INSERT ... ON CONFLICT DO NOTHING\<close>: a conflict on either key skips the row, before the foreign key.\<close>

definition issueReceipt :: "runtime \<Rightarrow> OrderPlacedEvent \<Rightarrow> (db, bool) svc" where
  "issueReceipt rt event db =
     (case bindE (bind_uuid rt (od_orderId (op_data event))) (\<lambda>oid.
           bindE (bind_uuid rt (op_eventId event)) (\<lambda>eid. Inr (oid, eid))) of
        Inl e \<Rightarrow> (Inl e, db)
      | Inr (oid, eid) \<Rightarrow>
          if oid \<in> rc_order_id ` set (order_receipts db) \<or> eid \<in> rc_event_id ` set (order_receipts db)
          then (Inr False, db)
          else if oid \<notin> t_id ` set (transactions db)
          then (Inl (db_error ''23503'' ''order_receipts_order_fk''), db)
          else (Inr True, db\<lparr>order_receipts := order_receipts db @
                 [\<lparr>rc_order_id = oid, rc_event_id = eid\<rparr>]\<rparr>))"

text \<open>
  What the handler does with a delivery, up to the moment before it acknowledges: a null message
  stops the process, poison is rejected for good, an error puts it back, otherwise the receipt is
  committed and the acknowledgement is next. \<open>outage\<close> is an error of the connection to Postgres.
\<close>

datatype handled =
    Exits
  | Rejects bool
  | Will_ack bool

definition handle :: "zod \<Rightarrow> runtime \<Rightarrow> exn option \<Rightarrow> string option \<Rightarrow> db \<Rightarrow> handled \<times> db" where
  "handle z rt outage msg db =
     (case msg of
        None \<Rightarrow> (Exits, db)
      | Some content \<Rightarrow>
          (case parseOrderPlaced z content of
             None \<Rightarrow> (Rejects False, db)
           | Some event \<Rightarrow>
               (case (case outage of Some e \<Rightarrow> (Inl e, db) | None \<Rightarrow> issueReceipt rt event db) of
                  (Inl _, db') \<Rightarrow> (Rejects True, db')
                | (Inr applied, db') \<Rightarrow> (Will_ack applied, db'))))"

section \<open>The event format\<close>

lemma json_num_text [simp]: "json_wf (JNum (int_text i))"
  by auto

lemma event_body_wf: "json_wf (event_body e)"
  by (auto simp: event_body_def data_json_def)

definition event_ascii :: "OrderPlacedEvent \<Rightarrow> bool" where
  "event_ascii e \<longleftrightarrow> json_ascii (event_body e)"

definition event_ok :: "zod \<Rightarrow> OrderPlacedEvent \<Rightarrow> bool" where
  "event_ok z e \<longleftrightarrow> z_uuid z (op_eventId e) \<and> op_type e = ORDER_PLACED \<and> z_datetime z (op_occurredAt e) \<and>
     z_uuid z (od_orderId (op_data e)) \<and> z_uuid z (od_accountId (op_data e)) \<and>
     z_uuid z (od_instrumentId (op_data e)) \<and> 0 < od_quantity (op_data e) \<and> od_quantity (op_data e) < 2 ^ 53 \<and>
     0 \<le> od_costCents (op_data e) \<and> od_costCents (op_data e) < 2 ^ 53 \<and> js_length (od_currency (op_data e)) = 3"

lemma schema_event_body:
  assumes "zod_ok z" "event_ok z e"
  shows "orderPlacedSchema z (event_body e) = Some e"
proof -
  have ints: "z_int z (int_text (od_quantity (op_data e))) = Some (od_quantity (op_data e))"
      "z_int z (int_text (od_costCents (op_data e))) = Some (od_costCents (op_data e))"
    using assms by (auto simp: zod_ok_def event_ok_def)
  have "orderPlacedSchema_data z (data_json (op_data e)) = Some (op_data e)"
    using assms(2) ints
    by (simp add: orderPlacedSchema_data_def data_json_def json_get_def json_str_def json_num_def check_def event_ok_def)
  then show ?thesis
    using assms(2)
    by (simp add: orderPlacedSchema_def event_body_def json_get_def json_str_def check_def event_ok_def)
qed

lemma parse_event_message:
  assumes "zod_ok z" "event_ok z e" "event_ascii e"
  shows "parseOrderPlaced z (json_stringify (event_body e)) = Some e"
proof -
  have "ascii (json_stringify (event_body e))" using assms(3) by (simp add: event_ascii_def)
  then show ?thesis
    using json_parse_stringify [OF event_body_wf, of e] schema_event_body [OF assms(1,2)]
    by (simp add: parseOrderPlaced_def)
qed

text \<open>
  (C39) The event survives the wire. Parsing the content that \<open>publishEvent\<close> sends gives back the
  event, for every event that the contract allows (with text outside ASCII left to UTF-8).
\<close>

theorem event_round_trip:
  assumes "zod_ok z" "event_ok z e" "event_ascii e"
  shows "parseOrderPlaced z (am_content (event_message e)) = Some e"
  using parse_event_message [OF assms] by (simp add: event_message_def)

text \<open>Validators for evaluation: exactly what the program itself produces.\<close>

definition own_zod :: zod where
  "own_zod = \<lparr>z_uuid = is_uuid, z_datetime = (\<lambda>s. iso_parse s \<noteq> None), z_int = int_val\<rparr>"

lemma own_zod_ok: "zod_ok own_zod"
  using iso_parse_toISOString by (auto simp: zod_ok_def own_zod_def)

definition order_event :: OrderPlacedEvent where
  "order_event = orderPlaced (uid (CHR ''9'')) 1767225700000
     \<lparr>od_orderId = uid (CHR ''6''), od_accountId = uid (CHR ''d''), od_instrumentId = uid (CHR ''5''),
      od_quantity = 1, od_costCents = 4599, od_currency = ''USD''\<rparr>"

lemma order_event_ok: "event_ok own_zod order_event" "event_ascii order_event"
  by code_simp+

theorem event_round_trip_witness:
  "parseOrderPlaced own_zod (am_content (event_message order_event)) = Some order_event"
  by (rule event_round_trip [OF own_zod_ok order_event_ok])

text \<open>
  A publish reports an unroutable message. The promise resolves exactly when the broker
  confirmed the message and did not return it; a returned message is an error that names the event,
  and its id is forgotten so that a republish of the same event starts clean.
\<close>

theorem publish_unroutable:
  assumes "op_eventId event \<notin> set returned" "op_eventId event \<noteq> []"
  shows "(fst (publishEvent broker event returned) = Inr () \<longleftrightarrow>
      ba_error (broker (event_message event)) = None \<and>
      op_eventId event \<notin> set (ba_returns (broker (event_message event)))) \<and>
    (ba_error (broker (event_message event)) = None \<longrightarrow>
      op_eventId event \<notin> set (snd (publishEvent broker event returned)))"
  using assms by (auto simp: publishEvent_def returnedOn_def Let_def split: option.splits)

theorem publish_unroutable_witness:
  "fst (publishEvent (\<lambda>m. \<lparr>ba_returns = [am_messageId m], ba_error = None\<rparr>) order_event []) \<noteq> Inr ()"
proof -
  have "op_eventId order_event \<noteq> []" by code_simp
  then show ?thesis
    using publish_unroutable [of order_event "[]" "\<lambda>m. \<lparr>ba_returns = [am_messageId m], ba_error = None\<rparr>"]
    by (simp add: event_message_def)
qed

end
