(* ===== verification/Receipts.thy ===== *)
theory Receipts
  imports Broker "HOL-Library.Multiset"
begin

text \<open>
  The receipts consumer at work: messages are published, delivered at most \<open>PREFETCH\<close> at a time,
  handled, acknowledged or put back, and the process may die at any moment, in particular after the
  receipt is committed and before the acknowledgement. The invariant is that of an exactly-once
  effect over at-least-once delivery.
\<close>

section \<open>Deliveries\<close>

record queue_msg =
  qm_content :: string
  qm_count :: nat

text \<open>
  An unacknowledged message is being handled (\<open>None\<close>) or its effect is committed (\<open>Some applied\<close>).
  \<open>cs_published\<close> and \<open>cs_applied\<close> record what was sent and for which orders a handler reported
  a new receipt.
\<close>

record consumer_state =
  cs_db :: db
  cs_ready :: "queue_msg list"
  cs_unacked :: "(queue_msg \<times> bool option) list"
  cs_acked :: "queue_msg list"
  cs_dead :: "queue_msg list"
  cs_published :: "string list"
  cs_applied :: "uuid list"

text \<open>The quorum queue counts returns and dead-letters a message over the limit.\<close>

definition put_back :: "queue_msg \<Rightarrow> consumer_state \<Rightarrow> consumer_state" where
  "put_back m s =
     (if qm_count m + 1 > DELIVERY_LIMIT then s\<lparr>cs_dead := cs_dead s @ [m]\<rparr>
      else s\<lparr>cs_ready := cs_ready s @ [m\<lparr>qm_count := qm_count m + 1\<rparr>]\<rparr>)"

definition settle :: "queue_msg \<Rightarrow> handled \<Rightarrow> consumer_state \<Rightarrow> consumer_state" where
  "settle m h s = (case h of
     Exits \<Rightarrow> s
   | Rejects False \<Rightarrow> s\<lparr>cs_dead := cs_dead s @ [m]\<rparr>
   | Rejects True \<Rightarrow> put_back m s
   | Will_ack applied \<Rightarrow> s\<lparr>cs_unacked := cs_unacked s @ [(m, Some applied)]\<rparr>)"

inductive consumer_step :: "zod \<Rightarrow> runtime \<Rightarrow> consumer_state \<Rightarrow> consumer_state \<Rightarrow> bool" for z rt where
  cs_publish: "consumer_step z rt s (s\<lparr>cs_ready := cs_ready s @ [\<lparr>qm_content = c, qm_count = 0\<rparr>],
    cs_published := cs_published s @ [c]\<rparr>)"
| cs_deliver: "cs_ready s = m # rest \<Longrightarrow> length (cs_unacked s) < PREFETCH \<Longrightarrow>
    consumer_step z rt s (s\<lparr>cs_ready := rest, cs_unacked := cs_unacked s @ [(m, None)]\<rparr>)"
| cs_handle: "cs_unacked s = xs @ (m, None) # ys \<Longrightarrow>
    handle z rt outage (Some (qm_content m)) (cs_db s) = (h, db') \<Longrightarrow>
    consumer_step z rt s (settle m h (s\<lparr>cs_db := db', cs_unacked := xs @ ys,
      cs_applied := cs_applied s @ (case parseOrderPlaced z (qm_content m) of
        Some e \<Rightarrow> (if h = Will_ack True then [the (pg_uuid_in rt (od_orderId (op_data e)))] else [])
      | None \<Rightarrow> [])\<rparr>))"
| cs_ack: "cs_unacked s = xs @ (m, Some applied) # ys \<Longrightarrow>
    consumer_step z rt s (s\<lparr>cs_unacked := xs @ ys, cs_acked := cs_acked s @ [m]\<rparr>)"
| cs_crash: "consumer_step z rt s (fold put_back (map fst (cs_unacked s)) (s\<lparr>cs_unacked := []\<rparr>))"
| cs_orders: "order_receipts db' = order_receipts (cs_db s) \<Longrightarrow>
    t_id ` set (transactions (cs_db s)) \<subseteq> t_id ` set (transactions db') \<Longrightarrow>
    consumer_step z rt s (s\<lparr>cs_db := db'\<rparr>)"

definition consumer_start :: "consumer_state \<Rightarrow> bool" where
  "consumer_start s \<longleftrightarrow> distinct (map rc_order_id (order_receipts (cs_db s))) \<and>
     distinct (map rc_event_id (order_receipts (cs_db s))) \<and> cs_ready s = [] \<and> cs_unacked s = [] \<and>
     cs_acked s = [] \<and> cs_dead s = [] \<and> cs_published s = [] \<and> cs_applied s = []"

section \<open>The invariant\<close>

text \<open>The receipt of an event: a row for its order or for the event itself.\<close>

definition has_receipt :: "zod \<Rightarrow> runtime \<Rightarrow> db \<Rightarrow> queue_msg \<Rightarrow> bool" where
  "has_receipt z rt db m \<longleftrightarrow> (\<exists>e oid eid. parseOrderPlaced z (qm_content m) = Some e \<and>
     pg_uuid_in rt (od_orderId (op_data e)) = Some oid \<and> pg_uuid_in rt (op_eventId e) = Some eid \<and>
     (oid \<in> rc_order_id ` set (order_receipts db) \<or> eid \<in> rc_event_id ` set (order_receipts db)))"

definition messages :: "consumer_state \<Rightarrow> queue_msg list" where
  "messages s = cs_ready s @ map fst (cs_unacked s) @ cs_acked s @ cs_dead s"

definition contents :: "consumer_state \<Rightarrow> string multiset" where
  "contents s = mset (map qm_content (messages s))"

text \<open>No message is lost or duplicated, and no message is delivered too often.\<close>

definition queue_inv :: "consumer_state \<Rightarrow> bool" where
  "queue_inv s \<longleftrightarrow> contents s = mset (cs_published s) \<and>
     list_all (\<lambda>m. qm_count m \<le> DELIVERY_LIMIT) (cs_ready s @ map fst (cs_unacked s))"

definition committed :: "consumer_state \<Rightarrow> queue_msg list" where
  "committed s = cs_acked s @ map fst (filter (\<lambda>(m, st). st \<noteq> None) (cs_unacked s))"

definition effect_inv :: "zod \<Rightarrow> runtime \<Rightarrow> consumer_state \<Rightarrow> bool" where
  "effect_inv z rt s \<longleftrightarrow>
     distinct (map rc_order_id (order_receipts (cs_db s))) \<and>
     distinct (map rc_event_id (order_receipts (cs_db s))) \<and>
     list_all (has_receipt z rt (cs_db s)) (committed s) \<and>
     distinct (cs_applied s) \<and> set (cs_applied s) \<subseteq> rc_order_id ` set (order_receipts (cs_db s))"

definition consumer_inv :: "zod \<Rightarrow> runtime \<Rightarrow> consumer_state \<Rightarrow> bool" where
  "consumer_inv z rt s \<longleftrightarrow> queue_inv s \<and> effect_inv z rt s"

lemma has_receipt_mono:
  assumes "has_receipt z rt db m" "set (order_receipts db) \<subseteq> set (order_receipts db')"
  shows "has_receipt z rt db' m"
  using assms unfolding has_receipt_def by (meson image_mono subsetD)

lemma issueReceipt_cases:
  assumes "issueReceipt rt e db = (r, db')"
  shows "case r of
      Inl x \<Rightarrow> db' = db
    | Inr applied \<Rightarrow> (\<exists>oid eid. pg_uuid_in rt (od_orderId (op_data e)) = Some oid \<and> pg_uuid_in rt (op_eventId e) = Some eid \<and>
        (if applied
         then oid \<notin> rc_order_id ` set (order_receipts db) \<and> eid \<notin> rc_event_id ` set (order_receipts db) \<and>
           db' = db\<lparr>order_receipts := order_receipts db @ [\<lparr>rc_order_id = oid, rc_event_id = eid\<rparr>]\<rparr>
         else (oid \<in> rc_order_id ` set (order_receipts db) \<or> eid \<in> rc_event_id ` set (order_receipts db)) \<and> db' = db))"
  using assms
  by (auto simp: issueReceipt_def bind_uuid_def bindE_def split: sum.splits option.splits if_splits prod.splits)

text \<open>The four results of handling a message.\<close>

lemma handle_cases:
  assumes "handle z rt outage (Some c) db = (h, db')"
  obtains (poison) "h = Rejects False" "db' = db" "parseOrderPlaced z c = None"
  | (error) "h = Rejects True" "db' = db"
  | (duplicate) e oid eid where "h = Will_ack False" "db' = db" "parseOrderPlaced z c = Some e"
      "pg_uuid_in rt (od_orderId (op_data e)) = Some oid" "pg_uuid_in rt (op_eventId e) = Some eid"
      "oid \<in> rc_order_id ` set (order_receipts db) \<or> eid \<in> rc_event_id ` set (order_receipts db)"
  | (applied) e oid eid where "h = Will_ack True" "parseOrderPlaced z c = Some e"
      "pg_uuid_in rt (od_orderId (op_data e)) = Some oid" "pg_uuid_in rt (op_eventId e) = Some eid"
      "oid \<notin> rc_order_id ` set (order_receipts db)" "eid \<notin> rc_event_id ` set (order_receipts db)"
      "db' = db\<lparr>order_receipts := order_receipts db @ [\<lparr>rc_order_id = oid, rc_event_id = eid\<rparr>]\<rparr>"
proof (cases "parseOrderPlaced z c")
  case None
  then show thesis using assms poison by (simp add: handle_def)
next
  case (Some e)
  show thesis
  proof (cases outage)
    case (Some x)
    then show thesis using assms error \<open>parseOrderPlaced z c = Some e\<close> by (simp add: handle_def)
  next
    case None
    obtain r db1 where r: "issueReceipt rt e db = (r, db1)" by (cases "issueReceipt rt e db")
    show thesis
    proof (cases r)
      case (Inl x)
      then show thesis using assms error issueReceipt_cases [OF r] r None \<open>parseOrderPlaced z c = Some e\<close>
        by (simp add: handle_def)
    next
      case (Inr ap)
      then have h: "h = Will_ack ap" "db' = db1"
        using assms r None \<open>parseOrderPlaced z c = Some e\<close> by (simp_all add: handle_def)
      show thesis
        using issueReceipt_cases [OF r] Inr h duplicate applied \<open>parseOrderPlaced z c = Some e\<close>
        by (cases ap) auto
    qed
  qed
qed

lemma put_back_fields [simp]:
  "cs_db (put_back m s) = cs_db s" "cs_unacked (put_back m s) = cs_unacked s"
  "cs_acked (put_back m s) = cs_acked s" "cs_published (put_back m s) = cs_published s"
  "cs_applied (put_back m s) = cs_applied s"
  by (simp_all add: put_back_def)

lemma put_back_queue:
  "contents (put_back m s) = add_mset (qm_content m) (contents s)"
  "list_all (\<lambda>m. qm_count m \<le> DELIVERY_LIMIT) (cs_ready (put_back m s)) \<longleftrightarrow>
     list_all (\<lambda>m. qm_count m \<le> DELIVERY_LIMIT) (cs_ready s)"
  by (simp_all add: put_back_def contents_def messages_def)

lemma fold_put_back_fields [simp]:
  "cs_db (fold put_back ms s) = cs_db s" "cs_unacked (fold put_back ms s) = cs_unacked s"
  "cs_acked (fold put_back ms s) = cs_acked s" "cs_published (fold put_back ms s) = cs_published s"
  "cs_applied (fold put_back ms s) = cs_applied s"
  by (induction ms arbitrary: s) simp_all

lemma fold_put_back_queue:
  "contents (fold put_back ms s) = mset (map qm_content ms) + contents s"
  "list_all (\<lambda>m. qm_count m \<le> DELIVERY_LIMIT) (cs_ready (fold put_back ms s)) \<longleftrightarrow>
     list_all (\<lambda>m. qm_count m \<le> DELIVERY_LIMIT) (cs_ready s)"
  by (induction ms arbitrary: s) (simp_all add: put_back_queue)

lemma settle_fields [simp]:
  "cs_db (settle m h s) = cs_db s" "cs_published (settle m h s) = cs_published s"
  "cs_acked (settle m h s) = cs_acked s" "cs_applied (settle m h s) = cs_applied s"
  by (simp_all add: settle_def split: handled.splits bool.splits)

lemma settle_queue:
  assumes "h \<noteq> Exits"
  shows "contents (settle m h s) = add_mset (qm_content m) (contents s)"
    and "list_all (\<lambda>m. qm_count m \<le> DELIVERY_LIMIT) (cs_ready s @ map fst (cs_unacked s)) \<Longrightarrow>
      qm_count m \<le> DELIVERY_LIMIT \<Longrightarrow>
      list_all (\<lambda>m. qm_count m \<le> DELIVERY_LIMIT) (cs_ready (settle m h s) @ map fst (cs_unacked (settle m h s)))"
  using assms
  by (auto simp: settle_def put_back_queue split: handled.splits bool.splits) (simp_all add: contents_def messages_def)

lemma queue_inv_step: "consumer_step z rt s t \<Longrightarrow> queue_inv s \<Longrightarrow> queue_inv t"
proof (induction rule: consumer_step.induct)
  case (cs_handle s xs m ys outage h db')
  let ?s = "s\<lparr>cs_db := db', cs_unacked := xs @ ys, cs_applied := cs_applied s @ (case parseOrderPlaced z (qm_content m) of
        Some e \<Rightarrow> (if h = Will_ack True then [the (pg_uuid_in rt (od_orderId (op_data e)))] else [])
      | None \<Rightarrow> [])\<rparr>"
  have "h \<noteq> Exits" using cs_handle(2) by (cases rule: handle_cases) auto
  note st = settle_queue [OF this, where m = m and s = ?s]
  have "contents s = add_mset (qm_content m) (contents ?s)"
    using cs_handle(1) by (simp add: contents_def messages_def)
  then show ?case using cs_handle(1,3) st by (simp add: queue_inv_def)
next
  case (cs_ack s xs m applied ys)
  then show ?case by (simp add: queue_inv_def contents_def messages_def)
next
  case (cs_crash s)
  then show ?case by (simp add: queue_inv_def fold_put_back_queue) (simp add: contents_def messages_def ac_simps)
qed (simp_all add: queue_inv_def contents_def messages_def)

lemma committed_settle:
  "committed (settle m h s) = committed s @ (case h of Will_ack a \<Rightarrow> [m] | _ \<Rightarrow> [])"
  by (simp add: committed_def settle_def put_back_def split: handled.splits bool.splits)

lemma effect_inv_handle:
  assumes "effect_inv z rt s" "cs_unacked s = xs @ (m, None) # ys"
    and "handle z rt outage (Some (qm_content m)) (cs_db s) = (h, db')"
  shows "effect_inv z rt (settle m h (s\<lparr>cs_db := db', cs_unacked := xs @ ys,
      cs_applied := cs_applied s @ (case parseOrderPlaced z (qm_content m) of
        Some e \<Rightarrow> (if h = Will_ack True then [the (pg_uuid_in rt (od_orderId (op_data e)))] else [])
      | None \<Rightarrow> [])\<rparr>))"
proof -
  define applied where "applied = (case parseOrderPlaced z (qm_content m) of
        Some e \<Rightarrow> (if h = Will_ack True then [the (pg_uuid_in rt (od_orderId (op_data e)))] else [])
      | None \<Rightarrow> [])"
  define t where "t = settle m h (s\<lparr>cs_db := db', cs_unacked := xs @ ys, cs_applied := cs_applied s @ applied\<rparr>)"
  have c: "committed t = committed s @ (case h of Will_ack a \<Rightarrow> [m] | _ \<Rightarrow> [])"
    using assms(2) by (simp add: t_def committed_settle) (simp add: committed_def)
  have f: "cs_db t = db'" "cs_applied t = cs_applied s @ applied" by (simp_all add: t_def)
  have old: "list_all (has_receipt z rt (cs_db s)) (committed s)" using assms(1) by (simp add: effect_inv_def)
  have "effect_inv z rt t"
    using assms(3)
  proof (cases rule: handle_cases)
    case poison
    then show ?thesis using assms(1) c f by (simp add: effect_inv_def applied_def)
  next
    case error
    then show ?thesis using assms(1) c f by (simp add: effect_inv_def applied_def split: option.splits)
  next
    case (duplicate e oid eid)
    then have "has_receipt z rt (cs_db s) m" by (auto simp: has_receipt_def)
    then show ?thesis using duplicate(1-3) assms(1) c f by (simp add: effect_inv_def applied_def)
  next
    case (applied e oid eid)
    have "has_receipt z rt db' m" using applied by (auto simp: has_receipt_def)
    moreover have "list_all (has_receipt z rt db') (committed s)"
      using old has_receipt_mono [of z rt "cs_db s" _ db'] applied(7) by (auto simp: list_all_iff)
    ultimately show ?thesis using applied assms(1) c f by (auto simp: effect_inv_def applied_def)
  qed
  then show ?thesis by (simp only: t_def applied_def)
qed

lemma effect_inv_step: "consumer_step z rt s t \<Longrightarrow> effect_inv z rt s \<Longrightarrow> effect_inv z rt t"
proof (induction rule: consumer_step.induct)
  case (cs_handle s xs m ys outage h db')
  then show ?case by (intro effect_inv_handle)
next
  case (cs_ack s xs m applied ys)
  then show ?case by (simp add: effect_inv_def committed_def)
next
  case (cs_crash s)
  then show ?case by (simp add: effect_inv_def committed_def)
next
  case (cs_orders db' s)
  have "has_receipt z rt db' m = has_receipt z rt (cs_db s) m" for m
    using cs_orders(1) by (simp add: has_receipt_def)
  then show ?case using cs_orders by (simp add: effect_inv_def committed_def list_all_iff)
qed (simp_all add: effect_inv_def committed_def)

interpretation receipts: step_system consumer_start "consumer_step z rt" "consumer_inv z rt" for z rt
proof
  show "consumer_inv z rt s" if "consumer_start s" for s
    using that by (simp add: consumer_start_def consumer_inv_def queue_inv_def effect_inv_def contents_def messages_def committed_def)
  show "consumer_inv z rt t" if "consumer_step z rt s t" "consumer_inv z rt s" for s t
    using that queue_inv_step effect_inv_step by (auto simp: consumer_inv_def)
qed

section \<open>Properties\<close>

text \<open>
  (C12) One receipt per order. However messages are duplicated, redelivered, delayed by outages or
  interrupted by crashes of the consumer: no order and no event has two receipts, no two handlers
  both report a new receipt for an order, a message is acknowledged only after the receipt of its
  event exists, and every published message is waiting, in work, acknowledged or dead-lettered,
  never lost. A message waiting or in work was put back at most five times.
\<close>

theorem receipts_exactly_once:
  assumes "reachable consumer_start (consumer_step z rt) s"
  shows "distinct (map rc_order_id (order_receipts (cs_db s))) \<and>
    distinct (map rc_event_id (order_receipts (cs_db s))) \<and> distinct (cs_applied s) \<and>
    (\<forall>m\<in>set (cs_acked s). \<exists>e oid eid. parseOrderPlaced z (qm_content m) = Some e \<and>
       pg_uuid_in rt (od_orderId (op_data e)) = Some oid \<and> pg_uuid_in rt (op_eventId e) = Some eid \<and>
       (oid \<in> rc_order_id ` set (order_receipts (cs_db s)) \<or> eid \<in> rc_event_id ` set (order_receipts (cs_db s)))) \<and>
    mset (map qm_content (cs_ready s @ map fst (cs_unacked s) @ cs_acked s @ cs_dead s)) = mset (cs_published s) \<and>
    (\<forall>m\<in>set (cs_ready s @ map fst (cs_unacked s)). qm_count m \<le> 5)"
proof -
  have inv: "queue_inv s" "effect_inv z rt s"
    using receipts.inv_reachable [OF assms] by (simp_all add: consumer_inv_def)
  have "\<forall>m\<in>set (cs_acked s). has_receipt z rt (cs_db s) m"
    using inv(2) by (simp add: effect_inv_def committed_def list_all_iff)
  then have acked: "\<forall>m\<in>set (cs_acked s). \<exists>e oid eid. parseOrderPlaced z (qm_content m) = Some e \<and>
       pg_uuid_in rt (od_orderId (op_data e)) = Some oid \<and> pg_uuid_in rt (op_eventId e) = Some eid \<and>
       (oid \<in> rc_order_id ` set (order_receipts (cs_db s)) \<or> eid \<in> rc_event_id ` set (order_receipts (cs_db s)))"
    unfolding has_receipt_def .
  have "mset (map qm_content (cs_ready s @ map fst (cs_unacked s) @ cs_acked s @ cs_dead s)) = mset (cs_published s)"
    using inv(1) by (simp only: queue_inv_def contents_def messages_def)
  moreover have "\<forall>m\<in>set (cs_ready s @ map fst (cs_unacked s)). qm_count m \<le> 5"
    using inv(1) unfolding queue_inv_def list_all_iff DELIVERY_LIMIT_def by blast
  ultimately show ?thesis using inv(2) acked unfolding effect_inv_def by blast
qed

text \<open>A crash between the commit and the acknowledgement, and the redelivery.\<close>

definition order_msg :: "nat \<Rightarrow> queue_msg" where
  "order_msg n = \<lparr>qm_content = json_stringify (event_body order_event), qm_count = n\<rparr>"

definition receipt_db :: db where
  "receipt_db = example_db\<lparr>order_receipts := [\<lparr>rc_order_id = uid (CHR ''6''), rc_event_id = uid (CHR ''9'')\<rparr>]\<rparr>"

definition consuming :: "db \<Rightarrow> queue_msg list \<Rightarrow> (queue_msg \<times> bool option) list \<Rightarrow> queue_msg list \<Rightarrow> uuid list \<Rightarrow> consumer_state" where
  "consuming db ready unacked acked applied = \<lparr>cs_db = db, cs_ready = ready, cs_unacked = unacked, cs_acked = acked,
     cs_dead = [], cs_published = [qm_content (order_msg 0)], cs_applied = applied\<rparr>"

lemma order_event_ids:
  "op_eventId order_event = uid (CHR ''9'')" "od_orderId (op_data order_event) = uid (CHR ''6'')"
  "pg_uuid_in canonical_runtime (uid (CHR ''9'')) = Some (uid (CHR ''9''))"
  "pg_uuid_in canonical_runtime (uid (CHR ''6'')) = Some (uid (CHR ''6''))"
  "uid (CHR ''6'') \<in> t_id ` set (transactions example_db)" "order_receipts example_db = []"
  by code_simp+

lemma order_parse: "parseOrderPlaced own_zod (qm_content (order_msg n)) = Some order_event"
  using parse_event_message [OF own_zod_ok order_event_ok] by (simp add: order_msg_def)

lemma receipt_issued:
  "issueReceipt canonical_runtime order_event example_db = (Inr True, receipt_db)"
  "issueReceipt canonical_runtime order_event receipt_db = (Inr False, receipt_db)"
  using order_event_ids by (simp_all add: issueReceipt_def bind_uuid_def receipt_db_def del: set_map)

lemma handle_order_msg:
  "handle own_zod canonical_runtime None (Some (qm_content (order_msg n))) example_db = (Will_ack True, receipt_db)"
  "handle own_zod canonical_runtime None (Some (qm_content (order_msg n))) receipt_db = (Will_ack False, receipt_db)"
  by (simp_all add: handle_def order_parse receipt_issued)

lemma crash_run: "reachable consumer_start (consumer_step own_zod canonical_runtime)
    (consuming receipt_db [] [] [order_msg 1] [uid (CHR ''6'')])"
proof -
  let ?step = "consumer_step own_zod canonical_runtime"
  let ?s0 = "(consuming example_db [] [] [] [])\<lparr>cs_published := []\<rparr>"
  note parse = order_parse
  have r0: "reachable consumer_start ?step ?s0"
    by (rule reach_init) (simp add: consumer_start_def consuming_def order_event_ids)
  have s1: "?step ?s0 (consuming example_db [order_msg 0] [] [] [])"
    using cs_publish [of own_zod canonical_runtime ?s0 "qm_content (order_msg 0)"]
    by (simp add: consuming_def order_msg_def)
  have s2: "?step (consuming db [order_msg n] [] acked ap) (consuming db [] [(order_msg n, None)] acked ap)" for db n acked ap
    using cs_deliver [of "consuming db [order_msg n] [] acked ap" "order_msg n" "[]"] by (simp add: consuming_def PREFETCH_def)
  have s3: "?step (consuming example_db [] [(order_msg 0, None)] [] [])
      (consuming receipt_db [] [(order_msg 0, Some True)] [] [uid (CHR ''6'')])"
    using cs_handle [of "consuming example_db [] [(order_msg 0, None)] [] []" "[]" "order_msg 0" "[]", OF _ , of own_zod canonical_runtime None]
      handle_order_msg(1) [of 0] parse order_event_ids
    by (simp add: consuming_def settle_def)
  have s4: "?step (consuming receipt_db [] [(order_msg 0, Some True)] [] [uid (CHR ''6'')])
      (consuming receipt_db [order_msg 1] [] [] [uid (CHR ''6'')])"
    using cs_crash [of own_zod canonical_runtime "consuming receipt_db [] [(order_msg 0, Some True)] [] [uid (CHR ''6'')]"]
    by (simp add: consuming_def put_back_def order_msg_def DELIVERY_LIMIT_def)
  have s5: "?step (consuming receipt_db [] [(order_msg 1, None)] [] [uid (CHR ''6'')])
      (consuming receipt_db [] [(order_msg 1, Some False)] [] [uid (CHR ''6'')])"
    using cs_handle [of "consuming receipt_db [] [(order_msg 1, None)] [] [uid (CHR ''6'')]" "[]" "order_msg 1" "[]", OF _ , of own_zod canonical_runtime None]
      handle_order_msg(2) [of 1] parse
    by (simp add: consuming_def settle_def)
  have s6: "?step (consuming receipt_db [] [(order_msg 1, Some False)] [] [uid (CHR ''6'')])
      (consuming receipt_db [] [] [order_msg 1] [uid (CHR ''6'')])"
    using cs_ack [of "consuming receipt_db [] [(order_msg 1, Some False)] [] [uid (CHR ''6'')]" "[]" "order_msg 1" False "[]"]
    by (simp add: consuming_def)
  note r1 = reach_step [OF r0 s1]
  note r2 = reach_step [OF r1 s2]
  note r3 = reach_step [OF r2 s3]
  note r4 = reach_step [OF r3 s4]
  note r5 = reach_step [OF r4 s2]
  note r6 = reach_step [OF r5 s5]
  note r7 = reach_step [OF r6 s6]
  show ?thesis by (fact r7)
qed

theorem receipts_exactly_once_witness:
  "cs_acked (consuming receipt_db [] [] [order_msg 1] [uid (CHR ''6'')]) = [order_msg 1] \<and>
   distinct (map rc_order_id (order_receipts receipt_db))"
  using receipts_exactly_once [OF crash_run] by (simp add: consuming_def)

text \<open>
  Each delivery. Content that is not a valid order.placed is rejected for good and changes
  nothing; a valid event gets its receipt now, or had it already, or goes back to the queue with the
  database unchanged; a message is never acknowledged without its receipt.
\<close>

theorem handle_outcomes:
  assumes "handle z rt outage (Some content) db = (h, db')"
  shows "(parseOrderPlaced z content = None \<longrightarrow> h = Rejects False) \<and>
    (case h of
       Exits \<Rightarrow> False
     | Rejects requeue \<Rightarrow> db' = db \<and> (requeue = (parseOrderPlaced z content \<noteq> None))
     | Will_ack applied \<Rightarrow>
         has_receipt z rt db' \<lparr>qm_content = content, qm_count = 0\<rparr> \<and>
         length (order_receipts db') = length (order_receipts db) + (if applied then 1 else 0))"
  using assms
proof (cases rule: handle_cases)
  case error
  then have "parseOrderPlaced z content \<noteq> None" using assms by (auto simp: handle_def split: option.splits)
  then show ?thesis using error by simp
qed (auto simp: has_receipt_def)

theorem handle_outcomes_witness:
  "has_receipt own_zod canonical_runtime receipt_db \<lparr>qm_content = qm_content (order_msg 0), qm_count = 0\<rparr>"
  using handle_outcomes [OF handle_order_msg(1)] by simp

end
