(* ===== verification/Checkout.thy ===== *)
theory Checkout
  imports Broker Fx_Rates Ledger
begin

text \<open>
  The checkout (\<open>concurrency/checkout.ts\<close>): one transaction that debits an account by a guarded
  UPDATE, writes the order and enqueues its receipt job, and the announcement of the order after the
  commit. The guarded UPDATE holds the row lock until the end of the transaction, so concurrent
  checkouts on an account take effect one after the other; each is one function here.
\<close>

section \<open>Requests and results\<close>

text \<open>\<open>cr_quantity\<close> is \<open>None\<close> for a number that is not an integer; the text is \<open>String(quantity)\<close>.\<close>

record CheckoutRequest =
  cr_accountId :: string
  cr_instrumentId :: string
  cr_quantity :: "int option"
  cr_quantity_text :: string
  cr_unitPriceCents :: int
  cr_description :: "string option"

datatype CheckoutRejection = Insufficient_funds | Account_not_found | No_fx_rate

record CheckoutSuccess =
  ck_orderId :: uuid
  ck_jobId :: uuid
  ck_balanceCents :: int
  ck_costCents :: int
  ck_currency :: string

datatype CheckoutResult = Checkout_ok CheckoutSuccess | Checkout_rejected CheckoutRejection

fun rejection_text :: "CheckoutRejection \<Rightarrow> string" where
  "rejection_text Insufficient_funds = ''insufficient_funds''"
| "rejection_text Account_not_found = ''account_not_found''"
| "rejection_text No_fx_rate = ''no_fx_rate''"

text \<open>The error class, and \<open>instanceof\<close>: nothing else throws a plain error with these messages.\<close>

definition CheckoutRejected :: "CheckoutRejection \<Rightarrow> exn" where
  "CheckoutRejected reason = plain_error (rejection_text reason)"

definition rejection_of :: "exn \<Rightarrow> CheckoutRejection option" where
  "rejection_of e = List.find (\<lambda>r. e = CheckoutRejected r) [Insufficient_funds, Account_not_found, No_fx_rate]"

section \<open>The statements\<close>

text \<open>
  \<open>UPDATE accounts SET balance_cents = balance_cents - $2 WHERE id = $1 AND balance_cents >= $2
  RETURNING balance_cents, currency\<close>, and the query that tells the two reasons for no row apart.
\<close>

definition debit_matches :: "uuid \<Rightarrow> int \<Rightarrow> account_row \<Rightarrow> bool" where
  "debit_matches u cost a \<longleftrightarrow> a_id a = u \<and> cost \<le> a_balance_cents a"

definition debit_update :: "uuid \<Rightarrow> int \<Rightarrow> db \<Rightarrow> exn + db" where
  "debit_update u cost db =
     (if list_all (\<lambda>a. debit_matches u cost a \<longrightarrow> fits_bigint (a_balance_cents a - cost)) (accounts db)
      then Inr (db\<lparr>accounts := update_where (debit_matches u cost)
             (\<lambda>a. a\<lparr>a_balance_cents := a_balance_cents a - cost\<rparr>) (accounts db)\<rparr>)
      else Inl (db_error ''22003'' ''bigint''))"

definition debitAccount :: "runtime \<Rightarrow> string \<Rightarrow> int \<Rightarrow> (db, int \<times> string) svc" where
  "debitAccount rt accountId costCents =
     bindS (liftS (bind_uuid rt accountId)) (\<lambda>u.
     bindS (liftS (bind_bigint costCents)) (\<lambda>cost.
     bindS (readS (\<lambda>db. map (\<lambda>a. (a_balance_cents a - cost, a_currency a))
       (filter (debit_matches u cost) (accounts db)))) (\<lambda>rows.
     bindS (writeE (debit_update u cost)) (\<lambda>_.
     case rows of
       row # _ \<Rightarrow> returnS row
     | [] \<Rightarrow>
         bindS (readS (\<lambda>db. filter (\<lambda>a. a_id a = u) (accounts db))) (\<lambda>found.
         throwS (CheckoutRejected (if found \<noteq> [] then Insufficient_funds else Account_not_found)))))))"

definition resolveFxRate :: "runtime \<Rightarrow> string \<Rightarrow> (db, string) svc" where
  "resolveFxRate rt currency =
     (if currency = ''UAH'' then returnS ''1''
      else
        bindS (readS (\<lambda>db. sort_key (latest_order rt)
          (filter (\<lambda>f. f_currency f = currency) (fx_rates db)))) (\<lambda>rows.
        case rows of
          [] \<Rightarrow> throwS (CheckoutRejected No_fx_rate)
        | f # _ \<Rightarrow> returnS (numeric_out (f_rate f))))"

text \<open>
  \<open>(n / 100).toFixed(10)\<close> in units of \<open>10 ^ -10\<close>: the quotient is rounded to 53 significant bits,
  ties to even, and then to ten decimals, ties up.
\<close>

definition div100_fixed10 :: "nat \<Rightarrow> nat" where
  "div100_fixed10 n =
     (if n = 0 then 0
      else let ulp = 2 ^ (bit_length (n * 2 ^ 60 div 100) - 53);
               q = n * 2 ^ 60 div (100 * ulp);
               r = n * 2 ^ 60 mod (100 * ulp);
               m = (if 2 * r < 100 * ulp \<or> (2 * r = 100 * ulp \<and> even q) then q else q + 1)
           in (2 * (m * ulp * 10 ^ 10) + 2 ^ 60) div (2 * 2 ^ 60))"

definition unit_price_text :: "int \<Rightarrow> string" where
  "unit_price_text cents = numeric_out (sgn cents * int (div100_fixed10 (nat \<bar>cents\<bar>)))"

record checkout_values =
  cv_now :: millis
  cv_order_id :: uuid
  cv_job_id :: uuid
  cv_event_id :: uuid

definition order_row ::
  "runtime \<Rightarrow> checkout_values \<Rightarrow> CheckoutRequest \<Rightarrow> int \<Rightarrow> int \<Rightarrow> string \<Rightarrow> string \<Rightarrow> exn + tx_row" where
  "order_row rt cv request quantity costCents currency fxRate =
     bindE (bind_uuid rt (cr_accountId request)) (\<lambda>accountId.
     bindE (bind_uuid rt (cr_instrumentId request)) (\<lambda>instrumentId.
     bindE (bind_bigint costCents) (\<lambda>amount.
     bindE (bind_numeric rt fxRate) (\<lambda>rate.
     bindE (bind_bigint (js_mult quantity 1000000)) (\<lambda>micro.
     bindE (bind_numeric rt (unit_price_text (cr_unitPriceCents request))) (\<lambda>price.
     bindE (optE bind_text (cr_description request)) (\<lambda>description.
       Inr \<lparr>t_id = cv_order_id cv, t_account_id = accountId, t_instrument_id = Some instrumentId,
            t_category_id = None, t_currency = currency, t_type = Buy, t_status = Posted,
            t_amount_cents = amount, t_fx_rate = rate, t_quantity_micro = Some micro,
            t_unit_price = Some price, t_booked_at = cv_now cv, t_description = description,
            t_created_at = cv_now cv\<rparr>)))))))"

definition receipt_job :: "checkout_values \<Rightarrow> CheckoutRequest \<Rightarrow> job_row" where
  "receipt_job cv request = \<lparr>j_id = cv_job_id cv, j_type = ''order_receipt'',
     j_payload = [(''order_id'', cv_order_id cv), (''account_id'', cr_accountId request)],
     j_status = Job_pending, j_processed = 0, j_worker_id = None, j_created_at = cv_now cv\<rparr>"

section \<open>The checkout\<close>

definition checkout_body ::
  "runtime \<Rightarrow> checkout_values \<Rightarrow> CheckoutRequest \<Rightarrow> int \<Rightarrow> int \<Rightarrow> (db, CheckoutSuccess) svc" where
  "checkout_body rt cv request quantity costCents =
     bindS (debitAccount rt (cr_accountId request) costCents) (\<lambda>(balance, currency).
     bindS (resolveFxRate rt currency) (\<lambda>fxRate.
     bindS (writeE (\<lambda>db. bindE (order_row rt cv request quantity costCents currency fxRate) (\<lambda>row.
       insert_transactions [row] db))) (\<lambda>_.
     bindS (writeE (insert_job (receipt_job cv request))) (\<lambda>_.
     returnS \<lparr>ck_orderId = cv_order_id cv, ck_jobId = cv_job_id cv, ck_balanceCents = js_round balance,
       ck_costCents = costCents, ck_currency = currency\<rparr>))))"

record shop =
  sh_db :: db
  sh_events :: "OrderPlacedEvent list"

definition in_shop :: "(db, 'a) svc \<Rightarrow> (shop, 'a) svc" where
  "in_shop m s = (case m (sh_db s) of (r, db') \<Rightarrow> (r, s\<lparr>sh_db := db'\<rparr>))"

text \<open>\<open>publish\<close> is optional; its failure reaches the caller although the order is committed.\<close>

definition placed_event :: "checkout_values \<Rightarrow> CheckoutRequest \<Rightarrow> int \<Rightarrow> CheckoutSuccess \<Rightarrow> OrderPlacedEvent" where
  "placed_event cv request quantity result = orderPlaced (cv_event_id cv) (cv_now cv)
     \<lparr>od_orderId = ck_orderId result, od_accountId = cr_accountId request,
      od_instrumentId = cr_instrumentId request, od_quantity = quantity,
      od_costCents = ck_costCents result, od_currency = ck_currency result\<rparr>"

definition checkout ::
  "runtime \<Rightarrow> checkout_values \<Rightarrow> (OrderPlacedEvent \<Rightarrow> (shop, unit) svc) option \<Rightarrow> CheckoutRequest \<Rightarrow>
   (shop, CheckoutResult) svc" where
  "checkout rt cv publish request s =
     (case cr_quantity request of
        None \<Rightarrow> throwS (plain_error (''checkout: quantity must be a positive integer, got '' @ cr_quantity_text request)) s
      | Some quantity \<Rightarrow>
          if quantity \<le> 0
          then throwS (plain_error (''checkout: quantity must be a positive integer, got '' @ cr_quantity_text request)) s
          else
            let costCents = js_mult (cr_unitPriceCents request) quantity
            in (case in_shop (transaction (checkout_body rt cv request quantity costCents)) s of
                  (Inl error, s') \<Rightarrow>
                    (case rejection_of error of
                       Some reason \<Rightarrow> (Inr (Checkout_rejected reason), s') | None \<Rightarrow> (Inl error, s'))
                | (Inr result, s') \<Rightarrow>
                    bindS (case publish of None \<Rightarrow> returnS () | Some p \<Rightarrow> p (placed_event cv request quantity result))
                      (\<lambda>_. returnS (Checkout_ok result)) s'))"

text \<open>The publisher that a confirmed channel gives: the event is out when the call returns.\<close>

definition record_event :: "OrderPlacedEvent \<Rightarrow> (shop, unit) svc" where
  "record_event e = writeS (\<lambda>s. s\<lparr>sh_events := sh_events s @ [e]\<rparr>)"

section \<open>The race\<close>

text \<open>
  The same request many times (\<open>demo-race.ts\<close>). The first statement of a checkout that succeeds
  takes the lock on the row of the account and keeps it to the end of its transaction, and the
  guard is checked on the committed row, so the calls take effect one after another, in the order in
  which they get the lock.
\<close>

fun checkouts ::
  "runtime \<Rightarrow> (OrderPlacedEvent \<Rightarrow> (shop, unit) svc) option \<Rightarrow> CheckoutRequest \<Rightarrow> checkout_values list \<Rightarrow> shop \<Rightarrow>
   (exn + CheckoutResult) list \<times> shop" where
  "checkouts rt publish request [] s = ([], s)"
| "checkouts rt publish request (cv # cvs) s =
     (case checkout rt cv publish request s of (r, s1) \<Rightarrow>
      (case checkouts rt publish request cvs s1 of (rs, s2) \<Rightarrow> (r # rs, s2)))"

definition ATTEMPTS :: nat where "ATTEMPTS = 50"
definition UNITS :: nat where "UNITS = 10"
definition PRICE_CENTS :: int where "PRICE_CENTS = 12000"
definition START_BALANCE_CENTS :: int where "START_BALANCE_CENTS = int UNITS * PRICE_CENTS"

end
