(* ===== verification/Checkout_Correct.thy ===== *)
theory Checkout_Correct
  imports Checkout
begin

text \<open>
  Correctness of the checkout: what a successful one did to the tables, all or nothing, the ledger
  and no overdraft, the reasons of a rejection, and the race for a finite balance.
\<close>

section \<open>The guarded debit\<close>

definition debited :: "account_row \<Rightarrow> int \<Rightarrow> db \<Rightarrow> db" where
  "debited a cost db = db\<lparr>accounts := shift_balances (\<lambda>i. if i = a_id a then - cost else 0) (accounts db)\<rparr>"

lemma debited_fields [row_simps]:
  "transactions (debited a cost db) = transactions db" "job_queue (debited a cost db) = job_queue db"
  "instruments (debited a cost db) = instruments db" "categories (debited a cost db) = categories db"
  "currencies (debited a cost db) = currencies db" "fx_rates (debited a cost db) = fx_rates db"
  by (simp_all add: debited_def)

lemma debit_update_match:
  assumes "db_ok db" "a \<in> set (accounts db)" "cost \<le> a_balance_cents a" "fits_bigint (a_balance_cents a - cost)"
  shows "debit_update (a_id a) cost db = Inr (debited a cost db)"
proof -
  have one: "b = a" if "b \<in> set (accounts db)" "a_id b = a_id a" for b
    using that db_ok_distinct(1) [OF assms(1)] assms(2) by (auto simp: distinct_map inj_on_def)
  have "update_where (debit_matches (a_id a) cost) (\<lambda>b. b\<lparr>a_balance_cents := a_balance_cents b - cost\<rparr>) (accounts db) =
      shift_balances (\<lambda>i. if i = a_id a then - cost else 0) (accounts db)"
    unfolding update_where_def shift_balances_def
    by (rule map_cong [OF refl]) (use one assms(3) in \<open>auto simp: debit_matches_def\<close>)
  moreover have "list_all (\<lambda>b. debit_matches (a_id a) cost b \<longrightarrow> fits_bigint (a_balance_cents b - cost)) (accounts db)"
    using one assms(4) by (auto simp: list_all_iff debit_matches_def)
  ultimately show ?thesis by (simp add: debit_update_def debited_def)
qed

lemma debit_update_none:
  assumes "filter (debit_matches u cost) (accounts db) = []"
  shows "debit_update u cost db = Inr db"
proof -
  have no: "\<not> debit_matches u cost b" if "b \<in> set (accounts db)" for b
    using assms that by (auto simp: filter_empty_conv)
  then have "update_where (debit_matches u cost) f (accounts db) = accounts db" for f
    unfolding update_where_def by (intro map_idI) auto
  then show ?thesis using no by (simp add: debit_update_def list_all_iff)
qed

lemma debit_filter:
  assumes "db_ok db" "a \<in> set (accounts db)"
  shows "filter (debit_matches (a_id a) cost) (accounts db) = (if cost \<le> a_balance_cents a then [a] else [])"
proof -
  have "filter (debit_matches (a_id a) cost) (accounts db) =
      filter (\<lambda>b. cost \<le> a_balance_cents b) (filter (\<lambda>b. a_id b = a_id a) (accounts db))"
    by (auto simp: debit_matches_def intro!: filter_cong)
  then show ?thesis using filter_key [OF db_ok_distinct(1) [OF assms(1)] assms(2)] by simp
qed

text \<open>The debit of an existing account.\<close>

lemma debitAccount_eq:
  assumes "db_ok db" "a \<in> set (accounts db)" "pg_uuid_in rt acc = Some (a_id a)" "fits_bigint cost"
  shows "debitAccount rt acc cost db =
    (if a_balance_cents a < cost then (Inl (CheckoutRejected Insufficient_funds), db)
     else if fits_bigint (a_balance_cents a - cost)
     then (Inr (a_balance_cents a - cost, a_currency a), debited a cost db)
     else (Inl (db_error ''22003'' ''bigint''), db))"
proof -
  have own: "filter (\<lambda>b. a_id b = a_id a) (accounts db) = [a]"
    using filter_key [OF db_ok_distinct(1) [OF assms(1)] assms(2)] .
  note f = debit_filter [OF assms(1,2), of cost]
  consider "a_balance_cents a < cost" | "cost \<le> a_balance_cents a" "fits_bigint (a_balance_cents a - cost)"
    | "cost \<le> a_balance_cents a" "\<not> fits_bigint (a_balance_cents a - cost)" by linarith
  then show ?thesis
  proof cases
    case 1
    then have "filter (debit_matches (a_id a) cost) (accounts db) = []" using f by simp
    from debit_update_none [OF this] this show ?thesis
      using 1 own assms(3,4) by (simp add: debitAccount_def bindS_def liftS_def readS_def writeE_def throwS_def
          bind_uuid_def bind_bigint_def)
  next
    case 2
    then show ?thesis
      using f debit_update_match [OF assms(1,2) 2] assms(3,4)
      by (simp add: debitAccount_def bindS_def liftS_def readS_def writeE_def returnS_def bind_uuid_def bind_bigint_def)
  next
    case 3
    then have "debit_update (a_id a) cost db = Inl (db_error ''22003'' ''bigint'')"
      using assms(2) by (auto simp: debit_update_def list_all_iff debit_matches_def)
    then show ?thesis
      using 3 f assms(3,4)
      by (simp add: debitAccount_def bindS_def liftS_def readS_def writeE_def bind_uuid_def bind_bigint_def)
  qed
qed

lemma debitAccount_missing:
  assumes "pg_uuid_in rt acc = Some u" "u \<notin> a_id ` set (accounts db)" "fits_bigint cost"
  shows "debitAccount rt acc cost db = (Inl (CheckoutRejected Account_not_found), db)"
proof -
  have "filter (\<lambda>a. a_id a = u) (accounts db) = []" "filter (debit_matches u cost) (accounts db) = []"
    using assms(2) by (auto simp: filter_empty_conv debit_matches_def)
  then show ?thesis
    using assms(1,3) debit_update_none [of u cost db]
    by (simp add: debitAccount_def bindS_def liftS_def readS_def writeE_def throwS_def bind_uuid_def bind_bigint_def)
qed

text \<open>A successful debit found its account and enough money on it.\<close>

lemma debitAccount_Inr:
  assumes "db_ok db" "debitAccount rt acc cost db = (Inr (bal, cur), db')"
  obtains a where "a \<in> set (accounts db)" "pg_uuid_in rt acc = Some (a_id a)" "fits_bigint cost"
    "cost \<le> a_balance_cents a" "fits_bigint (a_balance_cents a - cost)" "bal = a_balance_cents a - cost"
    "cur = a_currency a" "db' = debited a cost db"
proof -
  obtain u where u: "pg_uuid_in rt acc = Some u" "fits_bigint cost"
    using assms(2) by (auto simp: debitAccount_def bindS_Inr bind_uuid_Inr bind_bigint_Inr)
  show thesis
  proof (cases "u \<in> a_id ` set (accounts db)")
    case False
    then show thesis using debitAccount_missing [OF u(1) False u(2)] assms(2) by simp
  next
    case True
    then obtain a where a: "a \<in> set (accounts db)" "u = a_id a" by auto
    then show thesis
      using debitAccount_eq [OF assms(1) a(1) u(1) [unfolded a(2)] u(2)] assms(2) that u
      by (auto split: if_splits)
  qed
qed

lemma insert_job_Inr:
  "insert_job j db = Inr db' \<longleftrightarrow> job_check j = None \<and> j_id j \<notin> j_id ` set (job_queue db) \<and>
     db' = db\<lparr>job_queue := job_queue db @ [j]\<rparr>"
proof -
  have "add_rows job_check j_id ''job_queue_pkey'' (job_queue db) [j] = Inr t \<longleftrightarrow>
      t = job_queue db @ [j] \<and> job_check j = None \<and> j_id j \<notin> j_id ` set (job_queue db)" for t
    unfolding add_rows_Inr by auto
  then show ?thesis unfolding insert_job_def bindE_Inr by auto
qed

lemma db_ok_insert_job:
  assumes "db_ok db" "insert_job j db = Inr db'"
  shows "db_ok db'"
proof -
  have "account_ok (db\<lparr>job_queue := x\<rparr>) = account_ok db" "transaction_ok (db\<lparr>job_queue := x\<rparr>) = transaction_ok db"
      "fx_row_ok (db\<lparr>job_queue := x\<rparr>) = fx_row_ok db" "refresh_ok (db\<lparr>job_queue := x\<rparr>) = refresh_ok db" for x
    by (auto simp: fun_eq_iff account_ok_def account_fk_def transaction_ok_def transaction_fk_def fx_row_ok_def refresh_ok_def)
  then show ?thesis using assms unfolding insert_job_Inr db_ok_def by simp
qed

lemma receipt_job_id [simp]: "j_id (receipt_job cv request) = cv_job_id cv"
  by (simp add: receipt_job_def)

lemma resolveFxRate_state: "resolveFxRate rt cur db = (r, db') \<Longrightarrow> db' = db"
  by (auto simp: resolveFxRate_def svc_simps split: if_splits list.splits)

lemma resolveFxRate_same:
  "fx_rates db' = fx_rates db \<Longrightarrow> fst (resolveFxRate rt cur db') = fst (resolveFxRate rt cur db)"
  by (auto simp: resolveFxRate_def svc_simps split: list.splits)

lemma order_row_fields:
  assumes "order_row rt cv request quantity cost cur rate = Inr row"
  shows "t_id row = cv_order_id cv" "t_status row = Posted" "t_type row = Buy" "t_amount_cents row = cost"
    "pg_uuid_in rt (cr_accountId request) = Some (t_account_id row)" "t_currency row = cur"
    "fits_bigint (t_amount_cents row)" "numeric_ok (t_fx_rate row)" "null_or fits_bigint (t_quantity_micro row)"
  using assms by (auto simp: order_row_def bind_results null_or_def)

lemma order_row_description:
  "order_row rt cv request quantity cost cur rate = Inr row \<Longrightarrow> t_description row = cr_description request"
  by (auto simp: order_row_def bind_results)

definition placed :: "account_row \<Rightarrow> int \<Rightarrow> tx_row \<Rightarrow> job_row \<Rightarrow> db \<Rightarrow> db" where
  "placed a cost row job db = (debited a cost db)\<lparr>transactions := transactions db @ [row],
     job_queue := job_queue db @ [job]\<rparr>"

lemma checkout_body_Inr:
  assumes "db_ok db" "checkout_body rt cv request quantity cost db = (Inr ok, db')"
  obtains a row rate where "a \<in> set (accounts db)" "pg_uuid_in rt (cr_accountId request) = Some (a_id a)"
    "cost \<le> a_balance_cents a" "fits_bigint (a_balance_cents a - cost)"
    "order_row rt cv request quantity cost (a_currency a) rate = Inr row"
    "insert_transactions [row] (debited a cost db) = Inr ((debited a cost db)\<lparr>transactions := transactions db @ [row]\<rparr>)"
    "job_check (receipt_job cv request) = None" "cv_job_id cv \<notin> j_id ` set (job_queue db)"
    "db' = placed a cost row (receipt_job cv request) db"
    "ok = \<lparr>ck_orderId = cv_order_id cv, ck_jobId = cv_job_id cv,
      ck_balanceCents = js_round (a_balance_cents a - cost), ck_costCents = cost, ck_currency = a_currency a\<rparr>"
proof -
  obtain bal cur db1 rate db2 db3 where
      d: "debitAccount rt (cr_accountId request) cost db = (Inr (bal, cur), db1)"
    and r: "resolveFxRate rt cur db1 = (Inr rate, db2)"
    and i: "bindE (order_row rt cv request quantity cost cur rate) (\<lambda>row. insert_transactions [row] db2) = Inr db3"
    and j: "insert_job (receipt_job cv request) db3 = Inr db'"
    and ok: "ok = \<lparr>ck_orderId = cv_order_id cv, ck_jobId = cv_job_id cv,
      ck_balanceCents = js_round bal, ck_costCents = cost, ck_currency = cur\<rparr>"
    using assms(2) by (auto simp: checkout_body_def bindS_Inr split: prod.splits)
  have db2: "db2 = db1" using resolveFxRate_state [OF r] .
  obtain row where row: "order_row rt cv request quantity cost cur rate = Inr row" "insert_transactions [row] db1 = Inr db3"
    using i db2 by auto
  obtain a where a: "a \<in> set (accounts db)" "pg_uuid_in rt (cr_accountId request) = Some (a_id a)"
      "cost \<le> a_balance_cents a" "fits_bigint (a_balance_cents a - cost)" "bal = a_balance_cents a - cost"
      "cur = a_currency a" "db1 = debited a cost db"
    using debitAccount_Inr [OF assms(1) d] by metis
  have db3: "db3 = db1\<lparr>transactions := transactions db @ [row]\<rparr>"
    using row(2) a(7) by (simp add: insert_transactions_Inr row_simps)
  have job: "job_check (receipt_job cv request) = None" "cv_job_id cv \<notin> j_id ` set (job_queue db)"
      "db' = db3\<lparr>job_queue := job_queue db @ [receipt_job cv request]\<rparr>"
    using j db3 a(7) by (simp_all add: insert_job_Inr row_simps)
  show thesis
    by (rule that [OF a(1-4)]) (use row db3 job a(5-7) ok in \<open>simp_all add: placed_def\<close>)
qed

section \<open>Outcomes\<close>

lemma rejection_of_Some: "rejection_of e = Some reason \<longleftrightarrow> e = CheckoutRejected reason"
  by (cases reason) (auto simp: rejection_of_def CheckoutRejected_def plain_error_def)

lemma placed_order_ok:
  assumes "db_ok db" "a \<in> set (accounts db)" "fits_bigint (a_balance_cents a - cost)"
    and "order_row rt cv request quantity cost (a_currency a) rate = Inr row" "is_uuid (cv_order_id cv)"
    and "insert_transactions [row] (debited a cost db) = Inr ((debited a cost db)\<lparr>transactions := transactions db @ [row]\<rparr>)"
    and "job_check (receipt_job cv request) = None" "cv_job_id cv \<notin> j_id ` set (job_queue db)"
  shows "db_ok (placed a cost row (receipt_job cv request) db)"
proof -
  have "add_balance (a_id a) (- cost) db = Inr (debited a cost db)"
  proof -
    have "b = a" if "b \<in> set (accounts db)" "a_id b = a_id a" for b
      using that db_ok_distinct(1) [OF assms(1)] assms(2) by (auto simp: distinct_map inj_on_def)
    then show ?thesis using assms(3) unfolding add_balance_shift debited_def by auto
  qed
  from add_balance_db_ok [OF assms(1) this] have ok: "db_ok (debited a cost db)" .
  have "bound_row row" using order_row_fields [OF assms(4)] assms(5) by (simp add: bound_row_def)
  then have "db_ok ((debited a cost db)\<lparr>transactions := transactions db @ [row]\<rparr>)"
    using db_ok_insert_transactions [OF ok assms(6)] by simp
  then show ?thesis
    by (rule db_ok_insert_job [where j = "receipt_job cv request"])
      (use assms(7,8) in \<open>simp add: insert_job_Inr row_simps placed_def\<close>)
qed

lemma checkout_outcome:
  assumes "db_ok (sh_db s)" "checkout rt cv publish request s = (r, s')"
  obtains (refused) "s' = s" "\<And>ok. r \<noteq> Inr (Checkout_ok ok)"
  | (ordered) quantity a row rate cost ok s1 where "cr_quantity request = Some quantity" "0 < quantity"
      "cost = js_mult (cr_unitPriceCents request) quantity"
      "a \<in> set (accounts (sh_db s))" "pg_uuid_in rt (cr_accountId request) = Some (a_id a)"
      "cost \<le> a_balance_cents a" "fits_bigint (a_balance_cents a - cost)"
      "order_row rt cv request quantity cost (a_currency a) rate = Inr row"
      "insert_transactions [row] (debited a cost (sh_db s)) =
        Inr ((debited a cost (sh_db s))\<lparr>transactions := transactions (sh_db s) @ [row]\<rparr>)"
      "job_check (receipt_job cv request) = None" "cv_job_id cv \<notin> j_id ` set (job_queue (sh_db s))"
      "ok = \<lparr>ck_orderId = cv_order_id cv, ck_jobId = cv_job_id cv,
        ck_balanceCents = js_round (a_balance_cents a - cost), ck_costCents = cost, ck_currency = a_currency a\<rparr>"
      "s1 = s\<lparr>sh_db := placed a cost row (receipt_job cv request) (sh_db s)\<rparr>"
      "(r, s') = bindS (case publish of None \<Rightarrow> returnS () | Some p \<Rightarrow> p (placed_event cv request quantity ok))
        (\<lambda>_. returnS (Checkout_ok ok)) s1"
proof (cases "cr_quantity request")
  case None
  then have "s' = s \<and> (\<forall>ok. r \<noteq> Inr (Checkout_ok ok))" using assms(2) by (auto simp: checkout_def throwS_def)
  then show thesis using refused by blast
next
  case (Some quantity)
  show thesis
  proof (cases "0 < quantity")
    case False
    then have "s' = s \<and> (\<forall>ok. r \<noteq> Inr (Checkout_ok ok))" using assms(2) Some by (auto simp: checkout_def throwS_def)
    then show thesis using refused by blast
  next
    case True
    let ?cost = "js_mult (cr_unitPriceCents request) quantity"
    let ?body = "checkout_body rt cv request quantity ?cost"
    obtain q db' where b: "?body (sh_db s) = (q, db')" by (cases "?body (sh_db s)")
    show thesis
    proof (cases q)
      case (Inl e)
      then have "in_shop (transaction ?body) s = (Inl e, s)"
        using b by (simp add: in_shop_def transaction_def)
      then have "s' = s \<and> (\<forall>ok. r \<noteq> Inr (Checkout_ok ok))"
        using assms(2) Some True by (auto simp: checkout_def Let_def split: option.splits)
      then show thesis using refused by blast
    next
      case (Inr ok)
      then have body: "?body (sh_db s) = (Inr ok, db')" using b by simp
      then have "in_shop (transaction ?body) s = (Inr ok, s\<lparr>sh_db := db'\<rparr>)"
        by (simp add: in_shop_def transaction_def)
      then have run: "(r, s') = bindS (case publish of None \<Rightarrow> returnS () | Some p \<Rightarrow> p (placed_event cv request quantity ok))
          (\<lambda>_. returnS (Checkout_ok ok)) (s\<lparr>sh_db := db'\<rparr>)"
        using assms(2) Some True by (simp add: checkout_def Let_def)
      from checkout_body_Inr [OF assms(1) body] show thesis
      proof cases
        case (1 a row rate)
        show thesis by (rule ordered [OF Some True refl 1(1-8,10) refl]) (use run 1(9) in simp)
      qed
    qed
  qed
qed

text \<open>A publisher leaves the database alone, whether it succeeds or fails.\<close>

definition only_publishes :: "(OrderPlacedEvent \<Rightarrow> (shop, unit) svc) option \<Rightarrow> bool" where
  "only_publishes publish \<longleftrightarrow> (case publish of None \<Rightarrow> True | Some p \<Rightarrow> \<forall>e s. sh_db (snd (p e s)) = sh_db s)"

lemma publish_db:
  assumes "only_publishes publish"
    and "(r, s') = bindS (case publish of None \<Rightarrow> returnS () | Some p \<Rightarrow> p e) (\<lambda>_. returnS x) s1"
  shows "sh_db s' = sh_db s1"
proof (cases publish)
  case None
  then show ?thesis using assms(2) by (simp add: returnS_def bindS_def)
next
  case (Some p)
  have "sh_db (snd (p e s1)) = sh_db s1" using assms(1) Some by (simp add: only_publishes_def)
  then show ?thesis using assms(2) Some
    by (cases "p e s1") (auto simp: bindS_def returnS_def split: sum.splits)
qed

lemma record_event_only_publishes: "only_publishes (Some record_event)" "only_publishes None"
  by (simp_all add: only_publishes_def record_event_def writeS_def)

lemma placed_accounts: "accounts (placed a cost row job db) = accounts (debited a cost db)"
  by (simp add: placed_def)

lemma placed_opening:
  assumes "db_ok db" "a \<in> set (accounts db)" "t_account_id row = a_id a" "t_type row = Buy"
    and "t_status row = Posted" "t_amount_cents row = cost" "aid \<in> a_id ` set (accounts db)"
  shows "opening_balance (placed a cost row job db) aid = opening_balance db aid"
proof -
  have "balance_of (placed a cost row job db) aid = balance_of db aid + (if aid = a_id a then - cost else 0)"
    using balance_of_shift [OF db_ok_distinct(1) [OF assms(1)] assms(7)]
    by (simp add: balance_of_def placed_accounts debited_def)
  moreover have "posted_sum (transactions (placed a cost row job db)) aid =
      posted_sum (transactions db) aid + (if aid = a_id a then - cost else 0)"
    using assms(3-6) by (auto simp: placed_def posted_sum_append posted_sum_Cons signed_def)
  ultimately show ?thesis by (simp add: opening_balance_def)
qed

text \<open>
  (C1) A checkout keeps the ledger and never overdraws. Whatever its outcome, the constraints hold
  afterwards, every account keeps its opening balance, and an account whose row it changed has a
  balance that is not negative.
\<close>

theorem checkout_no_overdraft:
  assumes "db_ok (sh_db s)" "is_uuid (cv_order_id cv)" "only_publishes publish"
    and "checkout rt cv publish request s = (r, s')"
  shows "db_ok (sh_db s') \<and>
    (\<forall>aid\<in>a_id ` set (accounts (sh_db s)). opening_balance (sh_db s') aid = opening_balance (sh_db s) aid) \<and>
    (\<forall>a\<in>set (accounts (sh_db s')). a \<in> set (accounts (sh_db s)) \<or> 0 \<le> a_balance_cents a)"
  using assms(1,4)
proof (cases rule: checkout_outcome)
  case refused
  then show ?thesis using assms(1) by simp
next
  case (ordered quantity a row rate cost ok s1)
  note f = order_row_fields [OF ordered(8)]
  have acc: "t_account_id row = a_id a" using f(5) ordered(5) by simp
  have db: "sh_db s' = placed a cost row (receipt_job cv request) (sh_db s)"
    using publish_db [OF assms(3) ordered(14)] ordered(13) by simp
  have "0 \<le> a_balance_cents b \<or> b \<in> set (accounts (sh_db s))" if "b \<in> set (accounts (sh_db s'))" for b
  proof -
    from that obtain b0 where b0: "b0 \<in> set (accounts (sh_db s))"
        "b = b0\<lparr>a_balance_cents := a_balance_cents b0 + (if a_id b0 = a_id a then - cost else 0)\<rparr>"
      by (auto simp: db placed_accounts debited_def shift_balances_def)
    show ?thesis
    proof (cases "a_id b0 = a_id a")
      case True
      then have "b0 = a" using b0(1) ordered(4) db_ok_distinct(1) [OF assms(1)] by (auto simp: distinct_map inj_on_def)
      then show ?thesis using b0(2) ordered(6) by simp
    qed (use b0 in simp)
  qed
  then show ?thesis
    using placed_order_ok [OF assms(1) ordered(4,7,8) assms(2) ordered(9,10,11)]
      placed_opening [OF assms(1) ordered(4) acc f(3,2,4)] db by auto
qed

lemma same_events: "s' = s\<lparr>sh_db := db\<rparr> \<Longrightarrow> sh_events s' = sh_events s"
  by simp

text \<open>
  (C16) All or nothing, for every publisher that leaves the database alone. Either nothing happened:
  the call was rejected or threw, and the database and the published events are as they were. Or
  the transaction committed: the account is charged exactly the cost of the one order that was
  recorded, and one pending receipt job for that order is queued. Only then the publisher gets the
  one event of the order, and the call succeeds if it does; if it fails the call throws its error,
  although the order stands.
\<close>

theorem checkout_all_or_nothing:
  assumes "db_ok (sh_db s)" "only_publishes publish" "checkout rt cv publish request s = (r, s')"
  shows "s' = s \<and> (\<forall>ok. r \<noteq> Inr (Checkout_ok ok)) \<or>
    (\<exists>ok a row quantity. a \<in> set (accounts (sh_db s)) \<and>
       pg_uuid_in rt (cr_accountId request) = Some (a_id a) \<and> cr_quantity request = Some quantity \<and>
       ck_costCents ok = js_mult (cr_unitPriceCents request) quantity \<and>
       balance_of (sh_db s') (a_id a) = balance_of (sh_db s) (a_id a) - ck_costCents ok \<and>
       transactions (sh_db s') = transactions (sh_db s) @ [row] \<and> t_id row = ck_orderId ok \<and>
       t_account_id row = a_id a \<and> t_type row = Buy \<and> t_status row = Posted \<and> t_amount_cents row = ck_costCents ok \<and>
       job_queue (sh_db s') = job_queue (sh_db s) @ [receipt_job cv request] \<and>
       j_id (receipt_job cv request) = ck_jobId ok \<and>
       map_of (j_payload (receipt_job cv request)) ''order_id'' = Some (ck_orderId ok) \<and>
       (case publish of
          None \<Rightarrow> r = Inr (Checkout_ok ok) \<and> sh_events s' = sh_events s
        | Some p \<Rightarrow>
            (case p (placed_event cv request quantity ok) (s\<lparr>sh_db := sh_db s'\<rparr>) of
               (Inr _, s2) \<Rightarrow> r = Inr (Checkout_ok ok) \<and> s' = s2
             | (Inl e, s2) \<Rightarrow> r = Inl e \<and> s' = s2)))"
  using assms(1,3)
proof (cases rule: checkout_outcome)
  case refused
  then show ?thesis by simp
next
  case (ordered quantity a row rate cost ok s1)
  note f = order_row_fields [OF ordered(8)]
  have db: "sh_db s' = placed a cost row (receipt_job cv request) (sh_db s)"
    using publish_db [OF assms(2) ordered(14)] ordered(13) by simp
  then have s1: "s1 = s\<lparr>sh_db := sh_db s'\<rparr>" using ordered(13) by simp
  have "balance_of (sh_db s') (a_id a) = balance_of (sh_db s) (a_id a) - cost"
    using balance_of_shift [OF db_ok_distinct(1) [OF assms(1)], of "a_id a" "\<lambda>i. if i = a_id a then - cost else 0"] ordered(4)
    by (simp add: db balance_of_def placed_accounts debited_def)
  moreover have "transactions (sh_db s') = transactions (sh_db s) @ [row]"
      "job_queue (sh_db s') = job_queue (sh_db s) @ [receipt_job cv request]"
    by (simp_all add: db placed_def)
  moreover have "t_account_id row = a_id a" using f(5) ordered(5) by simp
  moreover have "ck_costCents ok = cost" "ck_orderId ok = cv_order_id cv" "ck_jobId ok = cv_job_id cv"
    by (simp_all add: ordered(12))
  moreover have "case publish of
      None \<Rightarrow> r = Inr (Checkout_ok ok) \<and> sh_events s' = sh_events s
    | Some p \<Rightarrow>
        (case p (placed_event cv request quantity ok) (s\<lparr>sh_db := sh_db s'\<rparr>) of
           (Inr _, s2) \<Rightarrow> r = Inr (Checkout_ok ok) \<and> s' = s2
         | (Inl e, s2) \<Rightarrow> r = Inl e \<and> s' = s2)"
    using ordered(14) unfolding s1
    by (auto simp: bindS_def returnS_def dest: same_events split: option.splits prod.splits sum.splits)
  ultimately show ?thesis using ordered(1,3,4,5) f by (auto simp: receipt_job_def)
qed

text \<open>Database errors are not rejections.\<close>

lemma db_error_not_rejected [simp]: "db_error a m \<noteq> CheckoutRejected reason" "CheckoutRejected reason \<noteq> db_error a m"
  by (simp_all add: CheckoutRejected_def)

lemma order_row_Inl: "order_row rt cv request q c cur rate = Inl e \<Longrightarrow> \<exists>a m. e = db_error a m"
  by (auto simp: order_row_def bindE_Inl bind_uuid_def bind_bigint_def bind_numeric_def bind_text_def
      split: option.splits if_splits dest!: optE_Inl)

lemma insert_transactions_one_Inl: "insert_transactions [row] db = Inl e \<Longrightarrow> \<exists>a m. e = db_error a m"
  by (auto simp: insert_transactions_def bindE_Inl split: option.splits if_splits)

lemma insert_job_Inl: "insert_job j db = Inl e \<Longrightarrow> \<exists>a m. e = db_error a m"
  by (auto simp: insert_job_def bindE_Inl split: option.splits if_splits)

lemma CheckoutRejected_inject [simp]: "CheckoutRejected a = CheckoutRejected b \<longleftrightarrow> a = b"
  by (cases a; cases b) (auto simp: CheckoutRejected_def plain_error_def)

lemma debitAccount_rejects:
  assumes "db_ok db" "debitAccount rt acc cost db = (Inl (CheckoutRejected reason), db')"
  obtains (missing) u where "pg_uuid_in rt acc = Some u" "u \<notin> a_id ` set (accounts db)" "reason = Account_not_found"
  | (poor) a where "a \<in> set (accounts db)" "pg_uuid_in rt acc = Some (a_id a)" "a_balance_cents a < cost"
      "reason = Insufficient_funds"
proof -
  obtain u where u: "pg_uuid_in rt acc = Some u"
    using assms(2) by (auto simp: debitAccount_def bindS_Inl bind_uuid_def split: option.splits)
  have c: "fits_bigint cost"
    using assms(2) u by (auto simp: debitAccount_def bindS_Inl bind_uuid_def bind_bigint_def split: if_splits)
  show thesis
  proof (cases "u \<in> a_id ` set (accounts db)")
    case False
    then show thesis using debitAccount_missing [OF u False c] assms(2) missing u by simp
  next
    case True
    then obtain a where a: "a \<in> set (accounts db)" "u = a_id a" by auto
    then show thesis
      using debitAccount_eq [OF assms(1) a(1) u [unfolded a(2)] c] assms(2) poor u by (auto split: if_splits)
  qed
qed

lemma checkout_body_rejects:
  assumes "checkout_body rt cv request quantity cost db = (Inl (CheckoutRejected reason), db')"
  shows "(\<exists>db1. debitAccount rt (cr_accountId request) cost db = (Inl (CheckoutRejected reason), db1)) \<or>
    (\<exists>bal cur db1. debitAccount rt (cr_accountId request) cost db = (Inr (bal, cur), db1) \<and>
       fst (resolveFxRate rt cur db1) = Inl (CheckoutRejected reason))"
proof (rule ccontr)
  assume n: "\<not> ?thesis"
  have "fst (debitAccount rt (cr_accountId request) cost db) \<noteq> Inl (CheckoutRejected reason)"
    using n by (cases "debitAccount rt (cr_accountId request) cost db") auto
  then obtain bal cur db1 where d: "debitAccount rt (cr_accountId request) cost db = (Inr (bal, cur), db1)"
    using assms by (auto simp: checkout_body_def bindS_Inl)
  have "fst (resolveFxRate rt cur db1) \<noteq> Inl (CheckoutRejected reason)" using n d by blast
  then obtain rate db2 where r: "resolveFxRate rt cur db1 = (Inr rate, db2)"
    using assms d by (cases "resolveFxRate rt cur db1") (auto simp: checkout_body_def bindS_def split: sum.splits)
  have "bindS (writeE (\<lambda>db. bindE (order_row rt cv request quantity cost cur rate) (\<lambda>row. insert_transactions [row] db)))
      (\<lambda>_. bindS (writeE (insert_job (receipt_job cv request))) (\<lambda>_.
        returnS \<lparr>ck_orderId = cv_order_id cv, ck_jobId = cv_job_id cv, ck_balanceCents = js_round bal,
          ck_costCents = cost, ck_currency = cur\<rparr>)) db2 = (Inl (CheckoutRejected reason), db')"
    using assms d r by (simp add: checkout_body_def bindS_def)
  then consider "order_row rt cv request quantity cost cur rate = Inl (CheckoutRejected reason)"
    | row where "insert_transactions [row] db2 = Inl (CheckoutRejected reason)"
    | db3 where "insert_job (receipt_job cv request) db3 = Inl (CheckoutRejected reason)"
    by (auto simp: bindS_Inl bindE_Inl)
  then show False
    using order_row_Inl insert_transactions_one_Inl insert_job_Inl by cases fastforce+
qed

lemma resolveFxRate_rejects:
  "fst (resolveFxRate rt cur db) = Inl (CheckoutRejected reason) \<longleftrightarrow>
     reason = No_fx_rate \<and> cur \<noteq> ''UAH'' \<and> cur \<notin> f_currency ` set (fx_rates db)"
proof -
  have "sort_key (latest_order rt) (filter (\<lambda>f. f_currency f = cur) (fx_rates db)) = [] \<longleftrightarrow>
      cur \<notin> f_currency ` set (fx_rates db)"
  proof -
    have "sort_key (latest_order rt) xs = [] \<longleftrightarrow> xs = []" for xs by (metis length_0_conv length_sort)
    then show ?thesis by (auto simp: filter_empty_conv)
  qed
  then show ?thesis
    by (auto simp: resolveFxRate_def svc_simps split: list.splits)
qed

text \<open>
  The reasons of a rejection are true: the account does not exist, or its balance is below the
  cost, or the debit would have been possible and there is no rate for its currency.
\<close>

theorem checkout_rejection_reasons:
  assumes "db_ok (sh_db s)" "fst (checkout rt cv publish request s) = Inr (Checkout_rejected reason)"
  shows "\<exists>quantity u. cr_quantity request = Some quantity \<and> pg_uuid_in rt (cr_accountId request) = Some u \<and>
    (case reason of
       Account_not_found \<Rightarrow> u \<notin> a_id ` set (accounts (sh_db s))
     | Insufficient_funds \<Rightarrow> (\<exists>a\<in>set (accounts (sh_db s)). a_id a = u \<and>
         a_balance_cents a < js_mult (cr_unitPriceCents request) quantity)
     | No_fx_rate \<Rightarrow> (\<exists>a\<in>set (accounts (sh_db s)). a_id a = u \<and> a_currency a \<noteq> ''UAH'' \<and>
         js_mult (cr_unitPriceCents request) quantity \<le> a_balance_cents a \<and>
         a_currency a \<notin> f_currency ` set (fx_rates (sh_db s))))"
proof -
  obtain quantity where q: "cr_quantity request = Some quantity" "0 < quantity"
    using assms(2) by (auto simp: checkout_def throwS_def split: option.splits if_splits)
  define cost where "cost = js_mult (cr_unitPriceCents request) quantity"
  obtain e db' where "checkout_body rt cv request quantity cost (sh_db s) = (Inl e, db')" "rejection_of e = Some reason"
    using assms(2) q
    by (cases "checkout_body rt cv request quantity cost (sh_db s)")
      (auto simp: checkout_def Let_def cost_def [symmetric] in_shop_def transaction_def bindS_def returnS_def
        split: sum.splits option.splits prod.splits)
  then have "checkout_body rt cv request quantity cost (sh_db s) = (Inl (CheckoutRejected reason), db')"
    by (simp add: rejection_of_Some)
  from checkout_body_rejects [OF this] show ?thesis
  proof (elim disjE exE conjE)
    fix db1
    assume "debitAccount rt (cr_accountId request) cost (sh_db s) = (Inl (CheckoutRejected reason), db1)"
    from debitAccount_rejects [OF assms(1) this] show ?thesis
      using q by cases (auto simp: cost_def)
  next
    fix bal cur db1
    assume d: "debitAccount rt (cr_accountId request) cost (sh_db s) = (Inr (bal, cur), db1)"
      and f: "fst (resolveFxRate rt cur db1) = Inl (CheckoutRejected reason)"
    from debitAccount_Inr [OF assms(1) d] show ?thesis
      using f q unfolding resolveFxRate_rejects by cases (auto simp: cost_def row_simps)
  qed
qed

section \<open>The race\<close>

text \<open>
  What makes a request valid apart from the money: the account, the instrument and a rate for the
  currency exist, the amounts are exact and in range, and the row passes its checks.
\<close>

definition orderable :: "runtime \<Rightarrow> CheckoutRequest \<Rightarrow> int \<Rightarrow> int \<Rightarrow> account_row \<Rightarrow> db \<Rightarrow> bool" where
  "orderable rt request quantity cost a db \<longleftrightarrow>
     cr_quantity request = Some quantity \<and> 0 < quantity \<and> 0 < cost \<and>
     cost = js_mult (cr_unitPriceCents request) quantity \<and> fits_bigint cost \<and>
     a \<in> set (accounts db) \<and> pg_uuid_in rt (cr_accountId request) = Some (a_id a) \<and>
     (\<exists>rate. resolveFxRate rt (a_currency a) db = (Inr rate, db) \<and>
        (\<forall>cv. \<exists>row. order_row rt cv request quantity cost (a_currency a) rate = Inr row \<and>
           transaction_check row = None \<and> transaction_fk db row = None))"

definition fresh_for :: "checkout_values list \<Rightarrow> db \<Rightarrow> bool" where
  "fresh_for cvs db \<longleftrightarrow> distinct (map cv_order_id cvs) \<and> distinct (map cv_job_id cvs) \<and>
     list_all (\<lambda>cv. is_uuid (cv_order_id cv) \<and> cv_order_id cv \<notin> t_id ` set (transactions db) \<and>
       cv_job_id cv \<notin> j_id ` set (job_queue db)) cvs"

lemma transaction_fk_same:
  assumes "(\<lambda>a. (a_id a, a_currency a)) ` set (accounts db') = (\<lambda>a. (a_id a, a_currency a)) ` set (accounts db)"
    and "instruments db' = instruments db" "categories db' = categories db" "currencies db' = currencies db"
  shows "transaction_fk db' row = transaction_fk db row"
  using assms by (simp add: transaction_fk_def)

lemma debited_fk: "transaction_fk (debited a cost db) row = transaction_fk db row"
  by (rule transaction_fk_same) (simp_all add: debited_def)

lemma placed_fk: "transaction_fk (placed a cost row0 job db) row = transaction_fk db row"
  by (rule transaction_fk_same) (simp_all add: placed_def debited_def)

lemma receipt_job_check [simp]: "job_check (receipt_job cv request) = None"
  by (simp add: job_check_def receipt_job_def first_violated_None) (simp add: char_length_def)

lemma resolveFxRate_move:
  assumes "resolveFxRate rt cur db = (Inr rate, db)" "fx_rates db' = fx_rates db"
  shows "resolveFxRate rt cur db' = (Inr rate, db')"
  using resolveFxRate_same [OF assms(2), of rt cur] resolveFxRate_state [of rt cur db'] assms(1)
  by (cases "resolveFxRate rt cur db'") auto

text \<open>A valid request goes through exactly when the balance covers it.\<close>

lemma checkout_orderable:
  assumes "db_ok (sh_db s)" "orderable rt request quantity cost a (sh_db s)" "fresh_for (cv # cvs) (sh_db s)"
  shows "if a_balance_cents a < cost
    then checkout rt cv (Some record_event) request s = (Inr (Checkout_rejected Insufficient_funds), s)
    else \<exists>ok row e. checkout rt cv (Some record_event) request s =
      (Inr (Checkout_ok ok), \<lparr>sh_db = placed a cost row (receipt_job cv request) (sh_db s), sh_events = sh_events s @ [e]\<rparr>) \<and>
      t_id row = cv_order_id cv \<and> t_description row = cr_description request \<and>
      db_ok (placed a cost row (receipt_job cv request) (sh_db s)) \<and>
      e = placed_event cv request quantity ok \<and> ck_orderId ok = cv_order_id cv \<and> ck_costCents ok = cost \<and>
      ck_currency ok = a_currency a"
proof -
  let ?db = "sh_db s"
  obtain rate row where o: "cr_quantity request = Some quantity" "0 < quantity" "0 < cost"
      "cost = js_mult (cr_unitPriceCents request) quantity" "fits_bigint cost"
      "a \<in> set (accounts ?db)" "pg_uuid_in rt (cr_accountId request) = Some (a_id a)"
    and rate: "resolveFxRate rt (a_currency a) ?db = (Inr rate, ?db)"
    and row: "order_row rt cv request quantity cost (a_currency a) rate = Inr row"
      "transaction_check row = None" "transaction_fk ?db row = None"
    using assms(2) unfolding orderable_def by blast
  note d = debitAccount_eq [OF assms(1) o(6,7,5)]
  show ?thesis
  proof (cases "a_balance_cents a < cost")
    case True
    then have "checkout_body rt cv request quantity cost ?db = (Inl (CheckoutRejected Insufficient_funds), ?db)"
      using d by (simp add: checkout_body_def bindS_def)
    then have "checkout rt cv (Some record_event) request s = (Inr (Checkout_rejected Insufficient_funds), s)"
      using o(1,2,4) by (simp add: checkout_def Let_def in_shop_def transaction_def rejection_of_Some
          [THEN iffD2, OF refl])
    then show ?thesis using True by simp
  next
    case False
    have "fits_bigint (a_balance_cents a)" using db_ok_accounts(2) assms(1) o(6) by blast
    then have fit: "fits_bigint (a_balance_cents a - cost)" using False o(3) by (auto simp: fits_bigint_def)
    have fresh: "is_uuid (cv_order_id cv)" "cv_order_id cv \<notin> t_id ` set (transactions ?db)"
        "cv_job_id cv \<notin> j_id ` set (job_queue ?db)"
      using assms(3) by (simp_all add: fresh_for_def)
    have ins: "insert_transactions [row] (debited a cost ?db) = Inr ((debited a cost ?db)\<lparr>transactions := transactions ?db @ [row]\<rparr>)"
      using row(2,3) fresh(2) order_row_fields(1) [OF row(1)]
      by (simp add: insert_transactions_Inr row_simps debited_fk)
    have job: "insert_job (receipt_job cv request) ((debited a cost ?db)\<lparr>transactions := transactions ?db @ [row]\<rparr>) =
        Inr (placed a cost row (receipt_job cv request) ?db)"
      using fresh(3) by (simp add: insert_job_Inr row_simps placed_def)
    have "resolveFxRate rt (a_currency a) (debited a cost ?db) = (Inr rate, debited a cost ?db)"
      by (rule resolveFxRate_move [OF rate]) (simp add: row_simps)
    then obtain ok where ok: "checkout_body rt cv request quantity cost ?db =
        (Inr ok, placed a cost row (receipt_job cv request) ?db)"
        "ck_orderId ok = cv_order_id cv" "ck_costCents ok = cost" "ck_currency ok = a_currency a"
      using d False fit row(1) ins job by (simp add: checkout_body_def bindS_def writeE_def returnS_def)
    then have "checkout rt cv (Some record_event) request s = (Inr (Checkout_ok ok),
        \<lparr>sh_db = placed a cost row (receipt_job cv request) ?db, sh_events = sh_events s @ [placed_event cv request quantity ok]\<rparr>)"
      using o(1,2,4) by (simp add: checkout_def Let_def in_shop_def transaction_def bindS_def record_event_def
          writeS_def returnS_def)
    then show ?thesis
      using False ok(2-4) order_row_fields(1) [OF row(1)] order_row_description [OF row(1)]
        placed_order_ok [OF assms(1) o(6) fit row(1) fresh(1) ins receipt_job_check fresh(3)] by auto
  qed
qed

definition charged :: "account_row \<Rightarrow> int \<Rightarrow> account_row" where
  "charged a cost = a\<lparr>a_balance_cents := a_balance_cents a - cost\<rparr>"

lemma charged_fields [simp]:
  "a_id (charged a cost) = a_id a" "a_currency (charged a cost) = a_currency a"
  "a_balance_cents (charged a cost) = a_balance_cents a - cost"
  by (simp_all add: charged_def)

lemma placed_account: "a \<in> set (accounts db) \<Longrightarrow> charged a cost \<in> set (accounts (placed a cost row job db))"
  by (force simp: placed_def debited_def shift_balances_def charged_def image_iff)

lemma orderable_placed:
  assumes "orderable rt request quantity cost a db"
  shows "orderable rt request quantity cost (charged a cost) (placed a cost row job db)"
proof -
  obtain rate where rate: "resolveFxRate rt (a_currency a) db = (Inr rate, db)"
    and rows: "\<forall>cv. \<exists>row. order_row rt cv request quantity cost (a_currency a) rate = Inr row \<and>
      transaction_check row = None \<and> transaction_fk db row = None"
    using assms unfolding orderable_def by blast
  have "resolveFxRate rt (a_currency a) (placed a cost row job db) = (Inr rate, placed a cost row job db)"
    by (rule resolveFxRate_move [OF rate]) (simp add: placed_def row_simps)
  then show ?thesis
    using assms rows placed_account unfolding orderable_def by (simp add: placed_fk) blast
qed

lemma fresh_for_placed:
  assumes "fresh_for (cv # cvs) db" "t_id row = cv_order_id cv"
  shows "fresh_for cvs (placed a cost row (receipt_job cv request) db)"
  using assms by (auto simp: fresh_for_def placed_def list_all_iff image_iff)

fun succeeded :: "exn + CheckoutResult \<Rightarrow> bool" where
  "succeeded (Inr (Checkout_ok ok)) = True"
| "succeeded r = False"

lemma balance_placed:
  assumes "db_ok db" "a \<in> set (accounts db)"
  shows "balance_of db (a_id a) = a_balance_cents a"
  using filter_key [OF db_ok_distinct(1) [OF assms(1)] assms(2)] by (simp add: balance_of_def)

lemma affordable_step:
  fixes b c :: int
  assumes "0 < c" "c \<le> b"
  shows "nat (b div c) = Suc (nat ((b - c) div c))"
proof -
  have "b div c = (b - c) div c + 1" using assms(1) div_add_self2 [of c "b - c"] by simp
  moreover have "0 \<le> (b - c) div c" using assms by (simp add: pos_imp_zdiv_nonneg_iff)
  ultimately show ?thesis by (simp add: nat_add_distrib)
qed

lemma race_result:
  assumes "db_ok (sh_db s)" "orderable rt request quantity cost a (sh_db s)" "fresh_for cvs (sh_db s)"
    and "checkouts rt (Some record_event) request cvs s = (results, s')"
    and "won = min (length cvs) (nat (a_balance_cents a div cost))"
  shows "length (filter succeeded results) = won \<and>
    filter (\<lambda>r. \<not> succeeded r) results = replicate (length cvs - won) (Inr (Checkout_rejected Insufficient_funds)) \<and>
    balance_of (sh_db s') (a_id a) = a_balance_cents a - cost * int won \<and>
    length (sh_events s') = length (sh_events s) + won \<and> db_ok (sh_db s')"
  using assms
proof (induction cvs arbitrary: s a results s' won)
  case Nil
  moreover have "a \<in> set (accounts (sh_db s))" using Nil.prems(2) by (simp add: orderable_def)
  ultimately show ?case using balance_placed by simp
next
  case (Cons cv cvs)
  have cost: "0 < cost" using Cons.prems(2) by (simp add: orderable_def)
  note go = checkout_orderable [OF Cons.prems(1-3)]
  show ?case
  proof (cases "a_balance_cents a < cost")
    case True
    then have first: "checkout rt cv (Some record_event) request s = (Inr (Checkout_rejected Insufficient_funds), s)"
      using go by simp
    obtain rs where rest: "checkouts rt (Some record_event) request cvs s = (rs, s')" "results = Inr (Checkout_rejected Insufficient_funds) # rs"
      using Cons.prems(4) first by (auto split: prod.splits)
    have "a_balance_cents a div cost \<le> 0"
    proof (cases "a_balance_cents a < 0")
      case True
      then show ?thesis using cost by (simp add: div_neg_pos_less0 less_imp_le)
    qed (use True in simp)
    then have none: "nat (a_balance_cents a div cost) = 0" by simp
    have fresh: "fresh_for cvs (sh_db s)" using Cons.prems(3) by (simp add: fresh_for_def)
    from Cons.IH [OF Cons.prems(1,2) fresh rest(1) refl] show ?thesis
      using rest(2) Cons.prems(5) by (simp add: none)
  next
    case False
    then obtain ok row e where first: "checkout rt cv (Some record_event) request s = (Inr (Checkout_ok ok),
        \<lparr>sh_db = placed a cost row (receipt_job cv request) (sh_db s), sh_events = sh_events s @ [e]\<rparr>)"
      and row: "t_id row = cv_order_id cv" "db_ok (placed a cost row (receipt_job cv request) (sh_db s))"
      using go by auto
    define s1 where "s1 = \<lparr>sh_db = placed a cost row (receipt_job cv request) (sh_db s), sh_events = sh_events s @ [e]\<rparr>"
    obtain rs where rest: "checkouts rt (Some record_event) request cvs s1 = (rs, s')" "results = Inr (Checkout_ok ok) # rs"
      using Cons.prems(4) first by (auto simp: s1_def [symmetric] split: prod.splits)
    have "db_ok (sh_db s1)" "orderable rt request quantity cost (charged a cost) (sh_db s1)" "fresh_for cvs (sh_db s1)"
      using row orderable_placed [OF Cons.prems(2)] fresh_for_placed [OF Cons.prems(3) row(1)] by (simp_all add: s1_def)
    note ih = Cons.IH [OF this rest(1) refl]
    have step: "nat (a_balance_cents a div cost) = Suc (nat ((a_balance_cents a - cost) div cost))"
      using affordable_step [OF cost] False by simp
    show ?thesis
      using ih rest(2) Cons.prems(5) by (simp add: step s1_def algebra_simps)
  qed
qed

text \<open>The publisher makes no difference to the results and the database.\<close>

lemma checkout_db_only:
  assumes "sh_db s = sh_db t"
  shows "fst (checkout rt cv None request s) = fst (checkout rt cv (Some record_event) request t) \<and>
    sh_db (snd (checkout rt cv None request s)) = sh_db (snd (checkout rt cv (Some record_event) request t))"
  using assms
  by (auto simp: checkout_def Let_def in_shop_def bindS_def record_event_def writeS_def returnS_def throwS_def
      split: option.splits prod.splits sum.splits)

lemma checkouts_db_only:
  "sh_db s = sh_db t \<Longrightarrow>
   fst (checkouts rt None request cvs s) = fst (checkouts rt (Some record_event) request cvs t) \<and>
   sh_db (snd (checkouts rt None request cvs s)) = sh_db (snd (checkouts rt (Some record_event) request cvs t))"
proof (induction cvs arbitrary: s t)
  case (Cons cv cvs)
  have "fst (checkouts rt None request cvs (snd (checkout rt cv None request s))) =
      fst (checkouts rt (Some record_event) request cvs (snd (checkout rt cv (Some record_event) request t))) \<and>
    sh_db (snd (checkouts rt None request cvs (snd (checkout rt cv None request s)))) =
      sh_db (snd (checkouts rt (Some record_event) request cvs (snd (checkout rt cv (Some record_event) request t))))"
    using Cons.IH checkout_db_only [OF Cons.prems] by blast
  then show ?case using checkout_db_only [OF Cons.prems, of rt cv request] by (simp add: split_beta)
qed simp

text \<open>
  (C13) The race. However many copies of a valid checkout compete for one account, in whatever order
  the row lock lets them through: exactly as many succeed as the balance covers, all others are
  rejected for insufficient funds, the balance ends at what is left over, and one event was
  published per success.
\<close>

theorem race_for_balance:
  assumes "db_ok (sh_db s)" "orderable rt request quantity cost a (sh_db s)" "fresh_for cvs (sh_db s)"
    and "checkouts rt (Some record_event) request cvs s = (results, s')"
    and "won = min (length cvs) (nat (a_balance_cents a div cost))"
  shows "length (filter succeeded results) = won \<and>
    filter (\<lambda>r. \<not> succeeded r) results = replicate (length cvs - won) (Inr (Checkout_rejected Insufficient_funds)) \<and>
    balance_of (sh_db s') (a_id a) = a_balance_cents a - cost * int won \<and>
    length (sh_events s') = length (sh_events s) + won \<and> db_ok (sh_db s')"
  using race_result [OF assms] .

section \<open>The demonstration\<close>

text \<open>The numbers of \<open>demo-race.ts\<close> on the account and the instrument of the example.\<close>

definition race_account :: account_row where
  "race_account = usd_account\<lparr>a_balance_cents := START_BALANCE_CENTS\<rparr>"

definition race_db :: db where
  "race_db = example_db\<lparr>accounts := [uah_account, race_account, bob_account]\<rparr>"

definition race_request :: CheckoutRequest where
  "race_request = \<lparr>cr_accountId = a_id race_account, cr_instrumentId = i_id voo, cr_quantity = Some 1,
     cr_quantity_text = ''1'', cr_unitPriceCents = PRICE_CENTS, cr_description = Some ''hw14 demo:race''\<rparr>"

definition race_id :: "nat \<Rightarrow> uuid" where
  "race_id n = ''00000007-0000-4000-8000-'' @ fixed_dec 12 n"

definition race_values :: "checkout_values list" where
  "race_values = map (\<lambda>n. \<lparr>cv_now = 1767225800000, cv_order_id = race_id n, cv_job_id = race_id n,
     cv_event_id = race_id n\<rparr>) [0..<ATTEMPTS]"

lemma lower_hex_digit: "n < 10 \<Longrightarrow> lower_hex (digit n)"
  by (simp add: lower_hex_def digit_def Let_def)

lemma lower_hex_fixed_dec: "list_all lower_hex (fixed_dec w n)"
  by (induction w arbitrary: n) (simp_all add: lower_hex_digit)

lemma is_uuid_append:
  assumes "length p = 24" "length t = 12" "list_all lower_hex t"
    and "list_all (\<lambda>(i, c). if i \<in> {8, 13, 18, 23} then c = CHR ''-'' else lower_hex c) (enumerate 0 p)"
  shows "is_uuid (p @ t)"
proof -
  have "list_all (\<lambda>(i, c). if i \<in> {8, 13, 18, 23} then c = CHR ''-'' else lower_hex c) (enumerate n t)"
    if "24 \<le> n" "list_all lower_hex t" for n t
    using that by (induction t arbitrary: n) auto
  from this [OF order_refl assms(3)] show ?thesis
    using assms(1,2,4) by (simp add: is_uuid_def enumerate_append_eq)
qed

lemma race_id_uuid: "is_uuid (race_id n)"
proof -
  have "list_all (\<lambda>(i, c). if i \<in> {8, 13, 18, 23} then c = CHR ''-'' else lower_hex c)
      (enumerate 0 ''00000007-0000-4000-8000-'')" by code_simp
  then show ?thesis unfolding race_id_def by (intro is_uuid_append lower_hex_fixed_dec) simp_all
qed

lemma race_id_inj: "inj_on race_id {0..<50}"
  by (rule inj_onI) (simp add: race_id_def fixed_dec_eq_iff)

lemma race_id_new: "race_id n \<notin> t_id ` set (transactions race_db)" "race_id n \<notin> j_id ` set (job_queue race_db)"
proof -
  have "\<forall>i\<in>t_id ` set (transactions race_db). hd i \<noteq> CHR ''0''" by code_simp
  moreover have "hd (race_id n) = CHR ''0''" by (simp add: race_id_def)
  ultimately show "race_id n \<notin> t_id ` set (transactions race_db)" by metis
  show "race_id n \<notin> j_id ` set (job_queue race_db)" by (simp add: race_db_def example_db_def)
qed

lemma race_fresh: "fresh_for race_values race_db"
  using race_id_uuid race_id_new race_id_inj
  by (simp add: fresh_for_def race_values_def list_all_iff distinct_map comp_def ATTEMPTS_def)

lemma race_db_ok: "db_ok race_db"
  by code_simp

lemma race_rate: "resolveFxRate canonical_runtime ''USD'' race_db = (Inr (numeric_out 424000000000), race_db)"
proof -
  have "map f_rate (sort_key (latest_order canonical_runtime) (filter (\<lambda>f. f_currency f = ''USD'') (fx_rates race_db))) =
      [424000000000, 423456000000, 400000000000]" by code_simp
  then show ?thesis by (auto simp: resolveFxRate_def svc_simps split: list.splits)
qed

lemma bit_length_eq: "2 ^ k \<le> n \<Longrightarrow> n < 2 ^ Suc k \<Longrightarrow> bit_length n = Suc k"
proof (induction k arbitrary: n)
  case 0
  then have "n = 1" by simp
  then show ?case by (simp add: bit_length.simps)
next
  case (Suc k)
  then have "2 ^ k \<le> n div 2" "n div 2 < 2 ^ Suc k" by auto
  moreover have "n \<noteq> 0" using Suc.prems(1) by (metis not_le zero_less_numeral zero_less_power)
  ultimately show ?case using Suc.IH [of "n div 2"] by (subst bit_length.simps) simp
qed

lemma race_price: "div100_fixed10 12000 = 1200000000000"
proof -
  have "bit_length (12000 * 2 ^ 60 div 100) = Suc 66" by (rule bit_length_eq) simp_all
  then show ?thesis by (simp add: div100_fixed10_def)
qed

lemma race_facts:
  "pg_uuid_in canonical_runtime (a_id race_account) = Some (a_id race_account)"
  "pg_uuid_in canonical_runtime (i_id voo) = Some (i_id voo)"
  "js_mult PRICE_CENTS 1 = PRICE_CENTS" "js_mult 1 1000000 = 1000000" "fits_bigint PRICE_CENTS" "fits_bigint 1000000"
  "a_currency race_account = ''USD''" "numeric_ok 424000000000" "numeric_ok 1200000000000"
  by code_simp+

lemma race_numeric: "bind_numeric canonical_runtime (numeric_out r) = (if numeric_ok r then Inr r else Inl (db_error ''22003'' ''numeric''))"
  using pg_okD(5) [OF canonical_runtime_ok, of r] canonical_numeric_out [of r]
  by (simp add: bind_numeric_def canonical_runtime_def)

lemma race_orderable: "orderable canonical_runtime race_request 1 PRICE_CENTS race_account race_db"
proof -
  let ?row = "\<lambda>cv. \<lparr>t_id = cv_order_id cv, t_account_id = a_id race_account, t_instrument_id = Some (i_id voo),
      t_category_id = None, t_currency = ''USD'', t_type = Buy, t_status = Posted,
      t_amount_cents = PRICE_CENTS, t_fx_rate = 424000000000, t_quantity_micro = Some 1000000,
      t_unit_price = Some 1200000000000, t_booked_at = cv_now cv, t_description = Some ''hw14 demo:race'',
      t_created_at = cv_now cv\<rparr>"
  have price: "unit_price_text PRICE_CENTS = numeric_out 1200000000000"
    using race_price by (simp add: unit_price_text_def PRICE_CENTS_def)
  have row: "order_row canonical_runtime cv race_request 1 PRICE_CENTS ''USD'' (numeric_out 424000000000) = Inr (?row cv)" for cv
    using race_facts race_numeric price
    by (simp add: order_row_def race_request_def bind_uuid_def bind_bigint_def bind_text_def)
  have "transaction_check (?row cv) = None" for cv
    by (simp add: transaction_check_def first_violated_None PRICE_CENTS_def numeric_one_def null_or_def char_length_def)
  moreover have "transaction_fk race_db (?row cv) = None" for cv
    by (simp add: transaction_fk_def first_violated_None null_or_def race_db_def example_db_def race_account_def usd_account_def)
  ultimately have "\<exists>row. order_row canonical_runtime cv race_request 1 PRICE_CENTS ''USD'' (numeric_out 424000000000) = Inr row \<and>
      transaction_check row = None \<and> transaction_fk race_db row = None" for cv
    using row by blast
  moreover have "race_account \<in> set (accounts race_db)" by (simp add: race_db_def)
  moreover have "0 < PRICE_CENTS" by (simp add: PRICE_CENTS_def)
  ultimately show ?thesis
    using race_rate race_facts by (auto simp: orderable_def race_request_def)
qed

theorem race_for_balance_witness:
  "length (filter succeeded (fst (checkouts canonical_runtime (Some record_event) race_request race_values
     \<lparr>sh_db = race_db, sh_events = []\<rparr>))) = 10 \<and>
   balance_of (sh_db (snd (checkouts canonical_runtime (Some record_event) race_request race_values
     \<lparr>sh_db = race_db, sh_events = []\<rparr>))) (a_id race_account) = 0"
proof -
  have "10 = min (length race_values) (nat (a_balance_cents race_account div PRICE_CENTS))"
    by (simp add: race_values_def ATTEMPTS_def race_account_def START_BALANCE_CENTS_def UNITS_def PRICE_CENTS_def)
  from race_for_balance [of "\<lparr>sh_db = race_db, sh_events = []\<rparr>", OF _ _ _ prod.collapse [symmetric] this]
  show ?thesis
    using race_db_ok race_orderable race_fresh
    by (simp add: race_account_def START_BALANCE_CENTS_def UNITS_def PRICE_CENTS_def)
qed

lemma race_first:
  "\<exists>ok s'. checkout canonical_runtime (hd race_values) (Some record_event) race_request
     \<lparr>sh_db = race_db, sh_events = []\<rparr> = (Inr (Checkout_ok ok), s')"
proof -
  have "race_values = hd race_values # tl race_values" by (simp add: race_values_def ATTEMPTS_def)
  then have "fresh_for (hd race_values # tl race_values) race_db" using race_fresh by simp
  moreover have "\<not> a_balance_cents race_account < PRICE_CENTS"
    by (simp add: race_account_def START_BALANCE_CENTS_def UNITS_def PRICE_CENTS_def)
  ultimately show ?thesis
    using checkout_orderable [of "\<lparr>sh_db = race_db, sh_events = []\<rparr>" canonical_runtime race_request 1 PRICE_CENTS
        race_account "hd race_values" "tl race_values"] race_db_ok race_orderable
    by auto
qed

theorem checkout_no_overdraft_witness:
  "db_ok (sh_db (snd (checkout canonical_runtime (hd race_values) (Some record_event) race_request
     \<lparr>sh_db = race_db, sh_events = []\<rparr>)))"
proof -
  have "is_uuid (cv_order_id (hd race_values))" by (simp add: race_values_def ATTEMPTS_def hd_map race_id_uuid)
  then show ?thesis
    using checkout_no_overdraft [OF _ _ record_event_only_publishes(1) prod.collapse [symmetric], of "\<lparr>sh_db = race_db, sh_events = []\<rparr>"]
      race_db_ok by simp
qed

theorem checkout_all_or_nothing_witness:
  "\<exists>s'. snd (checkout canonical_runtime (hd race_values) (Some record_event) race_request
       \<lparr>sh_db = race_db, sh_events = []\<rparr>) = s' \<and>
     length (transactions (sh_db s')) = Suc (length (transactions race_db)) \<and> length (sh_events s') = 1"
proof -
  obtain ok s' where c: "checkout canonical_runtime (hd race_values) (Some record_event) race_request
     \<lparr>sh_db = race_db, sh_events = []\<rparr> = (Inr (Checkout_ok ok), s')" using race_first by blast
  from checkout_all_or_nothing [OF _ record_event_only_publishes(1) c] race_db_ok
  obtain row e where "transactions (sh_db s') = transactions race_db @ [row]"
      "s' = \<lparr>sh_db = sh_db s', sh_events = [e]\<rparr>"
    by (auto simp: record_event_def writeS_def)
  then have "length (transactions (sh_db s')) = Suc (length (transactions race_db))" "sh_events s' = [e]"
    by (simp, metis shop.select_convs(2))
  then show ?thesis by (simp add: c)
qed

theorem checkout_rejection_reasons_witness:
  "fst (checkout canonical_runtime (hd race_values) None (race_request\<lparr>cr_accountId := uid (CHR ''f'')\<rparr>)
     \<lparr>sh_db = race_db, sh_events = []\<rparr>) = Inr (Checkout_rejected Account_not_found) \<and>
   uid (CHR ''f'') \<notin> a_id ` set (accounts race_db)"
proof -
  have u: "pg_uuid_in canonical_runtime (uid (CHR ''f'')) = Some (uid (CHR ''f''))"
      "uid (CHR ''f'') \<notin> a_id ` set (accounts race_db)" by code_simp+
  have "debitAccount canonical_runtime (uid (CHR ''f'')) PRICE_CENTS race_db = (Inl (CheckoutRejected Account_not_found), race_db)"
    using debitAccount_missing [OF u race_facts(5)] .
  then have c: "fst (checkout canonical_runtime (hd race_values) None (race_request\<lparr>cr_accountId := uid (CHR ''f'')\<rparr>)
     \<lparr>sh_db = race_db, sh_events = []\<rparr>) = Inr (Checkout_rejected Account_not_found)"
    using race_facts(3)
    by (simp add: checkout_def race_request_def Let_def in_shop_def transaction_def checkout_body_def bindS_def
        rejection_of_Some [THEN iffD2, OF refl])
  from checkout_rejection_reasons [OF _ c] race_db_ok u c show ?thesis by auto
qed

end
