(* ===== verification/Js_Number.thy ===== *)
theory Js_Number
  imports Complex_Main Database
begin

text \<open>
  Numbers that are not integers: \<open>Math.round\<close>, and the doubles of a quotient of rates. A double that
  is not negative is a rational here, and every conversion and division rounds to 53 significant bits,
  ties to even. Overflow and subnormal numbers are left out: the rates of the table lie between
  \<open>10 ^ -10\<close> and \<open>10 ^ 10\<close>, so their quotients stay far inside the range of normal doubles and below
  the \<open>10 ^ 21\<close> from which \<open>toFixed\<close> prints an exponent.
\<close>

section \<open>Rounding\<close>

definition Math_round :: "rat \<Rightarrow> int" where
  "Math_round x = \<lfloor>x + 1 / 2\<rfloor>"

lemma Math_round_bounds:
  assumes "0 \<le> x" "x \<le> of_int c"
  shows "0 \<le> Math_round x" "Math_round x \<le> c"
  using assms by (auto simp: Math_round_def floor_le_iff)

lemma Math_round_numeral: "Math_round (numeral k) = numeral k"
proof -
  have "\<lfloor>of_int c + (1 / 2 :: rat)\<rfloor> = c" for c by (rule floor_unique) simp_all
  from this [of "numeral k"] show ?thesis by (simp add: Math_round_def)
qed

lemma Math_round_error: "\<bar>of_int (Math_round x) - x\<bar> \<le> 1 / 2"
  unfolding Math_round_def by linarith

section \<open>Doubles\<close>

datatype js_double = NaN | Infinite | Finite rat

definition pow2 :: "int \<Rightarrow> rat" where
  "pow2 e = (if 0 \<le> e then 2 ^ nat e else 1 / 2 ^ nat (- e))"

definition half_even :: "rat \<Rightarrow> int" where
  "half_even x =
     (let f = \<lfloor>x\<rfloor>; r = x - of_int f
      in if r < 1 / 2 \<or> (r = 1 / 2 \<and> even f) then f else f + 1)"

text \<open>The scale that brings a positive rational to 53 bits before the point.\<close>

definition scale :: "rat \<Rightarrow> rat" where
  "scale x =
     (let (a, b) = quotient_of x;
          p = pow2 (int (bit_length (nat a)) - int (bit_length (nat b) + 53))
      in if x / p < 2 ^ 53 then p else 2 * p)"

definition to_double :: "rat \<Rightarrow> rat" where
  "to_double x = (if x = 0 then 0 else of_int (half_even (x / scale x)) * scale x)"

text \<open>\<open>Number(text)\<close> for the decimals that a \<open>numeric\<close> column prints.\<close>

definition decimal :: "string \<Rightarrow> rat option" where
  "decimal s =
     (case js_split (CHR ''.'') s of
        [i] \<Rightarrow> map_option of_nat (dec_val i)
      | [i, f] \<Rightarrow>
          (case (dec_val i, dec_val f) of
             (Some m, Some n) \<Rightarrow> Some (of_nat m + of_nat n / 10 ^ length f) | _ \<Rightarrow> None)
      | _ \<Rightarrow> None)"

definition js_Number :: "string \<Rightarrow> js_double" where
  "js_Number s = (case decimal s of None \<Rightarrow> NaN | Some x \<Rightarrow> Finite (to_double x))"

fun js_divide :: "js_double \<Rightarrow> js_double \<Rightarrow> js_double" where
  "js_divide (Finite x) (Finite y) =
     (if y \<noteq> 0 then Finite (to_double (x / y)) else if x = 0 then NaN else Infinite)"
| "js_divide (Finite x) Infinite = Finite 0"
| "js_divide Infinite (Finite y) = Infinite"
| "js_divide _ _ = NaN"

text \<open>\<open>x.toFixed(10)\<close>: the integer nearest to \<open>x * 10 ^ 10\<close>, the larger of two.\<close>

fun toFixed10 :: "js_double \<Rightarrow> string" where
  "toFixed10 NaN = ''NaN''"
| "toFixed10 Infinite = ''Infinity''"
| "toFixed10 (Finite x) = numeric_out \<lfloor>x * 10 ^ 10 + 1 / 2\<rfloor>"

section \<open>How far a double is from its rational\<close>

lemma half_even_err: "\<bar>of_int (half_even x) - x\<bar> \<le> 1 / 2"
proof -
  have "of_int \<lfloor>x\<rfloor> \<le> x" "x < of_int \<lfloor>x\<rfloor> + 1" by linarith+
  then show ?thesis by (auto simp: half_even_def Let_def abs_le_iff)
qed

lemma pow2_pos [simp]: "0 < pow2 e"
  by (simp add: pow2_def)

lemma pow2_diff: "pow2 (int m - int n) = 2 ^ m / 2 ^ n"
proof (cases "n \<le> m")
  case True
  then have "nat (int m - int n) = m - n" by simp
  then show ?thesis using True by (simp add: pow2_def power_diff)
next
  case False
  then have "nat (- (int m - int n)) = n - m" by simp
  moreover have "(2::rat) ^ n = 2 ^ m * 2 ^ (n - m)" using False by (simp flip: power_add)
  ultimately show ?thesis using False by (simp add: pow2_def)
qed

lemma bit_length_bounds: "0 < n \<Longrightarrow> 2 ^ bit_length n \<le> 2 * n \<and> n < 2 ^ bit_length n"
proof (induction n rule: bit_length.induct)
  case (1 n)
  have l: "bit_length n = Suc (bit_length (n div 2))" using 1(2) by (subst bit_length.simps) simp
  show ?case
  proof (cases "n div 2 = 0")
    case True
    then have "n = 1" using 1(2) by auto
    then show ?thesis using l by (simp add: bit_length.simps)
  next
    case False
    then have "2 ^ bit_length (n div 2) \<le> 2 * (n div 2)" "n div 2 < 2 ^ bit_length (n div 2)"
      using 1(1) 1(2) by auto
    moreover have "n = 2 * (n div 2) + n mod 2" "n mod 2 < 2" by auto
    ultimately show ?thesis unfolding l power_Suc by linarith
  qed
qed

lemma scale_ge: "0 < x \<Longrightarrow> 2 ^ 52 \<le> x / scale x \<and> 0 < scale x"
proof -
  assume x: "0 < x"
  obtain a b where q: "quotient_of x = (a, b)" by fastforce
  then have b: "0 < b" and xab: "x = of_int a / of_int b"
    using quotient_of_denom_pos quotient_of_div by auto
  then have a: "0 < a" using x by (simp add: zero_less_divide_iff)
  define la lb where "la = bit_length (nat a)" and "lb = bit_length (nat b)"
  define p where "p = pow2 (int la - int (lb + 53))"
  have p: "p = 2 ^ la / 2 ^ (lb + 53)" unfolding p_def by (rule pow2_diff)
  have p_pos: "0 < p" by (simp add: p_def)
  have "2 ^ la \<le> 2 * nat a" "nat b < 2 ^ lb"
    using bit_length_bounds [of "nat a"] bit_length_bounds [of "nat b"] a b by (auto simp: la_def lb_def)
  then have "(of_nat (2 ^ la) :: rat) \<le> of_nat (2 * nat a)" "(of_nat (nat b) :: rat) \<le> of_nat (2 ^ lb)"
    by (simp_all only: of_nat_le_iff less_imp_le)
  then have "(2::rat) ^ la \<le> 2 * of_int a" "(of_int b::rat) \<le> 2 ^ lb"
    using a b by simp_all
  then have "(2::rat) ^ la * of_int b \<le> (2 * of_int a) * 2 ^ lb"
    using a b by (intro mult_mono) simp_all
  then have "2 ^ 52 \<le> x / p"
    unfolding p xab power_add using b by (simp add: field_simps)
  moreover have "scale x = (if x / p < 2 ^ 53 then p else 2 * p)"
    by (simp add: scale_def q p_def la_def lb_def)
  ultimately show ?thesis using p_pos by (auto simp: field_simps)
qed

lemma to_double_err:
  assumes "0 \<le> x"
  shows "\<bar>to_double x - x\<bar> \<le> x / 2 ^ 53"
proof (cases "x = 0")
  case False
  then have s: "2 ^ 52 \<le> x / scale x" "0 < scale x" using scale_ge assms by auto
  define y where "y = x / scale x"
  have x: "x = y * scale x" using s(2) by (simp add: y_def)
  have "\<bar>of_int (half_even y) - y\<bar> \<le> y / 2 ^ 53"
    using half_even_err [of y] s(1) by (simp add: y_def)
  then have "\<bar>of_int (half_even y) - y\<bar> * scale x \<le> y / 2 ^ 53 * scale x"
    using s(2) by (intro mult_right_mono) simp_all
  moreover have "\<bar>to_double x - x\<bar> = \<bar>of_int (half_even y) - y\<bar> * scale x"
    using False s(2) x by (metis abs_mult abs_of_pos left_diff_distrib to_double_def y_def)
  ultimately show ?thesis using x by simp
qed (simp add: to_double_def)

lemma to_double_pos: "0 < x \<Longrightarrow> 0 < to_double x"
proof -
  assume x: "0 < x"
  have "x - to_double x \<le> x / 2 ^ 53" using to_double_err [of x] x by (simp only: abs_le_iff) linarith
  moreover have "x / 2 ^ 53 < x" using x by (simp add: field_simps)
  ultimately show ?thesis by linarith
qed

end
