(* ===== verification/Retry.thy ===== *)
theory Retry
  imports Js_Number
begin

text \<open>
  The retry wrapper of \<open>concurrency/retry.ts\<close>: \<open>withRetry\<close> runs a callback in a transaction and,
  when the transaction was aborted with one of two SQLSTATEs, runs it again from the beginning
  after an exponential backoff with jitter. What other sessions commit while it sleeps, what the
  COMMIT answers and the random draws are arguments of the model.
\<close>

section \<open>Which errors are retried\<close>

definition RETRYABLE_SQLSTATES :: "string set" where
  "RETRYABLE_SQLSTATES = {''40001'', ''40P01''}"

text \<open>
  \<open>candidate?.code ?? candidate?.driverError?.code\<close>: a ProblemException carries its own \<open>code\<close>,
  an HttpException has none.
\<close>

fun sqlStateOf :: "exn \<Rightarrow> string option" where
  "sqlStateOf (ProblemException status code detail) = Some code"
| "sqlStateOf (HttpException status response msg) = None"
| "sqlStateOf (ErrorLike e) = (case el_code e of Some c \<Rightarrow> Some c | None \<Rightarrow> el_driver_code e)"

definition isRetryable :: "exn \<Rightarrow> bool" where
  "isRetryable e = (case sqlStateOf e of None \<Rightarrow> False | Some code \<Rightarrow> code \<in> RETRYABLE_SQLSTATES)"

lemma isRetryable_db_error [simp]: "isRetryable (db_error st msg) \<longleftrightarrow> st \<in> {''40001'', ''40P01''}"
  by (simp add: isRetryable_def db_error_def RETRYABLE_SQLSTATES_def)

lemma sqlStateOf_db_error [simp]: "sqlStateOf (db_error st msg) = Some st"
  by (simp add: db_error_def)

lemma isRetryable_state: "isRetryable e \<Longrightarrow> \<exists>c. sqlStateOf e = Some c \<and> c \<in> RETRYABLE_SQLSTATES"
  by (auto simp: isRetryable_def split: option.splits)

section \<open>The loop\<close>

record retry_info =
  ri_attempt :: nat
  ri_sqlState :: string
  ri_delayMs :: int

record retry_options =
  maxAttempts :: int
  baseDelayMs :: int
  maxDelayMs :: int
  onRetry :: "(retry_info \<Rightarrow> exn option) option"

record 'a retry_outcome =
  ro_result :: 'a
  ro_attempts :: nat
  ro_retries :: "retry_info list"

datatype IsolationLevel = READ_UNCOMMITTED | READ_COMMITTED | REPEATABLE_READ | SERIALIZABLE

text \<open>
  What surrounds the call: \<open>rs_draw attempt ceiling\<close> is the double \<open>Math.random() * ceiling\<close> of an
  attempt, \<open>rs_others attempt\<close> what the other sessions commit during the sleep after it, and
  \<open>rs_commit isolation attempt\<close> the error with which Postgres refuses the COMMIT, if it does.
\<close>

record 's retry_setting =
  rs_draw :: "nat \<Rightarrow> int \<Rightarrow> rat"
  rs_others :: "nat \<Rightarrow> 's \<Rightarrow> 's"
  rs_commit :: "IsolationLevel \<Rightarrow> nat \<Rightarrow> 's \<Rightarrow> exn option"

text \<open>\<open>Math.random()\<close> is in \<open>[0, 1)\<close> and rounding of the product is monotone.\<close>

definition draws_ok :: "'s retry_setting \<Rightarrow> bool" where
  "draws_ok w \<longleftrightarrow> (\<forall>n c. 0 \<le> c \<longrightarrow> 0 \<le> rs_draw w n c \<and> rs_draw w n c \<le> of_int c)"

text \<open>
  The ceiling as exact integers: doubling an integer double is exact, and where the product would
  overflow to \<open>Infinity\<close> the minimum is \<open>maxDelayMs\<close> in both readings.
\<close>

definition backoff_ceiling :: "retry_options \<Rightarrow> nat \<Rightarrow> int" where
  "backoff_ceiling opts attempt = min (baseDelayMs opts * 2 ^ (attempt - 1)) (maxDelayMs opts)"

definition backoff :: "'s retry_setting \<Rightarrow> retry_options \<Rightarrow> nat \<Rightarrow> int" where
  "backoff w opts attempt =
     max 1 (Math_round (rs_draw w attempt (backoff_ceiling opts attempt)))"

text \<open>\<open>dataSource.transaction(isolation, (manager) => fn(manager, attempt))\<close>\<close>

definition attempt_tx ::
  "'s retry_setting \<Rightarrow> IsolationLevel \<Rightarrow> (nat \<Rightarrow> ('s, 'a) svc) \<Rightarrow> nat \<Rightarrow> ('s, 'a) svc" where
  "attempt_tx w isolation fn attempt = transaction (bindS (fn attempt) (\<lambda>x s.
     case rs_commit w isolation attempt s of Some e \<Rightarrow> (Inl e, s) | None \<Rightarrow> (Inr x, s)))"

text \<open>
  One iteration per attempt. The second component of the result is the list of infos handed to
  \<open>onRetry\<close>, which the caller sees also when the call rejects.
\<close>

function retry_loop ::
  "'s retry_setting \<Rightarrow> IsolationLevel \<Rightarrow> (nat \<Rightarrow> ('s, 'a) svc) \<Rightarrow> retry_options \<Rightarrow> nat \<Rightarrow>
   retry_info list \<Rightarrow> 's \<Rightarrow> (exn + 'a retry_outcome) \<times> retry_info list \<times> 's" where
  "retry_loop w isolation fn opts attempt retries s =
     (case attempt_tx w isolation fn attempt s of
        (Inr x, t) \<Rightarrow>
          (Inr \<lparr>ro_result = x, ro_attempts = attempt, ro_retries = retries\<rparr>, retries, t)
      | (Inl e, t) \<Rightarrow>
          (if \<not> isRetryable e \<or> int attempt \<ge> maxAttempts opts then (Inl e, retries, t)
           else
             (let info = \<lparr>ri_attempt = attempt, ri_sqlState = the (sqlStateOf e),
                          ri_delayMs = backoff w opts attempt\<rparr>;
                  retries' = retries @ [info]
              in case Option.bind (onRetry opts) (\<lambda>f. f info) of
                   Some e' \<Rightarrow> (Inl e', retries', t)
                 | None \<Rightarrow>
                     retry_loop w isolation fn opts (Suc attempt) retries'
                       (rs_others w attempt t))))"
  by pat_completeness auto

termination
  by (relation "measure (\<lambda>(w, isolation, fn, opts, attempt, retries, s).
        nat (maxAttempts opts - int attempt))") auto

declare retry_loop.simps [simp del]

definition withRetry ::
  "'s retry_setting \<Rightarrow> IsolationLevel \<Rightarrow> (nat \<Rightarrow> ('s, 'a) svc) \<Rightarrow> retry_options \<Rightarrow> 's \<Rightarrow>
   (exn + 'a retry_outcome) \<times> retry_info list \<times> 's" where
  "withRetry w isolation fn opts s = retry_loop w isolation fn opts 1 [] s"

section \<open>Bounds of the backoff\<close>

lemma backoff_bounds:
  assumes "draws_ok w" "0 \<le> baseDelayMs opts" "0 \<le> maxDelayMs opts"
  shows "1 \<le> backoff w opts n"
    and "backoff w opts n \<le> max 1 (backoff_ceiling opts n)"
    and "backoff w opts n \<le> max 1 (maxDelayMs opts)"
proof -
  let ?c = "backoff_ceiling opts n"
  have "0 \<le> ?c" using assms(2,3) by (simp add: backoff_ceiling_def)
  then have "Math_round (rs_draw w n ?c) \<le> ?c"
    using assms(1) Math_round_bounds(2) unfolding draws_ok_def by blast
  moreover have "?c \<le> maxDelayMs opts" by (simp add: backoff_ceiling_def)
  ultimately show "1 \<le> backoff w opts n" "backoff w opts n \<le> max 1 ?c"
    "backoff w opts n \<le> max 1 (maxDelayMs opts)"
    by (auto simp: backoff_def)
qed

section \<open>What a call does\<close>

text \<open>The state before attempt \<open>Suc n\<close> when the first \<open>n\<close> attempts left no trace.\<close>

primrec after_sleeps :: "'s retry_setting \<Rightarrow> nat \<Rightarrow> 's \<Rightarrow> 's" where
  "after_sleeps w 0 s = s"
| "after_sleeps w (Suc n) s = rs_others w (Suc n) (after_sleeps w n s)"

lemma attempt_tx_Inl: "attempt_tx w i fn n s = (Inl e, t) \<Longrightarrow> t = s"
  by (auto simp: attempt_tx_def)

text \<open>
  The attempts that a call makes: \<open>retried w i fn opts n s infos\<close> says that attempts \<open>1 .. n\<close> each
  failed with a retryable error in the state that the sleeps left, below the limit.
\<close>

definition retried ::
  "'s retry_setting \<Rightarrow> IsolationLevel \<Rightarrow> (nat \<Rightarrow> ('s, 'a) svc) \<Rightarrow> retry_options \<Rightarrow> nat \<Rightarrow> 's \<Rightarrow>
   retry_info list \<Rightarrow> bool" where
  "retried w i fn opts n s infos \<longleftrightarrow> length infos = n \<and> (\<forall>k<n. \<exists>e.
     attempt_tx w i fn (Suc k) (after_sleeps w k s) = (Inl e, after_sleeps w k s) \<and>
     isRetryable e \<and> int (Suc k) < maxAttempts opts \<and>
     infos ! k = \<lparr>ri_attempt = Suc k, ri_sqlState = the (sqlStateOf e), ri_delayMs = backoff w opts (Suc k)\<rparr>)"

lemma retried_0 [simp]: "retried w i fn opts 0 s infos \<longleftrightarrow> infos = []"
  by (simp add: retried_def)

lemma retried_Suc:
  assumes "retried w i fn opts n s infos"
    and "attempt_tx w i fn (Suc n) (after_sleeps w n s) = (Inl e, t)"
    and "isRetryable e" "int (Suc n) < maxAttempts opts"
  shows "retried w i fn opts (Suc n) s (infos @ [\<lparr>ri_attempt = Suc n,
    ri_sqlState = the (sqlStateOf e), ri_delayMs = backoff w opts (Suc n)\<rparr>])"
  using assms attempt_tx_Inl [OF assms(2)] by (auto simp: retried_def nth_append less_Suc_eq)

text \<open>How a call ends after \<open>n\<close> retried attempts, when no \<open>onRetry\<close> callback throws.\<close>

definition ends_after ::
  "'s retry_setting \<Rightarrow> IsolationLevel \<Rightarrow> (nat \<Rightarrow> ('s, 'a) svc) \<Rightarrow> retry_options \<Rightarrow> nat \<Rightarrow> 's \<Rightarrow>
   retry_info list \<Rightarrow> (exn + 'a retry_outcome) \<times> retry_info list \<times> 's \<Rightarrow> bool" where
  "ends_after w i fn opts n s infos r \<longleftrightarrow>
     (case attempt_tx w i fn (Suc n) (after_sleeps w n s) of
        (Inr x, t) \<Rightarrow>
          r = (Inr \<lparr>ro_result = x, ro_attempts = Suc n, ro_retries = infos\<rparr>, infos, t)
      | (Inl e, t) \<Rightarrow> (\<not> isRetryable e \<or> maxAttempts opts \<le> int (Suc n)) \<and>
          r = (Inl e, infos, after_sleeps w n s))"

lemma ends_after_calls: "ends_after w i fn opts n s infos r \<Longrightarrow> fst (snd r) = infos"
  unfolding ends_after_def
  by (cases "attempt_tx w i fn (Suc n) (after_sleeps w n s)"; cases "fst (attempt_tx w i fn (Suc n) (after_sleeps w n s))") auto

definition quiet :: "retry_options \<Rightarrow> bool" where
  "quiet opts \<longleftrightarrow> (case onRetry opts of None \<Rightarrow> True | Some f \<Rightarrow> \<forall>info. f info = None)"

lemma quiet_bind: "quiet opts \<Longrightarrow> Option.bind (onRetry opts) (\<lambda>f. f info) = None"
  by (auto simp: quiet_def split: option.splits)

lemma retry_loop_ends:
  assumes "quiet opts" "retried w i fn opts n s infos"
  shows "\<exists>m infos'. retried w i fn opts m s infos' \<and>
    ends_after w i fn opts m s infos' (retry_loop w i fn opts (Suc n) infos (after_sleeps w n s))"
  using assms(2)
proof (induction "nat (maxAttempts opts - int n)" arbitrary: n infos rule: less_induct)
  case less
  let ?s = "after_sleeps w n s"
  obtain r t where a: "attempt_tx w i fn (Suc n) ?s = (r, t)" by fastforce
  show ?case
  proof (cases "\<exists>e. r = Inl e \<and> isRetryable e \<and> int (Suc n) < maxAttempts opts")
    case False
    then have "ends_after w i fn opts n s infos (retry_loop w i fn opts (Suc n) infos ?s)"
      using a attempt_tx_Inl [of w i fn "Suc n" ?s]
      by (auto simp: ends_after_def retry_loop.simps [of w i fn opts "Suc n"] split: sum.splits)
    with less.prems show ?thesis by blast
  next
    case True
    then obtain e where e: "r = Inl e" "isRetryable e" "int (Suc n) < maxAttempts opts" by blast
    have t: "t = ?s" using attempt_tx_Inl [of w i fn "Suc n" ?s e t] a e by simp
    let ?info = "\<lparr>ri_attempt = Suc n, ri_sqlState = the (sqlStateOf e), ri_delayMs = backoff w opts (Suc n)\<rparr>"
    have "retry_loop w i fn opts (Suc n) infos ?s =
        retry_loop w i fn opts (Suc (Suc n)) (infos @ [?info]) (after_sleeps w (Suc n) s)"
      using a e t quiet_bind [OF assms(1)]
      by (simp add: retry_loop.simps [of w i fn opts "Suc n"] Let_def)
    moreover have "retried w i fn opts (Suc n) s (infos @ [?info])"
      using retried_Suc less.prems a e by metis
    moreover have "nat (maxAttempts opts - int (Suc n)) < nat (maxAttempts opts - int n)"
      using e(3) by simp
    ultimately show ?thesis using less.hyps by metis
  qed
qed

lemma withRetry_ends:
  assumes "quiet opts"
  obtains n infos where "retried w i fn opts n s infos"
    "ends_after w i fn opts n s infos (withRetry w i fn opts s)"
  using retry_loop_ends [OF assms, of w i fn 0 s "[]"] by (auto simp: withRetry_def)

lemma retried_attempts: "retried w i fn opts n s infos \<Longrightarrow> int n < max 1 (maxAttempts opts)"
proof (cases n)
  case (Suc m)
  assume "retried w i fn opts n s infos"
  then have "int (Suc m) < maxAttempts opts" using Suc by (auto simp: retried_def)
  with Suc show ?thesis by simp
qed simp

section \<open>Bounds, for any callback\<close>

text \<open>What is known of the infos that a call has collected before attempt \<open>Suc n\<close>.\<close>

definition infos_ok :: "retry_options \<Rightarrow> retry_info list \<Rightarrow> bool" where
  "infos_ok opts infos \<longleftrightarrow> (\<forall>k<length infos. ri_attempt (infos ! k) = Suc k \<and>
     ri_sqlState (infos ! k) \<in> RETRYABLE_SQLSTATES \<and> 1 \<le> ri_delayMs (infos ! k) \<and>
     ri_delayMs (infos ! k) \<le> max 1 (min (baseDelayMs opts * 2 ^ k) (maxDelayMs opts)))"

lemma infos_ok_snoc:
  assumes "infos_ok opts infos" "draws_ok w" "0 \<le> baseDelayMs opts" "0 \<le> maxDelayMs opts" "isRetryable e"
  shows "infos_ok opts (infos @ [\<lparr>ri_attempt = Suc (length infos),
    ri_sqlState = the (sqlStateOf e), ri_delayMs = backoff w opts (Suc (length infos))\<rparr>])"
  using assms(1) isRetryable_state [OF assms(5)] backoff_bounds(1,2) [OF assms(2-4), of "Suc (length infos)"]
  by (auto simp: infos_ok_def nth_append less_Suc_eq backoff_ceiling_def)

lemma retry_loop_bounds:
  assumes "draws_ok w" "0 \<le> baseDelayMs opts" "0 \<le> maxDelayMs opts"
    and "infos_ok opts infos" "length infos \<le> nat (maxAttempts opts - 1)"
    and "retry_loop w i fn opts (Suc (length infos)) infos s = (r, calls, t)"
  shows "infos_ok opts calls \<and> length calls \<le> nat (maxAttempts opts - 1) \<and>
    (\<forall>out. r = Inr out \<longrightarrow> ro_attempts out = Suc (length calls) \<and> ro_retries out = calls)"
  using assms(4-6)
proof (induction "nat (maxAttempts opts - int (length infos))" arbitrary: infos s rule: less_induct)
  case less
  obtain r' u where a: "attempt_tx w i fn (Suc (length infos)) s = (r', u)" by fastforce
  note step = less.prems(3) [unfolded retry_loop.simps [of w i fn opts "Suc (length infos)"] a]
  show ?case
  proof (cases "\<exists>e. r' = Inl e \<and> isRetryable e \<and> int (Suc (length infos)) < maxAttempts opts")
    case False
    then show ?thesis using step less.prems(1,2) by (auto split: sum.splits)
  next
    case True
    then obtain e where e: "r' = Inl e" "isRetryable e" "int (Suc (length infos)) < maxAttempts opts"
      by blast
    let ?info = "\<lparr>ri_attempt = Suc (length infos), ri_sqlState = the (sqlStateOf e),
      ri_delayMs = backoff w opts (Suc (length infos))\<rparr>"
    have ok: "infos_ok opts (infos @ [?info])" by (rule infos_ok_snoc [OF less.prems(1) assms(1-3) e(2)])
    have len: "length (infos @ [?info]) \<le> nat (maxAttempts opts - 1)" using e(3) by simp
    show ?thesis
    proof (cases "Option.bind (onRetry opts) (\<lambda>f. f ?info)")
      case (Some e')
      then show ?thesis using step e ok len by (auto simp: Let_def)
    next
      case None
      then have "retry_loop w i fn opts (Suc (length (infos @ [?info]))) (infos @ [?info])
          (rs_others w (Suc (length infos)) u) = (r, calls, t)"
        using step e by (simp add: Let_def)
      moreover have "nat (maxAttempts opts - int (length (infos @ [?info]))) <
          nat (maxAttempts opts - int (length infos))" using e(3) by simp
      ultimately show ?thesis using less.hyps ok len by blast
    qed
  qed
qed

lemma sum_delays:
  assumes "infos_ok opts calls"
  shows "sum_list (map ri_delayMs calls) \<le> int (length calls) * max 1 (maxDelayMs opts)"
proof -
  have "\<forall>c\<in>set calls. ri_delayMs c \<le> max 1 (maxDelayMs opts)"
    using assms by (fastforce simp: infos_ok_def in_set_conv_nth)
  then have "sum_list (map ri_delayMs calls) \<le> sum_list (map (\<lambda>_. max 1 (maxDelayMs opts)) calls)"
    by (intro sum_list_mono) auto
  then show ?thesis by (simp add: sum_list_triv)
qed

section \<open>Properties\<close>

text \<open>
  (C23) A call of \<open>withRetry\<close> returns after at most \<open>max 1 maxAttempts\<close> attempts, whatever the
  callback, the COMMIT and the other sessions do: \<open>onRetry\<close> is called with the attempts 1, 2, ...
  in order, each time for one of the two retryable SQLSTATEs and with a delay between 1 and
  \<open>min (baseDelayMs * 2 ^ (attempt - 1)) maxDelayMs\<close>; the sleeps add up to at most
  \<open>(maxAttempts - 1) * max 1 maxDelayMs\<close>; and a success reports exactly these retries.
\<close>

theorem withRetry_bounds:
  assumes "draws_ok w" "0 \<le> baseDelayMs opts" "0 \<le> maxDelayMs opts"
  shows "\<exists>r calls t. withRetry w i fn opts s = (r, calls, t) \<and>
    length calls \<le> nat (maxAttempts opts - 1) \<and>
    (\<forall>k<length calls. ri_attempt (calls ! k) = Suc k \<and>
       ri_sqlState (calls ! k) \<in> {''40001'', ''40P01''} \<and> 1 \<le> ri_delayMs (calls ! k) \<and>
       ri_delayMs (calls ! k) \<le> max 1 (min (baseDelayMs opts * 2 ^ k) (maxDelayMs opts))) \<and>
    sum_list (map ri_delayMs calls) \<le> int (nat (maxAttempts opts - 1)) * max 1 (maxDelayMs opts) \<and>
    (\<forall>out. r = Inr out \<longrightarrow> ro_attempts out = Suc (length calls) \<and> ro_retries out = calls)"
proof -
  obtain r calls t where run: "withRetry w i fn opts s = (r, calls, t)" by (metis prod_cases3)
  then have "retry_loop w i fn opts (Suc (length ([] :: retry_info list))) [] s = (r, calls, t)"
    by (simp add: withRetry_def)
  from retry_loop_bounds [OF assms _ _ this] have b: "infos_ok opts calls"
      "length calls \<le> nat (maxAttempts opts - 1)"
      "\<forall>out. r = Inr out \<longrightarrow> ro_attempts out = Suc (length calls) \<and> ro_retries out = calls"
    by (auto simp: infos_ok_def)
  have "int (length calls) * max 1 (maxDelayMs opts) \<le>
      int (nat (maxAttempts opts - 1)) * max 1 (maxDelayMs opts)"
    using b(2) by (intro mult_right_mono) auto
  with sum_delays [OF b(1)] have "sum_list (map ri_delayMs calls) \<le>
      int (nat (maxAttempts opts - 1)) * max 1 (maxDelayMs opts)" by linarith
  with run b show ?thesis unfolding infos_ok_def RETRYABLE_SQLSTATES_def by blast
qed

text \<open>
  (C24) What \<open>withRetry\<close> returns. Some number \<open>n\<close> of attempts, fewer than \<open>maxAttempts\<close>, fail with
  a retryable error and leave no trace: each runs in the state that the other sessions left
  during the sleeps, and the whole callback runs again. The next attempt decides: its value and
  its state are the outcome, or its error is thrown, which is then not retryable or the limit is
  reached, and the state is again only what the others left.
\<close>

theorem withRetry_outcome:
  assumes "quiet opts"
  shows "\<exists>n infos. int n < max 1 (maxAttempts opts) \<and> retried w i fn opts n s infos \<and>
    ends_after w i fn opts n s infos (withRetry w i fn opts s)"
  by (rule withRetry_ends [OF assms]) (intro exI conjI, rule retried_attempts)

section \<open>An example\<close>

text \<open>
  A counter that two concurrent commits move from 7 to 12 and 20: the first two attempts fail
  with 40001 and 40P01, the third adds one.
\<close>

definition example_setting :: "int retry_setting" where
  "example_setting = \<lparr>rs_draw = (\<lambda>n c. of_int c),
     rs_others = (\<lambda>n s. if n = 1 then 12 else 20), rs_commit = (\<lambda>i n s. None)\<rparr>"

definition example_options :: retry_options where
  "example_options = \<lparr>maxAttempts = 10, baseDelayMs = 20, maxDelayMs = 400, onRetry = None\<rparr>"

definition example_fn :: "nat \<Rightarrow> (int, int) svc" where
  "example_fn attempt s =
     (if attempt = 1 then (Inl (db_error ''40001'' ''conflict''), s + 1)
      else if attempt = 2 then (Inl (db_error ''40P01'' ''deadlock''), s + 1)
      else (Inr (s + 1), s + 1))"

lemma example_setting_ok: "draws_ok example_setting" "quiet example_options"
  by (auto simp: draws_ok_def example_setting_def quiet_def example_options_def)

lemma example_run:
  "withRetry example_setting REPEATABLE_READ example_fn example_options 7 =
    (let infos = [\<lparr>ri_attempt = 1, ri_sqlState = ''40001'', ri_delayMs = 20\<rparr>,
                  \<lparr>ri_attempt = 2, ri_sqlState = ''40P01'', ri_delayMs = 40\<rparr>]
     in (Inr \<lparr>ro_result = 21, ro_attempts = 3, ro_retries = infos\<rparr>, infos, 21))"
  by (simp add: withRetry_def retry_loop.simps attempt_tx_def transaction_def bindS_def Let_def
      example_setting_def example_fn_def example_options_def backoff_def backoff_ceiling_def
      Math_round_numeral)

theorem withRetry_bounds_witness:
  "\<exists>calls. length calls \<le> 9 \<and> sum_list (map ri_delayMs calls) \<le> 3600 \<and>
    fst (snd (withRetry example_setting REPEATABLE_READ example_fn example_options 7)) = calls"
  using withRetry_bounds [OF example_setting_ok(1), of example_options REPEATABLE_READ example_fn 7]
  by (auto simp: example_options_def)

theorem withRetry_outcome_witness:
  "\<exists>n. n < 10 \<and>
    length (fst (snd (withRetry example_setting REPEATABLE_READ example_fn example_options 7))) = n"
proof -
  let ?w = "withRetry example_setting REPEATABLE_READ example_fn example_options 7"
  obtain n infos where n: "int n < max 1 (maxAttempts example_options)"
      and r: "retried example_setting REPEATABLE_READ example_fn example_options n 7 infos"
      and e: "ends_after example_setting REPEATABLE_READ example_fn example_options n 7 infos ?w"
    using withRetry_outcome [OF example_setting_ok(2), of example_setting REPEATABLE_READ example_fn 7]
    by blast
  have "fst (snd ?w) = infos" by (rule ends_after_calls [OF e])
  then show ?thesis using n r by (simp add: retried_def example_options_def)
qed

end
