(* ===== verification/Counting.thy ===== *)
theory Counting
  imports Main "HOL-Library.Multiset"
begin

text \<open>
  Sums and multisets over the list of concurrent actors of a step system: how they change when one
  actor takes a step. Shared by the writers of the retry scenario and the workers of the pool.
\<close>

section \<open>Sums\<close>

text \<open>The sum of a measure over the actors of a system, and how one updated actor changes it.\<close>

definition tally :: "('a \<Rightarrow> nat) \<Rightarrow> 'a list \<Rightarrow> nat" where
  "tally f xs = sum_list (map f xs)"

lemma tally_update: "i < length xs \<Longrightarrow> tally f (xs[i := x]) + f (xs ! i) = tally f xs + f x"
proof (induction xs arbitrary: i)
  case (Cons y ys)
  then show ?case by (cases i) (auto simp: tally_def)
qed simp

lemma tally_same: "i < length xs \<Longrightarrow> f x = f (xs ! i) \<Longrightarrow> tally f (xs[i := x]) = tally f xs"
  using tally_update [of i xs f x] by simp

lemma tally_member: "i < length xs \<Longrightarrow> f (xs ! i) \<le> tally f xs"
  by (simp add: tally_def elem_le_sum_list [of i "map f xs", simplified])

lemma tally_mono: "(\<And>x. x \<in> set xs \<Longrightarrow> f x \<le> g x) \<Longrightarrow> tally f xs \<le> tally g xs"
  unfolding tally_def by (rule sum_list_mono)

lemma tally_le: "(\<And>x. f x \<le> (1 :: nat)) \<Longrightarrow> tally f xs \<le> length xs"
  using tally_mono [of xs f "\<lambda>_. 1"] by (simp add: tally_def sum_list_triv)

lemma tally_less:
  assumes "\<And>x. f x \<le> (1 :: nat)" "x \<in> set xs" "f x = 0"
  shows "tally f xs < length xs"
proof -
  obtain ys zs where xs: "xs = ys @ x # zs" using assms(2) by (auto simp: in_set_conv_decomp)
  have "tally f ys \<le> length ys" "tally f zs \<le> length zs" by (rule tally_le [OF assms(1)])+
  with assms(3) show ?thesis by (simp add: xs tally_def)
qed

lemma tally_lessD: "tally f xs < length xs \<Longrightarrow> \<exists>x\<in>set xs. f x = (0 :: nat)"
proof (rule ccontr)
  assume "tally f xs < length xs" "\<not> (\<exists>x\<in>set xs. f x = 0)"
  then have "tally (\<lambda>_. 1) xs \<le> tally f xs" by (intro tally_mono) (metis One_nat_def Suc_leI neq0_conv)
  with \<open>tally f xs < length xs\<close> show False by (simp add: tally_def sum_list_triv)
qed

section \<open>Multisets\<close>

lemma mset_concat_update:
  "k < length xs \<Longrightarrow> mset (concat (map f (xs[k := x]))) + mset (f (xs ! k)) =
     mset (concat (map f xs)) + mset (f x)"
proof (induction xs arbitrary: k)
  case (Cons y ys)
  then show ?case by (cases k) (auto simp: add.assoc)
qed simp

lemma distinct_submset:
  assumes "mset xs \<subseteq># mset ys" "distinct ys"
  shows "distinct xs \<and> set xs \<subseteq> set ys"
proof
  obtain zs where "mset ys = mset (xs @ zs)"
    using assms(1) by (metis ex_mset mset_append mset_subset_eq_exists_conv)
  then show "distinct xs" using assms(2) mset_eq_imp_distinct_iff by (metis distinct_append)
  show "set xs \<subseteq> set ys" using assms(1) by (metis set_mset_mono set_mset_mset)
qed

lemma map_update_same:
  "k < length xs \<Longrightarrow> g x = g (xs ! k) \<Longrightarrow> map g (xs[k := x]) = map g xs"
  by (metis list_update_id map_update)

end
