(* ===== verification/Demo_Retry.thy ===== *)
theory Demo_Retry
  imports Retry Counting
begin

text \<open>
  The scenario of \<open>demo-retry.ts\<close>: WRITERS transactions under REPEATABLE READ read one balance,
  add to it in JavaScript and write the absolute value back, each through \<open>withRetry\<close>. Postgres
  aborts an UPDATE with 40001 when the row was changed by a transaction that committed after the
  snapshot, and makes it wait while another transaction holds the row. The barrier of the first
  attempt is part of the model.
\<close>

section \<open>The script\<close>

definition WRITERS :: nat where "WRITERS = 5"
definition DELTA_CENTS :: int where "DELTA_CENTS = 100"
definition START_BALANCE_CENTS :: int where "START_BALANCE_CENTS = 1000000"

text \<open>
  Where the callback of one writer is, with its attempt, the balance of its snapshot and the
  number of commits that the snapshot contains.
\<close>

datatype phase =
    Reading nat
  | Has_Read nat int nat
  | At_Barrier int nat
  | Ready nat int nat
  | Written nat int
  | Sleeping nat
  | Returned nat int
  | Threw exn

record writer =
  wr_phase :: phase
  wr_retries :: "retry_info list"

record scene =
  sc_balance :: int
  sc_commits :: nat
  sc_lock :: "nat option"
  sc_arrived :: nat
  sc_writers :: "writer list"

definition set_phase :: "nat \<Rightarrow> phase \<Rightarrow> scene \<Rightarrow> scene" where
  "set_phase i p s = s\<lparr>sc_writers := (sc_writers s)[i := (sc_writers s ! i)\<lparr>wr_phase := p\<rparr>]\<rparr>"

text \<open>\<open>onRetry\<close> writes a line to the log and does not throw.\<close>

definition demo_options :: retry_options where
  "demo_options = \<lparr>maxAttempts = 10, baseDelayMs = 20, maxDelayMs = 400, onRetry = Some (\<lambda>info. None)\<rparr>"

text \<open>\<open>barrier(count)\<close>: one more has arrived; \<open>opened\<close> resolves when \<open>n\<close> have.\<close>

definition arrive :: "scene \<Rightarrow> scene" where
  "arrive s = s\<lparr>sc_arrived := sc_arrived s + 1\<rparr>"

definition opened :: "nat \<Rightarrow> scene \<Rightarrow> bool" where
  "opened n s \<longleftrightarrow> n \<le> sc_arrived s"

definition serialization_failure :: exn where
  "serialization_failure = db_error ''40001'' ''could not serialize access due to concurrent update''"

text \<open>The catch branch of \<open>withRetry\<close> for a writer in attempt \<open>a\<close>, with a delay in its bounds.\<close>

definition caught :: "nat \<Rightarrow> nat \<Rightarrow> exn \<Rightarrow> int \<Rightarrow> scene \<Rightarrow> scene" where
  "caught i a e delay s =
     (if \<not> isRetryable e \<or> int a \<ge> maxAttempts demo_options then set_phase i (Threw e) s
      else s\<lparr>sc_writers := (sc_writers s)[i :=
        \<lparr>wr_phase = Sleeping a, wr_retries = wr_retries (sc_writers s ! i) @
          [\<lparr>ri_attempt = a, ri_sqlState = the (sqlStateOf e), ri_delayMs = delay\<rparr>]\<rparr>]\<rparr>)"

text \<open>
  The steps of the writers: the SELECT, the barrier of the first attempt, the UPDATE (which takes
  the row or fails; no step while another holds it), the COMMIT, and the end of the sleep.
\<close>

inductive demo_step :: "scene \<Rightarrow> scene \<Rightarrow> bool" where
  select: "i < length (sc_writers s) \<Longrightarrow> wr_phase (sc_writers s ! i) = Reading a \<Longrightarrow>
     demo_step s (set_phase i (Has_Read a (sc_balance s) (sc_commits s)) s)"
| reach_barrier: "i < length (sc_writers s) \<Longrightarrow> wr_phase (sc_writers s ! i) = Has_Read a b v \<Longrightarrow>
     a = 1 \<Longrightarrow> demo_step s (arrive (set_phase i (At_Barrier b v) s))"
| no_barrier: "i < length (sc_writers s) \<Longrightarrow> wr_phase (sc_writers s ! i) = Has_Read a b v \<Longrightarrow>
     a \<noteq> 1 \<Longrightarrow> demo_step s (set_phase i (Ready a b v) s)"
| pass_barrier: "i < length (sc_writers s) \<Longrightarrow> wr_phase (sc_writers s ! i) = At_Barrier b v \<Longrightarrow>
     opened WRITERS s \<Longrightarrow> demo_step s (set_phase i (Ready 1 b v) s)"
| update: "i < length (sc_writers s) \<Longrightarrow> wr_phase (sc_writers s ! i) = Ready a b v \<Longrightarrow>
     sc_lock s = None \<Longrightarrow> sc_commits s = v \<Longrightarrow>
     demo_step s ((set_phase i (Written a (b + DELTA_CENTS)) s)\<lparr>sc_lock := Some i\<rparr>)"
| conflict: "i < length (sc_writers s) \<Longrightarrow> wr_phase (sc_writers s ! i) = Ready a b v \<Longrightarrow>
     sc_lock s = None \<Longrightarrow> sc_commits s \<noteq> v \<Longrightarrow>
     1 \<le> delay \<Longrightarrow> delay \<le> max 1 (backoff_ceiling demo_options a) \<Longrightarrow>
     demo_step s (caught i a serialization_failure delay s)"
| commit: "i < length (sc_writers s) \<Longrightarrow> wr_phase (sc_writers s ! i) = Written a n \<Longrightarrow>
     demo_step s ((set_phase i (Returned a n) s)\<lparr>sc_balance := n, sc_commits := sc_commits s + 1,
       sc_lock := None\<rparr>)"
| wake: "i < length (sc_writers s) \<Longrightarrow> wr_phase (sc_writers s ! i) = Sleeping a \<Longrightarrow>
     demo_step s (set_phase i (Reading (Suc a)) s)"

inductive_cases demo_stepE: "demo_step s t"

definition demo_init :: "scene \<Rightarrow> bool" where
  "demo_init s \<longleftrightarrow> s = \<lparr>sc_balance = START_BALANCE_CENTS, sc_commits = 0, sc_lock = None,
     sc_arrived = 0, sc_writers = replicate WRITERS \<lparr>wr_phase = Reading 1, wr_retries = []\<rparr>\<rparr>"

text \<open>The outcomes of the settled promises, and the checks with which the script grades itself.\<close>

definition attempts_of :: "writer \<Rightarrow> nat option" where
  "attempts_of w = (case wr_phase w of Returned a n \<Rightarrow> Some a | _ \<Rightarrow> None)"

definition all_returned :: "scene \<Rightarrow> bool" where
  "all_returned s \<longleftrightarrow> (\<forall>w\<in>set (sc_writers s). attempts_of w \<noteq> None)"

definition total_retries :: "scene \<Rightarrow> nat" where
  "total_retries s = sum_list (map (\<lambda>w. length (wr_retries w)) (sc_writers s))"

definition caught_states :: "scene \<Rightarrow> string list" where
  "caught_states s = js_uniq (concat (map (\<lambda>w. map ri_sqlState (wr_retries w)) (sc_writers s)))"

definition demo_problems :: "scene \<Rightarrow> string list" where
  "demo_problems s =
     (if total_retries s = 0
      then [''no serialization failure was provoked '' @ em_dash @ '' the scenario proves nothing''] else []) @
     (let expected = START_BALANCE_CENTS + int WRITERS * DELTA_CENTS
      in if sc_balance s \<noteq> expected
         then [''lost update: final balance '' @ int_text (sc_balance s) @ '', expected '' @ int_text expected]
         else []) @
     concat (map (\<lambda>st. if st \<noteq> ''40001'' \<and> st \<noteq> ''40P01''
       then [''retried a non-retryable SQLSTATE '' @ st] else []) (caught_states s))"

section \<open>The invariant\<close>

text \<open>Who has passed the barrier call, who has returned, and who has done so at the first attempt.\<close>

fun passed :: "phase \<Rightarrow> nat" where
  "passed (Reading a) = (if a = 1 then 0 else 1)"
| "passed (Has_Read a b v) = (if a = 1 then 0 else 1)"
| "passed p = 1"

fun returned :: "phase \<Rightarrow> nat" where
  "returned (Returned a n) = 1"
| "returned p = 0"

fun at_once :: "phase \<Rightarrow> nat" where
  "at_once (Returned a n) = (if a = 1 then 1 else 0)"
| "at_once p = 0"

definition snapshot_ok :: "scene \<Rightarrow> nat \<Rightarrow> int \<Rightarrow> nat \<Rightarrow> bool" where
  "snapshot_ok s a b v \<longleftrightarrow> 1 \<le> a \<and> a \<le> v + 1 \<and> v \<le> sc_commits s \<and>
     b = START_BALANCE_CENTS + int v * DELTA_CENTS \<and> (a = 1 \<longrightarrow> v = 0)"

text \<open>What is known of a writer in each phase; attempts never exceed the commits by more than one.\<close>

fun phase_ok :: "scene \<Rightarrow> nat \<Rightarrow> nat \<Rightarrow> phase \<Rightarrow> bool" where
  "phase_ok s i r (Reading a) \<longleftrightarrow> 1 \<le> a \<and> a \<le> sc_commits s + 1 \<and> r + 1 = a"
| "phase_ok s i r (Has_Read a b v) \<longleftrightarrow> snapshot_ok s a b v \<and> r + 1 = a"
| "phase_ok s i r (At_Barrier b v) \<longleftrightarrow> snapshot_ok s 1 b v \<and> r = 0"
| "phase_ok s i r (Ready a b v) \<longleftrightarrow> snapshot_ok s a b v \<and> opened WRITERS s \<and> r + 1 = a"
| "phase_ok s i r (Written a n) \<longleftrightarrow> snapshot_ok s a (n - DELTA_CENTS) (sc_commits s) \<and>
     opened WRITERS s \<and> sc_lock s = Some i \<and> r + 1 = a"
| "phase_ok s i r (Sleeping a) \<longleftrightarrow> 1 \<le> a \<and> a \<le> sc_commits s \<and> r = a"
| "phase_ok s i r (Returned a n) \<longleftrightarrow> 1 \<le> a \<and> a \<le> sc_commits s \<and> opened WRITERS s \<and> r + 1 = a"
| "phase_ok s i r (Threw e) \<longleftrightarrow> False"

definition retries_ok :: "writer \<Rightarrow> bool" where
  "retries_ok w \<longleftrightarrow> (\<forall>r\<in>set (wr_retries w). ri_sqlState r = ''40001'')"

definition writer_ok :: "scene \<Rightarrow> nat \<Rightarrow> writer \<Rightarrow> bool" where
  "writer_ok s i w \<longleftrightarrow> phase_ok s i (length (wr_retries w)) (wr_phase w) \<and> retries_ok w"

definition holds_row :: "scene \<Rightarrow> nat \<Rightarrow> bool" where
  "holds_row s i \<longleftrightarrow> i < length (sc_writers s) \<and> (\<exists>a n. wr_phase (sc_writers s ! i) = Written a n)"

definition demo_inv :: "scene \<Rightarrow> bool" where
  "demo_inv s \<longleftrightarrow> length (sc_writers s) = WRITERS \<and>
     sc_balance s = START_BALANCE_CENTS + int (sc_commits s) * DELTA_CENTS \<and>
     sc_commits s = tally (\<lambda>w. returned (wr_phase w)) (sc_writers s) \<and>
     sc_arrived s = tally (\<lambda>w. passed (wr_phase w)) (sc_writers s) \<and>
     tally (\<lambda>w. at_once (wr_phase w)) (sc_writers s) \<le> min 1 (sc_commits s) \<and>
     (\<forall>i<length (sc_writers s). writer_ok s i (sc_writers s ! i)) \<and>
     (\<forall>i. sc_lock s = Some i \<longrightarrow> holds_row s i)"

lemma demo_invD:
  assumes "demo_inv s"
  shows "length (sc_writers s) = WRITERS"
    and "sc_balance s = START_BALANCE_CENTS + int (sc_commits s) * DELTA_CENTS"
    and "sc_commits s = tally (\<lambda>w. returned (wr_phase w)) (sc_writers s)"
    and "sc_arrived s = tally (\<lambda>w. passed (wr_phase w)) (sc_writers s)"
    and "tally (\<lambda>w. at_once (wr_phase w)) (sc_writers s) \<le> min 1 (sc_commits s)"
    and "i < length (sc_writers s) \<Longrightarrow> writer_ok s i (sc_writers s ! i)"
    and "sc_lock s = Some i \<Longrightarrow> holds_row s i"
  using assms by (simp_all add: demo_inv_def)

lemma returned_le: "returned p \<le> 1" and passed_le: "passed p \<le> 1"
  by (cases p; simp)+

lemma opened_when_returned:
  assumes "demo_inv s" "w \<in> set (sc_writers s)" "returned (wr_phase w) \<noteq> 0"
  shows "opened WRITERS s"
proof -
  obtain j where j: "j < length (sc_writers s)" "sc_writers s ! j = w"
    using assms(2) by (auto simp: in_set_conv_nth)
  obtain a n where "wr_phase w = Returned a n" using assms(3) by (cases "wr_phase w") auto
  then show ?thesis using demo_invD(6) [OF assms(1) j(1)] j(2) by (simp add: writer_ok_def)
qed

text \<open>While somebody has not passed the barrier, nobody has committed.\<close>

lemma no_commit_before_barrier:
  assumes "demo_inv s" "i < length (sc_writers s)" "passed (wr_phase (sc_writers s ! i)) = 0"
  shows "sc_commits s = 0"
proof (rule ccontr)
  assume "sc_commits s \<noteq> 0"
  then obtain w where w: "w \<in> set (sc_writers s)" "returned (wr_phase w) \<noteq> 0"
    using demo_invD(3) [OF assms(1)] by (auto simp: tally_def)
  then have "opened WRITERS s" using opened_when_returned [OF assms(1)] by blast
  moreover have "tally (\<lambda>w. passed (wr_phase w)) (sc_writers s) < length (sc_writers s)"
    using assms(2,3) by (intro tally_less [where x = "sc_writers s ! i"]) (simp_all add: passed_le [simplified])
  ultimately show False using demo_invD(1,4) [OF assms(1)] by (simp add: opened_def)
qed

text \<open>While a writer has not returned, fewer than WRITERS commits have happened.\<close>

lemma commits_below:
  assumes "demo_inv s" "i < length (sc_writers s)" "returned (wr_phase (sc_writers s ! i)) = 0"
  shows "sc_commits s < WRITERS"
proof -
  have "tally (\<lambda>w. returned (wr_phase w)) (sc_writers s) < length (sc_writers s)"
    using assms(2,3) by (intro tally_less [where x = "sc_writers s ! i"]) (simp_all add: returned_le [simplified])
  then show ?thesis using demo_invD(1,3) [OF assms(1)] by simp
qed

text \<open>
  A step of writer \<open>i\<close> keeps the other writers right: the commits and the arrivals only grow, and a
  row that another writer holds is not touched.
\<close>

lemma writer_ok_other:
  assumes "writer_ok s j w" "sc_commits s \<le> sc_commits t" "sc_arrived s \<le> sc_arrived t"
    and "sc_lock s = Some j \<Longrightarrow> sc_lock t = Some j \<and> sc_commits t = sc_commits s"
  shows "writer_ok t j w"
proof -
  have "snapshot_ok s a b v \<Longrightarrow> snapshot_ok t a b v" for a b v
    using assms(2) by (auto simp: snapshot_ok_def)
  moreover have "opened WRITERS s \<Longrightarrow> opened WRITERS t" using assms(3) by (simp add: opened_def)
  ultimately have "phase_ok t j (length (wr_retries w)) (wr_phase w)"
    using assms(1,2,4) unfolding writer_ok_def by (cases "wr_phase w") auto
  with assms(1) show ?thesis by (simp add: writer_ok_def)
qed

text \<open>One writer changes to \<open>w\<close>; what has to be checked then.\<close>

lemma demo_inv_update:
  assumes inv: "demo_inv s" and i: "i < length (sc_writers s)"
    and ws: "sc_writers t = (sc_writers s)[i := w]"
    and bal: "sc_balance t = START_BALANCE_CENTS + int (sc_commits t) * DELTA_CENTS"
    and com: "sc_commits t + returned (wr_phase (sc_writers s ! i)) = sc_commits s + returned (wr_phase w)"
    and arr: "sc_arrived t + passed (wr_phase (sc_writers s ! i)) = sc_arrived s + passed (wr_phase w)"
    and once: "at_once (wr_phase (sc_writers s ! i)) = 0" "at_once (wr_phase w) = 1 \<Longrightarrow> sc_commits s = 0 \<and> sc_commits t = 1"
    and grow: "sc_commits s \<le> sc_commits t" "sc_arrived s \<le> sc_arrived t"
    and me: "writer_ok t i w"
    and lock: "\<And>j. j \<noteq> i \<Longrightarrow> sc_lock s = Some j \<Longrightarrow> sc_lock t = Some j \<and> sc_commits t = sc_commits s"
      "\<And>j. j \<noteq> i \<Longrightarrow> sc_lock t = Some j \<Longrightarrow> sc_lock s = Some j"
      "sc_lock t = Some i \<Longrightarrow> \<exists>a n. wr_phase w = Written a n"
  shows "demo_inv t"
proof -
  note d = demo_invD [OF inv]
  have len: "length (sc_writers t) = WRITERS" using d(1) ws by simp
  have c: "sc_commits t = tally (\<lambda>w. returned (wr_phase w)) (sc_writers t)"
    using tally_update [OF i, of "\<lambda>w. returned (wr_phase w)" w] com d(3) ws by simp
  have a: "sc_arrived t = tally (\<lambda>w. passed (wr_phase w)) (sc_writers t)"
    using tally_update [OF i, of "\<lambda>w. passed (wr_phase w)" w] arr d(4) ws by simp
  have o2: "at_once (wr_phase w) \<le> 1" by (cases "wr_phase w"; simp)
  have "tally (\<lambda>w. at_once (wr_phase w)) (sc_writers t) =
      tally (\<lambda>w. at_once (wr_phase w)) (sc_writers s) + at_once (wr_phase w)"
    using tally_update [OF i, of "\<lambda>w. at_once (wr_phase w)" w] once(1) ws by simp
  moreover have "at_once (wr_phase w) = 0 \<or> at_once (wr_phase w) = 1" using o2 by linarith
  ultimately have o: "tally (\<lambda>w. at_once (wr_phase w)) (sc_writers t) \<le> min 1 (sc_commits t)"
    using d(5) once(2) grow(1) by auto
  have w: "\<forall>j<length (sc_writers t). writer_ok t j (sc_writers t ! j)"
  proof (intro allI impI)
    fix j
    assume j: "j < length (sc_writers t)"
    show "writer_ok t j (sc_writers t ! j)"
    proof (cases "j = i")
      case True
      then show ?thesis using me i ws by simp
    next
      case False
      then have "writer_ok s j (sc_writers t ! j)" using d(6) [of j] j ws by simp
      then show ?thesis by (rule writer_ok_other [OF _ grow lock(1) [OF False]])
    qed
  qed
  have l: "\<forall>j. sc_lock t = Some j \<longrightarrow> holds_row t j"
  proof (intro allI impI)
    fix j
    assume j: "sc_lock t = Some j"
    show "holds_row t j"
    proof (cases "j = i")
      case True
      then show ?thesis using lock(3) j i ws by (simp add: holds_row_def)
    next
      case False
      then have "holds_row s j" using d(7) lock(2) j by blast
      then show ?thesis using False ws by (simp add: holds_row_def)
    qed
  qed
  show ?thesis unfolding demo_inv_def using len bal c a o w l by blast
qed

lemma set_phase_fields [simp]:
  "sc_balance (set_phase i p s) = sc_balance s" "sc_commits (set_phase i p s) = sc_commits s"
  "sc_lock (set_phase i p s) = sc_lock s" "sc_arrived (set_phase i p s) = sc_arrived s"
  "sc_writers (set_phase i p s) = (sc_writers s)[i := (sc_writers s ! i)\<lparr>wr_phase := p\<rparr>]"
  by (simp_all add: set_phase_def)

lemma opened_cong: "sc_arrived t = sc_arrived s \<Longrightarrow> opened n t = opened n s"
  by (simp add: opened_def)

lemma snapshot_ok_cong: "sc_commits t = sc_commits s \<Longrightarrow> snapshot_ok t a b v = snapshot_ok s a b v"
  by (simp add: snapshot_ok_def)

lemma retries_ok_phase [simp]: "retries_ok (w\<lparr>wr_phase := p\<rparr>) = retries_ok w"
  by (simp add: retries_ok_def)

text \<open>A writer whose phase is not Written does not hold the row.\<close>

lemma not_holding:
  assumes "demo_inv s" "\<And>a n. wr_phase (sc_writers s ! i) \<noteq> Written a n"
  shows "sc_lock s \<noteq> Some i"
  using demo_invD(7) [OF assms(1), of i] assms(2) by (auto simp: holds_row_def)

lemma WRITERS_le_max: "int WRITERS \<le> maxAttempts demo_options"
  by (simp add: WRITERS_def demo_options_def)

lemma demo_inv_step:
  assumes "demo_step s t" "demo_inv s"
  shows "demo_inv t"
proof (rule demo_stepE [OF assms(1)], goal_cases)
  case (1 i a)
  have ok: "1 \<le> a" "a \<le> sc_commits s + 1" "length (wr_retries (sc_writers s ! i)) + 1 = a"
      "retries_ok (sc_writers s ! i)"
    using demo_invD(6) [OF assms(2) 1(2)] 1(3) by (simp_all add: writer_ok_def)
  have "a = 1 \<Longrightarrow> sc_commits s = 0"
    using no_commit_before_barrier [OF assms(2) 1(2)] 1(3) by simp
  then show ?case unfolding 1(1)
    using 1(2,3) ok not_holding [OF assms(2), of i]
    by (intro demo_inv_update [OF assms(2) 1(2), where w = "(sc_writers s ! i)\<lparr>wr_phase := Has_Read a (sc_balance s) (sc_commits s)\<rparr>"])
      (simp_all add: writer_ok_def snapshot_ok_def demo_invD(2) [OF assms(2)])
next
  case (2 i b v)
  have ok: "snapshot_ok s 1 b v" "length (wr_retries (sc_writers s ! i)) = 0" "retries_ok (sc_writers s ! i)"
    using demo_invD(6) [OF assms(2) 2(2)] 2(3) by (simp_all add: writer_ok_def)
  show ?case unfolding 2(1)
    using 2(2,3) ok not_holding [OF assms(2), of i]
    by (intro demo_inv_update [OF assms(2) 2(2), where w = "(sc_writers s ! i)\<lparr>wr_phase := At_Barrier b v\<rparr>"])
      (simp_all add: writer_ok_def snapshot_ok_def arrive_def demo_invD(2) [OF assms(2)])
next
  case (3 i a b v)
  have ok: "snapshot_ok s a b v" "length (wr_retries (sc_writers s ! i)) + 1 = a" "retries_ok (sc_writers s ! i)"
    using demo_invD(6) [OF assms(2) 3(2)] 3(3) by (simp_all add: writer_ok_def)
  have "sc_commits s \<noteq> 0" using ok(1) 3(4) by (auto simp: snapshot_ok_def)
  then obtain w where w: "w \<in> set (sc_writers s)" "returned (wr_phase w) \<noteq> 0"
    using demo_invD(3) [OF assms(2)] by (auto simp: tally_def)
  then have o: "opened WRITERS s" using opened_when_returned [OF assms(2)] by blast
  show ?case unfolding 3(1)
    using 3(2-4) ok o not_holding [OF assms(2), of i]
    by (intro demo_inv_update [OF assms(2) 3(2), where w = "(sc_writers s ! i)\<lparr>wr_phase := Ready a b v\<rparr>"])
      (simp_all add: writer_ok_def snapshot_ok_def opened_def demo_invD(2) [OF assms(2)])
next
  case (4 i b v)
  have ok: "snapshot_ok s 1 b v" "length (wr_retries (sc_writers s ! i)) = 0" "retries_ok (sc_writers s ! i)"
    using demo_invD(6) [OF assms(2) 4(2)] 4(3) by (simp_all add: writer_ok_def)
  show ?case unfolding 4(1)
    using 4(2-4) ok not_holding [OF assms(2), of i]
    by (intro demo_inv_update [OF assms(2) 4(2), where w = "(sc_writers s ! i)\<lparr>wr_phase := Ready 1 b v\<rparr>"])
      (simp_all add: writer_ok_def snapshot_ok_def opened_def demo_invD(2) [OF assms(2)])
next
  case (5 i a b)
  have ok: "snapshot_ok s a b (sc_commits s)" "opened WRITERS s" "length (wr_retries (sc_writers s ! i)) + 1 = a"
      "retries_ok (sc_writers s ! i)"
    using demo_invD(6) [OF assms(2) 5(2)] 5(3) by (simp_all add: writer_ok_def)
  show ?case unfolding 5(1)
    using 5(2-4) ok
    by (intro demo_inv_update [OF assms(2) 5(2), where w = "(sc_writers s ! i)\<lparr>wr_phase := Written a (b + DELTA_CENTS)\<rparr>"])
      (simp_all add: writer_ok_def snapshot_ok_def opened_def demo_invD(2) [OF assms(2)])
next
  case (6 i a b v delay)
  have ok: "snapshot_ok s a b v" "opened WRITERS s" "length (wr_retries (sc_writers s ! i)) + 1 = a"
      "retries_ok (sc_writers s ! i)"
    using demo_invD(6) [OF assms(2) 6(2)] 6(3) by (simp_all add: writer_ok_def)
  have a: "a \<le> sc_commits s" using ok(1) 6(5) by (simp add: snapshot_ok_def)
  have "sc_commits s < WRITERS" using commits_below [OF assms(2) 6(2)] 6(3) by simp
  then have lim: "\<not> int a \<ge> maxAttempts demo_options" using a WRITERS_le_max by linarith
  let ?w = "\<lparr>wr_phase = Sleeping a, wr_retries = wr_retries (sc_writers s ! i) @
    [\<lparr>ri_attempt = a, ri_sqlState = ''40001'', ri_delayMs = delay\<rparr>]\<rparr>"
  have t: "t = s\<lparr>sc_writers := (sc_writers s)[i := ?w]\<rparr>"
    using 6(1) lim by (simp add: caught_def serialization_failure_def)
  show ?case
    using 6(2-5) ok a not_holding [OF assms(2), of i]
    by (intro demo_inv_update [OF assms(2) 6(2), where w = ?w])
      (simp_all add: t writer_ok_def snapshot_ok_def retries_ok_def demo_invD(2) [OF assms(2)])
next
  case (7 i a n)
  have ok: "snapshot_ok s a (n - DELTA_CENTS) (sc_commits s)" "opened WRITERS s" "sc_lock s = Some i"
      "length (wr_retries (sc_writers s ! i)) + 1 = a" "retries_ok (sc_writers s ! i)"
    using demo_invD(6) [OF assms(2) 7(2)] 7(3) by (simp_all add: writer_ok_def)
  have n: "n = START_BALANCE_CENTS + int (sc_commits s + 1) * DELTA_CENTS"
    using ok(1) by (simp add: snapshot_ok_def algebra_simps)
  have a: "1 \<le> a" "a \<le> sc_commits s + 1" "a = 1 \<Longrightarrow> sc_commits s = 0"
    using ok(1) by (simp_all add: snapshot_ok_def)
  let ?w = "(sc_writers s ! i)\<lparr>wr_phase := Returned a n\<rparr>"
  have t: "sc_writers t = (sc_writers s)[i := ?w]" "sc_balance t = n" "sc_commits t = sc_commits s + 1"
      "sc_lock t = None" "sc_arrived t = sc_arrived s"
    by (simp_all add: 7(1))
  have me: "writer_ok t i ?w" using a ok by (simp add: writer_ok_def opened_def t)
  have once: "at_once (wr_phase ?w) = 1 \<Longrightarrow> sc_commits s = 0 \<and> sc_commits t = 1"
    using a(3) t(3) by (cases "a = 1") simp_all
  show ?case
    by (rule demo_inv_update [OF assms(2) 7(2) t(1) _ _ _ _ once _ _ me])
      (simp_all add: 7(3) t(2-5) n ok(3))
next
  case (8 i a)
  have ok: "1 \<le> a" "a \<le> sc_commits s" "length (wr_retries (sc_writers s ! i)) = a" "retries_ok (sc_writers s ! i)"
    using demo_invD(6) [OF assms(2) 8(2)] 8(3) by (simp_all add: writer_ok_def)
  show ?case unfolding 8(1)
    using 8(2,3) ok not_holding [OF assms(2), of i]
    by (intro demo_inv_update [OF assms(2) 8(2), where w = "(sc_writers s ! i)\<lparr>wr_phase := Reading (Suc a)\<rparr>"])
      (simp_all add: writer_ok_def snapshot_ok_def opened_def demo_invD(2) [OF assms(2)])
qed

lemma demo_inv_init: "demo_init s \<Longrightarrow> demo_inv s"
  by (simp add: demo_init_def demo_inv_def tally_def writer_ok_def retries_ok_def holds_row_def
      sum_list_triv map_replicate_const)

interpretation demo: step_system demo_init demo_step demo_inv
  using demo_inv_init demo_inv_step by unfold_locales

section \<open>Progress and termination\<close>

text \<open>What is left to do for a writer: a bound on its steps.\<close>

fun rank :: "phase \<Rightarrow> nat" where
  "rank (Reading a) = 7 * (WRITERS + 1 - a) + 5"
| "rank (Has_Read a b v) = 7 * (WRITERS + 1 - a) + 4"
| "rank (At_Barrier b v) = 7 * WRITERS + 3"
| "rank (Ready a b v) = 7 * (WRITERS + 1 - a) + 2"
| "rank (Written a n) = 7 * (WRITERS + 1 - a) + 1"
| "rank (Sleeping a) = 7 * (WRITERS + 1 - a)"
| "rank (Returned a n) = 0"
| "rank (Threw e) = 0"

definition scene_rank :: "scene \<Rightarrow> nat" where
  "scene_rank s = tally (\<lambda>w. rank (wr_phase w)) (sc_writers s)"

lemma scene_rank_less:
  assumes "i < length (sc_writers s)" "sc_writers t = (sc_writers s)[i := w]"
    and "rank (wr_phase w) < rank (wr_phase (sc_writers s ! i))"
  shows "scene_rank t < scene_rank s"
  using tally_update [OF assms(1), of "\<lambda>w. rank (wr_phase w)" w] assms(2,3)
  by (simp add: scene_rank_def)

lemma scene_rank_phase:
  assumes "i < length (sc_writers s)" "wr_phase (sc_writers s ! i) = q"
    and "sc_writers t = (sc_writers s)[i := (sc_writers s ! i)\<lparr>wr_phase := p\<rparr>]" "rank p < rank q"
  shows "scene_rank t < scene_rank s"
  by (rule scene_rank_less [OF assms(1,3)]) (simp add: assms(2,4))

lemma demo_step_rank:
  assumes "demo_step s t" "demo_inv s"
  shows "scene_rank t < scene_rank s"
proof (rule demo_stepE [OF assms(1)], goal_cases)
  case (6 i a b v delay)
  let ?w = "\<lparr>wr_phase = Sleeping a, wr_retries = wr_retries (sc_writers s ! i) @
    [\<lparr>ri_attempt = a, ri_sqlState = ''40001'', ri_delayMs = delay\<rparr>]\<rparr>"
  have r: "rank (Threw e) < rank (Ready a b v)" "rank (Sleeping a) < rank (Ready a b v)" for e by simp_all
  show ?case
  proof (cases "int a \<ge> maxAttempts demo_options")
    case True
    then have "sc_writers t = (sc_writers s)[i := (sc_writers s ! i)\<lparr>wr_phase := Threw serialization_failure\<rparr>]"
      using 6(1) by (simp add: caught_def)
    then show ?thesis using scene_rank_less [OF 6(2)] 6(3) by simp
  next
    case False
    then have "sc_writers t = (sc_writers s)[i := ?w]"
      using 6(1) by (simp add: caught_def serialization_failure_def)
    then show ?thesis using scene_rank_less [OF 6(2)] 6(3) by simp
  qed
next
  case (8 i a)
  have "a \<le> sc_commits s" using demo_invD(6) [OF assms(2) 8(2)] 8(3) by (simp add: writer_ok_def)
  moreover have "sc_commits s < WRITERS" using commits_below [OF assms(2) 8(2)] 8(3) by simp
  ultimately have "rank (Reading (Suc a)) < rank (Sleeping a)" by simp
  then show ?case unfolding 8(1)
    by (intro scene_rank_less [OF 8(2), where w = "(sc_writers s ! i)\<lparr>wr_phase := Reading (Suc a)\<rparr>"])
      (simp_all add: 8(3))
next
  case (1 i a)
  show ?case by (rule scene_rank_phase [OF 1(2,3)]) (simp add: 1(1), simp)
next
  case (2 i b v)
  show ?case by (rule scene_rank_phase [OF 2(2,3)]) (simp add: 2(1) arrive_def, simp)
next
  case (3 i a b v)
  show ?case by (rule scene_rank_phase [OF 3(2,3)]) (simp add: 3(1), simp)
next
  case (4 i b v)
  show ?case by (rule scene_rank_phase [OF 4(2,3)]) (simp add: 4(1), simp)
next
  case (5 i a b)
  show ?case by (rule scene_rank_phase [OF 5(2,3)]) (simp add: 5(1), simp)
next
  case (7 i a n)
  show ?case by (rule scene_rank_phase [OF 7(2,3)]) (simp add: 7(1), simp)
qed

lemma demo_steps_bound:
  "(demo_step ^^ n) s t \<Longrightarrow> demo_inv s \<Longrightarrow> demo_inv t \<and> n + scene_rank t \<le> scene_rank s"
proof (induction n arbitrary: t)
  case (Suc n)
  then obtain u where u: "(demo_step ^^ n) s u" "demo_step u t" by auto
  then have "demo_inv u" "n + scene_rank u \<le> scene_rank s" using Suc by blast+
  then show ?case using demo_step_rank [OF u(2)] demo_inv_step [OF u(2)] by simp
qed simp

text \<open>A scene in which somebody has not returned can go on: nobody waits for ever.\<close>

lemma demo_progress:
  assumes inv: "demo_inv s" and i: "i < length (sc_writers s)"
    and nr: "attempts_of (sc_writers s ! i) = None"
  shows "\<exists>t. demo_step s t"
proof (cases "sc_lock s")
  case (Some j)
  then obtain a n where "j < length (sc_writers s)" "wr_phase (sc_writers s ! j) = Written a n"
    using demo_invD(7) [OF inv] by (auto simp: holds_row_def)
  then show ?thesis by (blast intro: demo_step.commit)
next
  case None
  note ok = demo_invD(6) [OF inv i, unfolded writer_ok_def]
  have before: "\<exists>t. demo_step s t"
    if k: "k < length (sc_writers s)" "passed (wr_phase (sc_writers s ! k)) = 0" for k
    using k(2) demo_step.select [OF k(1)] demo_step.reach_barrier [OF k(1) _ refl]
    by (cases "wr_phase (sc_writers s ! k)") (auto split: if_splits)
  show ?thesis
  proof (cases "wr_phase (sc_writers s ! i)")
    case (Has_Read a b v)
    then show ?thesis using demo_step.reach_barrier [OF i] demo_step.no_barrier [OF i] by blast
  next
    case (At_Barrier b v)
    show ?thesis
    proof (cases "opened WRITERS s")
      case True
      then show ?thesis using demo_step.pass_barrier [OF i At_Barrier] by blast
    next
      case False
      then have "tally (\<lambda>w. passed (wr_phase w)) (sc_writers s) < length (sc_writers s)"
        using demo_invD(1,4) [OF inv] by (simp add: opened_def)
      then obtain k where "k < length (sc_writers s)" "passed (wr_phase (sc_writers s ! k)) = 0"
        using tally_lessD by (metis in_set_conv_nth)
      then show ?thesis by (rule before)
    qed
  next
    case (Ready a b v)
    show ?thesis
    proof (cases "sc_commits s = v")
      case True
      then show ?thesis using demo_step.update [OF i Ready None] by blast
    next
      case False
      have "(1 :: int) \<le> max 1 (backoff_ceiling demo_options a)" by simp
      then show ?thesis using demo_step.conflict [OF i Ready None False, of 1] by blast
    qed
  next
    case (Written a n)
    then show ?thesis using ok None by simp
  next
    case (Threw e)
    then show ?thesis using ok by simp
  next
    case (Returned a n)
    then show ?thesis using nr by (simp add: attempts_of_def)
  qed (use demo_step.select [OF i] demo_step.wake [OF i] in blast)+
qed

lemma demo_progress_all: "demo_inv s \<Longrightarrow> all_returned s \<or> (\<exists>t. demo_step s t)"
  using demo_progress by (metis all_returned_def in_set_conv_nth)

lemma demo_can_finish:
  assumes "reachable demo_init demo_step s"
  shows "\<exists>t. reachable demo_init demo_step t \<and> all_returned t"
  using assms
proof (induction "scene_rank s" arbitrary: s rule: less_induct)
  case less
  have inv: "demo_inv s" by (rule demo.inv_reachable [OF less.prems])
  then consider "all_returned s" | t where "demo_step s t" using demo_progress_all by blast
  then show ?case
  proof cases
    case 2
    then show ?thesis
      using less.hyps [OF demo_step_rank [OF 2 inv] reach_step [OF less.prems 2]] by blast
  qed (use less.prems in blast)
qed

section \<open>Properties\<close>

lemma scene_rank_init: "demo_init s \<Longrightarrow> scene_rank s = WRITERS * (7 * WRITERS + 5)"
  by (simp add: demo_init_def scene_rank_def tally_def sum_list_replicate)

lemma returned_writer:
  assumes inv: "demo_inv s" and all: "all_returned s" and w: "w \<in> set (sc_writers s)"
  shows "\<exists>a n. wr_phase w = Returned a n \<and> 1 \<le> a \<and> a \<le> sc_commits s \<and>
    length (wr_retries w) + 1 = a \<and> retries_ok w"
proof -
  obtain i where i: "i < length (sc_writers s)" "sc_writers s ! i = w" using w by (auto simp: in_set_conv_nth)
  obtain a n where "wr_phase w = Returned a n"
    using all w by (cases "wr_phase w") (auto simp: all_returned_def attempts_of_def)
  then show ?thesis using demo_invD(6) [OF inv i(1)] i(2) by (simp add: writer_ok_def)
qed

lemma all_returned_commits:
  assumes "demo_inv s" "all_returned s"
  shows "sc_commits s = WRITERS"
proof -
  have "map (\<lambda>w. returned (wr_phase w)) (sc_writers s) = map (\<lambda>_. 1) (sc_writers s)"
    using returned_writer [OF assms] by (intro map_cong refl) fastforce
  then have "tally (\<lambda>w. returned (wr_phase w)) (sc_writers s) = length (sc_writers s)"
    unfolding tally_def by (simp only: sum_list_triv) simp
  then show ?thesis using demo_invD(1,3) [OF assms(1)] by simp
qed

lemma all_returned_retries:
  assumes "demo_inv s" "all_returned s"
  shows "WRITERS \<le> total_retries s + 1"
proof -
  let ?f = "\<lambda>w. length (wr_retries w)" and ?g = "\<lambda>w. at_once (wr_phase w)"
  have "1 \<le> ?f w + ?g w" if "w \<in> set (sc_writers s)" for w
    using returned_writer [OF assms that] by (auto simp: Suc_le_eq)
  then have "tally (\<lambda>_. 1) (sc_writers s) \<le> tally (\<lambda>w. ?f w + ?g w) (sc_writers s)"
    by (rule tally_mono)
  moreover have "tally (\<lambda>w. ?f w + ?g w) (sc_writers s) = total_retries s + tally ?g (sc_writers s)"
    by (simp add: tally_def total_retries_def sum_list_addf)
  moreover have "tally ?g (sc_writers s) \<le> 1" using demo_invD(5) [OF assms(1)] by simp
  ultimately show ?thesis using demo_invD(1) [OF assms(1)] by (simp add: tally_def sum_list_triv)
qed

text \<open>
  (C19) The scenario of demo:retry loses no update, in any interleaving of the writers: once every
  writer has returned, the balance is the start balance plus one DELTA_CENTS per writer, every
  writer needed at most WRITERS attempts, the barrier has provoked at least WRITERS - 1
  serialization failures, and the script finds none of its problems.
\<close>

theorem demo_retry_no_lost_update:
  assumes "reachable demo_init demo_step s" "all_returned s"
  shows "sc_balance s = START_BALANCE_CENTS + int WRITERS * DELTA_CENTS \<and>
    (\<forall>w\<in>set (sc_writers s). \<exists>a n. wr_phase w = Returned a n \<and> a \<le> WRITERS) \<and>
    WRITERS - 1 \<le> total_retries s \<and> demo_problems s = []"
proof -
  have inv: "demo_inv s" by (rule demo.inv_reachable [OF assms(1)])
  note w = returned_writer [OF inv assms(2)]
  have c: "sc_commits s = WRITERS" by (rule all_returned_commits [OF inv assms(2)])
  have bal: "sc_balance s = START_BALANCE_CENTS + int WRITERS * DELTA_CENTS"
    using demo_invD(2) [OF inv] c by simp
  have t: "WRITERS - 1 \<le> total_retries s" using all_returned_retries [OF inv assms(2)] by simp
  then have "total_retries s \<noteq> 0" by (simp add: WRITERS_def)
  moreover have "\<forall>st\<in>set (caught_states s). st = ''40001''"
    using w by (fastforce simp: caught_states_def retries_ok_def)
  ultimately have "demo_problems s = []" using bal by (simp add: demo_problems_def Let_def)
  with bal t c w show ?thesis by fastforce
qed

text \<open>
  (C20) The scenario finishes whatever the schedule: no writer throws, nobody waits for ever (a
  scene in which somebody has not returned has a next step), and a run from the start has at most
  200 steps.
\<close>

theorem demo_retry_finishes:
  assumes "reachable demo_init demo_step s"
  shows "(\<forall>w\<in>set (sc_writers s). \<forall>e. wr_phase w \<noteq> Threw e) \<and>
    (all_returned s \<or> (\<exists>t. demo_step s t)) \<and>
    (\<forall>n u. demo_init u \<and> (demo_step ^^ n) u s \<longrightarrow> n \<le> 200)"
proof (intro conjI)
  have inv: "demo_inv s" by (rule demo.inv_reachable [OF assms])
  show "\<forall>w\<in>set (sc_writers s). \<forall>e. wr_phase w \<noteq> Threw e"
    using demo_invD(6) [OF inv] by (fastforce simp: in_set_conv_nth writer_ok_def)
  show "all_returned s \<or> (\<exists>t. demo_step s t)" by (rule demo_progress_all [OF inv])
  show "\<forall>n u. demo_init u \<and> (demo_step ^^ n) u s \<longrightarrow> n \<le> 200"
  proof (intro allI impI)
    fix n u
    assume "demo_init u \<and> (demo_step ^^ n) u s"
    then show "n \<le> 200"
      using demo_steps_bound [of n u s] demo_inv_init [of u] scene_rank_init [of u] by (simp add: WRITERS_def)
  qed
qed

definition start_scene :: scene where
  "start_scene = \<lparr>sc_balance = START_BALANCE_CENTS, sc_commits = 0, sc_lock = None,
     sc_arrived = 0, sc_writers = replicate WRITERS \<lparr>wr_phase = Reading 1, wr_retries = []\<rparr>\<rparr>"

lemma start_scene_reachable: "reachable demo_init demo_step start_scene"
  by (rule reach_init) (simp add: demo_init_def start_scene_def)

theorem demo_retry_no_lost_update_witness:
  "\<exists>s. reachable demo_init demo_step s \<and> sc_balance s = 1000500 \<and> 4 \<le> total_retries s"
proof -
  obtain s where s: "reachable demo_init demo_step s" "all_returned s"
    using demo_can_finish [OF start_scene_reachable] by blast
  with demo_retry_no_lost_update [OF s] show ?thesis
    by (auto simp: START_BALANCE_CENTS_def WRITERS_def DELTA_CENTS_def)
qed

theorem demo_retry_finishes_witness: "\<exists>t. demo_step start_scene t"
proof -
  have "\<not> all_returned start_scene"
    by (simp add: all_returned_def start_scene_def attempts_of_def WRITERS_def)
  with demo_retry_finishes [OF start_scene_reachable] show ?thesis by blast
qed

end
