(* ===== verification/Worker.thy ===== *)
theory Worker
  imports Database Counting
begin

text \<open>
  The worker pool of \<open>concurrency/worker.ts\<close> on the \<open>job_queue\<close> table, as the script
  \<open>demo-workers.ts\<close> runs it: every worker claims one pending row at a time with FOR UPDATE SKIP
  LOCKED, handles it with the row locked, and marks it done in the same transaction. The workers
  interleave freely, and a worker may die at any moment, which releases its row unchanged.
\<close>

section \<open>Workers and the queue\<close>

datatype worker_phase = Polling | Handling uuid | Finished | Died

record worker_options =
  handlerMs :: int
  maxIdlePolls :: int
  idleDelayMs :: int

text \<open>\<open>wk_id\<close>, \<open>wk_jobIds\<close> and \<open>wk_idlePolls\<close> are what \<open>WorkerStats\<close> reports.\<close>

record worker_state =
  wk_id :: string
  wk_jobIds :: "uuid list"
  wk_idlePolls :: nat
  wk_consecutiveIdle :: nat
  wk_phase :: worker_phase

record pool =
  po_jobs :: "job_row list"
  po_workers :: "worker_state list"

fun held :: "worker_phase \<Rightarrow> uuid list" where
  "held (Handling i) = [i]"
| "held _ = []"

definition locks :: "pool \<Rightarrow> uuid list" where
  "locks p = concat (map (\<lambda>w. held (wk_phase w)) (po_workers p))"

text \<open>The SELECT: pending rows that nobody holds, oldest first, ties by id, one of them.\<close>

definition claimable :: "pool \<Rightarrow> job_row list" where
  "claimable p = filter (\<lambda>j. j_status j = Job_pending \<and> j_id j \<notin> set (locks p)) (po_jobs p)"

definition claim :: "pool \<Rightarrow> uuid option" where
  "claim p = (case sort_key (\<lambda>j. (j_created_at j, j_id j)) (claimable p) of
     [] \<Rightarrow> None | j # _ \<Rightarrow> Some (j_id j))"

text \<open>The UPDATE of a claimed row.\<close>

definition mark_done :: "string \<Rightarrow> job_row \<Rightarrow> job_row" where
  "mark_done w j = j\<lparr>j_status := Job_done, j_processed := j_processed j + 1, j_worker_id := Some w\<rparr>"

definition finish_job :: "uuid \<Rightarrow> string \<Rightarrow> job_row list \<Rightarrow> job_row list" where
  "finish_job i w = map (\<lambda>j. if j_id j = i then mark_done w j else j)"

definition set_worker :: "nat \<Rightarrow> worker_state \<Rightarrow> pool \<Rightarrow> pool" where
  "set_worker k w p = p\<lparr>po_workers := (po_workers p)[k := w]\<rparr>"

text \<open>The three outcomes of an iteration, on the worker's own variables.\<close>

definition started_job :: "uuid \<Rightarrow> worker_state \<Rightarrow> worker_state" where
  "started_job i w = w\<lparr>wk_phase := Handling i\<rparr>"

definition ended_job :: "uuid \<Rightarrow> worker_state \<Rightarrow> worker_state" where
  "ended_job i w = w\<lparr>wk_jobIds := wk_jobIds w @ [i], wk_consecutiveIdle := 0, wk_phase := Polling\<rparr>"

definition idle_poll :: "worker_options \<Rightarrow> worker_state \<Rightarrow> worker_state" where
  "idle_poll opts w = w\<lparr>wk_idlePolls := wk_idlePolls w + 1,
     wk_consecutiveIdle := wk_consecutiveIdle w + 1,
     wk_phase := (if int (wk_consecutiveIdle w + 1) \<ge> maxIdlePolls opts then Finished else Polling)\<rparr>"

inductive work_step :: "worker_options \<Rightarrow> pool \<Rightarrow> pool \<Rightarrow> bool" for opts where
  claim_job: "k < length (po_workers p) \<Longrightarrow> wk_phase (po_workers p ! k) = Polling \<Longrightarrow>
     claim p = Some i \<Longrightarrow> work_step opts p (set_worker k (started_job i (po_workers p ! k)) p)"
| commit_job: "k < length (po_workers p) \<Longrightarrow> wk_phase (po_workers p ! k) = Handling i \<Longrightarrow>
     work_step opts p ((set_worker k (ended_job i (po_workers p ! k)) p)
       \<lparr>po_jobs := finish_job i (wk_id (po_workers p ! k)) (po_jobs p)\<rparr>)"
| poll_idle: "k < length (po_workers p) \<Longrightarrow> wk_phase (po_workers p ! k) = Polling \<Longrightarrow>
     claim p = None \<Longrightarrow> work_step opts p (set_worker k (idle_poll opts (po_workers p ! k)) p)"

text \<open>
  A crash: the connection is gone, the open transaction with it. \<open>wk_jobIds\<close> is the history of what a
  worker committed: the list that its process keeps is appended right after the COMMIT and is lost with
  the process, and nobody reads it before the worker returns.
\<close>

inductive crash_step :: "pool \<Rightarrow> pool \<Rightarrow> bool" where
  crash: "k < length (po_workers p) \<Longrightarrow> wk_phase (po_workers p ! k) \<notin> {Finished, Died} \<Longrightarrow>
     crash_step p (set_worker k ((po_workers p ! k)\<lparr>wk_phase := Died\<rparr>) p)"

definition pool_step :: "worker_options \<Rightarrow> pool \<Rightarrow> pool \<Rightarrow> bool" where
  "pool_step opts p q \<longleftrightarrow> work_step opts p q \<or> crash_step p q"

inductive_cases work_stepE: "work_step opts p q"
inductive_cases crash_stepE: "crash_step p q"

definition new_worker :: "string \<Rightarrow> worker_state" where
  "new_worker w = \<lparr>wk_id = w, wk_jobIds = [], wk_idlePolls = 0, wk_consecutiveIdle = 0,
     wk_phase = Polling\<rparr>"

text \<open>The pool over the given rows; a row is unfinished with \<open>processed\<close> 0, or done with 1.\<close>

definition queue_ok :: "job_row list \<Rightarrow> bool" where
  "queue_ok jobs \<longleftrightarrow> distinct (map j_id jobs) \<and>
     list_all (\<lambda>j. j_processed j = (if j_status j = Job_done then 1 else 0)) jobs"

definition start_pool :: "job_row list \<Rightarrow> string list \<Rightarrow> pool" where
  "start_pool jobs ws = \<lparr>po_jobs = jobs, po_workers = map new_worker ws\<rparr>"

section \<open>The script\<close>

definition JOBS :: nat where "JOBS = 24"
definition WORKERS :: nat where "WORKERS = 4"
definition HANDLER_MS :: int where "HANDLER_MS = 60"
definition JOB_TYPE :: string where "JOB_TYPE = ''demo_receipt''"

text \<open>\<open>reset\<close>: the generated ids and the creation times are arguments.\<close>

definition reset_queue :: "(nat \<Rightarrow> uuid) \<Rightarrow> (nat \<Rightarrow> millis) \<Rightarrow> job_row list" where
  "reset_queue new_id now = map (\<lambda>n. \<lparr>j_id = new_id n, j_type = JOB_TYPE,
     j_payload = [(''n'', nat_text n)], j_status = Job_pending, j_processed = 0,
     j_worker_id = None, j_created_at = now n\<rparr>) [1..<JOBS + 1]"

definition demo_pool :: "(nat \<Rightarrow> uuid) \<Rightarrow> (nat \<Rightarrow> millis) \<Rightarrow> pool" where
  "demo_pool new_id now = start_pool (reset_queue new_id now)
     (map (\<lambda>n. ''worker-'' @ nat_text (n + 1)) [0..<WORKERS])"

definition demo_worker_options :: worker_options where
  "demo_worker_options = \<lparr>handlerMs = HANDLER_MS, maxIdlePolls = 3, idleDelayMs = 25\<rparr>"

definition processedTwice :: "pool \<Rightarrow> nat" where
  "processedTwice p = length (filter (\<lambda>j. j_processed j > 1) (po_jobs p))"

definition unfinished :: "pool \<Rightarrow> nat" where
  "unfinished p = length (filter (\<lambda>j. j_status j \<noteq> Job_done \<or> j_processed j \<noteq> 1) (po_jobs p))"

definition claimedIds :: "pool \<Rightarrow> uuid list" where
  "claimedIds p = concat (map wk_jobIds (po_workers p))"

definition perWorker :: "pool \<Rightarrow> string \<Rightarrow> nat" where
  "perWorker p w = length (filter (\<lambda>j. j_worker_id j = Some w) (po_jobs p))"

definition activeWorkers :: "pool \<Rightarrow> nat" where
  "activeWorkers p = length (filter (\<lambda>w. length (wk_jobIds w) > 0) (po_workers p))"

text \<open>The script grades itself; the measured time is an argument.\<close>

definition worker_problems :: "int \<Rightarrow> pool \<Rightarrow> string list" where
  "worker_problems elapsedMs p =
     (let claimed = length (claimedIds p); distinctClaimed = length (js_uniq (claimedIds p));
          sequentialMs = int JOBS * HANDLER_MS
      in (if processedTwice p \<noteq> 0
          then [nat_text (processedTwice p) @ '' job(s) processed more than once '' @ em_dash @ '' SKIP LOCKED did not hold''] else []) @
         (if unfinished p \<noteq> 0
          then [nat_text (unfinished p) @ '' job(s) are not 'done' with processed = 1''] else []) @
         (if claimed \<noteq> JOBS \<or> distinctClaimed \<noteq> JOBS
          then [''workers claimed '' @ nat_text claimed @ '' jobs ('' @ nat_text distinctClaimed @
                '' distinct), expected '' @ nat_text JOBS @ '' distinct''] else []) @
         (if activeWorkers p < 2
          then [''only '' @ nat_text (activeWorkers p) @ '' worker(s) claimed anything '' @ em_dash @ '' the pool was not shared''] else []) @
         (if elapsedMs \<ge> sequentialMs
          then [int_text elapsedMs @ '' ms is not faster than the '' @ int_text sequentialMs @
                '' ms sequential baseline''] else []))"

section \<open>Claims and the table\<close>

text \<open>Who has finished which job, from the workers' own lists.\<close>

definition claims :: "pool \<Rightarrow> (uuid \<times> string) list" where
  "claims p = concat (map (\<lambda>w. map (\<lambda>i. (i, wk_id w)) (wk_jobIds w)) (po_workers p))"

lemma claimedIds_claims: "claimedIds p = map fst (claims p)"
  by (simp add: claimedIds_def claims_def map_concat comp_def)

definition settle :: "(uuid \<Rightarrow> string option) \<Rightarrow> job_row \<Rightarrow> job_row" where
  "settle c j = (case c (j_id j) of None \<Rightarrow> j | Some w \<Rightarrow> mark_done w j)"

definition pending_ids :: "job_row list \<Rightarrow> uuid set" where
  "pending_ids jobs = {j_id j |j. j \<in> set jobs \<and> j_status j = Job_pending}"

text \<open>
  The invariant: no job is claimed twice (neither finished nor held), only rows that were pending at
  the start are claimed, and the table is the start table with exactly the finished jobs marked.
\<close>

definition pool_inv :: "job_row list \<Rightarrow> pool \<Rightarrow> bool" where
  "pool_inv jobs p \<longleftrightarrow> distinct (claimedIds p @ locks p) \<and>
     set (claimedIds p @ locks p) \<subseteq> pending_ids jobs \<and>
     po_jobs p = map (settle (map_of (claims p))) jobs"

lemma pool_fields [simp]:
  "po_jobs (set_worker k w p) = po_jobs p"
  "po_workers (set_worker k w p) = (po_workers p)[k := w]"
  by (simp_all add: set_worker_def)

lemma mset_locks:
  assumes "k < length (po_workers p)" "po_workers q = (po_workers p)[k := w]"
  shows "mset (locks q) + mset (held (wk_phase (po_workers p ! k))) = mset (locks p) + mset (held (wk_phase w))"
  using mset_concat_update [OF assms(1), of "\<lambda>w. held (wk_phase w)" w] assms(2) by (simp add: locks_def)

lemma mset_claims:
  assumes "k < length (po_workers p)" "po_workers q = (po_workers p)[k := w]"
  shows "mset (claims q) + mset (map (\<lambda>i. (i, wk_id (po_workers p ! k))) (wk_jobIds (po_workers p ! k))) =
    mset (claims p) + mset (map (\<lambda>i. (i, wk_id w)) (wk_jobIds w))"
  using mset_concat_update [OF assms(1), of "\<lambda>w. map (\<lambda>i. (i, wk_id w)) (wk_jobIds w)" w] assms(2)
  by (simp add: claims_def)

text \<open>A step in which the worker keeps its id and its list of jobs leaves the claims alone.\<close>

lemma claims_same:
  assumes "k < length (po_workers p)" "po_workers q = (po_workers p)[k := w]"
    and "wk_id w = wk_id (po_workers p ! k)" "wk_jobIds w = wk_jobIds (po_workers p ! k)"
  shows "claims q = claims p"
proof -
  have "map (\<lambda>w. map (\<lambda>i. (i, wk_id w)) (wk_jobIds w)) (po_workers q) =
      map (\<lambda>w. map (\<lambda>i. (i, wk_id w)) (wk_jobIds w)) (po_workers p)"
    unfolding assms(2) by (rule map_update_same [OF assms(1)]) (simp add: assms(3,4))
  then show ?thesis by (simp only: claims_def)
qed

lemma claim_SomeD:
  assumes "claim p = Some i"
  shows "\<exists>j\<in>set (po_jobs p). j_id j = i \<and> j_status j = Job_pending \<and> i \<notin> set (locks p)"
proof -
  obtain j js where js: "sort_key (\<lambda>j. (j_created_at j, j_id j)) (claimable p) = j # js" "j_id j = i"
    using assms by (auto simp: claim_def split: list.splits)
  then have "j \<in> set (sort_key (\<lambda>j. (j_created_at j, j_id j)) (claimable p))" by simp
  then have "j \<in> set (claimable p)" by simp
  with js(2) show ?thesis by (auto simp: claimable_def)
qed

lemma claim_None: "claim p = None \<longleftrightarrow> claimable p = []"
proof -
  have "sort_key f xs = [] \<longleftrightarrow> xs = []" for f :: "job_row \<Rightarrow> millis \<times> uuid" and xs
    by (metis length_0_conv length_sort)
  then show ?thesis by (auto simp: claim_def split: list.splits)
qed

lemma mark_done_fields [simp]: "j_id (mark_done w j) = j_id j" "j_status (mark_done w j) = Job_done"
  by (simp_all add: mark_done_def)

lemma settle_id [simp]: "j_id (settle c j) = j_id j"
  by (simp add: settle_def split: option.splits)

text \<open>A row that is still pending was pending at the start and nobody has finished it.\<close>

lemma pending_unclaimed:
  assumes "pool_inv jobs p" "j \<in> set (po_jobs p)" "j_status j = Job_pending"
  shows "j_id j \<in> pending_ids jobs" "j_id j \<notin> set (claimedIds p)"
proof -
  obtain j0 where j0: "j0 \<in> set jobs" "j = settle (map_of (claims p)) j0"
    using assms(1,2) by (auto simp: pool_inv_def)
  then have "map_of (claims p) (j_id j0) = None" "j = j0"
    using assms(3) by (auto simp: settle_def split: option.splits)
  then show "j_id j \<in> pending_ids jobs" "j_id j \<notin> set (claimedIds p)"
    using j0 assms(3) by (auto simp: pending_ids_def claimedIds_claims map_of_eq_None_iff)
qed

section \<open>Every step keeps the invariant\<close>

lemma finish_job_settle:
  assumes "distinct (map fst cs)" "set ds = insert (i, w) (set cs)" "distinct (map fst ds)"
    and "i \<notin> fst ` set cs"
  shows "finish_job i w (map (settle (map_of cs)) jobs) = map (settle (map_of ds)) jobs"
proof -
  have "map_of ds = map_of ((i, w) # cs)"
    by (subst map_of_inject_set) (use assms in auto)
  moreover have "map_of cs i = None" using assms(4) by (simp add: map_of_eq_None_iff)
  ultimately have "(if j_id (settle (map_of cs) j) = i then mark_done w (settle (map_of cs) j)
      else settle (map_of cs) j) = settle (map_of ds) j" for j
    by (simp only: settle_id) (cases "j_id j = i"; simp add: settle_def)
  then show ?thesis by (simp add: finish_job_def)
qed

lemma pool_inv_started:
  assumes "pool_inv jobs p" "k < length (po_workers p)" "wk_phase (po_workers p ! k) = Polling"
    and "claim p = Some i"
  shows "pool_inv jobs (set_worker k (started_job i (po_workers p ! k)) p)"
proof -
  let ?q = "set_worker k (started_job i (po_workers p ! k)) p"
  have c: "claims ?q = claims p"
    by (rule claims_same [OF assms(2) pool_fields(2)]) (simp_all add: started_job_def)
  obtain j where j: "j \<in> set (po_jobs p)" "j_id j = i" "j_status j = Job_pending" "i \<notin> set (locks p)"
    using claim_SomeD [OF assms(4)] by blast
  note new = pending_unclaimed [OF assms(1) j(1,3)]
  have "mset (locks ?q) = add_mset i (mset (locks p))"
    using mset_locks [OF assms(2) pool_fields(2), of "started_job i (po_workers p ! k)"] assms(3)
    by (simp add: started_job_def)
  then have m: "mset (claimedIds ?q @ locks ?q) = mset (i # claimedIds p @ locks p)"
    using c by (simp add: claimedIds_claims)
  have "distinct (i # claimedIds p @ locks p)" "set (i # claimedIds p @ locks p) \<subseteq> pending_ids jobs"
    using assms(1) new j(2,4) by (auto simp: pool_inv_def)
  then show ?thesis
    using assms(1) c mset_eq_imp_distinct_iff [OF m] mset_eq_setD [OF m] by (simp add: pool_inv_def)
qed

lemma pool_inv_ended:
  assumes inv: "pool_inv jobs p" and k: "k < length (po_workers p)"
    and h: "wk_phase (po_workers p ! k) = Handling i"
  shows "pool_inv jobs ((set_worker k (ended_job i (po_workers p ! k)) p)
    \<lparr>po_jobs := finish_job i (wk_id (po_workers p ! k)) (po_jobs p)\<rparr>)" (is "pool_inv jobs ?q")
proof -
  let ?w = "po_workers p ! k"
  have ws: "po_workers ?q = (po_workers p)[k := ended_job i ?w]" by simp
  have l: "add_mset i (mset (locks ?q)) = mset (locks p)"
    using mset_locks [OF k ws] h by (simp add: ended_job_def)
  have c: "mset (claims ?q) = add_mset (i, wk_id ?w) (mset (claims p))"
    using mset_claims [OF k ws] by (simp add: ended_job_def)
  then have "mset (map fst (claims ?q)) = add_mset i (mset (map fst (claims p)))"
    by (metis fst_conv image_mset_add_mset mset_map)
  then have m: "mset (claimedIds ?q @ locks ?q) = mset (claimedIds p @ locks p)"
    using l by (simp add: claimedIds_claims del: mset_map)
  have d: "distinct (claimedIds p @ locks p)" using inv by (simp add: pool_inv_def)
  then have dq: "distinct (claimedIds ?q @ locks ?q)" using mset_eq_imp_distinct_iff [OF m] by simp
  have "i \<in> set (locks p)" using l by (metis set_mset_mset union_single_eq_member set_mset_add_mset_insert insertI1)
  then have "i \<notin> fst ` set (claims p)" using d by (auto simp: claimedIds_claims)
  moreover have "set (claims ?q) = insert (i, wk_id ?w) (set (claims p))"
    using c by (metis set_mset_add_mset_insert set_mset_mset)
  ultimately have "finish_job i (wk_id ?w) (map (settle (map_of (claims p))) jobs) =
      map (settle (map_of (claims ?q))) jobs"
    using d dq by (intro finish_job_settle) (simp_all add: claimedIds_claims)
  then have "po_jobs ?q = map (settle (map_of (claims ?q))) jobs" using inv by (simp add: pool_inv_def)
  moreover have "set (claimedIds ?q @ locks ?q) \<subseteq> pending_ids jobs"
    unfolding mset_eq_setD [OF m] using inv unfolding pool_inv_def by blast
  ultimately show ?thesis using dq unfolding pool_inv_def by blast
qed

text \<open>A poll that finds nothing and a crash: the claims stay, a lock may go.\<close>

lemma pool_inv_released:
  assumes "pool_inv jobs p" "k < length (po_workers p)" "wk_id w = wk_id (po_workers p ! k)"
    "wk_jobIds w = wk_jobIds (po_workers p ! k)" "held (wk_phase w) = []"
  shows "pool_inv jobs (set_worker k w p)"
proof -
  have c: "claims (set_worker k w p) = claims p"
    by (rule claims_same [OF assms(2) pool_fields(2) assms(3,4)])
  have "mset (locks (set_worker k w p)) + mset (held (wk_phase (po_workers p ! k))) = mset (locks p)"
    using mset_locks [OF assms(2) pool_fields(2), of w] assms(5) by simp
  then have "mset (locks (set_worker k w p)) \<subseteq># mset (locks p)" by (metis mset_subset_eq_add_left)
  then have "mset (claimedIds (set_worker k w p) @ locks (set_worker k w p)) \<subseteq># mset (claimedIds p @ locks p)"
    using c by (simp add: claimedIds_claims)
  from distinct_submset [OF this] show ?thesis using assms(1) c by (auto simp: pool_inv_def)
qed

lemma pool_inv_work: "work_step opts p q \<Longrightarrow> pool_inv jobs p \<Longrightarrow> pool_inv jobs q"
  by (erule work_stepE)
    (simp_all add: pool_inv_started pool_inv_ended pool_inv_released idle_poll_def)

lemma pool_inv_crash: "crash_step p q \<Longrightarrow> pool_inv jobs p \<Longrightarrow> pool_inv jobs q"
  by (erule crash_stepE) (simp add: pool_inv_released)

lemma pool_inv_step: "pool_step opts p q \<Longrightarrow> pool_inv jobs p \<Longrightarrow> pool_inv jobs q"
  using pool_inv_work pool_inv_crash by (auto simp: pool_step_def)

lemma start_pool_empty [simp]: "claims (start_pool jobs ws) = []" "locks (start_pool jobs ws) = []"
  by (simp_all add: claims_def locks_def start_pool_def new_worker_def comp_def)

lemma pool_inv_start: "pool_inv jobs (start_pool jobs ws)"
proof -
  have "settle (map_of []) = (\<lambda>j. j)" by (rule ext) (simp add: settle_def)
  then show ?thesis by (simp add: pool_inv_def claimedIds_claims) (simp add: start_pool_def)
qed

text \<open>The pool, with and without crashes, as step systems.\<close>

interpretation pool: step_system "\<lambda>p. p = start_pool jobs ws" "pool_step opts" "pool_inv jobs"
  for jobs ws opts
  using pool_inv_start pool_inv_step by unfold_locales auto

section \<open>The work that is left\<close>

definition idle_limit :: "worker_options \<Rightarrow> nat" where
  "idle_limit opts = nat (max 1 (maxIdlePolls opts))"

fun left_to_poll :: "worker_options \<Rightarrow> nat \<Rightarrow> worker_phase \<Rightarrow> nat" where
  "left_to_poll opts c Polling = idle_limit opts + 2 - c"
| "left_to_poll opts c (Handling i) = 1"
| "left_to_poll opts c _ = 0"

abbreviation left_of :: "worker_options \<Rightarrow> worker_state \<Rightarrow> nat" where
  "left_of opts w \<equiv> left_to_poll opts (wk_consecutiveIdle w) (wk_phase w)"

definition pool_left :: "job_row list \<Rightarrow> worker_options \<Rightarrow> pool \<Rightarrow> nat" where
  "pool_left jobs opts p =
     (card (pending_ids jobs) - length (claimedIds p)) * (idle_limit opts + 3) +
     tally (left_of opts) (po_workers p)"

definition polls_ok :: "worker_options \<Rightarrow> pool \<Rightarrow> bool" where
  "polls_ok opts p \<longleftrightarrow>
     (\<forall>w\<in>set (po_workers p). wk_phase w = Polling \<longrightarrow> wk_consecutiveIdle w < idle_limit opts)"

lemma finite_pending [simp]: "finite (pending_ids jobs)"
  by (simp add: pending_ids_def)

lemma polls_ok_update:
  assumes "polls_ok opts p" "po_workers q = (po_workers p)[k := w]"
    and "wk_phase w = Polling \<Longrightarrow> wk_consecutiveIdle w < idle_limit opts"
  shows "polls_ok opts q"
  using assms by (auto simp: polls_ok_def dest!: set_update_subset_insert [THEN subsetD])

lemma idle_limit_pos: "0 < idle_limit opts"
  by (simp add: idle_limit_def)

lemma polls_ok_step: "pool_step opts p q \<Longrightarrow> polls_ok opts p \<Longrightarrow> polls_ok opts q"
  unfolding pool_step_def
  by (elim disjE work_stepE crash_stepE)
    (auto intro!: polls_ok_update [where p = p] idle_limit_pos
      simp: started_job_def ended_job_def idle_poll_def idle_limit_def)

text \<open>A held job is not finished yet, so finishing it leaves strictly fewer.\<close>

lemma claimed_below:
  assumes "pool_inv jobs p" "i \<in> set (locks p)"
  shows "length (claimedIds p) < card (pending_ids jobs)"
proof -
  have "distinct (i # claimedIds p)" "set (i # claimedIds p) \<subseteq> pending_ids jobs"
    using assms by (auto simp: pool_inv_def)
  then have "length (i # claimedIds p) \<le> card (pending_ids jobs)"
    by (metis card_mono distinct_card finite_pending)
  then show ?thesis by simp
qed

lemma held_in_locks:
  "k < length (po_workers p) \<Longrightarrow> wk_phase (po_workers p ! k) = Handling i \<Longrightarrow> i \<in> set (locks p)"
  unfolding locks_def by (force simp: in_set_conv_nth)

text \<open>Steps that finish no job only use up the polls of one worker.\<close>

lemma pool_left_poll:
  assumes "k < length (po_workers p)" "wk_id w = wk_id (po_workers p ! k)"
    "wk_jobIds w = wk_jobIds (po_workers p ! k)" "left_of opts w < left_of opts (po_workers p ! k)"
  shows "pool_left jobs opts (set_worker k w p) < pool_left jobs opts p"
proof -
  have "claimedIds (set_worker k w p) = claimedIds p"
    using claims_same [OF assms(1) pool_fields(2) assms(2,3)] by (simp add: claimedIds_claims)
  then show ?thesis
    using tally_update [OF assms(1), of "left_of opts" w] assms(4) by (simp add: pool_left_def)
qed

lemma pool_left_ended:
  assumes inv: "pool_inv jobs p" and k: "k < length (po_workers p)"
    and h: "wk_phase (po_workers p ! k) = Handling i"
  shows "pool_left jobs opts ((set_worker k (ended_job i (po_workers p ! k)) p)
    \<lparr>po_jobs := finish_job i (wk_id (po_workers p ! k)) (po_jobs p)\<rparr>) < pool_left jobs opts p"
    (is "pool_left jobs opts ?q < _")
proof -
  let ?w = "po_workers p ! k" and ?m = "idle_limit opts"
  have ws: "po_workers ?q = (po_workers p)[k := ended_job i ?w]" by simp
  have "mset (claims ?q) = add_mset (i, wk_id ?w) (mset (claims p))"
    using mset_claims [OF k ws] by (simp add: ended_job_def)
  then have c: "length (claimedIds ?q) = Suc (length (claimedIds p))"
    by (metis claimedIds_claims length_map size_add_mset size_mset)
  have "length (claimedIds p) < card (pending_ids jobs)"
    by (rule claimed_below [OF inv held_in_locks [OF k h]])
  then have d: "card (pending_ids jobs) - length (claimedIds p) =
      Suc (card (pending_ids jobs) - length (claimedIds ?q))" using c by simp
  have "tally (left_of opts) (po_workers ?q) + 1 = tally (left_of opts) (po_workers p) + (?m + 2)"
    using tally_update [OF k, of "left_of opts" "ended_job i ?w"] h unfolding ws by (simp add: ended_job_def)
  then show ?thesis unfolding pool_left_def d by simp
qed

lemma pool_left_step:
  assumes "pool_step opts p q" "pool_inv jobs p" "polls_ok opts p"
  shows "pool_left jobs opts q < pool_left jobs opts p"
proof -
  have poll: "wk_consecutiveIdle (po_workers p ! k) < idle_limit opts"
    if "k < length (po_workers p)" "wk_phase (po_workers p ! k) = Polling" for k
    using assms(3) that by (simp add: polls_ok_def)
  from assms(1) consider "work_step opts p q" | "crash_step p q" by (auto simp: pool_step_def)
  then show ?thesis
  proof cases
    case 1
    then show ?thesis
    proof (rule work_stepE, goal_cases)
      case (1 k i)
      show ?case unfolding 1(1)
        using poll [OF 1(2,3)] 1(3) by (intro pool_left_poll [OF 1(2)]) (simp_all add: started_job_def)
    next
      case (2 k i)
      show ?case unfolding 2(1) by (rule pool_left_ended [OF assms(2) 2(2,3)])
    next
      case (3 k)
      show ?case unfolding 3(1)
        using poll [OF 3(2,3)] 3(3)
        by (intro pool_left_poll [OF 3(2)]) (simp_all add: idle_poll_def Suc_diff_le less_imp_le)
    qed
  next
    case 2
    then show ?thesis
    proof (rule crash_stepE, goal_cases)
      case (1 k)
      have "left_of opts ((po_workers p ! k)\<lparr>wk_phase := Died\<rparr>) < left_of opts (po_workers p ! k)"
        using poll [OF 1(2)] 1 by (cases "wk_phase (po_workers p ! k)") auto
      then show ?case unfolding 1(1) by (intro pool_left_poll [OF 1(2)]) simp_all
    qed
  qed
qed

lemma pool_steps_bound:
  "(pool_step opts ^^ n) p q \<Longrightarrow> pool_inv jobs p \<Longrightarrow> polls_ok opts p \<Longrightarrow>
     pool_inv jobs q \<and> polls_ok opts q \<and> n + pool_left jobs opts q \<le> pool_left jobs opts p"
proof (induction n arbitrary: q)
  case (Suc n)
  then obtain u where u: "(pool_step opts ^^ n) p u" "pool_step opts u q" by auto
  then have "pool_inv jobs u" "polls_ok opts u" "n + pool_left jobs opts u \<le> pool_left jobs opts p"
    using Suc by blast+
  then show ?case
    using pool_left_step [OF u(2)] pool_inv_step [OF u(2)] polls_ok_step [OF u(2)] by fastforce
qed simp

lemma polls_ok_start: "polls_ok opts (start_pool jobs ws)"
  using idle_limit_pos by (auto simp: polls_ok_def start_pool_def new_worker_def)

lemma pool_left_start:
  "pool_left jobs opts (start_pool jobs ws) =
     card (pending_ids jobs) * (idle_limit opts + 3) + length ws * (idle_limit opts + 2)"
  by (simp add: pool_left_def claimedIds_claims)
    (simp add: tally_def start_pool_def new_worker_def comp_def sum_list_triv)

section \<open>No job is left behind\<close>

text \<open>
  Without crashes, while a job can be claimed some worker is still at work: the last worker only
  gives up when nothing is claimable, and then no other holds a job.
\<close>

definition attended :: "pool \<Rightarrow> bool" where
  "attended p \<longleftrightarrow> (\<forall>w\<in>set (po_workers p). wk_phase w \<noteq> Died) \<and>
     (claimable p \<noteq> [] \<longrightarrow> (\<exists>w\<in>set (po_workers p). wk_phase w \<noteq> Finished))"

lemma attended_running:
  assumes "\<forall>w\<in>set (po_workers p). wk_phase w \<noteq> Died" "k < length (po_workers p)"
    "po_workers q = (po_workers p)[k := w]" "wk_phase w \<noteq> Died" "wk_phase w \<noteq> Finished"
  shows "attended q"
proof -
  have "w \<in> set (po_workers q)" using assms(2,3) by (simp add: set_update_memI)
  moreover have "\<forall>v\<in>set (po_workers q). wk_phase v \<noteq> Died"
    using assms set_update_subset_insert [of "po_workers p" k w] by auto
  ultimately show ?thesis using assms(5) by (auto simp: attended_def)
qed

lemma attended_step:
  assumes "work_step opts p q" "attended p"
  shows "attended q"
proof -
  have alive: "\<forall>w\<in>set (po_workers p). wk_phase w \<noteq> Died" using assms(2) by (simp add: attended_def)
  from assms(1) show ?thesis
  proof (rule work_stepE, goal_cases)
    case (1 k i)
    then show ?case by (intro attended_running [OF alive 1(2)]) (auto simp: started_job_def)
  next
    case (2 k i)
    then show ?case by (intro attended_running [OF alive 2(2)]) (auto simp: ended_job_def)
  next
    case (3 k)
    let ?w = "idle_poll opts (po_workers p ! k)"
    have "mset (locks q) = mset (locks p)"
      using mset_locks [OF 3(2) pool_fields(2), of ?w] 3(1,3) by (simp add: idle_poll_def)
    from mset_eq_setD [OF this] have "claimable q = claimable p" using 3(1) by (simp add: claimable_def)
    moreover have "claimable p = []" using 3(4) by (simp add: claim_None)
    moreover have "\<forall>v\<in>set (po_workers q). wk_phase v \<noteq> Died"
      using alive 3(1) set_update_subset_insert [of "po_workers p" k ?w] by (auto simp: idle_poll_def)
    ultimately show ?case by (simp add: attended_def)
  qed
qed

lemma attended_start: "ws \<noteq> [] \<Longrightarrow> attended (start_pool jobs ws)"
  by (cases ws) (auto simp: attended_def start_pool_def new_worker_def)

interpretation workers: step_system "\<lambda>p. p = start_pool jobs ws \<and> ws \<noteq> []" "work_step opts"
  "\<lambda>p. pool_inv jobs p \<and> attended p" for jobs ws opts
  by unfold_locales (auto simp: pool_inv_start attended_start intro: pool_inv_work attended_step)

lemma nothing_pending:
  assumes "attended p" "\<forall>w\<in>set (po_workers p). wk_phase w = Finished" "j \<in> set (po_jobs p)"
  shows "j_status j = Job_done"
proof -
  have "locks p = []" using assms(2) by (simp add: locks_def)
  moreover have "claimable p = []" using assms(1,2) by (auto simp: attended_def)
  ultimately have "j_status j \<noteq> Job_pending" using assms(3) by (auto simp: claimable_def filter_empty_conv)
  then show ?thesis by (cases "j_status j") auto
qed

lemma worker_progress:
  assumes "w \<in> set (po_workers p)" "wk_phase w \<notin> {Finished, Died}"
  shows "\<exists>q. work_step opts p q"
proof -
  obtain k where k: "k < length (po_workers p)" "po_workers p ! k = w"
    using assms(1) by (auto simp: in_set_conv_nth)
  show ?thesis
  proof (cases "wk_phase w")
    case Polling
    then show ?thesis using work_step.claim_job [OF k(1)] work_step.poll_idle [OF k(1)] k(2)
      by (cases "claim p") blast+
  next
    case (Handling i)
    then show ?thesis using work_step.commit_job [OF k(1)] k(2) by blast
  qed (use assms(2) in auto)
qed

section \<open>Properties\<close>

lemma queue_ok_settle:
  assumes "queue_ok jobs" "j \<in> set jobs" "\<And>w. map_of c (j_id j) = Some w \<Longrightarrow> j_status j = Job_pending"
  shows "j_processed (settle (map_of c) j) = (if j_status (settle (map_of c) j) = Job_done then 1 else 0)"
  using assms by (auto simp: queue_ok_def list_all_iff settle_def mark_done_def split: option.splits)

lemma claims_pending:
  assumes "pool_inv jobs p" "queue_ok jobs" "j \<in> set jobs" "map_of (claims p) (j_id j) = Some w"
  shows "j_status j = Job_pending"
proof -
  have "j_id j \<in> set (claimedIds p)"
    using map_of_SomeD [OF assms(4)] by (force simp: claimedIds_claims)
  then have "j_id j \<in> pending_ids jobs" using assms(1) by (auto simp: pool_inv_def)
  then obtain j' where j': "j' \<in> set jobs" "j_id j' = j_id j" "j_status j' = Job_pending"
    by (auto simp: pending_ids_def)
  have "inj_on j_id (set jobs)" using assms(2) by (simp add: queue_ok_def distinct_map)
  from inj_onD [OF this j'(2,1) assms(3)] show ?thesis using j'(3) by simp
qed

lemma pool_queue_ok:
  assumes "pool_inv jobs p" "queue_ok jobs"
  shows "queue_ok (po_jobs p)"
proof -
  have t: "po_jobs p = map (settle (map_of (claims p))) jobs" using assms(1) by (simp add: pool_inv_def)
  have "map j_id (po_jobs p) = map j_id jobs" by (simp add: t comp_def)
  moreover have "\<forall>j\<in>set jobs. j_processed (settle (map_of (claims p)) j) =
      (if j_status (settle (map_of (claims p)) j) = Job_done then 1 else 0)"
    using queue_ok_settle [OF assms(2)] claims_pending [OF assms] by blast
  ultimately show ?thesis using assms(2) by (simp add: queue_ok_def t list_all_iff comp_def)
qed

lemma queue_ok_counts:
  assumes "queue_ok (po_jobs p)"
  shows "processedTwice p = 0" "unfinished p = length (filter (\<lambda>j. j_status j = Job_pending) (po_jobs p))"
proof -
  have p: "\<forall>j\<in>set (po_jobs p). j_processed j = (if j_status j = Job_done then 1 else 0)"
    using assms by (simp add: queue_ok_def list_all_iff)
  then show "processedTwice p = 0" by (auto simp: processedTwice_def filter_empty_conv)
  have "filter (\<lambda>j. j_status j \<noteq> Job_done \<or> j_processed j \<noteq> 1) (po_jobs p) =
      filter (\<lambda>j. j_status j = Job_pending) (po_jobs p)"
    using p by (intro filter_cong refl) (metis JobStatus.distinct(1) JobStatus.exhaust)
  then show "unfinished p = length (filter (\<lambda>j. j_status j = Job_pending) (po_jobs p))"
    by (simp add: unfinished_def)
qed

text \<open>
  (C21) The pool handles every job at most once, in every interleaving and with crashes: no job is
  finished twice or held while finished or held elsewhere, a row is done exactly when its handler
  committed once (\<open>processed\<close> is 1 for done and 0 for pending rows, never more), a finished job is
  in the list of the worker that the row names, and nothing else of the table changes: the table is
  the start table with the finished jobs marked.
\<close>

theorem worker_pool_exactly_once:
  assumes "queue_ok jobs" "reachable (\<lambda>p. p = start_pool jobs ws) (pool_step opts) p"
  shows "distinct (claimedIds p @ locks p) \<and> processedTwice p = 0 \<and> queue_ok (po_jobs p) \<and>
    po_jobs p = map (settle (map_of (claims p))) jobs \<and>
    (\<forall>(i, w)\<in>set (claims p). \<exists>j\<in>set jobs. j_id j = i \<and> j_status j = Job_pending \<and>
       mark_done w j \<in> set (po_jobs p))"
proof -
  have inv: "pool_inv jobs p" by (rule pool.inv_reachable [OF assms(2)])
  have d: "distinct (claimedIds p @ locks p)" and s: "set (claimedIds p @ locks p) \<subseteq> pending_ids jobs"
    and t: "po_jobs p = map (settle (map_of (claims p))) jobs"
    using inv unfolding pool_inv_def by blast+
  have "\<exists>j\<in>set jobs. j_id j = i \<and> j_status j = Job_pending \<and> mark_done w j \<in> set (po_jobs p)"
    if "(i, w) \<in> set (claims p)" for i w
  proof -
    have "i \<in> set (claimedIds p)" using that by (force simp: claimedIds_claims)
    then obtain j where j: "j \<in> set jobs" "j_id j = i" "j_status j = Job_pending"
      using s by (auto simp: pending_ids_def)
    have "map_of (claims p) i = Some w" using that d by (simp add: claimedIds_claims)
    then have "settle (map_of (claims p)) j = mark_done w j" using j(2) by (simp add: settle_def)
    then show ?thesis using j unfolding t by (metis image_eqI set_map)
  qed
  moreover have q: "queue_ok (po_jobs p)" by (rule pool_queue_ok [OF inv assms(1)])
  ultimately show ?thesis using d t queue_ok_counts(1) [OF q] by blast
qed

text \<open>
  (C22) The pool drains its queue when no worker dies: as long as a worker has not returned there is
  a next step, a run has at most \<open>n * (m + 3) + |workers| * (m + 2)\<close> steps for \<open>n\<close> pending jobs and
  \<open>m = max 1 maxIdlePolls\<close>, and when all workers have returned every job is done: the idle polls of
  one worker never leave a job behind that a sibling held.
\<close>

theorem worker_pool_drains:
  assumes "queue_ok jobs" "reachable (\<lambda>p. p = start_pool jobs ws \<and> ws \<noteq> []) (work_step opts) p"
  shows "((\<forall>w\<in>set (po_workers p). wk_phase w = Finished) \<or> (\<exists>q. work_step opts p q)) \<and>
    (\<forall>n. (work_step opts ^^ n) (start_pool jobs ws) p \<longrightarrow>
       n \<le> card (pending_ids jobs) * (idle_limit opts + 3) + length ws * (idle_limit opts + 2)) \<and>
    ((\<forall>w\<in>set (po_workers p). wk_phase w = Finished) \<longrightarrow> unfinished p = 0)"
proof (intro conjI allI impI)
  have inv: "pool_inv jobs p \<and> attended p" by (rule workers.inv_reachable [OF assms(2)])
  show "(\<forall>w\<in>set (po_workers p). wk_phase w = Finished) \<or> (\<exists>q. work_step opts p q)"
    using worker_progress inv by (metis attended_def insertE singletonD)
  show "unfinished p = 0" if "\<forall>w\<in>set (po_workers p). wk_phase w = Finished"
    using nothing_pending [of p] inv that queue_ok_counts(2) [OF pool_queue_ok [OF _ assms(1)]]
    by (fastforce simp: filter_empty_conv)
  fix n
  assume run: "(work_step opts ^^ n) (start_pool jobs ws) p"
  have "(pool_step opts ^^ n) (start_pool jobs ws) p"
    by (rule relpowp_mono [OF _ run]) (simp add: pool_step_def)
  from pool_steps_bound [OF this pool_inv_start polls_ok_start]
  show "n \<le> card (pending_ids jobs) * (idle_limit opts + 3) + length ws * (idle_limit opts + 2)"
    using pool_left_start [of jobs opts ws] by simp
qed

text \<open>
  When the queue is drained, the finished jobs are the pending ones of the start, each once; the
  script then reports at most that one worker did everything or that the run was slow.
\<close>

lemma drained_claims:
  assumes "pool_inv jobs p" "queue_ok jobs" "unfinished p = 0"
  shows "set (claimedIds p) = pending_ids jobs \<and> length (claimedIds p) = card (pending_ids jobs)"
proof -
  have d: "distinct (claimedIds p)" and s: "set (claimedIds p) \<subseteq> pending_ids jobs"
    using assms(1) by (simp_all add: pool_inv_def)
  have "pending_ids jobs \<subseteq> set (claimedIds p)"
  proof
    fix i
    assume "i \<in> pending_ids jobs"
    then obtain j where j: "j \<in> set jobs" "j_id j = i" "j_status j = Job_pending"
      by (auto simp: pending_ids_def)
    let ?c = "map_of (claims p)"
    have "settle ?c j \<in> set (po_jobs p)" using assms(1) j(1) by (simp add: pool_inv_def)
    moreover have "\<forall>j\<in>set (po_jobs p). j_status j = Job_done"
      using assms(3) by (auto simp: unfinished_def filter_empty_conv)
    ultimately have "j_status (settle ?c j) = Job_done" by blast
    then have "?c i \<noteq> None" using j(2,3) by (cases "?c i") (simp_all add: settle_def)
    then show "i \<in> set (claimedIds p)" by (simp add: claimedIds_claims map_of_eq_None_iff)
  qed
  with s d show ?thesis by (metis distinct_card subset_antisym)
qed

lemma worker_problems_drained:
  assumes "pool_inv jobs p" "queue_ok jobs" "unfinished p = 0" "card (pending_ids jobs) = JOBS"
    and "2 \<le> activeWorkers p" "elapsedMs < int JOBS * HANDLER_MS"
  shows "worker_problems elapsedMs p = []"
proof -
  have "length (claimedIds p) = JOBS" using drained_claims [OF assms(1-3)] assms(4) by simp
  moreover have "distinct (claimedIds p)" using assms(1) by (simp add: pool_inv_def)
  then have "length (js_uniq (claimedIds p)) = length (claimedIds p)"
    by (metis distinct_card distinct_js_uniq set_js_uniq)
  moreover have "processedTwice p = 0" by (rule queue_ok_counts(1) [OF pool_queue_ok [OF assms(1,2)]])
  ultimately show ?thesis using assms(3,5,6) by (simp add: worker_problems_def)
qed

text \<open>The script's queue, with ids built from the sequence number.\<close>

definition example_job_id :: "nat \<Rightarrow> uuid" where
  "example_job_id n = ''00000000-0000-4000-8000-'' @ fixed_dec 12 n"

lemma demo_queue_ok: "queue_ok (reset_queue example_job_id now)"
proof -
  have "distinct (map example_job_id [1..<JOBS + 1])"
    by (auto simp: distinct_map inj_on_def example_job_id_def fixed_dec_eq_iff JOBS_def)
  then show ?thesis by (simp add: queue_ok_def reset_queue_def comp_def list_all_iff)
qed

lemma demo_pool_reachable:
  "reachable (\<lambda>p. p = demo_pool example_job_id now \<and> map (\<lambda>n. ''worker-'' @ nat_text (n + 1)) [0..<WORKERS] \<noteq> [])
     (work_step opts) (demo_pool example_job_id now)"
  by (rule reach_init) (simp add: WORKERS_def)

theorem worker_pool_drains_witness:
  "\<exists>q. work_step demo_worker_options (demo_pool example_job_id (\<lambda>n. 0)) q"
proof -
  have "\<not> (\<forall>w\<in>set (po_workers (demo_pool example_job_id (\<lambda>n. 0))). wk_phase w = Finished)"
    by (simp add: demo_pool_def start_pool_def new_worker_def WORKERS_def) (rule exI [of _ 0], simp)
  with worker_pool_drains [OF demo_queue_ok demo_pool_reachable [unfolded demo_pool_def], folded demo_pool_def]
  show ?thesis by blast
qed

theorem worker_pool_exactly_once_witness:
  "\<exists>p. reachable (\<lambda>p. p = demo_pool example_job_id (\<lambda>n. 0)) (pool_step demo_worker_options) p \<and>
     locks p \<noteq> [] \<and> processedTwice p = 0"
proof -
  let ?p = "demo_pool example_job_id (\<lambda>n. 0)"
  have "po_jobs ?p \<noteq> []" by (simp add: demo_pool_def start_pool_def reset_queue_def JOBS_def)
  moreover have "\<forall>j\<in>set (po_jobs ?p). j_status j = Job_pending"
    by (simp add: demo_pool_def start_pool_def reset_queue_def)
  moreover have "locks ?p = []" by (simp add: demo_pool_def)
  ultimately have "claimable ?p \<noteq> []" by (simp add: claimable_def filter_empty_conv)
  then obtain i where c: "claim ?p = Some i" using claim_None by fastforce
  have k: "0 < length (po_workers ?p)" "wk_phase (po_workers ?p ! 0) = Polling"
    by (simp_all add: demo_pool_def start_pool_def new_worker_def WORKERS_def)
  let ?q = "set_worker 0 (started_job i (po_workers ?p ! 0)) ?p"
  have "reachable (\<lambda>p. p = ?p) (pool_step demo_worker_options) ?p" by (rule reach_init) simp
  moreover have "pool_step demo_worker_options ?p ?q"
    using work_step.claim_job [OF k c] by (simp add: pool_step_def)
  ultimately have r: "reachable (\<lambda>p. p = ?p) (pool_step demo_worker_options) ?q" by (rule reach_step)
  have "wk_phase (po_workers ?q ! 0) = Handling i" using k(1) by (simp add: started_job_def)
  then have "i \<in> set (locks ?q)" using k(1) held_in_locks [of 0 ?q i] by simp
  then show ?thesis
    using r worker_pool_exactly_once [OF demo_queue_ok r [unfolded demo_pool_def]]
    unfolding demo_pool_def by force
qed

end
