(* ===== verification/Upsert.thy ===== *)
theory Upsert
  imports Database
begin

text \<open>
  TypeORM's \<open>upsert\<close>: one INSERT ... ON CONFLICT (key) DO UPDATE per call, as \<open>seed.ts\<close> and
  \<open>fx-rates/fx-rate.repository.ts\<close> use it. Rows are taken in order; a CHECK, a second unique
  column, a repeated key and the foreign keys at the end of the statement can fail it, and then the
  table stays as it was.
\<close>

section \<open>Insert or correct\<close>

text \<open>\<open>merge old new\<close> overwrites the columns that the call provides and keeps the others.\<close>

fun upsert_rows ::
  "('r \<Rightarrow> string option) \<Rightarrow> ('r \<Rightarrow> 'k) \<Rightarrow> ('r \<Rightarrow> 'r \<Rightarrow> bool) \<Rightarrow> ('r \<Rightarrow> 'r \<Rightarrow> 'r) \<Rightarrow>
   'r list \<Rightarrow> 'k list \<Rightarrow> 'r list \<Rightarrow> exn + 'r list" where
  "upsert_rows check key clash merge table seen [] = Inr table"
| "upsert_rows check key clash merge table seen (r # rs) =
     (case check r of
        Some name \<Rightarrow> Inl (db_error ''23514'' name)
      | None \<Rightarrow>
          if key r \<in> set seen then Inl (db_error ''21000'' ''ON CONFLICT'')
          else if list_ex (\<lambda>t. key t \<noteq> key r \<and> clash t r) table then Inl (db_error ''23505'' ''unique'')
          else upsert_rows check key clash merge
                 (if key r \<in> key ` set table
                  then update_where (\<lambda>t. key t = key r) (\<lambda>t. merge t r) table else table @ [r])
                 (key r # seen) rs)"

definition upsert ::
  "('r \<Rightarrow> string option) \<Rightarrow> ('r \<Rightarrow> 'k) \<Rightarrow> ('r \<Rightarrow> 'r \<Rightarrow> bool) \<Rightarrow> ('r \<Rightarrow> 'r \<Rightarrow> 'r) \<Rightarrow>
   ('r \<Rightarrow> string option) \<Rightarrow> 'r list \<Rightarrow> 'r list \<Rightarrow> exn + 'r list" where
  "upsert check key clash merge fk table rows =
     bindE (upsert_rows check key clash merge table [] rows) (\<lambda>t.
     bindE (check_fks fk rows) (\<lambda>_. Inr t))"

text \<open>New rows are appended.\<close>

lemma upsert_rows_fresh:
  assumes "\<forall>r\<in>set rs. check r = None" "distinct (map key rs)"
    and "\<forall>r\<in>set rs. key r \<notin> set seen" "\<forall>r\<in>set rs. key r \<notin> key ` set table"
    and "\<forall>r\<in>set rs. \<forall>t\<in>set (table @ rs). key t \<noteq> key r \<longrightarrow> \<not> clash t r"
  shows "upsert_rows check key clash merge table seen rs = Inr (table @ rs)"
  using assms
proof (induction rs arbitrary: table seen)
  case (Cons r rs)
  have "\<not> list_ex (\<lambda>t. key t \<noteq> key r \<and> clash t r) table" using Cons.prems(5) by (auto simp: list_ex_iff)
  moreover have "\<forall>q\<in>set rs. key q \<notin> set (key r # seen)" "\<forall>q\<in>set rs. key q \<notin> key ` set (table @ [r])"
    using Cons.prems(2-4) by (auto simp: image_iff)
  moreover have "upsert_rows check key clash merge (table @ [r]) (key r # seen) rs = Inr ((table @ [r]) @ rs)"
    using Cons.prems calculation(2,3) by (intro Cons.IH) auto
  ultimately show ?case using Cons.prems by simp
qed simp

text \<open>Rows that are there with the same values change nothing.\<close>

lemma update_where_same: "(\<And>t. t \<in> set table \<Longrightarrow> p t \<Longrightarrow> f t = t) \<Longrightarrow> update_where p f table = table"
  by (simp add: update_where_def map_idI)

lemma upsert_rows_same:
  assumes "\<forall>r\<in>set rs. check r = None" "distinct (map key rs)"
    and "\<forall>r\<in>set rs. key r \<notin> set seen" "\<forall>r\<in>set rs. key r \<in> key ` set table"
    and "\<forall>r\<in>set rs. \<forall>t\<in>set table. key t \<noteq> key r \<longrightarrow> \<not> clash t r"
    and "\<forall>r\<in>set rs. \<forall>t\<in>set table. key t = key r \<longrightarrow> merge t r = t"
  shows "upsert_rows check key clash merge table seen rs = Inr table"
  using assms
proof (induction rs arbitrary: seen)
  case (Cons r rs)
  have "\<not> list_ex (\<lambda>t. key t \<noteq> key r \<and> clash t r) table" using Cons.prems(5) by (auto simp: list_ex_iff)
  moreover have "update_where (\<lambda>t. key t = key r) (\<lambda>t. merge t r) table = table"
    using Cons.prems(6) by (intro update_where_same) simp
  moreover have "upsert_rows check key clash merge table (key r # seen) rs = Inr table"
    using Cons.prems by (intro Cons.IH) (auto simp: image_iff)
  ultimately show ?case using Cons.prems by simp
qed simp

text \<open>Both together: a statement on an empty table, or on one that holds its rows already.\<close>

lemma upsert_known:
  assumes "\<forall>r\<in>set rs. check r = None" "\<forall>r\<in>set rs. fk r = None" "distinct (map key rs)"
    and clash: "\<forall>r\<in>set rs. \<forall>t\<in>set out. key t \<noteq> key r \<longrightarrow> \<not> clash t r"
    and same: "list_all2 (\<lambda>t r. key t = key r \<and> merge t r = t) out rs"
    and table: "table = [] \<and> out = rs \<or> table = out"
  shows "upsert check key clash merge fk table rs = Inr out"
proof -
  have "upsert_rows check key clash merge table [] rs = Inr out"
    using table
  proof
    assume "table = [] \<and> out = rs"
    then show ?thesis using upsert_rows_fresh [of rs check key "[]" "[]" clash merge] assms(1,3) clash by simp
  next
    assume t: "table = out"
    have k: "key r \<in> key ` set out" if "r \<in> set rs" for r
      using list_all2_set2 [OF same that] by (metis image_eqI)
    have m: "merge t r = t" if r: "r \<in> set rs" and t': "t \<in> set out" and kr: "key t = key r" for t r
    proof -
      obtain n where n: "n < length out" "t = out ! n" using t' by (auto simp: in_set_conv_nth)
      have q: "rs ! n \<in> set rs" "key t = key (rs ! n)" "merge t (rs ! n) = t"
        using same n by (simp_all add: list_all2_conv_all_nth)
      have "inj_on key (set rs)" using assms(3) by (simp add: distinct_map)
      from inj_onD [OF this _ q(1) r] q(2) kr have "rs ! n = r" by simp
      with q(3) show ?thesis by simp
    qed
    show ?thesis unfolding t by (rule upsert_rows_same) (use assms(1,3) clash k m in auto)
  qed
  moreover have "check_fks fk rs = Inr ()" using assms(2) check_fks_Inr by blast
  ultimately show ?thesis by (simp add: upsert_def)
qed

lemma no_clash_distinct:
  "distinct (map g rs) \<Longrightarrow> \<forall>r\<in>set rs. \<forall>t\<in>set rs. key t \<noteq> key r \<longrightarrow> \<not> g t = g r"
  by (metis distinct_map inj_onD)

text \<open>
  The rows of an upsert that goes through: the keys of the table and of the statement, each row of
  the table either untouched or merged with the row of its key.
\<close>

lemma upsert_rows_keys:
  assumes "upsert_rows check key clash merge table seen rs = Inr t"
    and "\<And>a b. key a = key b \<Longrightarrow> key (merge a b) = key a"
  shows "key ` set t = key ` set table \<union> key ` set rs \<and> (distinct (map key table) \<longrightarrow> distinct (map key t))"
  using assms(1)
proof (induction rs arbitrary: table seen)
  case (Cons r rs)
  let ?u = "if key r \<in> key ` set table
    then update_where (\<lambda>t. key t = key r) (\<lambda>t. merge t r) table else table @ [r]"
  have "upsert_rows check key clash merge ?u (key r # seen) rs = Inr t"
    using Cons.prems by (simp split: option.splits if_splits)
  from Cons.IH [OF this] have ih: "key ` set t = key ` set ?u \<union> key ` set rs"
      "distinct (map key ?u) \<longrightarrow> distinct (map key t)" by blast+
  have m: "map key (update_where (\<lambda>t. key t = key r) (\<lambda>t. merge t r) table) = map key table"
    by (rule map_update_where) (simp add: assms(2))
  then have "key ` set (update_where (\<lambda>t. key t = key r) (\<lambda>t. merge t r) table) = key ` set table"
    by (metis set_map)
  then have u: "key ` set ?u = insert (key r) (key ` set table)" by auto
  have "distinct (map key table) \<longrightarrow> distinct (map key ?u)" using m by auto
  with ih u show ?case by auto
qed simp

lemma upsert_rows_all:
  assumes "upsert_rows check key clash merge table seen rs = Inr t"
    and "\<And>r. r \<in> set rs \<Longrightarrow> check r = None \<Longrightarrow> P r"
    and "\<And>a b. b \<in> set rs \<Longrightarrow> P a \<Longrightarrow> P b \<Longrightarrow> key a = key b \<Longrightarrow> P (merge a b)"
    and "\<forall>r\<in>set table. P r"
  shows "\<forall>r\<in>set t. P r"
  using assms
proof (induction rs arbitrary: table seen)
  case (Cons r rs)
  let ?u = "if key r \<in> key ` set table
    then update_where (\<lambda>t. key t = key r) (\<lambda>t. merge t r) table else table @ [r]"
  have run: "upsert_rows check key clash merge ?u (key r # seen) rs = Inr t" and r: "check r = None"
    using Cons.prems(1) by (simp_all split: option.splits if_splits)
  have "P r" using Cons.prems(2) r by simp
  then have "\<forall>q\<in>set ?u. P q" using Cons.prems(3,4) by (auto simp: set_update_where)
  then show ?case using Cons.prems(2,3) by (intro Cons.IH [OF run]) auto
qed simp

section \<open>Rates\<close>

text \<open>An \<open>integer\<close> parameter.\<close>

definition bind_integer :: "int \<Rightarrow> exn + int" where
  "bind_integer x =
     (if - (2 ^ 31) \<le> x \<and> x < 2 ^ 31 then Inr x
      else Inl (db_error (if 10 ^ 21 \<le> \<bar>x\<bar> then ''22P02'' else ''22003'') ''integer''))"

text \<open>
  \<open>rate\<close> is GENERATED ALWAYS AS \<open>(raw_rate / raw_units)::numeric(20,10)\<close>: division by an integer of
  at least one, rounded to the scale.
\<close>

definition fx_merge :: "fx_row \<Rightarrow> fx_row \<Rightarrow> fx_row" where
  "fx_merge old new = old\<lparr>f_raw_rate := f_raw_rate new, f_raw_units := f_raw_units new, f_rate := f_rate new\<rparr>"

definition pg_divide_ok :: "runtime \<Rightarrow> bool" where
  "pg_divide_ok rt \<longleftrightarrow> (\<forall>a b. 0 \<le> a \<longrightarrow> 1 \<le> b \<longrightarrow> 0 \<le> pg_divide rt a b \<and> pg_divide rt a b \<le> a) \<and>
     (\<forall>a b. 1 \<le> b \<longrightarrow> pg_divide rt (a * b) b = a)"

lemma canonical_divide_ok: "pg_divide_ok canonical_runtime"
proof -
  have "a div b \<le> a" if "0 \<le> a" "1 \<le> b" for a b :: int
    using that by (metis div_by_1 zdiv_mono2 zero_less_one)
  moreover have "0 \<le> a div b" if "0 \<le> a" "1 \<le> b" for a b :: int
    using that by (simp add: pos_imp_zdiv_nonneg_iff)
  ultimately show ?thesis by (simp add: pg_divide_ok_def canonical_runtime_def)
qed

definition fx_in :: "runtime \<Rightarrow> string \<Rightarrow> string \<times> string \<times> string \<times> int \<Rightarrow> exn + fx_row" where
  "fx_in rt source row =
     (case row of (currency, rateDate, rawRate, rawUnits) \<Rightarrow>
        bindE (bind_text source) (\<lambda>s. bindE (bind_text currency) (\<lambda>c.
        bindE (bind_date rt rateDate) (\<lambda>d. bindE (bind_numeric rt rawRate) (\<lambda>r.
        bindE (bind_integer rawUnits) (\<lambda>u.
          if u = 0 then Inl (db_error ''22012'' ''division by zero'')
          else Inr \<lparr>f_currency = c, f_rate_date = d, f_source = s, f_raw_rate = r, f_raw_units = u,
                    f_rate = pg_divide rt r u\<rparr>))))))"

definition fx_fk :: "db \<Rightarrow> fx_row \<Rightarrow> string option" where
  "fx_fk db f = first_violated [(''fx_rate_currency_fk'', f_currency f \<in> c_code ` set (currencies db))]"

definition upsert_fx :: "fx_row list \<Rightarrow> db \<Rightarrow> exn + db" where
  "upsert_fx rows db =
     bindE (upsert fx_rate_check fx_key (\<lambda>t r. False) fx_merge (fx_fk db) (fx_rates db) rows) (\<lambda>t.
       Inr (db\<lparr>fx_rates := t\<rparr>))"

lemma fx_merge_key [simp]: "fx_key (fx_merge a b) = fx_key a"
  by (simp add: fx_key_def fx_merge_def)

lemma db_ok_fx_rates:
  assumes "db_ok db" "distinct (map fx_key t)" "\<forall>f\<in>set t. fx_row_ok db f"
  shows "db_ok (db\<lparr>fx_rates := t\<rparr>)"
proof -
  let ?db = "db\<lparr>fx_rates := t\<rparr>"
  have "account_ok ?db = account_ok db" "transaction_ok ?db = transaction_ok db"
      "refresh_ok ?db = refresh_ok db" "fx_row_ok ?db = fx_row_ok db"
    by (auto simp: fun_eq_iff account_ok_def account_fk_def transaction_ok_def transaction_fk_def
        refresh_ok_def fx_row_ok_def)
  then show ?thesis using assms by (simp add: db_ok_def list_all_iff)
qed

lemma fx_in_ok:
  assumes "fx_in rt source row = Inr f" "pg_divide_ok rt" "fx_rate_check f = None"
  shows "numeric_ok (f_raw_rate f) \<and> numeric_ok (f_rate f)"
proof -
  obtain c d r u where f: "f = \<lparr>f_currency = c, f_rate_date = d, f_source = source, f_raw_rate = r,
      f_raw_units = u, f_rate = pg_divide rt r u\<rparr>" and r: "numeric_ok r"
    using assms(1) by (auto simp: fx_in_def bind_results split: prod.splits if_splits)
  have "0 < r" "0 < u" using assms(3) f by (simp_all add: fx_rate_check_def first_violated_None)
  then have "0 \<le> pg_divide rt r u" "pg_divide rt r u \<le> r" using assms(2) by (simp_all add: pg_divide_ok_def)
  with r f show ?thesis by (simp add: numeric_ok_def)
qed

text \<open>An upsert of rates keeps the constraints.\<close>

lemma upsert_fx_ok:
  assumes "db_ok db" "upsert_fx rows db = Inr db'" "pg_divide_ok rt"
    and "\<forall>f\<in>set rows. \<exists>source row. fx_in rt source row = Inr f"
  shows "db_ok db' \<and> (\<exists>t. db' = db\<lparr>fx_rates := t\<rparr>) \<and>
    fx_key ` set (fx_rates db') = fx_key ` set (fx_rates db) \<union> fx_key ` set rows"
proof -
  obtain t where t: "upsert_rows fx_rate_check fx_key (\<lambda>t r. False) fx_merge (fx_rates db) [] rows = Inr t"
      and fk: "\<forall>f\<in>set rows. fx_fk db f = None" and db': "db' = db\<lparr>fx_rates := t\<rparr>"
    using assms(2) by (auto simp: upsert_fx_def upsert_def check_fks_Inr)
  have keys: "fx_key ` set t = fx_key ` set (fx_rates db) \<union> fx_key ` set rows"
      "distinct (map fx_key t)"
    using upsert_rows_keys [OF t] assms(1) by (auto simp: db_ok_def)
  have "\<forall>f\<in>set t. fx_row_ok db f"
  proof (rule upsert_rows_all [OF t])
    show "fx_row_ok db f" if "f \<in> set rows" "fx_rate_check f = None" for f
      using fx_in_ok [OF _ assms(3) that(2)] assms(4) fk that
      by (fastforce simp: fx_row_ok_def fx_fk_def first_violated_None)
    show "fx_row_ok db (fx_merge a b)" if "fx_row_ok db a" "fx_row_ok db b" "fx_key a = fx_key b" for a b
      using that by (auto simp: fx_row_ok_def fx_merge_def fx_rate_check_def first_violated_None fx_key_def)
    show "\<forall>f\<in>set (fx_rates db). fx_row_ok db f" using assms(1) by (simp add: db_ok_def list_all_iff)
  qed
  then show ?thesis using db_ok_fx_rates [OF assms(1) keys(2)] keys(1) db' by auto
qed

end
