(* ===== verification/Seed.thy ===== *)
theory Seed
  imports Upsert Checkout_Correct
begin

text \<open>
  The seed script \<open>seed.ts\<close>: its fixed rows with their deterministic ids, and the seven upserts in
  the order of the foreign keys. The column defaults (\<open>created_at\<close>, the role of a user) are those of
  the entities; \<open>now\<close> is the time of the statement.
\<close>

section \<open>Ids and times\<close>

definition padStart :: "nat \<Rightarrow> char \<Rightarrow> string \<Rightarrow> string" where
  "padStart w c s = replicate (w - length s) c @ s"

definition seed_id :: "nat \<Rightarrow> nat \<Rightarrow> uuid" where
  "seed_id ns n = padStart 8 (CHR ''0'') (nat_text ns) @ ''-0000-4000-8000-'' @
     padStart 12 (CHR ''0'') (nat_text n)"

text \<open>\<open>new Date(Date.UTC(2026, 0, 1 + dayOffset, 9, 0, 0))\<close>: day 20454 of the epoch is 2026-01-01.\<close>

definition bookedAt :: "nat \<Rightarrow> millis" where
  "bookedAt dayOffset = (20454 + int dayOffset) * 86400000 + 9 * 3600000"

section \<open>The rows\<close>

definition seed_currencies :: "currency_row list" where
  "seed_currencies = map (\<lambda>(code, numericCode, exponent, name).
     \<lparr>c_code = code, c_numeric_code = numericCode, c_exponent = exponent, c_name = name\<rparr>)
    [(''UAH'', 980, 2, ''Ukrainian hryvnia''),
     (''USD'', 840, 2, ''United States dollar''),
     (''EUR'', 978, 2, ''Euro''),
     (''GBP'', 826, 2, ''British pound''),
     (''PLN'', 985, 2, ''Polish zloty''),
     (''JPY'', 392, 0, ''Japanese yen''),
     (''AED'', 784, 2, ''UAE dirham''),
     (''AUD'', 36, 2, ''Australian dollar''),
     (''AZN'', 944, 2, ''Azerbaijani manat''),
     (''BDT'', 50, 2, ''Bangladeshi taka''),
     (''CAD'', 124, 2, ''Canadian dollar''),
     (''CHF'', 756, 2, ''Swiss franc''),
     (''CNY'', 156, 2, ''Chinese yuan''),
     (''CZK'', 203, 2, ''Czech koruna''),
     (''DKK'', 208, 2, ''Danish krone''),
     (''DZD'', 12, 2, ''Algerian dinar''),
     (''EGP'', 818, 2, ''Egyptian pound''),
     (''GEL'', 981, 2, ''Georgian lari''),
     (''HKD'', 344, 2, ''Hong Kong dollar''),
     (''HUF'', 348, 2, ''Hungarian forint''),
     (''IDR'', 360, 2, ''Indonesian rupiah''),
     (''ILS'', 376, 2, ''Israeli new shekel''),
     (''INR'', 356, 2, ''Indian rupee''),
     (''KRW'', 410, 0, ''South Korean won''),
     (''KZT'', 398, 2, ''Kazakhstani tenge''),
     (''LBP'', 422, 2, ''Lebanese pound''),
     (''MDL'', 498, 2, ''Moldovan leu''),
     (''MXN'', 484, 2, ''Mexican peso''),
     (''MYR'', 458, 2, ''Malaysian ringgit''),
     (''NOK'', 578, 2, ''Norwegian krone''),
     (''NZD'', 554, 2, ''New Zealand dollar''),
     (''RON'', 946, 2, ''Romanian leu''),
     (''RSD'', 941, 2, ''Serbian dinar''),
     (''SAR'', 682, 2, ''Saudi riyal''),
     (''SEK'', 752, 2, ''Swedish krona''),
     (''SGD'', 702, 2, ''Singapore dollar''),
     (''THB'', 764, 2, ''Thai baht''),
     (''TND'', 788, 3, ''Tunisian dinar''),
     (''TRY'', 949, 2, ''Turkish lira''),
     (''VND'', 704, 0, ''Vietnamese dong''),
     (''ZAR'', 710, 2, ''South African rand'')]"

text \<open>\<open>index_rows f rows\<close> is \<open>rows.map((row, i) => f(i + 1, row))\<close>.\<close>

definition index_rows :: "(nat \<Rightarrow> 'a \<Rightarrow> 'b) \<Rightarrow> 'a list \<Rightarrow> 'b list" where
  "index_rows f rows = map (\<lambda>(i, row). f i row) (enumerate 1 rows)"

definition seed_users :: "user_row list" where
  "seed_users = index_rows (\<lambda>i (displayName, email).
     \<lparr>u_id = seed_id 1 i, u_email = email, u_display_name = displayName, u_password_hash = None,
      u_role = Member\<rparr>)
    [(''Olena Koval'', ''user1@example.com''),
     (''Andriy Shevchenko'', ''user2@example.com''),
     (''Iryna Bondarenko'', ''user3@example.com''),
     (''Dmytro Melnyk'', ''user4@example.com''),
     (''Nataliya Tkachenko'', ''user5@example.com''),
     (''Serhiy Kravchenko'', ''user6@example.com''),
     (''Oksana Oliynyk'', ''user7@example.com''),
     (''Yuriy Honchar'', ''user8@example.com'')]"

definition seed_accounts :: "millis \<Rightarrow> account_row list" where
  "seed_accounts now = index_rows (\<lambda>i (userIdx, currency, name, type, balanceCents).
     \<lparr>a_id = seed_id 2 i, a_user_id = seed_id 1 userIdx, a_currency = currency, a_name = name,
      a_type = type, a_balance_cents = balanceCents, a_is_archived = False, a_created_at = now\<rparr>)
    [(1, ''UAH'', ''Cash UAH'', Cash, 350000),
     (1, ''USD'', ''IBKR brokerage'', Brokerage, 1250000),
     (2, ''UAH'', ''Main card'', Bank, 820000),
     (2, ''EUR'', ''Savings EUR'', Bank, 500000),
     (3, ''UAH'', ''Cash wallet'', Cash, 120000),
     (3, ''USD'', ''Interactive Brokers'', Brokerage, 3400000),
     (4, ''UAH'', ''Salary card'', Bank, 990000),
     (4, ''EUR'', ''Berlin account'', Bank, 275000),
     (5, ''UAH'', ''Apartment fund'', Property, 9500000),
     (6, ''USD'', ''Crypto & stocks'', Brokerage, 640000),
     (7, ''USD'', ''Overseas account'', Bank, 180000),
     (8, ''UAH'', ''Everyday cash'', Cash, 45000)]"

definition seed_instruments :: "millis \<Rightarrow> instrument_row list" where
  "seed_instruments now = index_rows (\<lambda>i (symbol, name, assetClass).
     \<lparr>i_id = seed_id 3 i, i_symbol = symbol, i_name = name, i_asset_class = assetClass,
      i_currency = ''USD'', i_created_at = now\<rparr>)
    [(''AAPL'', ''Apple Inc.'', ''equity''),
     (''MSFT'', ''Microsoft Corp.'', ''equity''),
     (''VOO'', ''Vanguard S&P 500 ETF'', ''etf''),
     (''QQQ'', ''Invesco QQQ Trust'', ''etf''),
     (''BND'', ''Vanguard Total Bond Market ETF'', ''bond''),
     (''GOVT'', ''iShares US Treasury Bond ETF'', ''bond''),
     (''BTC'', ''Bitcoin'', ''crypto''),
     (''ETH'', ''Ethereum'', ''crypto''),
     (''NVDA'', ''NVIDIA Corp.'', ''equity''),
     (''VXUS'', ''Vanguard Total International Stock ETF'', ''etf'')]"

definition seed_categories :: "category_row list" where
  "seed_categories = index_rows (\<lambda>i (name, kind).
     \<lparr>g_id = seed_id 4 i, g_name = name, g_kind = kind\<rparr>)
    [(''Salary'', ''income''),
     (''Freelance'', ''income''),
     (''Investment income'', ''income''),
     (''Groceries'', ''expense''),
     (''Utilities'', ''expense''),
     (''Rent'', ''expense''),
     (''Entertainment'', ''expense''),
     (''Transport'', ''expense'')]"

definition seed_fx :: "(string \<times> string \<times> string \<times> string \<times> int) list" where
  "seed_fx =
    [(''seed'', ''USD'', ''2026-01-01'', ''41.5000000000'', 1),
     (''seed'', ''USD'', ''2026-01-02'', ''41.6000000000'', 1),
     (''seed'', ''EUR'', ''2026-01-01'', ''45.0000000000'', 1),
     (''seed'', ''EUR'', ''2026-01-02'', ''45.2000000000'', 1),
     (''seed'', ''GBP'', ''2026-01-01'', ''52.8000000000'', 1),
     (''seed'', ''GBP'', ''2026-01-02'', ''52.9000000000'', 1),
     (''seed'', ''PLN'', ''2026-01-01'', ''10.4000000000'', 1),
     (''seed'', ''PLN'', ''2026-01-02'', ''10.4500000000'', 1),
     (''seed'', ''JPY'', ''2026-01-01'', ''27.7000000000'', 100),
     (''seed'', ''JPY'', ''2026-01-02'', ''27.8000000000'', 100),
     (''seed-alt'', ''USD'', ''2026-01-01'', ''41.4500000000'', 1),
     (''seed-alt'', ''EUR'', ''2026-01-01'', ''44.9000000000'', 1)]"

definition fxRateForCurrency :: "(string \<times> string) list" where
  "fxRateForCurrency = [(''UAH'', ''1''), (''USD'', ''41.5000000000''), (''EUR'', ''45.0000000000''),
     (''GBP'', ''52.8000000000''), (''PLN'', ''10.4000000000'')]"

record TxSpec =
  sp_accountIdx :: nat
  sp_type :: TransactionType
  sp_amountCents :: int
  sp_categoryIdx :: "nat option"
  sp_instrumentIdx :: "nat option"
  sp_quantityMicro :: "int option"
  sp_unitPrice :: "string option"
  sp_description :: string
  sp_day :: nat

definition tx_spec :: "nat \<Rightarrow> TransactionType \<Rightarrow> int \<Rightarrow> nat option \<Rightarrow> nat option \<Rightarrow> int option \<Rightarrow>
    string option \<Rightarrow> string \<Rightarrow> nat \<Rightarrow> TxSpec" where
  "tx_spec accountIdx type amountCents categoryIdx instrumentIdx quantityMicro unitPrice description day =
     \<lparr>sp_accountIdx = accountIdx, sp_type = type, sp_amountCents = amountCents,
      sp_categoryIdx = categoryIdx, sp_instrumentIdx = instrumentIdx,
      sp_quantityMicro = quantityMicro, sp_unitPrice = unitPrice, sp_description = description,
      sp_day = day\<rparr>"

definition txSpecs :: "TxSpec list" where
  "txSpecs =
    [tx_spec 1 Income 990000 (Some 1) (None) (None) (None) ''Monthly salary'' 1,
     tx_spec 1 Expense 45990 (Some 4) (None) (None) (None) ''Groceries'' 2,
     tx_spec 1 Expense 120000 (Some 6) (None) (None) (None) ''Rent'' 3,
     tx_spec 1 Expense 8500 (Some 5) (None) (None) (None) ''Electricity bill'' 4,
     tx_spec 1 Expense 15000 (Some 8) (None) (None) (None) ''Metro pass'' 5,
     tx_spec 2 Buy 520000 (None) (Some 3) (Some 10000000) (Some ''52.0000000000'') ''Bought 10 VOO shares'' 6,
     tx_spec 2 Buy 180000 (None) (Some 1) (Some 1000000) (Some ''180.0000000000'') ''Bought 1 AAPL share'' 7,
     tx_spec 2 Sell 60000 (None) (Some 3) (Some 1000000) (Some ''60.0000000000'') ''Sold 1 VOO share'' 8,
     tx_spec 3 Income 850000 (Some 1) (None) (None) (None) ''Monthly salary'' 1,
     tx_spec 3 Expense 32000 (Some 4) (None) (None) (None) ''Groceries'' 3,
     tx_spec 3 Expense 9000 (Some 7) (None) (None) (None) ''Cinema'' 9,
     tx_spec 4 Transfer_in 200000 (None) (None) (None) (None) ''Transfer from savings'' 10,
     tx_spec 4 Expense 12000 (Some 5) (None) (None) (None) ''Internet bill'' 11,
     tx_spec 5 Income 25000 (Some 2) (None) (None) (None) ''Freelance gig'' 5,
     tx_spec 5 Expense 18000 (Some 4) (None) (None) (None) ''Groceries'' 6,
     tx_spec 6 Buy 3400000 (None) (Some 9) (Some 10000000) (Some ''340.0000000000'') ''Bought 10 NVDA shares'' 12,
     tx_spec 6 Buy 190000 (None) (Some 5) (Some 200000000) (Some ''0.9500000000'') ''Bought 200 BND units'' 13,
     tx_spec 6 Sell 500000 (None) (Some 9) (Some 1000000) (Some ''500.0000000000'') ''Sold 1 NVDA share'' 14,
     tx_spec 7 Income 990000 (Some 1) (None) (None) (None) ''Monthly salary'' 1,
     tx_spec 7 Expense 250000 (Some 6) (None) (None) (None) ''Rent'' 3,
     tx_spec 7 Expense 40000 (Some 8) (None) (None) (None) ''Fuel'' 15,
     tx_spec 8 Expense 25000 (Some 7) (None) (None) (None) ''Concert tickets'' 16,
     tx_spec 8 Transfer_out 50000 (None) (None) (None) (None) ''Transfer to UAH account'' 17,
     tx_spec 9 Expense 300000 (Some 6) (None) (None) (None) ''Property tax'' 18,
     tx_spec 9 Income 150000 (Some 2) (None) (None) (None) ''Rental income'' 19,
     tx_spec 10 Buy 640000 (None) (Some 7) (Some 10000000) (Some ''0.0640000000'') ''Bought BTC'' 20,
     tx_spec 10 Buy 120000 (None) (Some 8) (Some 500000000) (Some ''0.0024000000'') ''Bought ETH'' 21,
     tx_spec 11 Income 720000 (Some 1) (None) (None) (None) ''Monthly salary'' 1,
     tx_spec 11 Expense 210000 (Some 6) (None) (None) (None) ''Rent'' 3,
     tx_spec 11 Expense 30000 (Some 4) (None) (None) (None) ''Groceries'' 22,
     tx_spec 12 Income 15000 (Some 2) (None) (None) (None) ''Small freelance job'' 23,
     tx_spec 12 Expense 6000 (Some 8) (None) (None) (None) ''Bus ticket'' 24,
     tx_spec 1 Expense 22000 (Some 4) (None) (None) (None) ''Groceries'' 25,
     tx_spec 3 Expense 11000 (Some 5) (None) (None) (None) ''Water bill'' 26,
     tx_spec 7 Expense 19000 (Some 4) (None) (None) (None) ''Groceries'' 27,
     tx_spec 9 Expense 45000 (Some 5) (None) (None) (None) ''Maintenance'' 28,
     tx_spec 2 Expense 5000 (Some 8) (None) (None) (None) ''Parking'' 9,
     tx_spec 4 Income 60000 (Some 3) (None) (None) (None) ''Dividend payout'' 10,
     tx_spec 6 Income 80000 (Some 3) (None) (None) (None) ''Dividend payout'' 15,
     tx_spec 11 Expense 14000 (Some 7) (None) (None) (None) ''Streaming subscription'' 20]"

text \<open>
  A transaction of the script: the currency of its account, the rate of that currency or \<open>'1'\<close>.
  The two \<open>numeric\<close> columns are sent as text, which Postgres reads.
\<close>

definition accountCurrency :: "(uuid \<times> string) list" where
  "accountCurrency = map (\<lambda>a. (a_id a, a_currency a)) (seed_accounts 0)"

definition seed_tx :: "runtime \<Rightarrow> millis \<Rightarrow> nat \<Rightarrow> TxSpec \<Rightarrow> exn + tx_row" where
  "seed_tx rt now i spec =
     (let accountId = seed_id 2 (sp_accountIdx spec);
          currency = the (map_of accountCurrency accountId);
          fxRateValue = (case map_of fxRateForCurrency currency of Some r \<Rightarrow> r | None \<Rightarrow> ''1'')
      in bindE (bind_numeric rt fxRateValue) (\<lambda>fx.
         bindE (optE (bind_numeric rt) (sp_unitPrice spec)) (\<lambda>price.
           Inr \<lparr>t_id = seed_id 5 i, t_account_id = accountId,
             t_instrument_id = map_option (seed_id 3) (sp_instrumentIdx spec),
             t_category_id = map_option (seed_id 4) (sp_categoryIdx spec), t_currency = currency,
             t_type = sp_type spec, t_status = Posted, t_amount_cents = sp_amountCents spec,
             t_fx_rate = fx, t_quantity_micro = sp_quantityMicro spec, t_unit_price = price,
             t_booked_at = bookedAt (sp_day spec), t_description = Some (sp_description spec),
             t_created_at = now\<rparr>)))"

section \<open>The upserts\<close>

definition user_check :: "user_row \<Rightarrow> string option" where
  "user_check u = first_violated
     [(''users_display_name_length'', 1 \<le> char_length (u_display_name u) \<and> char_length (u_display_name u) \<le> 120),
      (''users_email_length'', 3 \<le> char_length (u_email u) \<and> char_length (u_email u) \<le> 254)]"

definition category_check :: "category_row \<Rightarrow> string option" where
  "category_check g = first_violated
     [(''categories_kind_enum'', g_kind g \<in> {''income'', ''expense''}),
      (''categories_name_length'', 1 \<le> char_length (g_name g) \<and> char_length (g_name g) \<le> 60)]"

text \<open>
  Only the columns that the script sets are overwritten: a password hash, a role and the creation
  time of an existing row stay.
\<close>

definition currency_merge :: "currency_row \<Rightarrow> currency_row \<Rightarrow> currency_row" where
  "currency_merge old new = new"

definition user_merge :: "user_row \<Rightarrow> user_row \<Rightarrow> user_row" where
  "user_merge old new = old\<lparr>u_email := u_email new, u_display_name := u_display_name new\<rparr>"

definition instrument_merge :: "instrument_row \<Rightarrow> instrument_row \<Rightarrow> instrument_row" where
  "instrument_merge old new = new\<lparr>i_created_at := i_created_at old\<rparr>"

definition category_merge :: "category_row \<Rightarrow> category_row \<Rightarrow> category_row" where
  "category_merge old new = new"

definition account_merge :: "account_row \<Rightarrow> account_row \<Rightarrow> account_row" where
  "account_merge old new = new\<lparr>a_created_at := a_created_at old\<rparr>"

definition tx_merge :: "tx_row \<Rightarrow> tx_row \<Rightarrow> tx_row" where
  "tx_merge old new = new\<lparr>t_created_at := t_created_at old\<rparr>"

definition instrument_fk :: "db \<Rightarrow> instrument_row \<Rightarrow> string option" where
  "instrument_fk db i = first_violated [(''instruments_currency_fk'', i_currency i \<in> c_code ` set (currencies db))]"

definition upsert_currencies :: "currency_row list \<Rightarrow> db \<Rightarrow> exn + db" where
  "upsert_currencies rows db =
     bindE (upsert currency_check c_code (\<lambda>t r. c_numeric_code t = c_numeric_code r) currency_merge
              (\<lambda>_. None) (currencies db) rows) (\<lambda>t. Inr (db\<lparr>currencies := t\<rparr>))"

definition upsert_users :: "user_row list \<Rightarrow> db \<Rightarrow> exn + db" where
  "upsert_users rows db =
     bindE (upsert user_check u_id (\<lambda>t r. u_email t = u_email r) user_merge (\<lambda>_. None) (users db) rows)
       (\<lambda>t. Inr (db\<lparr>users := t\<rparr>))"

definition upsert_instruments :: "instrument_row list \<Rightarrow> db \<Rightarrow> exn + db" where
  "upsert_instruments rows db =
     bindE (upsert instrument_check i_id (\<lambda>t r. i_symbol t = i_symbol r) instrument_merge
              (instrument_fk db) (instruments db) rows) (\<lambda>t. Inr (db\<lparr>instruments := t\<rparr>))"

definition upsert_categories :: "category_row list \<Rightarrow> db \<Rightarrow> exn + db" where
  "upsert_categories rows db =
     bindE (upsert category_check g_id (\<lambda>t r. g_name t = g_name r) category_merge (\<lambda>_. None)
              (categories db) rows) (\<lambda>t. Inr (db\<lparr>categories := t\<rparr>))"

definition upsert_accounts :: "account_row list \<Rightarrow> db \<Rightarrow> exn + db" where
  "upsert_accounts rows db =
     bindE (upsert account_check a_id (\<lambda>t r. False) account_merge (account_fk db) (accounts db) rows)
       (\<lambda>t. Inr (db\<lparr>accounts := t\<rparr>))"

definition upsert_transactions :: "tx_row list \<Rightarrow> db \<Rightarrow> exn + db" where
  "upsert_transactions rows db =
     bindE (upsert transaction_check t_id (\<lambda>t r. False) tx_merge (transaction_fk db) (transactions db) rows)
       (\<lambda>t. Inr (db\<lparr>transactions := t\<rparr>))"

definition seed_fx_rows :: "runtime \<Rightarrow> exn + fx_row list" where
  "seed_fx_rows rt = mapE (\<lambda>(source, currency, rateDate, rawRate, rawUnits).
     fx_in rt source (currency, rateDate, rawRate, rawUnits)) seed_fx"

definition seed_tx_rows :: "runtime \<Rightarrow> millis \<Rightarrow> exn + tx_row list" where
  "seed_tx_rows rt now = mapE (\<lambda>(i, spec). seed_tx rt now i spec) (enumerate 1 txSpecs)"

text \<open>The script: each upsert is a statement of its own, so a failure keeps the earlier ones.\<close>

definition seed :: "runtime \<Rightarrow> millis \<Rightarrow> (db, unit) svc" where
  "seed rt now =
     bindS (writeE (upsert_currencies seed_currencies)) (\<lambda>_.
     bindS (writeE (upsert_users seed_users)) (\<lambda>_.
     bindS (writeE (upsert_instruments (seed_instruments now))) (\<lambda>_.
     bindS (writeE (upsert_categories seed_categories)) (\<lambda>_.
     bindS (writeE (upsert_accounts (seed_accounts now))) (\<lambda>_.
     bindS (writeE (\<lambda>db. bindE (seed_fx_rows rt) (\<lambda>rows. upsert_fx rows db))) (\<lambda>_.
     writeE (\<lambda>db. bindE (seed_tx_rows rt now) (\<lambda>rows. upsert_transactions rows db))))))))"

section \<open>Ids\<close>

lemma dec_acc_zeros: "dec_acc 0 (replicate k (CHR ''0'') @ s) = dec_acc 0 s"
  by (induction k) (simp_all add: digit_val_def)

lemma dec_acc_padStart: "dec_acc 0 (padStart w (CHR ''0'') (nat_text n)) = Some n"
  by (simp add: padStart_def dec_acc_zeros dec_acc_nat_text)

lemma seed_id_inject [simp]: "seed_id ns m = seed_id ns n \<longleftrightarrow> m = n"
proof
  assume "seed_id ns m = seed_id ns n"
  then have "dec_acc 0 (padStart 12 (CHR ''0'') (nat_text m)) = dec_acc 0 (padStart 12 (CHR ''0'') (nat_text n))"
    by (simp only: seed_id_def same_append_eq)
  then show "m = n" by (simp add: dec_acc_padStart)
qed simp

lemma seed_id_parts:
  "list_all (\<lambda>n. let s = padStart 12 (CHR ''0'') (nat_text n) in length s = 12 \<and> list_all lower_hex s) [1..<41]"
  "list_all (\<lambda>ns. let s = padStart 8 (CHR ''0'') (nat_text ns) @ ''-0000-4000-8000-'' in length s = 24 \<and>
     list_all (\<lambda>(i, c). if i \<in> {8, 13, 18, 23} then c = CHR ''-'' else lower_hex c) (enumerate 0 s)) [1..<6]"
  by code_simp+

lemma seed_id_uuid:
  assumes "1 \<le> ns" "ns \<le> 5" "1 \<le> n" "n \<le> 40"
  shows "is_uuid (seed_id ns n)"
proof -
  have "n \<in> set [1..<41]" "ns \<in> set [1..<6]" using assms by auto
  then show ?thesis
    using seed_id_parts [THEN list_all_iff [THEN iffD1, THEN bspec]]
    unfolding Let_def seed_id_def append_assoc [symmetric] by (blast intro: is_uuid_append)
qed

lemma index_rows_map: "(\<And>i r. g (f i r) = h i) \<Longrightarrow> map g (index_rows f rows) = map h [1..<Suc (length rows)]"
proof -
  assume g: "\<And>i r. g (f i r) = h i"
  have "map g (index_rows f rows) = map h (map fst (enumerate 1 rows))"
    by (simp add: index_rows_def g split_def comp_def del: map_fst_enumerate)
  then show ?thesis by (simp del: upt_Suc)
qed

lemma index_rows_map_row: "(\<And>i r. g (f i r) = f' i r) \<Longrightarrow> map g (index_rows f rows) = index_rows f' rows"
  by (simp add: index_rows_def split_def comp_def)

lemma index_rows_mem:
  assumes "x \<in> set (index_rows f rows)"
  shows "\<exists>i row. 1 \<le> i \<and> i \<le> length rows \<and> row \<in> set rows \<and> x = f i row"
proof -
  obtain i row where m: "(i, row) \<in> set (enumerate 1 rows)" "x = f i row"
    using assms by (auto simp: index_rows_def)
  then have "fst (i, row) \<in> set (map fst (enumerate 1 rows))" "snd (i, row) \<in> set (map snd (enumerate 1 rows))"
    unfolding set_map by (blast intro: imageI)+
  then show ?thesis using m(2) by (auto simp del: upt_Suc)
qed

lemma index_rows_keys:
  assumes "\<And>i r. g (f i r) = seed_id ns i"
  shows "distinct (map g (index_rows f rows)) \<and> g ` set (index_rows f rows) = seed_id ns ` {1..length rows}"
proof -
  have m: "map g (index_rows f rows) = map (seed_id ns) [1..<Suc (length rows)]"
    by (rule index_rows_map) (rule assms)
  then have "g ` set (index_rows f rows) = seed_id ns ` set [1..<Suc (length rows)]" by (metis set_map)
  moreover have "distinct (map (seed_id ns) [1..<Suc (length rows)])"
    by (simp add: distinct_map inj_on_def del: upt_Suc)
  ultimately show ?thesis
    unfolding m by (simp add: atLeastLessThanSuc_atLeastAtMost del: upt_Suc)
qed

section \<open>The rows satisfy the constraints\<close>

lemma seed_lengths:
  "length seed_currencies = 41" "length seed_users = 8" "length (seed_accounts now) = 12"
  "length (seed_instruments now) = 10" "length seed_categories = 8" "length seed_fx = 12"
  "length txSpecs = 40"
  by (simp_all add: seed_currencies_def seed_users_def seed_accounts_def seed_instruments_def
      seed_categories_def seed_fx_def txSpecs_def index_rows_def)

lemma index_rows_image:
  assumes "\<And>i r. g (f i r) = seed_id ns i" "length (index_rows f rows) = n"
  shows "g ` set (index_rows f rows) = seed_id ns ` {1..n}"
  using index_rows_keys [of g f ns rows] assms by (simp add: index_rows_def)

lemma seed_keys:
  "distinct (map u_id seed_users)" "u_id ` set seed_users = seed_id 1 ` {1..8}"
  "distinct (map a_id (seed_accounts now))" "a_id ` set (seed_accounts now) = seed_id 2 ` {1..12}"
  "distinct (map i_id (seed_instruments now))" "i_id ` set (seed_instruments now) = seed_id 3 ` {1..10}"
  "distinct (map g_id seed_categories)" "g_id ` set seed_categories = seed_id 4 ` {1..8}"
proof -
  note d = index_rows_keys [THEN conjunct1]
  show "distinct (map u_id seed_users)" unfolding seed_users_def by (rule d [of _ _ 1]) auto
  show "distinct (map a_id (seed_accounts now))" unfolding seed_accounts_def by (rule d [of _ _ 2]) auto
  show "distinct (map i_id (seed_instruments now))" unfolding seed_instruments_def by (rule d [of _ _ 3]) auto
  show "distinct (map g_id seed_categories)" unfolding seed_categories_def by (rule d [of _ _ 4]) auto
  show "u_id ` set seed_users = seed_id 1 ` {1..8}"
    using seed_lengths(2) unfolding seed_users_def by (intro index_rows_image) auto
  show "a_id ` set (seed_accounts now) = seed_id 2 ` {1..12}"
    using seed_lengths(3) unfolding seed_accounts_def by (intro index_rows_image) auto
  show "i_id ` set (seed_instruments now) = seed_id 3 ` {1..10}"
    using seed_lengths(4) unfolding seed_instruments_def by (intro index_rows_image) auto
  show "g_id ` set seed_categories = seed_id 4 ` {1..8}"
    using seed_lengths(5) unfolding seed_categories_def by (intro index_rows_image) auto
qed

text \<open>The texts of numbers and dates are in the form in which Postgres writes them.\<close>

definition seed_numerics :: "(string \<times> int) list" where
  "seed_numerics =
    [(''0.0024000000'', 24000000),
     (''0.0640000000'', 640000000),
     (''0.9500000000'', 9500000000),
     (''10.4000000000'', 104000000000),
     (''10.4500000000'', 104500000000),
     (''27.7000000000'', 277000000000),
     (''27.8000000000'', 278000000000),
     (''41.4500000000'', 414500000000),
     (''41.5000000000'', 415000000000),
     (''41.6000000000'', 416000000000),
     (''44.9000000000'', 449000000000),
     (''45.0000000000'', 450000000000),
     (''45.2000000000'', 452000000000),
     (''52.0000000000'', 520000000000),
     (''52.8000000000'', 528000000000),
     (''52.9000000000'', 529000000000),
     (''60.0000000000'', 600000000000),
     (''180.0000000000'', 1800000000000),
     (''340.0000000000'', 3400000000000),
     (''500.0000000000'', 5000000000000)]"

definition known_numeric :: "string \<Rightarrow> bool" where
  "known_numeric s \<longleftrightarrow> s = ''1'' \<or> s \<in> fst ` set seed_numerics"

definition numeric_of :: "string \<Rightarrow> int" where
  "numeric_of s = the (canonical_numeric_in s)"

lemma digits:
  "digit 0 = CHR ''0''" "digit (Suc 0) = CHR ''1''" "digit 1 = CHR ''1''" "digit 2 = CHR ''2''"
  "digit 3 = CHR ''3''" "digit 4 = CHR ''4''" "digit 5 = CHR ''5''" "digit 6 = CHR ''6''"
  "digit 7 = CHR ''7''" "digit 8 = CHR ''8''" "digit 9 = CHR ''9''"
  by code_simp+

lemma nat_10: "(10 :: nat) = Suc (Suc (Suc (Suc (Suc (Suc (Suc (Suc (Suc (Suc 0)))))))))"
  by simp

lemma fixed_dec_10:
  "fixed_dec 10 n = map digit [n div 1000000000 mod 10, n div 100000000 mod 10,
     n div 10000000 mod 10, n div 1000000 mod 10, n div 100000 mod 10, n div 10000 mod 10,
     n div 1000 mod 10, n div 100 mod 10, n div 10 mod 10, n mod 10]"
  by (subst (1) nat_10) (simp add: div_mult2_eq [symmetric])

lemma nat_text_numeral:
  "nat_text (numeral k) = (if numeral k < (10 :: nat) then [digit (numeral k)]
     else nat_text (numeral k div 10) @ [digit (numeral k mod 10)])"
  "nat_text (Suc 0) = ''1''" "nat_text 0 = ''0''"
  by (rule nat_text.simps) (simp_all add: nat_text.simps digits)

lemma seed_numerics_out: "list_all (\<lambda>(s, r). numeric_out r = s) seed_numerics"
  unfolding seed_numerics_def list.pred_inject prod.case
  by (intro conjI TrueI; simp add: numeric_out_def fixed_dec_10 nat_text_numeral digits)

lemma seed_numerics_range: "list_all (\<lambda>(s, r). 0 < r \<and> numeric_ok r) seed_numerics"
  by (simp add: seed_numerics_def numeric_ok_def)

lemma known_numeric_out:
  "known_numeric s \<Longrightarrow> \<exists>r. 0 < r \<and> numeric_ok r \<and> (s = ''1'' \<and> r = numeric_one \<or> numeric_out r = s)"
proof (cases "s = ''1''")
  case True
  have "0 < numeric_one" by (simp add: numeric_one_def)
  with True numeric_ok_one show ?thesis by blast
next
  case False
  assume "known_numeric s"
  then obtain r where m: "(s, r) \<in> set seed_numerics" using False by (auto simp: known_numeric_def)
  show ?thesis
    using seed_numerics_out [unfolded list_all_iff, THEN bspec, OF m]
      seed_numerics_range [unfolded list_all_iff, THEN bspec, OF m] unfolding prod.case by blast
qed

lemma bind_known:
  assumes "pg_ok rt" "known_numeric s"
  shows "bind_numeric rt s = Inr (numeric_of s)" "0 < numeric_of s" "numeric_ok (numeric_of s)"
proof -
  obtain r where r: "0 < r" "numeric_ok r" "s = ''1'' \<and> r = numeric_one \<or> numeric_out r = s"
    using known_numeric_out [OF assms(2)] by blast
  then have "numeric_of s = r"
    using canonical_numeric_out canonical_numeric_one by (auto simp: numeric_of_def)
  moreover have "pg_numeric_in rt s = Some r" using r pg_okD(5,6) [OF assms(1)] by metis
  ultimately show "bind_numeric rt s = Inr (numeric_of s)" "0 < numeric_of s" "numeric_ok (numeric_of s)"
    using r by (simp_all add: bind_numeric_def)
qed

lemma seed_texts_known: "list_all (\<lambda>(s, c, d, r, u). known_numeric r) seed_fx"
    "list_all (\<lambda>(c, r). known_numeric r) fxRateForCurrency"
  by code_simp+

definition fx_spec_ok :: "string \<times> string \<times> string \<times> string \<times> int \<Rightarrow> bool" where
  "fx_spec_ok row = (case row of (source, currency, rateDate, rawRate, rawUnits) \<Rightarrow>
     source \<in> {''seed'', ''seed-alt''} \<and> currency \<in> {''USD'', ''EUR'', ''GBP'', ''PLN'', ''JPY''} \<and>
     rateDate \<in> {''2026-01-01'', ''2026-01-02''} \<and> rawUnits \<in> {1, 100})"

lemma seed_fx_specs: "list_all fx_spec_ok seed_fx"
  by code_simp

lemma seed_dates:
  "iso_day_range 20454" "date_text 20454 = ''2026-01-01''" "iso_day_range 20455" "date_text 20455 = ''2026-01-02''"
  by code_simp+

definition fx_of :: "runtime \<Rightarrow> string \<times> string \<times> string \<times> string \<times> int \<Rightarrow> fx_row" where
  "fx_of rt row = (case row of (source, currency, rateDate, rawRate, rawUnits) \<Rightarrow>
     \<lparr>f_currency = currency, f_rate_date = (if rateDate = ''2026-01-01'' then 20454 else 20455),
      f_source = source, f_raw_rate = numeric_of rawRate, f_raw_units = rawUnits,
      f_rate = pg_divide rt (numeric_of rawRate) rawUnits\<rparr>)"

lemma seed_bind_date:
  assumes "pg_ok rt" "d \<in> {''2026-01-01'', ''2026-01-02''}"
  shows "bind_date rt d = Inr (if d = ''2026-01-01'' then 20454 else 20455)"
  using pg_okD(4) [OF assms(1) seed_dates(1)] pg_okD(4) [OF assms(1) seed_dates(3)] assms(2)
  by (auto simp: bind_date_def seed_dates(2,4))

lemma seed_fx_in:
  assumes "pg_ok rt" "(source, currency, rateDate, rawRate, rawUnits) \<in> set seed_fx"
  shows "fx_in rt source (currency, rateDate, rawRate, rawUnits) =
      Inr (fx_of rt (source, currency, rateDate, rawRate, rawUnits))"
    and "fx_rate_check (fx_of rt (source, currency, rateDate, rawRate, rawUnits)) = None"
proof -
  have "fx_spec_ok (source, currency, rateDate, rawRate, rawUnits)"
    using assms(2) seed_fx_specs unfolding list_all_iff by blast
  then have spec: "source \<in> {''seed'', ''seed-alt''}" "currency \<in> {''USD'', ''EUR'', ''GBP'', ''PLN'', ''JPY''}"
      "rateDate \<in> {''2026-01-01'', ''2026-01-02''}" "rawUnits = 1 \<or> rawUnits = 100"
    unfolding fx_spec_ok_def prod.case by blast+
  have "known_numeric rawRate" using assms(2) seed_texts_known(1) by (auto simp: list_all_iff)
  then have n: "bind_numeric rt rawRate = Inr (numeric_of rawRate)" "0 < numeric_of rawRate"
    using bind_known [OF assms(1)] by blast+
  have t: "bind_text source = Inr source" "bind_text currency = Inr currency"
    using spec(1,2) by (auto simp: bind_text_def)
  have u: "bind_integer rawUnits = Inr rawUnits" "rawUnits \<noteq> 0" "0 < rawUnits"
    using spec(4) by (auto simp: bind_integer_def)
  show "fx_in rt source (currency, rateDate, rawRate, rawUnits) =
      Inr (fx_of rt (source, currency, rateDate, rawRate, rawUnits))"
    using n t u seed_bind_date [OF assms(1) spec(3)] by (simp add: fx_in_def fx_of_def)
  show "fx_rate_check (fx_of rt (source, currency, rateDate, rawRate, rawUnits)) = None"
    using spec(1,2) n u by (auto simp: fx_rate_check_def fx_of_def first_violated_None char_length_def)
qed

text \<open>What the specifications of the transactions have in common.\<close>

definition spec_ok :: "TxSpec \<Rightarrow> bool" where
  "spec_ok spec \<longleftrightarrow> 1 \<le> sp_accountIdx spec \<and> sp_accountIdx spec \<le> 12 \<and>
     0 \<le> sp_amountCents spec \<and> sp_amountCents spec \<le> 10000000 \<and>
     (sp_type spec \<in> {Buy, Sell}) = (sp_instrumentIdx spec \<noteq> None) \<and>
     null_or (\<lambda>i. 1 \<le> i \<and> i \<le> 10) (sp_instrumentIdx spec) \<and>
     null_or (\<lambda>i. 1 \<le> i \<and> i \<le> 8) (sp_categoryIdx spec) \<and>
     null_or (\<lambda>q. 0 < q \<and> q \<le> 1000000000) (sp_quantityMicro spec) \<and>
     null_or known_numeric (sp_unitPrice spec) \<and> char_length (sp_description spec) \<le> 100"

lemma txSpecs_ok: "list_all spec_ok txSpecs"
  by code_simp

lemma account_currencies: "list_all (\<lambda>a. a_currency a \<in> {''UAH'', ''USD'', ''EUR''}) (seed_accounts 0)"
  by (simp add: seed_accounts_def index_rows_def)

lemma seed_accounts_created: "seed_accounts now = map (\<lambda>a. a\<lparr>a_created_at := now\<rparr>) (seed_accounts 0)"
  unfolding seed_accounts_def by (subst index_rows_map_row) auto

lemma seed_instruments_created: "seed_instruments now = map (\<lambda>i. i\<lparr>i_created_at := now\<rparr>) (seed_instruments 0)"
  unfolding seed_instruments_def by (subst index_rows_map_row) auto

definition seed_currency_of :: "nat \<Rightarrow> string" where
  "seed_currency_of k = the (map_of accountCurrency (seed_id 2 k))"

lemma seed_currency:
  assumes "1 \<le> k" "k \<le> 12"
  shows "seed_currency_of k \<in> {''UAH'', ''USD'', ''EUR''}"
    and "(seed_id 2 k, seed_currency_of k) \<in> (\<lambda>a. (a_id a, a_currency a)) ` set (seed_accounts now)"
proof -
  have "seed_id 2 k \<in> a_id ` set (seed_accounts 0)" using assms seed_keys(4) [of 0] by auto
  then have "seed_id 2 k \<in> fst ` set accountCurrency" by (force simp: accountCurrency_def)
  then obtain c where c: "map_of accountCurrency (seed_id 2 k) = Some c"
    using map_of_eq_None_iff by (metis option.exhaust)
  then have m: "(seed_id 2 k, c) \<in> (\<lambda>a. (a_id a, a_currency a)) ` set (seed_accounts 0)"
    using map_of_SomeD [OF c] by (simp add: accountCurrency_def)
  then show "seed_currency_of k \<in> {''UAH'', ''USD'', ''EUR''}"
    using account_currencies c by (auto simp: list_all_iff seed_currency_of_def)
  show "(seed_id 2 k, seed_currency_of k) \<in> (\<lambda>a. (a_id a, a_currency a)) ` set (seed_accounts now)"
    using m c by (auto simp: seed_accounts_created [of now] seed_currency_of_def image_iff)
qed

definition tx_of :: "millis \<Rightarrow> nat \<Rightarrow> TxSpec \<Rightarrow> tx_row" where
  "tx_of now i spec =
     \<lparr>t_id = seed_id 5 i, t_account_id = seed_id 2 (sp_accountIdx spec),
      t_instrument_id = map_option (seed_id 3) (sp_instrumentIdx spec),
      t_category_id = map_option (seed_id 4) (sp_categoryIdx spec),
      t_currency = seed_currency_of (sp_accountIdx spec), t_type = sp_type spec, t_status = Posted,
      t_amount_cents = sp_amountCents spec,
      t_fx_rate = numeric_of (the (map_of fxRateForCurrency (seed_currency_of (sp_accountIdx spec)))),
      t_quantity_micro = sp_quantityMicro spec, t_unit_price = map_option numeric_of (sp_unitPrice spec),
      t_booked_at = bookedAt (sp_day spec), t_description = Some (sp_description spec),
      t_created_at = now\<rparr>"

lemma numeric_of_out: "numeric_of (numeric_out r) = r"
  by (simp add: numeric_of_def canonical_numeric_out)

lemma seed_rate:
  assumes "c \<in> {''UAH'', ''USD'', ''EUR''}"
  shows "\<exists>r. map_of fxRateForCurrency c = Some r \<and> known_numeric r \<and> (c = ''UAH'') = (numeric_of r = numeric_one)"
proof -
  have "numeric_of ''1'' = numeric_one" by (simp add: numeric_of_def canonical_numeric_one)
  moreover have "numeric_out 415000000000 = ''41.5000000000''" "numeric_out 450000000000 = ''45.0000000000''"
    using seed_numerics_out unfolding seed_numerics_def list.pred_inject prod.case by blast+
  then have "numeric_of ''41.5000000000'' = 415000000000" "numeric_of ''45.0000000000'' = 450000000000"
    using numeric_of_out by metis+
  ultimately show ?thesis
    using assms seed_texts_known(2) by (auto simp: fxRateForCurrency_def numeric_one_def)
qed

lemma seed_tx_eq:
  assumes "pg_ok rt" "spec_ok spec"
  shows "seed_tx rt now i spec = Inr (tx_of now i spec)"
proof -
  have "seed_currency_of (sp_accountIdx spec) \<in> {''UAH'', ''USD'', ''EUR''}"
    using assms(2) by (intro seed_currency(1)) (simp_all add: spec_ok_def)
  then obtain r where r: "map_of fxRateForCurrency (seed_currency_of (sp_accountIdx spec)) = Some r" "known_numeric r"
    using seed_rate by blast
  have "optE (bind_numeric rt) (sp_unitPrice spec) = Inr (map_option numeric_of (sp_unitPrice spec))"
    using assms bind_known(1) [OF assms(1)] by (cases "sp_unitPrice spec") (auto simp: spec_ok_def null_or_def)
  then show ?thesis
    using r bind_known(1) [OF assms(1) r(2)]
    by (simp add: seed_tx_def tx_of_def Let_def seed_currency_of_def [symmetric])
qed

lemma tx_of_ok:
  assumes "spec_ok spec" "pg_ok rt"
  shows "transaction_check (tx_of now i spec) = None" "fits_bigint (t_amount_cents (tx_of now i spec))"
    "numeric_ok (t_fx_rate (tx_of now i spec))" "null_or fits_bigint (t_quantity_micro (tx_of now i spec))"
proof -
  let ?c = "seed_currency_of (sp_accountIdx spec)"
  have c: "?c \<in> {''UAH'', ''USD'', ''EUR''}"
    using assms(1) by (intro seed_currency(1)) (simp_all add: spec_ok_def)
  obtain r where r: "map_of fxRateForCurrency ?c = Some r" "known_numeric r"
      "(?c = ''UAH'') = (numeric_of r = numeric_one)"
    using seed_rate [OF c] by blast
  note n = bind_known(2,3) [OF assms(2)]
  have "null_or (\<lambda>p. 0 < p) (map_option numeric_of (sp_unitPrice spec))"
    using assms(1) n(1) by (cases "sp_unitPrice spec") (auto simp: spec_ok_def null_or_def)
  then show "transaction_check (tx_of now i spec) = None"
    using assms(1) r n [OF r(2)]
    by (auto simp: transaction_check_def tx_of_def first_violated_None spec_ok_def null_or_def
        split: option.splits)
  show "numeric_ok (t_fx_rate (tx_of now i spec))" using r n [OF r(2)] by (simp add: tx_of_def)
  show "fits_bigint (t_amount_cents (tx_of now i spec))"
    "null_or fits_bigint (t_quantity_micro (tx_of now i spec))"
    using assms(1) by (auto simp: tx_of_def spec_ok_def fits_bigint_def null_or_def split: option.splits)
qed

section \<open>The seeded database\<close>

definition empty_db :: db where
  "empty_db = \<lparr>users = [], currencies = [], accounts = [], instruments = [], categories = [],
     fx_rates = [], transactions = [], job_queue = [], refresh_tokens = [],
     revoked_access_tokens = [], order_receipts = []\<rparr>"

definition seed_txs :: "millis \<Rightarrow> tx_row list" where
  "seed_txs now = index_rows (tx_of now) txSpecs"

definition seeded_db :: "runtime \<Rightarrow> millis \<Rightarrow> db" where
  "seeded_db rt now = \<lparr>users = seed_users, currencies = seed_currencies, accounts = seed_accounts now,
     instruments = seed_instruments now, categories = seed_categories,
     fx_rates = map (fx_of rt) seed_fx, transactions = seed_txs now, job_queue = [],
     refresh_tokens = [], revoked_access_tokens = [], order_receipts = []\<rparr>"

lemma seed_checks:
  "list_all (\<lambda>r. currency_check r = None) seed_currencies" "distinct (map c_code seed_currencies)"
  "distinct (map c_numeric_code seed_currencies)"
  "list_all (\<lambda>u. user_check u = None) seed_users" "distinct (map u_email seed_users)"
  "list_all (\<lambda>i. instrument_check i = None) (seed_instruments 0)" "distinct (map i_symbol (seed_instruments 0))"
  "list_all (\<lambda>g. category_check g = None) seed_categories" "distinct (map g_name seed_categories)"
  "list_all (\<lambda>a. account_check a = None \<and> fits_bigint (a_balance_cents a)) (seed_accounts 0)"
  by code_simp+

lemma seed_codes: "{''UAH'', ''USD'', ''EUR'', ''GBP'', ''PLN'', ''JPY''} \<subseteq> c_code ` set seed_currencies"
  by (simp add: seed_currencies_def)

lemma seed_account_owner: "a \<in> set (seed_accounts now) \<Longrightarrow> a_user_id a \<in> seed_id 1 ` {1..8}"
  by (auto simp: seed_accounts_def index_rows_def)

lemma seed_account_ok: "a \<in> set (seed_accounts now) \<Longrightarrow> account_ok (seeded_db rt now) a"
proof -
  assume a: "a \<in> set (seed_accounts now)"
  then obtain b where b: "b \<in> set (seed_accounts 0)" "a = b\<lparr>a_created_at := now\<rparr>"
    unfolding seed_accounts_created [of now] by auto
  have "a_id a \<in> seed_id 2 ` {1..12}" using a seed_keys(4) [of now] by blast
  then have "is_uuid (a_id a)" using seed_id_uuid by auto
  moreover have "account_check a = None" "fits_bigint (a_balance_cents a)"
    using seed_checks(10) b by (auto simp: list_all_iff account_check_def)
  moreover have "a_currency a \<in> c_code ` set seed_currencies"
    using account_currencies b seed_codes by (auto simp: list_all_iff)
  ultimately show ?thesis
    using seed_account_owner [OF a] seed_keys(2) by (simp add: account_ok_def account_fk_def first_violated_None seeded_db_def)
qed

lemma seed_tx_mem: "t \<in> set (seed_txs now) \<Longrightarrow> \<exists>i spec. 1 \<le> i \<and> i \<le> 40 \<and> spec_ok spec \<and> t = tx_of now i spec"
  using index_rows_mem [of t "tx_of now" txSpecs] txSpecs_ok seed_lengths(7)
  by (auto simp: seed_txs_def list_all_iff)

lemma seed_tx_fk:
  assumes "spec_ok spec" "accounts db = seed_accounts now'" "instruments db = seed_instruments now'"
    "categories db = seed_categories" "currencies db = seed_currencies"
  shows "transaction_fk db (tx_of now i spec) = None"
proof -
  have k: "1 \<le> sp_accountIdx spec" "sp_accountIdx spec \<le> 12" using assms(1) by (simp_all add: spec_ok_def)
  have "seed_currency_of (sp_accountIdx spec) \<in> c_code ` set seed_currencies"
    using seed_currency(1) [OF k] seed_codes by auto
  moreover have "null_or (\<lambda>i. i \<in> i_id ` set (seed_instruments now')) (map_option (seed_id 3) (sp_instrumentIdx spec))"
    using assms(1) seed_keys(6) [of now'] by (cases "sp_instrumentIdx spec") (auto simp: spec_ok_def null_or_def)
  moreover have "null_or (\<lambda>g. g \<in> g_id ` set seed_categories) (map_option (seed_id 4) (sp_categoryIdx spec))"
    using assms(1) seed_keys(8) by (cases "sp_categoryIdx spec") (auto simp: spec_ok_def null_or_def)
  ultimately show ?thesis
    using seed_currency(2) [OF k, of now'] assms(2-5)
    by (simp add: transaction_fk_def first_violated_None tx_of_def)
qed

lemma seed_tx_keys: "distinct (map t_id (seed_txs now))" "t_id ` set (seed_txs now) = seed_id 5 ` {1..40}"
proof -
  show "distinct (map t_id (seed_txs now))"
    unfolding seed_txs_def by (rule index_rows_keys [THEN conjunct1, of _ _ 5]) (simp add: tx_of_def)
  show "t_id ` set (seed_txs now) = seed_id 5 ` {1..40}"
    unfolding seed_txs_def using seed_lengths(7) by (intro index_rows_image) (simp_all add: tx_of_def index_rows_def)
qed

lemma seed_fx_keys: "distinct (map fx_key (map (fx_of rt) seed_fx))"
  by (simp add: seed_fx_def fx_of_def fx_key_def)

lemma seed_fx_row: "f \<in> set (map (fx_of rt) seed_fx) \<Longrightarrow> pg_ok rt \<Longrightarrow> pg_divide_ok rt \<Longrightarrow>
  fx_rate_check f = None \<and> numeric_ok (f_raw_rate f) \<and> numeric_ok (f_rate f) \<and> f_currency f \<in> c_code ` set seed_currencies"
proof -
  assume f: "f \<in> set (map (fx_of rt) seed_fx)" and rt: "pg_ok rt" "pg_divide_ok rt"
  then obtain s c d r u where row: "(s, c, d, r, u) \<in> set seed_fx" "f = fx_of rt (s, c, d, r, u)" by auto
  note i = seed_fx_in [OF rt(1) row(1)]
  have "fx_spec_ok (s, c, d, r, u)" using row(1) seed_fx_specs unfolding list_all_iff by blast
  then have "c \<in> c_code ` set seed_currencies" using seed_codes by (auto simp: fx_spec_ok_def)
  moreover have "f_currency f = c" using row(2) by (simp add: fx_of_def)
  ultimately show ?thesis using fx_in_ok [OF i(1) rt(2) i(2)] i(2) row(2) by simp
qed

lemma seeded_db_ok:
  assumes "pg_ok rt" "pg_divide_ok rt"
  shows "db_ok (seeded_db rt now)"
proof -
  have i: "list_all (\<lambda>i. instrument_check i = None) (seed_instruments now)"
      "map i_symbol (seed_instruments now) = map i_symbol (seed_instruments 0)"
    using seed_checks(6) by (simp_all add: seed_instruments_created [of now] list_all_iff instrument_check_def)
  have u: "list_all (\<lambda>u. is_uuid (u_id u)) seed_users"
    unfolding list_all_iff
  proof
    fix u
    assume "u \<in> set seed_users"
    then have "u_id u \<in> seed_id 1 ` {1..8}" using seed_keys(2) by blast
    then show "is_uuid (u_id u)" using seed_id_uuid by auto
  qed
  have t: "transaction_ok (seeded_db rt now) t" if m: "t \<in> set (seed_txs now)" for t
  proof -
    obtain i spec where s: "1 \<le> i" "i \<le> 40" "spec_ok spec" "t = tx_of now i spec" using seed_tx_mem [OF m] by blast
    have "is_uuid (t_id t)" using seed_id_uuid [of 5 i] s by (simp add: tx_of_def)
    then show ?thesis
      using tx_of_ok [OF s(3) assms(1)] seed_tx_fk [OF s(3), of "seeded_db rt now" now] s(4)
      by (simp add: transaction_ok_def seeded_db_def)
  qed
  have f: "fx_row_ok (seeded_db rt now) f" if "f \<in> set (map (fx_of rt) seed_fx)" for f
    using seed_fx_row [OF that assms] by (simp add: fx_row_ok_def seeded_db_def)
  have a: "list_all (account_ok (seeded_db rt now)) (seed_accounts now)"
    using seed_account_ok by (simp add: list_all_iff)
  have flds: "users (seeded_db rt now) = seed_users" "currencies (seeded_db rt now) = seed_currencies"
      "accounts (seeded_db rt now) = seed_accounts now" "instruments (seeded_db rt now) = seed_instruments now"
      "fx_rates (seeded_db rt now) = map (fx_of rt) seed_fx" "transactions (seeded_db rt now) = seed_txs now"
    by (simp_all add: seeded_db_def)
  have empties: "job_queue (seeded_db rt now) = []" "refresh_tokens (seeded_db rt now) = []"
      "revoked_access_tokens (seeded_db rt now) = []" "order_receipts (seeded_db rt now) = []"
    by (simp_all add: seeded_db_def)
  have t': "list_all (transaction_ok (seeded_db rt now)) (seed_txs now)" unfolding list_all_iff using t by blast
  have f': "list_all (fx_row_ok (seeded_db rt now)) (map (fx_of rt) seed_fx)" unfolding list_all_iff using f by blast
  have s: "distinct (map i_symbol (seed_instruments now))" unfolding i(2) by (rule seed_checks(7))
  show ?thesis
    unfolding db_ok_def flds empties list.pred_inject list.map distinct.simps
    by (intro conjI TrueI seed_keys(1,3,5) seed_checks(1,2,5) s i(1) u a seed_fx_keys f' seed_tx_keys(1) t') simp_all
qed

section \<open>Running the script\<close>

lemma list_all2_same_map:
  "(\<And>x. x \<in> set xs \<Longrightarrow> P (f x) (g x)) \<Longrightarrow> list_all2 P (map f xs) (map g xs)"
  by (simp add: list_all2_conv_all_nth)

lemma upsert_seed_currencies:
  assumes "currencies db = [] \<or> currencies db = seed_currencies"
  shows "upsert_currencies seed_currencies db = Inr (db\<lparr>currencies := seed_currencies\<rparr>)"
proof -
  have "upsert currency_check c_code (\<lambda>t r. c_numeric_code t = c_numeric_code r) currency_merge (\<lambda>_. None)
      (currencies db) seed_currencies = Inr seed_currencies"
    using assms seed_checks(1) no_clash_distinct [OF seed_checks(3)]
    by (intro upsert_known seed_checks(2)) (auto simp: list_all_iff currency_merge_def intro: list_all2_refl)
  then show ?thesis by (simp add: upsert_currencies_def)
qed

lemma upsert_seed_users:
  assumes "users db = [] \<or> users db = seed_users"
  shows "upsert_users seed_users db = Inr (db\<lparr>users := seed_users\<rparr>)"
proof -
  have "upsert user_check u_id (\<lambda>t r. u_email t = u_email r) user_merge (\<lambda>_. None)
      (users db) seed_users = Inr seed_users"
    using assms seed_checks(4) no_clash_distinct [OF seed_checks(5)]
    by (intro upsert_known seed_keys(1)) (auto simp: list_all_iff user_merge_def intro: list_all2_refl)
  then show ?thesis by (simp add: upsert_users_def)
qed

lemma upsert_seed_categories:
  assumes "categories db = [] \<or> categories db = seed_categories"
  shows "upsert_categories seed_categories db = Inr (db\<lparr>categories := seed_categories\<rparr>)"
proof -
  have "upsert category_check g_id (\<lambda>t r. g_name t = g_name r) category_merge (\<lambda>_. None)
      (categories db) seed_categories = Inr seed_categories"
    using assms seed_checks(8) no_clash_distinct [OF seed_checks(9)]
    by (intro upsert_known seed_keys(7)) (auto simp: list_all_iff category_merge_def intro: list_all2_refl)
  then show ?thesis by (simp add: upsert_categories_def)
qed

text \<open>For the tables with a creation time: the first run sets it, a later run keeps it.\<close>

lemma upsert_seed_instruments:
  assumes "instruments db = [] \<and> now = later \<or> instruments db = seed_instruments now"
    and "currencies db = seed_currencies"
  shows "upsert_instruments (seed_instruments later) db = Inr (db\<lparr>instruments := seed_instruments now\<rparr>)"
proof -
  have "upsert instrument_check i_id (\<lambda>t r. i_symbol t = i_symbol r) instrument_merge (instrument_fk db)
      (instruments db) (seed_instruments later) = Inr (seed_instruments now)"
  proof (rule upsert_known)
    have "\<forall>i\<in>set (seed_instruments 0). instrument_check i = None" using seed_checks(6) by (simp add: list_all_iff)
    then show "\<forall>r\<in>set (seed_instruments later). instrument_check r = None"
      by (simp add: seed_instruments_created [of later] instrument_check_def)
    have "\<forall>i\<in>set (seed_instruments later). i_currency i = ''USD''"
      by (simp add: seed_instruments_def index_rows_def)
    then show "\<forall>r\<in>set (seed_instruments later). instrument_fk db r = None"
      using seed_codes assms(2) by (simp add: instrument_fk_def first_violated_None)
    show "\<forall>r\<in>set (seed_instruments later). \<forall>t\<in>set (seed_instruments now). i_id t \<noteq> i_id r \<longrightarrow> i_symbol t \<noteq> i_symbol r"
      using no_clash_distinct [OF seed_checks(7), of i_id]
      by (simp add: seed_instruments_created [of later] seed_instruments_created [of now])
    show "list_all2 (\<lambda>t r. i_id t = i_id r \<and> instrument_merge t r = t) (seed_instruments now) (seed_instruments later)"
      unfolding seed_instruments_created [of later] seed_instruments_created [of now]
      by (rule list_all2_same_map) (simp add: instrument_merge_def)
  qed (use assms(1) seed_keys(5) in auto)
  then show ?thesis by (simp add: upsert_instruments_def)
qed

lemma upsert_seed_accounts:
  assumes "accounts db = [] \<and> now = later \<or> accounts db = seed_accounts now"
    and "currencies db = seed_currencies" "users db = seed_users"
  shows "upsert_accounts (seed_accounts later) db = Inr (db\<lparr>accounts := seed_accounts now\<rparr>)"
proof -
  have "upsert account_check a_id (\<lambda>t r. False) account_merge (account_fk db)
      (accounts db) (seed_accounts later) = Inr (seed_accounts now)"
  proof (rule upsert_known)
    show "\<forall>r\<in>set (seed_accounts later). account_check r = None"
      using seed_account_ok by (auto simp: account_ok_def)
    show "\<forall>r\<in>set (seed_accounts later). account_fk db r = None"
      using seed_account_ok assms(2,3) by (fastforce simp: account_ok_def account_fk_def seeded_db_def)
    show "list_all2 (\<lambda>t r. a_id t = a_id r \<and> account_merge t r = t) (seed_accounts now) (seed_accounts later)"
      unfolding seed_accounts_created [of later] seed_accounts_created [of now]
      by (rule list_all2_same_map) (simp add: account_merge_def)
  qed (use assms(1) seed_keys(3) in auto)
  then show ?thesis by (simp add: upsert_accounts_def)
qed

lemma seed_txs_created: "seed_txs now = map (\<lambda>t. t\<lparr>t_created_at := now\<rparr>) (seed_txs 0)"
  unfolding seed_txs_def by (subst index_rows_map_row) (simp_all add: tx_of_def)

lemma upsert_seed_transactions:
  assumes "transactions db = [] \<and> now = later \<or> transactions db = seed_txs now"
    and "accounts db = seed_accounts n" "instruments db = seed_instruments n"
    and "categories db = seed_categories" "currencies db = seed_currencies" "pg_ok rt"
  shows "upsert_transactions (seed_txs later) db = Inr (db\<lparr>transactions := seed_txs now\<rparr>)"
proof -
  have "upsert transaction_check t_id (\<lambda>t r. False) tx_merge (transaction_fk db)
      (transactions db) (seed_txs later) = Inr (seed_txs now)"
  proof (rule upsert_known)
    show "\<forall>r\<in>set (seed_txs later). transaction_check r = None"
      using tx_of_ok(1) [OF _ assms(6)] by (auto dest!: seed_tx_mem)
    show "\<forall>r\<in>set (seed_txs later). transaction_fk db r = None"
      using seed_tx_fk [OF _ assms(2-5)] by (auto dest!: seed_tx_mem)
    show "list_all2 (\<lambda>t r. t_id t = t_id r \<and> tx_merge t r = t) (seed_txs now) (seed_txs later)"
      unfolding seed_txs_created [of later] seed_txs_created [of now]
      by (rule list_all2_same_map) (simp add: tx_merge_def)
  qed (use assms(1) seed_tx_keys(1) in auto)
  then show ?thesis by (simp add: upsert_transactions_def)
qed

lemma upsert_seed_fx:
  assumes "fx_rates db = [] \<or> fx_rates db = map (fx_of rt) seed_fx" "currencies db = seed_currencies"
    and "pg_ok rt" "pg_divide_ok rt"
  shows "upsert_fx (map (fx_of rt) seed_fx) db = Inr (db\<lparr>fx_rates := map (fx_of rt) seed_fx\<rparr>)"
proof -
  have "upsert fx_rate_check fx_key (\<lambda>t r. False) fx_merge (fx_fk db) (fx_rates db) (map (fx_of rt) seed_fx) =
      Inr (map (fx_of rt) seed_fx)"
  proof (rule upsert_known)
    show "\<forall>r\<in>set (map (fx_of rt) seed_fx). fx_rate_check r = None"
      using seed_fx_row [OF _ assms(3,4)] by blast
    show "\<forall>r\<in>set (map (fx_of rt) seed_fx). fx_fk db r = None"
      using seed_fx_row [OF _ assms(3,4)] assms(2) by (simp add: fx_fk_def first_violated_None)
    show "list_all2 (\<lambda>t r. fx_key t = fx_key r \<and> fx_merge t r = t) (map (fx_of rt) seed_fx) (map (fx_of rt) seed_fx)"
      by (rule list_all2_same_map) (simp add: fx_merge_def)
  qed (use assms(1) seed_fx_keys in auto)
  then show ?thesis by (simp add: upsert_fx_def)
qed

lemma mapE_map: "(\<And>x. x \<in> set xs \<Longrightarrow> f x = Inr (g x)) \<Longrightarrow> mapE f xs = Inr (map g xs)"
  by (induction xs) simp_all

lemma seed_fx_rows_eq: "pg_ok rt \<Longrightarrow> seed_fx_rows rt = Inr (map (fx_of rt) seed_fx)"
  unfolding seed_fx_rows_def using seed_fx_in(1) by (intro mapE_map) auto

lemma seed_tx_rows_eq:
  assumes "pg_ok rt"
  shows "seed_tx_rows rt now = Inr (seed_txs now)"
proof -
  have "spec_ok spec" if "(i, spec) \<in> set (enumerate 1 txSpecs)" for i spec
  proof -
    have "spec \<in> snd ` set (enumerate 1 txSpecs)" using that by force
    then have "spec \<in> set (map snd (enumerate 1 txSpecs))" by (simp only: set_map)
    then show ?thesis using txSpecs_ok by (simp add: list_all_iff)
  qed
  then have "seed_tx_rows rt now = Inr (map (\<lambda>(i, spec). tx_of now i spec) (enumerate 1 txSpecs))"
    unfolding seed_tx_rows_def using seed_tx_eq [OF assms] by (intro mapE_map) auto
  then show ?thesis by (simp add: seed_txs_def index_rows_def)
qed

lemma seed_runs:
  assumes "pg_ok rt" "pg_divide_ok rt"
  shows "seed rt now empty_db = (Inr (), seeded_db rt now)"
    and "seed rt later (seeded_db rt now) = (Inr (), seeded_db rt now)"
proof -
  note u = upsert_seed_currencies upsert_seed_users upsert_seed_instruments [where now = now]
    upsert_seed_categories upsert_seed_accounts [where now = now]
    upsert_seed_fx [OF _ _ assms] upsert_seed_transactions [where now = now and n = now, OF _ _ _ _ _ assms(1)]
  show "seed rt now empty_db = (Inr (), seeded_db rt now)"
    by (simp add: seed_def bindS_def writeE_def u seed_fx_rows_eq [OF assms(1)] seed_tx_rows_eq [OF assms(1)] empty_db_def seeded_db_def)
  show "seed rt later (seeded_db rt now) = (Inr (), seeded_db rt now)"
    by (simp add: seed_def bindS_def writeE_def u seed_fx_rows_eq [OF assms(1)] seed_tx_rows_eq [OF assms(1)] seeded_db_def)
qed

text \<open>
  (C25) The seed script fills an empty schema with rows that satisfy every constraint, in an order
  that satisfies the foreign keys, and is idempotent: run again, whenever that is, it succeeds and
  leaves the database as it is, creation times included.
\<close>

theorem seed_idempotent:
  assumes "pg_ok rt" "pg_divide_ok rt"
  shows "seed rt now empty_db = (Inr (), seeded_db rt now) \<and> db_ok (seeded_db rt now) \<and>
    seed rt later (seeded_db rt now) = (Inr (), seeded_db rt now)"
  using seed_runs [OF assms] seeded_db_ok [OF assms] by blast

theorem seed_idempotent_witness:
  "fst (seed canonical_runtime 1767225600000 empty_db) = Inr () \<and>
   db_ok (snd (seed canonical_runtime 1767225600000 empty_db))"
  using seed_idempotent [OF canonical_runtime_ok canonical_divide_ok, of 1767225600000 0] by simp

end
