(* ===== verification/Demo_Race.thy ===== *)
theory Demo_Race
  imports Seed
begin

text \<open>
  The load script \<open>demo-race.ts\<close> on the database that \<open>seed.ts\<close> leaves: its reset, the fifty
  checkouts, and the checks with which it grades itself.
\<close>

section \<open>The script\<close>

definition ACCOUNT_ID :: uuid where
  "ACCOUNT_ID = ''00000002-0000-4000-8000-000000000002''"

definition INSTRUMENT_ID :: uuid where
  "INSTRUMENT_ID = ''00000003-0000-4000-8000-000000000001''"

definition MARKER :: string where
  "MARKER = ''hw14 demo:race''"

definition demo_reset :: "runtime \<Rightarrow> (db, unit) svc" where
  "demo_reset rt =
     bindS (liftS (bind_uuid rt ACCOUNT_ID)) (\<lambda>u.
     bindS (readS (\<lambda>db. filter (\<lambda>a. a_id a = u) (accounts db))) (\<lambda>existing.
     if existing = [] then throwS (plain_error (''Account '' @ ACCOUNT_ID @ '' is missing '' @ em_dash @ '' run \"npm run seed\" first.''))
     else
       bindS (writeS (\<lambda>db. db\<lparr>transactions := filter (\<lambda>t. t_description t \<noteq> Some MARKER) (transactions db),
          order_receipts := filter (\<lambda>r. \<exists>t\<in>set (transactions db). t_id t = rc_order_id r \<and>
            t_description t \<noteq> Some MARKER) (order_receipts db)\<rparr>)) (\<lambda>_.
       bindS (writeS (\<lambda>db. db\<lparr>job_queue := filter (\<lambda>j. j_type j \<noteq> ''order_receipt'') (job_queue db)\<rparr>)) (\<lambda>_.
       writeS (\<lambda>db. db\<lparr>accounts := update_where (\<lambda>a. a_id a = u)
         (\<lambda>a. a\<lparr>a_balance_cents := START_BALANCE_CENTS\<rparr>) (accounts db)\<rparr>)))))"

definition demo_request :: CheckoutRequest where
  "demo_request = \<lparr>cr_accountId = ACCOUNT_ID, cr_instrumentId = INSTRUMENT_ID, cr_quantity = Some 1,
     cr_quantity_text = ''1'', cr_unitPriceCents = PRICE_CENTS, cr_description = Some MARKER\<rparr>"

text \<open>\<open>Promise.all\<close> rejects when one of the calls throws.\<close>

definition promise_all :: "(exn + 'a) list \<Rightarrow> exn + 'a list" where
  "promise_all results = mapE id results"

definition succeeded_count :: "CheckoutResult list \<Rightarrow> nat" where
  "succeeded_count results = length (filter (\<lambda>r. succeeded (Inr r)) results)"

definition finalBalance :: "db \<Rightarrow> int" where
  "finalBalance db = balance_of db ACCOUNT_ID"

definition negativeRows :: "db \<Rightarrow> nat" where
  "negativeRows db = length (filter (\<lambda>a. a_balance_cents a < 0) (accounts db))"

definition marked_orders :: "db \<Rightarrow> nat" where
  "marked_orders db = length (filter (\<lambda>t. t_description t = Some MARKER) (transactions db))"

definition queued_receipts :: "db \<Rightarrow> nat" where
  "queued_receipts db = length (filter (\<lambda>j. j_type j = ''order_receipt'') (job_queue db))"

definition race_problems :: "nat \<Rightarrow> db \<Rightarrow> string list" where
  "race_problems won db =
     (if won \<noteq> UNITS
      then [''expected exactly '' @ nat_text UNITS @ '' successful checkouts, got '' @ nat_text won] else []) @
     (if finalBalance db \<noteq> 0
      then [''expected final balance 0 (stock fully drawn down), got '' @ int_text (finalBalance db)] else []) @
     (if negativeRows db \<noteq> 0
      then [''oversell: '' @ nat_text (negativeRows db) @ '' row(s) with a negative balance''] else []) @
     (if marked_orders db \<noteq> won
      then [''orphan orders: '' @ nat_text (marked_orders db) @ '' order rows for '' @ nat_text won @
            '' successful checkouts''] else []) @
     (if queued_receipts db \<noteq> won
      then [''queue drift: '' @ nat_text (queued_receipts db) @ '' jobs for '' @ nat_text won @
            '' successful checkouts''] else []) @
     (if START_BALANCE_CENTS - finalBalance db \<noteq> int won * PRICE_CENTS
      then [''arithmetic: debited '' @ int_text (START_BALANCE_CENTS - finalBalance db) @ '', expected '' @
            int_text (int won * PRICE_CENTS)] else [])"

text \<open>
  The run: seed, reset, the checkouts in the order in which the row lock lets them through, with no
  publisher. A call that throws ends the script with its error, a rejected call is only counted.
\<close>

definition demo_race :: "runtime \<Rightarrow> millis \<Rightarrow> checkout_values list \<Rightarrow> exn + string list" where
  "demo_race rt now cvs =
     (case bindS (seed rt now) (\<lambda>_. demo_reset rt) empty_db of
        (Inl e, _) \<Rightarrow> Inl e
      | (Inr _, db) \<Rightarrow>
          (case checkouts rt None demo_request cvs \<lparr>sh_db = db, sh_events = []\<rparr> of
             (settled, s) \<Rightarrow> bindE (promise_all settled) (\<lambda>results.
               Inr (race_problems (succeeded_count results) (sh_db s)))))"

lemma promise_all_fulfilled:
  assumes "\<forall>r\<in>set results. \<not> isl r"
  shows "\<exists>rs. promise_all results = Inr rs \<and> succeeded_count rs = length (filter succeeded results)"
proof -
  have "results = map Inr (map projr results)" using assms by (simp add: map_idI sum.collapse(2))
  moreover have "promise_all (map Inr rs) = Inr rs" for rs :: "CheckoutResult list"
    unfolding promise_all_def by (induction rs) simp_all
  moreover have "length (filter succeeded (map Inr rs)) = succeeded_count rs" for rs
    by (simp add: succeeded_count_def filter_map comp_def)
  ultimately show ?thesis by metis
qed

section \<open>The rows that the race leaves\<close>

definition covers :: "db \<Rightarrow> bool" where
  "covers db \<longleftrightarrow> (\<forall>a\<in>set (accounts db). 0 \<le> a_balance_cents a)"

lemma covers_placed:
  assumes "db_ok db" "covers db" "a \<in> set (accounts db)" "cost \<le> a_balance_cents a"
  shows "covers (placed a cost row job db)"
proof -
  have "b = a" if "b \<in> set (accounts db)" "a_id b = a_id a" for b
    using inj_onD [OF _ that(2) that(1) assms(3)] db_ok_distinct(1) [OF assms(1)] by (auto simp: distinct_map)
  then show ?thesis using assms(2,4)
    by (auto simp: covers_def placed_def debited_def shift_balances_def)
qed

lemma race_rows:
  assumes "db_ok (sh_db s)" "orderable rt request quantity cost a (sh_db s)" "fresh_for cvs (sh_db s)"
    and "covers (sh_db s)" "checkouts rt (Some record_event) request cvs s = (results, s')"
  shows "covers (sh_db s') \<and>
    (\<exists>rows. transactions (sh_db s') = transactions (sh_db s) @ rows \<and> length rows = length (filter succeeded results) \<and>
       (\<forall>t\<in>set rows. t_description t = cr_description request)) \<and>
    (\<exists>jobs. job_queue (sh_db s') = job_queue (sh_db s) @ jobs \<and> length jobs = length (filter succeeded results) \<and>
       (\<forall>j\<in>set jobs. j_type j = ''order_receipt''))"
  using assms
proof (induction cvs arbitrary: s a results s')
  case Nil
  then show ?case by simp
next
  case (Cons cv cvs)
  note go = checkout_orderable [OF Cons.prems(1-3)]
  have a: "a \<in> set (accounts (sh_db s))" using Cons.prems(2) by (simp add: orderable_def)
  show ?case
  proof (cases "a_balance_cents a < cost")
    case True
    then have "checkout rt cv (Some record_event) request s = (Inr (Checkout_rejected Insufficient_funds), s)"
      using go by simp
    then obtain rs where rest: "checkouts rt (Some record_event) request cvs s = (rs, s')"
        "results = Inr (Checkout_rejected Insufficient_funds) # rs"
      using Cons.prems(5) by (auto split: prod.splits)
    have "fresh_for cvs (sh_db s)" using Cons.prems(3) by (simp add: fresh_for_def)
    from Cons.IH [OF Cons.prems(1,2) this Cons.prems(4) rest(1)] show ?thesis using rest(2) by simp
  next
    case False
    let ?placed = "\<lambda>row. placed a cost row (receipt_job cv request) (sh_db s)"
    obtain ok row e where first: "checkout rt cv (Some record_event) request s =
        (Inr (Checkout_ok ok), \<lparr>sh_db = ?placed row, sh_events = sh_events s @ [e]\<rparr>)"
      and row: "t_id row = cv_order_id cv" "t_description row = cr_description request" "db_ok (?placed row)"
      using go False by auto
    define s1 where "s1 = \<lparr>sh_db = ?placed row, sh_events = sh_events s @ [e]\<rparr>"
    obtain rs where rest: "checkouts rt (Some record_event) request cvs s1 = (rs, s')" "results = Inr (Checkout_ok ok) # rs"
      using Cons.prems(5) first by (auto simp: s1_def [symmetric] split: prod.splits)
    have "db_ok (sh_db s1)" "orderable rt request quantity cost (charged a cost) (sh_db s1)"
        "fresh_for cvs (sh_db s1)" "covers (sh_db s1)"
      using row orderable_placed [OF Cons.prems(2)] fresh_for_placed [OF Cons.prems(3) row(1)]
        covers_placed [OF Cons.prems(1,4) a] False by (simp_all add: s1_def)
    from Cons.IH [OF this rest(1)] obtain rows jobs where ih: "covers (sh_db s')"
        "transactions (sh_db s') = transactions (sh_db s1) @ rows" "length rows = length (filter succeeded rs)"
        "\<forall>t\<in>set rows. t_description t = cr_description request"
        "job_queue (sh_db s') = job_queue (sh_db s1) @ jobs" "length jobs = length (filter succeeded rs)"
        "\<forall>j\<in>set jobs. j_type j = ''order_receipt''" by blast
    have "transactions (sh_db s') = transactions (sh_db s) @ row # rows"
        "job_queue (sh_db s') = job_queue (sh_db s) @ receipt_job cv request # jobs"
      using ih(2,5) by (simp_all add: s1_def placed_def)
    moreover have "length (row # rows) = length (filter succeeded results)"
        "length (receipt_job cv request # jobs) = length (filter succeeded results)"
      using ih(3,6) rest(2) by simp_all
    moreover have "\<forall>t\<in>set (row # rows). t_description t = cr_description request"
        "\<forall>j\<in>set (receipt_job cv request # jobs). j_type j = ''order_receipt''"
      using ih(4,7) row(2) by (simp_all add: receipt_job_def)
    ultimately show ?thesis using ih(1) by blast
  qed
qed

section \<open>The seeded account\<close>

lemma demo_ids: "ACCOUNT_ID = seed_id 2 2" "INSTRUMENT_ID = seed_id 3 1"
  by code_simp+

definition seeded_balance :: int where "seeded_balance = 1250000"

definition funded_account :: "int \<Rightarrow> millis \<Rightarrow> account_row" where
  "funded_account bal now = \<lparr>a_id = ACCOUNT_ID, a_user_id = seed_id 1 1, a_currency = ''USD'',
     a_name = ''IBKR brokerage'', a_type = Brokerage, a_balance_cents = bal,
     a_is_archived = False, a_created_at = now\<rparr>"

text \<open>The seeded database with another balance on the account of the scripts.\<close>

definition funded_db :: "int \<Rightarrow> runtime \<Rightarrow> millis \<Rightarrow> db" where
  "funded_db bal rt now = (seeded_db rt now)\<lparr>accounts := update_where (\<lambda>a. a_id a = ACCOUNT_ID)
     (\<lambda>a. a\<lparr>a_balance_cents := bal\<rparr>) (seed_accounts now)\<rparr>"

lemma seed_account_2: "funded_account seeded_balance now \<in> set (seed_accounts now)"
  by (simp add: seed_accounts_def index_rows_def funded_account_def demo_ids seeded_balance_def)

lemma seed_account_unique:
  assumes "a \<in> set (seed_accounts now)" "a_id a = ACCOUNT_ID"
  shows "a = funded_account seeded_balance now"
proof -
  have "inj_on a_id (set (seed_accounts now))" using seed_keys(3) by (simp add: distinct_map)
  from inj_onD [OF this _ assms(1) seed_account_2] assms(2) show ?thesis by (simp add: funded_account_def)
qed

lemma funded_accounts_shift:
  "accounts (funded_db bal rt now) = shift_balances (\<lambda>i. if i = ACCOUNT_ID then bal - seeded_balance else 0)
     (seed_accounts now)"
proof -
  have "a_balance_cents a = seeded_balance" if "a \<in> set (seed_accounts now)" "a_id a = ACCOUNT_ID" for a
    using seed_account_unique [OF that] by (simp add: funded_account_def)
  then show ?thesis by (auto simp: funded_db_def update_where_def shift_balances_def intro!: map_cong)
qed

lemma funded_account_mem: "funded_account bal now \<in> set (accounts (funded_db bal rt now))"
  using seed_account_2 [of now] by (force simp: funded_db_def set_update_where funded_account_def image_iff)

lemma funded_db_ok:
  assumes "pg_ok rt" "pg_divide_ok rt" "fits_bigint bal"
  shows "db_ok (funded_db bal rt now)"
proof -
  let ?d = "\<lambda>i. if i = ACCOUNT_ID then bal - seeded_balance else 0"
  have "fits_bigint (a_balance_cents a + ?d (a_id a))" if a: "a \<in> set (seed_accounts now)" for a
  proof (cases "a_id a = ACCOUNT_ID")
    case True
    then have "a_balance_cents a = seeded_balance" using seed_account_unique [OF a] by (simp add: funded_account_def)
    then show ?thesis using True assms(3) by simp
  next
    case False
    then show ?thesis using seed_account_ok [OF a] by (simp add: account_ok_def)
  qed
  then have "db_ok ((seeded_db rt now)\<lparr>accounts := shift_balances ?d (accounts (seeded_db rt now))\<rparr>)"
    by (intro db_ok_shift seeded_db_ok assms(1,2)) (simp add: seeded_db_def)
  then show ?thesis
    using funded_accounts_shift [of bal rt now] by (simp add: funded_db_def seeded_db_def)
qed

lemma funded_covers: "0 \<le> bal \<Longrightarrow> covers (funded_db bal rt now)"
proof -
  assume "0 \<le> bal"
  moreover have "\<forall>a\<in>set (seed_accounts now). 0 \<le> a_balance_cents a" by (simp add: seed_accounts_def index_rows_def)
  ultimately show ?thesis by (auto simp: covers_def funded_db_def set_update_where)
qed

lemma spec_unmarked: "list_all (\<lambda>spec. sp_description spec \<noteq> MARKER) txSpecs"
  unfolding txSpecs_def list.pred_inject tx_spec_def TxSpec.select_convs MARKER_def
  by (intro conjI TrueI; simp)

lemma seed_unmarked:
  assumes "t \<in> set (seed_txs now)"
  shows "t_description t \<noteq> Some MARKER"
proof -
  obtain i spec where "spec \<in> set txSpecs" "t = tx_of now i spec"
    using index_rows_mem [of t "tx_of now" txSpecs] assms by (auto simp: seed_txs_def)
  with spec_unmarked show ?thesis by (auto simp: tx_of_def list_all_iff)
qed

lemma seed_reset_run:
  assumes "pg_ok rt" "pg_divide_ok rt"
  shows "bindS (seed rt now) (\<lambda>_. demo_reset rt) empty_db = (Inr (), funded_db START_BALANCE_CENTS rt now)"
proof -
  have run: "seed rt now empty_db = (Inr (), seeded_db rt now)" using seed_runs [OF assms] by blast
  have u: "bind_uuid rt ACCOUNT_ID = Inr ACCOUNT_ID"
    using pg_okD(1) [OF assms(1)] seed_id_uuid [of 2 2] by (simp add: bind_uuid_def demo_ids)
  have "filter (\<lambda>a. a_id a = ACCOUNT_ID) (accounts (seeded_db rt now)) \<noteq> []"
    using bexI [OF _ seed_account_2 [of now], of "\<lambda>a. a_id a = ACCOUNT_ID"]
    by (simp add: filter_empty_conv seeded_db_def) (simp add: funded_account_def)
  moreover have "filter (\<lambda>t. t_description t \<noteq> Some MARKER) (seed_txs now) = seed_txs now"
    using seed_unmarked by (simp add: filter_id_conv)
  ultimately show ?thesis
    using run u by (simp add: bindS_def demo_reset_def liftS_def readS_def writeS_def funded_db_def seeded_db_def)
qed

section \<open>The request is valid\<close>

lemma sort_key_hd:
  assumes "x \<in> set xs" "\<And>y. y \<in> set xs \<Longrightarrow> y \<noteq> x \<Longrightarrow> f x < f y"
  shows "\<exists>ys. sort_key f xs = x # ys"
proof (cases "sort_key f xs")
  case Nil
  then show ?thesis using assms(1) by (metis empty_iff empty_set set_sort)
next
  case (Cons y ys)
  then have "y \<in> set xs" by (metis list.set_intros(1) set_sort)
  moreover have "x \<in> set (y # ys)" using assms(1) Cons by (metis set_sort)
  moreover have "sorted (map f (y # ys))" using Cons by (metis sorted_sort_key)
  ultimately have "f y \<le> f x" by auto
  then show ?thesis using Cons assms(2) [OF \<open>y \<in> set xs\<close>] by (metis leD)
qed

lemma seed_fx_usd: "filter (\<lambda>(s, c, d, r, u). c = ''USD'') seed_fx =
    [(''seed'', ''USD'', ''2026-01-01'', ''41.5000000000'', 1),
     (''seed'', ''USD'', ''2026-01-02'', ''41.6000000000'', 1),
     (''seed-alt'', ''USD'', ''2026-01-01'', ''41.4500000000'', 1)]"
  by code_simp

lemma demo_rate:
  assumes "pg_ok rt" "pg_divide_ok rt" "fx_rates db = map (fx_of rt) seed_fx"
  shows "resolveFxRate rt ''USD'' db = (Inr (numeric_out 416000000000), db)"
proof -
  let ?row = "fx_of rt (''seed'', ''USD'', ''2026-01-02'', ''41.6000000000'', 1)"
  let ?usd = "filter (\<lambda>f. f_currency f = ''USD'') (map (fx_of rt) seed_fx)"
  have usd: "?usd = [fx_of rt (''seed'', ''USD'', ''2026-01-01'', ''41.5000000000'', 1), ?row,
      fx_of rt (''seed-alt'', ''USD'', ''2026-01-01'', ''41.4500000000'', 1)]"
  proof -
    have "(\<lambda>f. f_currency f = ''USD'') \<circ> fx_of rt = (\<lambda>(s, c, d, r, u). c = ''USD'')"
      by (auto simp: fun_eq_iff fx_of_def)
    then show ?thesis by (simp add: filter_map seed_fx_usd)
  qed
  have "\<exists>ys. sort_key (latest_order rt) ?usd = ?row # ys"
    by (rule sort_key_hd) (auto simp: usd latest_order_def less_prod_def' fx_of_def)
  moreover have "numeric_out 416000000000 = ''41.6000000000''"
    using seed_numerics_out unfolding seed_numerics_def list.pred_inject prod.case by blast
  then have "numeric_of ''41.6000000000'' = 416000000000" using numeric_of_out by metis
  then have "f_rate ?row = 416000000000"
    using assms(2) unfolding pg_divide_ok_def by (simp add: fx_of_def) (metis mult.right_neutral order_refl)
  ultimately show ?thesis using assms(3) by (auto simp: resolveFxRate_def svc_simps)
qed

text \<open>The request that the scripts send, for a unit price and a marker.\<close>

definition order_request :: "int \<Rightarrow> string \<Rightarrow> CheckoutRequest" where
  "order_request price marker = \<lparr>cr_accountId = ACCOUNT_ID, cr_instrumentId = INSTRUMENT_ID,
     cr_quantity = Some 1, cr_quantity_text = ''1'', cr_unitPriceCents = price, cr_description = Some marker\<rparr>"

definition request_ok :: "int \<Rightarrow> int \<Rightarrow> string \<Rightarrow> bool" where
  "request_ok price micro marker \<longleftrightarrow> 0 < price \<and> js_mult price 1 = price \<and> fits_bigint price \<and>
     unit_price_text price = numeric_out micro \<and> 0 < micro \<and> numeric_ok micro \<and>
     bind_text marker = Inr marker \<and> char_length marker \<le> 500"

lemma request_orderable:
  assumes "pg_ok rt" "pg_divide_ok rt" "request_ok price micro marker"
  shows "orderable rt (order_request price marker) 1 price (funded_account bal now) (funded_db bal rt now)"
proof -
  let ?request = "order_request price marker"
  let ?row = "\<lambda>cv. \<lparr>t_id = cv_order_id cv, t_account_id = ACCOUNT_ID, t_instrument_id = Some INSTRUMENT_ID,
      t_category_id = None, t_currency = ''USD'', t_type = Buy, t_status = Posted,
      t_amount_cents = price, t_fx_rate = 416000000000, t_quantity_micro = Some 1000000,
      t_unit_price = Some micro, t_booked_at = cv_now cv, t_description = Some marker,
      t_created_at = cv_now cv\<rparr>"
  have ok: "0 < price" "js_mult price 1 = price" "fits_bigint price" "unit_price_text price = numeric_out micro"
      "0 < micro" "numeric_ok micro" "bind_text marker = Inr marker" "char_length marker \<le> 500"
    using assms(3) by (simp_all add: request_ok_def)
  have num: "bind_numeric rt (numeric_out r) = Inr r" if "numeric_ok r" for r
    using pg_okD(5) [OF assms(1) that] that by (simp add: bind_numeric_def)
  have ids: "pg_uuid_in rt ACCOUNT_ID = Some ACCOUNT_ID" "pg_uuid_in rt INSTRUMENT_ID = Some INSTRUMENT_ID"
    using pg_okD(1) [OF assms(1)] seed_id_uuid [of 2 2] seed_id_uuid [of 3 1] by (simp_all add: demo_ids)
  have row: "order_row rt cv ?request 1 price ''USD'' (numeric_out 416000000000) = Inr (?row cv)" for cv
    using race_facts(4,6) ok num ids
    by (simp add: order_row_def order_request_def bind_uuid_def bind_bigint_def numeric_ok_def)
  have check: "transaction_check (?row cv) = None" for cv
    using ok by (simp add: transaction_check_def first_violated_None numeric_one_def null_or_def)
  have "(ACCOUNT_ID, ''USD'') \<in> (\<lambda>a. (a_id a, a_currency a)) ` set (accounts (funded_db bal rt now))"
    using funded_account_mem [of bal now rt] by (force simp: funded_account_def)
  moreover have "INSTRUMENT_ID \<in> i_id ` set (seed_instruments now)"
    using seed_keys(6) [of now] by (simp add: demo_ids)
  moreover have "''USD'' \<in> c_code ` set seed_currencies" using seed_codes by blast
  ultimately have fk: "transaction_fk (funded_db bal rt now) (?row cv) = None" for cv
    by (simp add: transaction_fk_def first_violated_None null_or_def funded_db_def seeded_db_def)
  have "fx_rates (funded_db bal rt now) = map (fx_of rt) seed_fx" by (simp add: funded_db_def seeded_db_def)
  note rate = demo_rate [OF assms(1,2) this]
  have "\<exists>row. order_row rt cv ?request 1 price ''USD'' (numeric_out 416000000000) = Inr row \<and>
      transaction_check row = None \<and> transaction_fk (funded_db bal rt now) row = None" for cv
    using row check fk by blast
  then show ?thesis
    using rate ok ids funded_account_mem [of bal now rt]
    by (auto simp: orderable_def order_request_def funded_account_def)
qed

lemma demo_request_ok: "request_ok PRICE_CENTS 1200000000000 MARKER"
proof -
  have "unit_price_text PRICE_CENTS = numeric_out 1200000000000"
    using race_price by (simp add: unit_price_text_def PRICE_CENTS_def)
  then show ?thesis
    using race_facts(3,5,9) by (simp add: request_ok_def PRICE_CENTS_def bind_text_def MARKER_def char_length_def)
qed

lemma demo_request_order: "demo_request = order_request PRICE_CENTS MARKER"
  by (simp add: demo_request_def order_request_def)

section \<open>Property\<close>

text \<open>
  (C26) The load script passes its own checks, whichever order the row lock imposes: on the seeded
  database and after the reset none of the ATTEMPTS checkouts with fresh ids throws (one that did would
  reject \<open>Promise.all\<close> and end the script with its error), and they lead to exactly UNITS successes,
  a final balance of zero, no negative row, one order and one queued receipt per success, and a
  debit that adds up.
\<close>

theorem demo_race_passes:
  assumes "pg_ok rt" "pg_divide_ok rt" "length cvs = ATTEMPTS" "fresh_for cvs (seeded_db rt now)"
  shows "demo_race rt now cvs = Inr []"
proof -
  let ?s = "\<lparr>sh_db = funded_db START_BALANCE_CENTS rt now, sh_events = []\<rparr>"
  obtain results s' where run: "checkouts rt (Some record_event) demo_request cvs ?s = (results, s')" by fastforce
  obtain t' where script: "checkouts rt None demo_request cvs ?s = (results, t')" "sh_db t' = sh_db s'"
    using checkouts_db_only [OF refl, of rt demo_request cvs ?s] run
    by (cases "checkouts rt None demo_request cvs ?s") simp
  have "fits_bigint START_BALANCE_CENTS" by (simp add: fits_bigint_def START_BALANCE_CENTS_def UNITS_def PRICE_CENTS_def)
  then have ok: "db_ok (sh_db ?s)" "fresh_for cvs (sh_db ?s)"
      "orderable rt demo_request 1 PRICE_CENTS (funded_account START_BALANCE_CENTS now) (sh_db ?s)"
    using funded_db_ok [OF assms(1,2)] request_orderable [OF assms(1,2) demo_request_ok] assms(4)
    by (simp_all add: fresh_for_def funded_db_def demo_request_order)
  have won: "UNITS = min (length cvs) (nat (a_balance_cents (funded_account START_BALANCE_CENTS now) div PRICE_CENTS))"
    by (simp add: assms(3) ATTEMPTS_def funded_account_def START_BALANCE_CENTS_def UNITS_def PRICE_CENTS_def)
  have r: "length (filter succeeded results) = UNITS" "finalBalance (sh_db s') = 0"
      "filter (\<lambda>r. \<not> succeeded r) results = replicate (length cvs - UNITS) (Inr (Checkout_rejected Insufficient_funds))"
    using race_result [OF ok(1,3,2) run won]
    by (simp_all add: finalBalance_def funded_account_def START_BALANCE_CENTS_def)
  have "\<not> isl x" if "x \<in> set results" for x
  proof (cases "succeeded x")
    case False
    then have "x \<in> set (filter (\<lambda>r. \<not> succeeded r) results)" using that by simp
    then show ?thesis unfolding r(3) by (auto simp: set_replicate_conv_if split: if_splits)
  qed (auto elim: succeeded.elims)
  then obtain rs where rs: "promise_all results = Inr rs" "succeeded_count rs = UNITS"
    using promise_all_fulfilled r(1) by fastforce
  obtain rows jobs where c: "covers (sh_db s')"
      "transactions (sh_db s') = seed_txs now @ rows" "length rows = UNITS"
      "\<forall>t\<in>set rows. t_description t = Some MARKER"
      "job_queue (sh_db s') = jobs" "length jobs = UNITS" "\<forall>j\<in>set jobs. j_type j = ''order_receipt''"
    using race_rows [OF ok(1,3,2) _ run] funded_covers [of START_BALANCE_CENTS rt now] r(1)
    by (auto simp: funded_db_def seeded_db_def demo_request_def START_BALANCE_CENTS_def PRICE_CENTS_def)
  have "negativeRows (sh_db s') = 0"
    using c(1) by (auto simp: negativeRows_def covers_def filter_empty_conv)
  moreover have "filter (\<lambda>t. t_description t = Some MARKER) (seed_txs now) = []"
    using seed_unmarked by (simp add: filter_empty_conv)
  then have "marked_orders (sh_db s') = UNITS" using c(2-4) by (simp add: marked_orders_def)
  moreover have "queued_receipts (sh_db s') = UNITS" using c(5-7) by (simp add: queued_receipts_def)
  ultimately have "race_problems UNITS (sh_db s') = []"
    using r(2) by (simp add: race_problems_def START_BALANCE_CENTS_def)
  then show ?thesis
    using script rs seed_reset_run [OF assms(1,2)] by (simp add: demo_race_def bindE_def)
qed

lemma race_values_fresh: "fresh_for race_values (seeded_db rt now)"
proof -
  have "race_id n \<notin> seed_id 5 ` {1..40}" for n
  proof -
    have "padStart 8 (CHR ''0'') (nat_text 5) = ''00000005''" by code_simp
    then show ?thesis by (auto simp: race_id_def seed_id_def)
  qed
  then show ?thesis
    using race_fresh seed_tx_keys(2) [of now]
    by (auto simp: fresh_for_def race_values_def list_all_iff seeded_db_def)
qed

theorem demo_race_passes_witness: "demo_race canonical_runtime 1767225600000 race_values = Inr []"
  by (rule demo_race_passes [OF canonical_runtime_ok canonical_divide_ok _ race_values_fresh])
    (simp add: race_values_def)

end
