(* ===== verification/Env.thy ===== *)
theory Env
  imports Complex_Main Database
begin

text \<open>
  The environment of the process (\<open>config/env.schema.ts\<close>, \<open>config/env.validation.ts\<close>): one schema
  for every variable, and the hook that either hands out typed values or throws one error that
  lists what is wrong. Number conversion, URL and date parsing, base64, the key parser and the
  wording of the validator's issues are parameters.
\<close>

section \<open>Parameters\<close>

record url =
  url_protocol :: string
  url_username :: string
  url_password :: string
  url_hostname :: string
  url_port :: string
  url_pathname :: string

text \<open>
  \<open>nv_number\<close> is \<open>Number(text)\<close> when it is finite; \<open>nv_url\<close> is \<open>new URL(text)\<close>; \<open>nv_zod_url\<close> is the
  check \<open>z.url({ protocol })\<close> with the value that it passes on; the key parsers give
  \<open>asymmetricKeyType\<close>, \<open>None\<close> when they throw. \<open>nv_issues\<close> are the messages for a variable that
  fails its schema.
\<close>

record env_lib =
  nv_number :: "string \<Rightarrow> rat option"
  nv_url :: "string \<Rightarrow> url option"
  nv_zod_url :: "(string \<Rightarrow> bool) \<Rightarrow> string \<Rightarrow> string option"
  nv_iso_date :: "string \<Rightarrow> bool"
  nv_base64 :: "string \<Rightarrow> string"
  nv_createPrivateKey :: "string \<Rightarrow> string option"
  nv_createPublicKey :: "string \<Rightarrow> string option"
  nv_issues :: "string \<Rightarrow> string option \<Rightarrow> string list"

text \<open>
  Documented behaviour: the URL check accepts only what \<open>new URL\<close> parses with an accepted protocol,
  and a variable that fails has at least one issue.
\<close>

definition env_lib_ok :: "env_lib \<Rightarrow> bool" where
  "env_lib_ok lib \<longleftrightarrow>
     (\<forall>p s v. nv_zod_url lib p s = Some v \<longrightarrow> (\<exists>u. nv_url lib v = Some u \<and> p (url_protocol u))) \<and>
     (\<forall>name raw. nv_issues lib name raw \<noteq> [])"

section \<open>The validators of the schema\<close>

text \<open>A validator takes the raw variable, \<open>None\<close> when it is not set, to its value, \<open>None\<close> when it fails.\<close>

definition z_default :: "'a \<Rightarrow> (string \<Rightarrow> 'a option) \<Rightarrow> string option \<Rightarrow> 'a option" where
  "z_default d f raw = (case raw of None \<Rightarrow> Some d | Some s \<Rightarrow> f s)"

definition z_required :: "(string \<Rightarrow> 'a option) \<Rightarrow> string option \<Rightarrow> 'a option" where
  "z_required f raw = Option.bind raw f"

definition z_enum :: "string list \<Rightarrow> string \<Rightarrow> string option" where
  "z_enum options s = (if s \<in> set options then Some s else None)"

definition z_string_min :: "nat \<Rightarrow> string \<Rightarrow> string option" where
  "z_string_min n s = (if n \<le> js_length s then Some s else None)"

text \<open>\<open>z.coerce.number().int().min(lo).max(hi)\<close>: an integer within the safe range and the bounds.\<close>

definition z_coerce_int :: "env_lib \<Rightarrow> int \<Rightarrow> int \<Rightarrow> string \<Rightarrow> int option" where
  "z_coerce_int lib lo hi s =
     (case nv_number lib s of
        None \<Rightarrow> None
      | Some x \<Rightarrow>
          if x = of_int \<lfloor>x\<rfloor> \<and> js_safe \<lfloor>x\<rfloor> \<and> lo \<le> \<lfloor>x\<rfloor> \<and> \<lfloor>x\<rfloor> \<le> hi then Some \<lfloor>x\<rfloor> else None)"

definition NODE_ENVS :: "string list" where
  "NODE_ENVS = [''development'', ''test'', ''production'']"

definition parseUrl :: "env_lib \<Rightarrow> string \<Rightarrow> url option" where
  "parseUrl lib value = nv_url lib value"

definition ecKey :: "env_lib \<Rightarrow> (string \<Rightarrow> string option) \<Rightarrow> string \<Rightarrow> string option" where
  "ecKey lib parse s =
     Option.bind (z_string_min 1 s) (\<lambda>value.
       let pem = nv_base64 lib value
       in case parse pem of None \<Rightarrow> None | Some t \<Rightarrow> if t = ''ec'' then Some pem else None)"

definition db_url :: "env_lib \<Rightarrow> string \<Rightarrow> string option" where
  "db_url lib s =
     Option.bind (z_string_min 1 s) (\<lambda>s.
     Option.bind (nv_zod_url lib (\<lambda>p. p \<in> {''postgres'', ''postgresql''}) s) (\<lambda>value.
       case parseUrl lib value of
         Some u \<Rightarrow> if url_password u \<noteq> [] then None else Some value | None \<Rightarrow> Some value))"

definition http_url :: "env_lib \<Rightarrow> string \<Rightarrow> string option" where
  "http_url lib s = nv_zod_url lib (\<lambda>p. p \<in> {''http'', ''https''}) s"

definition iso_date_text :: "env_lib \<Rightarrow> string \<Rightarrow> string option" where
  "iso_date_text lib s = (if nv_iso_date lib s then Some s else None)"

section \<open>The schema\<close>

text \<open>
  A parsed environment: what \<open>ConfigService\<close> hands out, by name. A string variable has text, a
  coerced one a number.
\<close>

datatype env_value = Env_text string | Env_number int

type_synonym raw_env = "string \<Rightarrow> string option"
type_synonym Env = "(string, env_value) js_map"

definition text_field :: "(string option \<Rightarrow> string option) \<Rightarrow> string option \<Rightarrow> env_value option" where
  "text_field f raw = map_option Env_text (f raw)"

definition number_field :: "(string option \<Rightarrow> int option) \<Rightarrow> string option \<Rightarrow> env_value option" where
  "number_field f raw = map_option Env_number (f raw)"

definition envSchema :: "env_lib \<Rightarrow> (string \<times> (string option \<Rightarrow> env_value option)) list" where
  "envSchema lib =
     [(''NODE_ENV'', text_field (z_default ''development'' (z_enum NODE_ENVS))),
      (''PORT'', number_field (z_default 3000 (z_coerce_int lib 1 65535))),
      (''DB_URL'', text_field (z_required (db_url lib))),
      (''DB_PASSWORD_FILE'', text_field (z_default ''./secrets/db_password'' (z_string_min 1))),
      (''DB_POOL_MAX'', number_field (z_default 10 (z_coerce_int lib 1 50))),
      (''DB_CONNECT_TIMEOUT_MS'', number_field (z_default 5000 (z_coerce_int lib 100 60000))),
      (''DRIFT'', text_field (z_default ''0'' (z_enum [''0'', ''1'']))),
      (''FX_SYNC_ON_START'', text_field (z_default ''1'' (z_enum [''0'', ''1'']))),
      (''FX_BACKFILL_FROM'', text_field (z_default ''1999-01-01'' (iso_date_text lib))),
      (''NBU_BASE_URL'', text_field (z_default ''https://bank.gov.ua'' (http_url lib))),
      (''NBU_TIMEOUT_MS'', number_field (z_default 30000 (z_coerce_int lib 1000 300000))),
      (''JWT_KID'', text_field (z_required (z_string_min 1))),
      (''JWT_PRIVATE_KEY'', text_field (z_required (ecKey lib (nv_createPrivateKey lib)))),
      (''JWT_PUBLIC_KEY'', text_field (z_required (ecKey lib (nv_createPublicKey lib)))),
      (''REFRESH_TOKEN_PEPPER'', text_field (z_required (z_string_min 8)))]"

text \<open>\<open>safeParse\<close>: the issues of every failing variable in the order of the schema, or the data.\<close>

definition field_issues ::
  "env_lib \<Rightarrow> raw_env \<Rightarrow> string \<times> (string option \<Rightarrow> env_value option) \<Rightarrow> (string \<times> string) list" where
  "field_issues lib raw = (\<lambda>(name, field).
     case field (raw name) of
       None \<Rightarrow> map (Pair name) (nv_issues lib name (raw name)) | Some _ \<Rightarrow> [])"

definition safeParse :: "env_lib \<Rightarrow> raw_env \<Rightarrow> (string \<times> string) list + Env" where
  "safeParse lib raw =
     (let issues = concat (map (field_issues lib raw) (envSchema lib))
      in if issues \<noteq> [] then Inl issues
         else Inr (map (\<lambda>(name, field). (name, the (field (raw name)))) (envSchema lib)))"

section \<open>The hook\<close>

definition issue_line :: "string \<times> string \<Rightarrow> string" where
  "issue_line = (\<lambda>(name, msg). ''  - '' @ (if name = [] then ''(root)'' else name) @ '': '' @ msg)"

definition line_feed :: string where
  "line_feed = [CHR 0x0A]"

definition invalid_env :: "(string \<times> string) list \<Rightarrow> exn" where
  "invalid_env issues =
     (let lines = map issue_line issues
      in plain_error (''Invalid environment configuration ('' @ nat_text (length lines) @ '' '' @
           (if length lines = 1 then ''variable'' else ''variables'') @ ''):'' @ line_feed @
           join_with line_feed lines @ line_feed @
           ''Compare your .env against .env.example '' @ em_dash @ '' that file is the contract.''))"

definition validateEnv :: "env_lib \<Rightarrow> raw_env \<Rightarrow> exn + Env" where
  "validateEnv lib raw = (case safeParse lib raw of Inr env \<Rightarrow> Inr env | Inl issues \<Rightarrow> Inl (invalid_env issues))"

text \<open>\<open>config.get(name)\<close> for the two kinds of variables.\<close>

definition config_text :: "Env \<Rightarrow> string \<Rightarrow> string" where
  "config_text env name = (case js_map_get env name of Some (Env_text s) \<Rightarrow> s | _ \<Rightarrow> [])"

definition config_number :: "Env \<Rightarrow> string \<Rightarrow> int" where
  "config_number env name = (case js_map_get env name of Some (Env_number n) \<Rightarrow> n | _ \<Rightarrow> 0)"

section \<open>What a parsed environment promises\<close>

text \<open>The type of every variable, as the readers of the configuration rely on it.\<close>

definition text_var :: "Env \<Rightarrow> string \<Rightarrow> (string \<Rightarrow> bool) \<Rightarrow> bool" where
  "text_var env name p \<longleftrightarrow> (\<exists>s. js_map_get env name = Some (Env_text s) \<and> p s)"

definition number_var :: "Env \<Rightarrow> string \<Rightarrow> int \<Rightarrow> int \<Rightarrow> bool" where
  "number_var env name lo hi \<longleftrightarrow> (\<exists>n. js_map_get env name = Some (Env_number n) \<and> lo \<le> n \<and> n \<le> hi)"

definition env_typed :: "env_lib \<Rightarrow> Env \<Rightarrow> bool" where
  "env_typed lib env \<longleftrightarrow>
     text_var env ''NODE_ENV'' (\<lambda>s. s \<in> set NODE_ENVS) \<and>
     number_var env ''PORT'' 1 65535 \<and>
     text_var env ''DB_URL'' (\<lambda>s. \<exists>u. nv_url lib s = Some u \<and>
       url_protocol u \<in> {''postgres'', ''postgresql''} \<and> url_password u = []) \<and>
     text_var env ''DB_PASSWORD_FILE'' (\<lambda>s. s \<noteq> []) \<and>
     number_var env ''DB_POOL_MAX'' 1 50 \<and>
     number_var env ''DB_CONNECT_TIMEOUT_MS'' 100 60000 \<and>
     text_var env ''DRIFT'' (\<lambda>s. s \<in> {''0'', ''1''}) \<and>
     text_var env ''FX_SYNC_ON_START'' (\<lambda>s. s \<in> {''0'', ''1''}) \<and>
     text_var env ''FX_BACKFILL_FROM'' (\<lambda>s. s = ''1999-01-01'' \<or> nv_iso_date lib s) \<and>
     text_var env ''NBU_BASE_URL'' (\<lambda>s. s = ''https://bank.gov.ua'' \<or>
       (\<exists>u. nv_url lib s = Some u \<and> url_protocol u \<in> {''http'', ''https''})) \<and>
     number_var env ''NBU_TIMEOUT_MS'' 1000 300000 \<and>
     text_var env ''JWT_KID'' (\<lambda>s. s \<noteq> []) \<and>
     text_var env ''JWT_PRIVATE_KEY'' (\<lambda>pem. nv_createPrivateKey lib pem = Some ''ec'') \<and>
     text_var env ''JWT_PUBLIC_KEY'' (\<lambda>pem. nv_createPublicKey lib pem = Some ''ec'') \<and>
     text_var env ''REFRESH_TOKEN_PEPPER'' (\<lambda>s. 8 \<le> js_length s)"

definition broken :: "env_lib \<Rightarrow> raw_env \<Rightarrow> string list" where
  "broken lib raw = map fst (filter (\<lambda>(name, field). field (raw name) = None) (envSchema lib))"

text \<open>Each validator delivers what its variable promises.\<close>

lemma z_default_Some: "z_default d f raw = Some v \<Longrightarrow> v = d \<or> (\<exists>s. raw = Some s \<and> f s = Some v)"
  by (cases raw) (simp_all add: z_default_def)

lemma z_required_Some: "z_required f raw = Some v \<Longrightarrow> \<exists>s. raw = Some s \<and> f s = Some v"
  by (cases raw) (simp_all add: z_required_def)

lemma z_enum_Some: "z_enum options s = Some v \<Longrightarrow> v \<in> set options"
  by (simp add: z_enum_def split: if_splits)

lemma js_length_Nil [simp]: "js_length [] = 0"
  by (simp add: js_length_def)

lemma z_string_min_Some: "z_string_min n s = Some v \<Longrightarrow> n \<le> js_length v"
  by (simp add: z_string_min_def split: if_splits)

lemma z_string_min_ne: "z_string_min 1 s = Some v \<Longrightarrow> v \<noteq> []"
  using z_string_min_Some by force

lemma z_coerce_int_Some: "z_coerce_int lib lo hi s = Some v \<Longrightarrow> lo \<le> v \<and> v \<le> hi"
  by (auto simp: z_coerce_int_def split: option.splits if_splits)

lemma ecKey_Some: "ecKey lib parse s = Some pem \<Longrightarrow> parse pem = Some ''ec''"
  by (auto simp: ecKey_def Let_def bind_eq_Some_conv split: option.splits if_splits)

lemma http_url_Some:
  "env_lib_ok lib \<Longrightarrow> http_url lib s = Some v \<Longrightarrow> \<exists>u. nv_url lib v = Some u \<and> url_protocol u \<in> {''http'', ''https''}"
  unfolding env_lib_ok_def http_url_def by blast

lemma db_url_Some:
  assumes "env_lib_ok lib" "db_url lib s = Some v"
  shows "\<exists>u. nv_url lib v = Some u \<and> url_protocol u \<in> {''postgres'', ''postgresql''} \<and> url_password u = []"
proof -
  obtain t w where t: "nv_zod_url lib (\<lambda>p. p \<in> {''postgres'', ''postgresql''}) t = Some w"
    and w: "(case parseUrl lib w of Some u \<Rightarrow> if url_password u \<noteq> [] then None else Some w | None \<Rightarrow> Some w) = Some v"
    using assms(2) unfolding db_url_def bind_eq_Some_conv by blast
  obtain u where u: "nv_url lib w = Some u" "url_protocol u \<in> {''postgres'', ''postgresql''}"
    using assms(1) t unfolding env_lib_ok_def by blast
  with w show ?thesis by (auto simp: parseUrl_def split: if_splits)
qed

section \<open>What the hook returns\<close>

lemma variables_distinct: "distinct (map fst (envSchema lib))"
  by (simp add: envSchema_def)

lemma safeParse_Inr:
  assumes "safeParse lib raw = Inr env" "(name, field) \<in> set (envSchema lib)" "env_lib_ok lib"
  shows "field (raw name) \<noteq> None \<and> js_map_get env name = field (raw name)"
proof -
  have e: "concat (map (field_issues lib raw) (envSchema lib)) = []"
      "env = map (\<lambda>(name, field). (name, the (field (raw name)))) (envSchema lib)"
    using assms(1) by (auto simp: safeParse_def Let_def split: if_splits)
  then have "field_issues lib raw (name, field) = []" using assms(2) by auto
  then have "field (raw name) \<noteq> None"
    using assms(3) by (auto simp: field_issues_def env_lib_ok_def split: option.splits)
  moreover have "map fst env = map fst (envSchema lib)" unfolding e(2) by (simp add: case_prod_beta)
  then have "distinct (map fst env)" using variables_distinct by metis
  moreover have "(name, the (field (raw name))) \<in> set env" unfolding e(2) using assms(2) by force
  ultimately show ?thesis by (simp add: js_map_get_def)
qed

lemma text_varI:
  assumes "safeParse lib raw = Inr env" "env_lib_ok lib" "(name, text_field f) \<in> set (envSchema lib)"
    and "\<And>s. f (raw name) = Some s \<Longrightarrow> p s"
  shows "text_var env name p"
  using safeParse_Inr [OF assms(1,3,2)] assms(4) by (auto simp: text_field_def text_var_def)

lemma number_varI:
  assumes "safeParse lib raw = Inr env" "env_lib_ok lib" "(name, number_field f) \<in> set (envSchema lib)"
    and "\<And>n. f (raw name) = Some n \<Longrightarrow> lo \<le> n \<and> n \<le> hi"
  shows "number_var env name lo hi"
  using safeParse_Inr [OF assms(1,3,2)] assms(4) by (auto simp: number_field_def number_var_def)

lemma number_default:
  "z_default d (z_coerce_int lib lo hi) raw = Some n \<Longrightarrow> lo \<le> d \<Longrightarrow> d \<le> hi \<Longrightarrow> lo \<le> n \<and> n \<le> hi"
  by (auto dest!: z_default_Some z_coerce_int_Some)

lemma safeParse_typed:
  assumes "safeParse lib raw = Inr env" "env_lib_ok lib"
  shows "env_typed lib env"
proof -
  note t = text_varI [OF assms] and n = number_varI [OF assms, OF _ number_default]
  have enums: "text_var env ''NODE_ENV'' (\<lambda>s. s \<in> set NODE_ENVS)" "text_var env ''DRIFT'' (\<lambda>s. s \<in> {''0'', ''1''})"
      "text_var env ''FX_SYNC_ON_START'' (\<lambda>s. s \<in> {''0'', ''1''})"
    by (rule t, simp add: envSchema_def, fastforce simp: NODE_ENVS_def dest!: z_default_Some z_enum_Some)+
  have numbers: "number_var env ''PORT'' 1 65535" "number_var env ''DB_POOL_MAX'' 1 50"
      "number_var env ''DB_CONNECT_TIMEOUT_MS'' 100 60000" "number_var env ''NBU_TIMEOUT_MS'' 1000 300000"
    by (rule n, simp add: envSchema_def, assumption, simp_all)+
  have texts: "text_var env ''DB_PASSWORD_FILE'' (\<lambda>s. s \<noteq> [])" "text_var env ''JWT_KID'' (\<lambda>s. s \<noteq> [])"
      "text_var env ''REFRESH_TOKEN_PEPPER'' (\<lambda>s. 8 \<le> js_length s)"
    by (rule t, simp add: envSchema_def, force dest!: z_default_Some z_required_Some z_string_min_Some)+
  have db: "text_var env ''DB_URL'' (\<lambda>s. \<exists>u. nv_url lib s = Some u \<and>
       url_protocol u \<in> {''postgres'', ''postgresql''} \<and> url_password u = [])"
    by (rule t, simp add: envSchema_def, drule z_required_Some) (use db_url_Some [OF assms(2)] in blast)
  have nbu: "text_var env ''NBU_BASE_URL'' (\<lambda>s. s = ''https://bank.gov.ua'' \<or>
       (\<exists>u. nv_url lib s = Some u \<and> url_protocol u \<in> {''http'', ''https''}))"
    by (rule t, simp add: envSchema_def, drule z_default_Some, elim disjE exE conjE)
      (simp, drule http_url_Some [OF assms(2)], simp)
  have keys: "text_var env ''JWT_PRIVATE_KEY'' (\<lambda>pem. nv_createPrivateKey lib pem = Some ''ec'')"
      "text_var env ''JWT_PUBLIC_KEY'' (\<lambda>pem. nv_createPublicKey lib pem = Some ''ec'')"
    by (rule t, simp add: envSchema_def, drule z_required_Some, elim exE conjE, erule ecKey_Some)+
  have "text_var env ''FX_BACKFILL_FROM'' (\<lambda>s. s = ''1999-01-01'' \<or> nv_iso_date lib s)"
    by (rule t, simp add: envSchema_def) (auto simp: iso_date_text_def dest!: z_default_Some split: if_splits)
  with enums numbers texts db nbu keys show ?thesis unfolding env_typed_def by blast
qed

text \<open>The issues name exactly the broken variables.\<close>

lemma issues_names:
  assumes "env_lib_ok lib"
  shows "fst ` set (concat (map (field_issues lib raw) (envSchema lib))) = set (broken lib raw)"
proof -
  have "fst ` set (field_issues lib raw (name, field)) = (if field (raw name) = None then {name} else {})" for name field
  proof (cases "field (raw name)")
    case None
    have "set (nv_issues lib name (raw name)) \<noteq> {}" using assms by (simp add: env_lib_ok_def)
    then show ?thesis using None by (auto simp: field_issues_def image_image image_constant_conv)
  qed (simp add: field_issues_def)
  then have "fst ` set (field_issues lib raw x) = (case x of (name, field) \<Rightarrow> if field (raw name) = None then {name} else {})" for x
    by (cases x) simp
  then have "fst ` set (concat (map (field_issues lib raw) (envSchema lib))) =
      (\<Union>x\<in>set (envSchema lib). case x of (name, field) \<Rightarrow> if field (raw name) = None then {name} else {})"
    by (simp add: image_UN)
  also have "\<dots> = set (broken lib raw)" by (auto simp: broken_def image_iff split: if_splits; force)
  finally show ?thesis .
qed

text \<open>
  (C36) The environment is typed or refused. When \<open>validateEnv\<close> returns, every variable has a value
  of its type within its bounds, and each one is what its own validator makes of the raw variable
  (so a default appears only for a variable that is not set). Otherwise it throws a single error
  whose lines name every broken variable and no other.
\<close>

theorem validateEnv_typed:
  assumes "env_lib_ok lib"
  shows "case validateEnv lib raw of
      Inr env \<Rightarrow> broken lib raw = [] \<and> env_typed lib env \<and>
        list_all (\<lambda>(name, field). js_map_get env name = field (raw name)) (envSchema lib)
    | Inl e \<Rightarrow> broken lib raw \<noteq> [] \<and>
        (\<exists>issues. e = invalid_env issues \<and> fst ` set issues = set (broken lib raw))"
proof (cases "safeParse lib raw")
  case (Inl issues)
  then have "issues = concat (map (field_issues lib raw) (envSchema lib))" "issues \<noteq> []"
    by (auto simp: safeParse_def Let_def split: if_splits)
  then have "fst ` set issues = set (broken lib raw)" "fst ` set issues \<noteq> {}"
    using issues_names [OF assms, of raw] by auto
  then show ?thesis using Inl by (auto simp: validateEnv_def)
next
  case (Inr env)
  note v = safeParse_Inr [OF Inr _ assms]
  have "broken lib raw = []" using v by (auto simp: broken_def filter_empty_conv)
  moreover have "list_all (\<lambda>(name, field). js_map_get env name = field (raw name)) (envSchema lib)"
    using v by (auto simp: list_all_iff)
  ultimately show ?thesis using safeParse_typed [OF Inr assms] Inr by (simp add: validateEnv_def)
qed

section \<open>An example\<close>

text \<open>A library for the example: decimal numbers, URLs without user info, a key that is \<open>KEY\<close>.\<close>

definition example_env_lib :: env_lib where
  "example_env_lib = \<lparr>nv_number = (\<lambda>s. map_option rat_of_nat (dec_val s)),
     nv_url = (\<lambda>s. Some \<lparr>url_protocol = takeWhile (\<lambda>c. c \<noteq> CHR '':'') s, url_username = [], url_password = [],
       url_hostname = ''db'', url_port = [], url_pathname = ''/invest''\<rparr>),
     nv_zod_url = (\<lambda>p s. if p (takeWhile (\<lambda>c. c \<noteq> CHR '':'') s) then Some s else None),
     nv_iso_date = (\<lambda>s. length s = 10), nv_base64 = (\<lambda>s. s),
     nv_createPrivateKey = (\<lambda>pem. if pem = ''KEY'' then Some ''ec'' else None),
     nv_createPublicKey = (\<lambda>pem. if pem = ''KEY'' then Some ''ec'' else None),
     nv_issues = (\<lambda>name raw. [''Invalid input''])\<rparr>"

lemma example_env_lib_ok: "env_lib_ok example_env_lib"
  by (auto simp: env_lib_ok_def example_env_lib_def split: if_splits)

definition example_raw_env :: raw_env where
  "example_raw_env = [''PORT'' \<mapsto> ''8080'', ''DB_URL'' \<mapsto> ''postgres://db/invest'', ''JWT_KID'' \<mapsto> ''k1'',
     ''JWT_PRIVATE_KEY'' \<mapsto> ''KEY'', ''JWT_PUBLIC_KEY'' \<mapsto> ''KEY'', ''REFRESH_TOKEN_PEPPER'' \<mapsto> ''pepper-pepper'']"

text \<open>The good environment has no broken variable; with \<open>PORT=0\<close> and no \<open>JWT_KID\<close> both are.\<close>

lemma example_texts:
  "dec_val ''8080'' = Some 8080" "dec_val ''0'' = Some 0" "js_length ''pepper-pepper'' = 13"
  "js_length ''postgres://db/invest'' = 20" "js_length ''k1'' = 2" "js_length ''KEY'' = 3"
  by code_simp+

lemmas env_simps = envSchema_def text_field_def number_field_def z_default_def z_required_def z_enum_def
  z_string_min_def z_coerce_int_def db_url_def http_url_def ecKey_def parseUrl_def iso_date_text_def
  NODE_ENVS_def example_env_lib_def example_raw_env_def example_texts js_safe_def

lemma example_env_fields:
  "broken example_env_lib example_raw_env = []"
  "broken example_env_lib (example_raw_env(''PORT'' := Some ''0'', ''JWT_KID'' := None)) = [''PORT'', ''JWT_KID'']"
  by (simp_all add: broken_def env_simps)

theorem validateEnv_typed_witness:
  "case validateEnv example_env_lib (example_raw_env(''PORT'' := Some ''0'', ''JWT_KID'' := None)) of
     Inr env \<Rightarrow> False
   | Inl e \<Rightarrow> (\<exists>issues. e = invalid_env issues \<and> fst ` set issues = {''PORT'', ''JWT_KID''})"
proof -
  let ?raw = "example_raw_env(''PORT'' := Some ''0'', ''JWT_KID'' := None)"
  show ?thesis
    using validateEnv_typed [OF example_env_lib_ok, of ?raw] example_env_fields(2) by (auto split: sum.splits)
qed

end
