(* ===== verification/Fx_Sync.thy ===== *)
theory Fx_Sync
  imports Upsert Fx_Rates Broker Env Counting
begin

text \<open>
  The startup synchronisation of exchange rates (\<open>fx-rates/nbu-client.service.ts\<close>,
  \<open>fx-rates/fx-sync.service.ts\<close>, \<open>upsertMany\<close> of \<open>fx-rates/fx-rate.repository.ts\<close>): what is asked of
  the bank and how its answer is read, the parallel streams of \<open>mergeMap\<close> with their bounded
  concurrency, and the load of the cache afterwards. The network is a parameter, from a request to
  an error or a response.
\<close>

section \<open>The client of the bank\<close>

definition NBU_SOURCE :: string where "NBU_SOURCE = ''nbu''"

record FxRateRow =
  fr_currency :: string
  fr_rateDate :: string
  fr_rawRate :: string
  fr_rawUnits :: int

record nbu_record =
  nr_exchangedate :: string
  nr_r030 :: int
  nr_cc :: string
  nr_rate :: string
  nr_units :: int

text \<open>
  Zod and JavaScript numbers: \<open>nl_positive\<close> takes the text of a JSON number to \<open>String(x)\<close> when the
  number is positive, \<open>nl_zod_error\<close> is what \<open>parse\<close> throws for a body.
\<close>

record nbu_lib =
  nl_zod :: zod
  nl_positive :: "string \<Rightarrow> string option"
  nl_zod_error :: "json \<Rightarrow> exn"

text \<open>\<open>/^\d{2}\.\d{2}\.\d{4}$/\<close>\<close>

definition exchangedate_ok :: "string \<Rightarrow> bool" where
  "exchangedate_ok s \<longleftrightarrow> length s = 10 \<and>
     list_all (\<lambda>(i, c). if i \<in> {2, 5} then c = CHR ''.'' else digit_val c \<noteq> None) (enumerate 0 s)"

definition nbuRecordSchema :: "nbu_lib \<Rightarrow> json \<Rightarrow> nbu_record option" where
  "nbuRecordSchema lib v =
     (case (check exchangedate_ok (json_str (json_get v ''exchangedate'')),
            json_num (nl_zod lib) (json_get v ''r030''),
            json_str (json_get v ''cc''),
            (case json_get v ''rate'' of Some (JNum t) \<Rightarrow> nl_positive lib t | _ \<Rightarrow> None),
            check (\<lambda>u. 0 < u) (json_num (nl_zod lib) (json_get v ''units''))) of
        (Some d, Some n, Some c, Some r, Some u) \<Rightarrow>
          Some \<lparr>nr_exchangedate = d, nr_r030 = n, nr_cc = c, nr_rate = r, nr_units = u\<rparr>
      | _ \<Rightarrow> None)"

definition nbuResponseSchema :: "nbu_lib \<Rightarrow> json \<Rightarrow> nbu_record list option" where
  "nbuResponseSchema lib body =
     (case body of JArr vs \<Rightarrow> those (map (nbuRecordSchema lib) vs) | _ \<Rightarrow> None)"

definition toNbuParam :: "string \<Rightarrow> string" where
  "toNbuParam date = filter (\<lambda>c. c \<noteq> CHR ''-'') date"

text \<open>A missing part of the destructured array would print as \<open>undefined\<close>.\<close>

definition parseNbuDate :: "string \<Rightarrow> string" where
  "parseNbuDate value =
     (let parts = js_split (CHR ''.'') value;
          part = (\<lambda>i. if i < length parts then parts ! i else ''undefined'')
      in part 2 @ ''-'' @ part 1 @ ''-'' @ part 0)"

type_synonym quoted = "string \<times> int"

text \<open>\<open>r030\<close> is not compared with the numeric code: the bank's archive has other codes in old rows.\<close>

definition record_row :: "quoted \<Rightarrow> nbu_record \<Rightarrow> exn + FxRateRow" where
  "record_row currency r =
     (if nr_cc r \<noteq> fst currency
      then Inl (plain_error (''NBU returned '' @ nr_cc r @ '' when asked for '' @ fst currency))
      else Inr \<lparr>fr_currency = fst currency, fr_rateDate = parseNbuDate (nr_exchangedate r),
                fr_rawRate = nr_rate r, fr_rawUnits = nr_units r\<rparr>)"

definition parseNbuResponse :: "nbu_lib \<Rightarrow> json \<Rightarrow> quoted \<Rightarrow> exn + FxRateRow list" where
  "parseNbuResponse lib body currency =
     (case nbuResponseSchema lib body of
        None \<Rightarrow> Inl (nl_zod_error lib body)
      | Some records \<Rightarrow> mapE (record_row currency) records)"

text \<open>The request that \<open>fetch\<close> gets, and the response; reading its body may fail.\<close>

record nbu_request =
  nq_base :: string
  nq_path :: string
  nq_params :: "(string \<times> string) list"
  nq_timeoutMs :: int

record nbu_response =
  np_status :: nat
  np_json :: "exn + json"

type_synonym network = "nbu_request \<Rightarrow> exn + nbu_response"

text \<open>\<open>toLowerCase\<close> on the letters A to Z, which are all a currency code has.\<close>

definition lower_case :: "string \<Rightarrow> string" where
  "lower_case s = map (\<lambda>c. if 65 \<le> (of_char c :: nat) \<and> (of_char c :: nat) \<le> 90
     then char_of ((of_char c :: nat) + 32) else c) s"

definition nbu_url :: "Env \<Rightarrow> quoted \<Rightarrow> string \<Rightarrow> string \<Rightarrow> nbu_request" where
  "nbu_url env currency from to =
     \<lparr>nq_base = config_text env ''NBU_BASE_URL'', nq_path = ''/NBU_Exchange/exchange_site'',
      nq_params = [(''start'', toNbuParam from), (''end'', toNbuParam to),
        (''valcode'', lower_case (fst currency)), (''sort'', ''exchangedate''),
        (''order'', ''asc''), (''json'', '''')],
      nq_timeoutMs = config_number env ''NBU_TIMEOUT_MS''\<rparr>"

definition fetchRates ::
  "nbu_lib \<Rightarrow> Env \<Rightarrow> network \<Rightarrow> quoted \<Rightarrow> string \<Rightarrow> string \<Rightarrow> exn + FxRateRow list" where
  "fetchRates lib env network currency from to =
     bindE (network (nbu_url env currency from to)) (\<lambda>response.
     if \<not> (200 \<le> np_status response \<and> np_status response \<le> 299)
     then Inl (plain_error (''NBU '' @ fst currency @ '' '' @ from @ ''..'' @ to @ '': HTTP '' @
            nat_text (np_status response)))
     else bindE (np_json response) (\<lambda>body. parseNbuResponse lib body currency))"

section \<open>Storing\<close>

definition UPSERT_CHUNK :: nat where "UPSERT_CHUNK = 1000"

text \<open>One statement: the rows from index \<open>i\<close> on, at most UPSERT_CHUNK of them.\<close>

definition fx_row_in :: "runtime \<Rightarrow> string \<Rightarrow> FxRateRow \<Rightarrow> exn + fx_row" where
  "fx_row_in rt source row =
     fx_in rt source (fr_currency row, fr_rateDate row, fr_rawRate row, fr_rawUnits row)"

definition upsert_chunk :: "runtime \<Rightarrow> string \<Rightarrow> FxRateRow list \<Rightarrow> nat \<Rightarrow> db \<Rightarrow> exn + db" where
  "upsert_chunk rt source rows i db =
     bindE (mapE (fx_row_in rt source) (take UPSERT_CHUNK (drop i rows))) (\<lambda>chunk. upsert_fx chunk db)"

function upsertMany :: "runtime \<Rightarrow> string \<Rightarrow> FxRateRow list \<Rightarrow> nat \<Rightarrow> (db, unit) svc" where
  "upsertMany rt source rows i =
     (if i < length rows
      then bindS (writeE (upsert_chunk rt source rows i)) (\<lambda>_. upsertMany rt source rows (i + UPSERT_CHUNK))
      else returnS ())"
  by pat_completeness auto
termination
  by (relation "measure (\<lambda>(rt, source, rows, i). length rows - i)") (auto simp: UPSERT_CHUNK_def)

declare upsertMany.simps [simp del]

section \<open>The synchronisation\<close>

text \<open>
  One stream per currency. \<open>Storing rows i\<close>: the response is in, the rows before \<open>i\<close> are committed.
  The two final phases are the two lines that \<open>syncCurrency\<close> logs.
\<close>

datatype sync_phase =
    Queued
  | Fetching
  | Storing "FxRateRow list" nat
  | Synced
  | Failed exn

record sync_task =
  sk_currency :: quoted
  sk_from :: string
  sk_phase :: sync_phase

record sync_setting =
  sn_rt :: runtime
  sn_lib :: nbu_lib
  sn_env :: Env
  sn_network :: network
  sn_to :: string
  sn_concurrency :: nat

record sync_state =
  sy_db :: db
  sy_tasks :: "sync_task list"

fun running :: "sync_phase \<Rightarrow> bool" where
  "running Fetching = True"
| "running (Storing _ _) = True"
| "running _ = False"

text \<open>\<open>Math.max(1, Math.min(cpus().length, poolMax))\<close>\<close>

definition defaultConcurrency :: "nat \<Rightarrow> Env \<Rightarrow> nat" where
  "defaultConcurrency cpus env = nat (max 1 (min (int cpus) (config_number env ''DB_POOL_MAX'')))"

text \<open>The body of \<open>syncCurrency\<close>, one await at a time.\<close>

fun advance :: "sync_setting \<Rightarrow> quoted \<Rightarrow> string \<Rightarrow> sync_phase \<Rightarrow> db \<Rightarrow> sync_phase \<times> db" where
  "advance st currency from Fetching db =
     (case fetchRates (sn_lib st) (sn_env st) (sn_network st) currency from (sn_to st) of
        Inl e \<Rightarrow> (Failed e, db) | Inr rows \<Rightarrow> (Storing rows 0, db))"
| "advance st currency from (Storing rows i) db =
     (if i < length rows
      then (case upsert_chunk (sn_rt st) NBU_SOURCE rows i db of
              Inl e \<Rightarrow> (Failed e, db) | Inr db' \<Rightarrow> (Storing rows (i + UPSERT_CHUNK), db'))
      else (Synced, db))"
| "advance st currency from p db = (p, db)"

definition active :: "sync_state \<Rightarrow> nat" where
  "active s = tally (\<lambda>t. of_bool (running (sk_phase t))) (sy_tasks s)"

definition set_task :: "nat \<Rightarrow> sync_phase \<Rightarrow> sync_state \<Rightarrow> sync_state" where
  "set_task k p s = s\<lparr>sy_tasks := (sy_tasks s)[k := (sy_tasks s ! k)\<lparr>sk_phase := p\<rparr>]\<rparr>"

text \<open>
  \<open>mergeMap\<close>: the next currency is projected while fewer than \<open>concurrency\<close> streams are open; open
  streams advance in any order.
\<close>

inductive sync_step :: "sync_setting \<Rightarrow> sync_state \<Rightarrow> sync_state \<Rightarrow> bool" for st where
  project: "k < length (sy_tasks s) \<Longrightarrow> sk_phase (sy_tasks s ! k) = Queued \<Longrightarrow>
     \<forall>j<k. sk_phase (sy_tasks s ! j) \<noteq> Queued \<Longrightarrow> active s < sn_concurrency st \<Longrightarrow>
     sync_step st s (set_task k Fetching s)"
| proceed: "k < length (sy_tasks s) \<Longrightarrow> running (sk_phase (sy_tasks s ! k)) \<Longrightarrow>
     advance st (sk_currency (sy_tasks s ! k)) (sk_from (sy_tasks s ! k)) (sk_phase (sy_tasks s ! k)) (sy_db s) = (p, db') \<Longrightarrow>
     sync_step st s ((set_task k p s)\<lparr>sy_db := db'\<rparr>)"

inductive_cases sync_stepE: "sync_step st s t"

text \<open>What \<open>sync\<close> computes before the streams: the end of the range, the currencies, where each starts.\<close>

definition sync_setup :: "runtime \<Rightarrow> Env \<Rightarrow> millis \<Rightarrow> db \<Rightarrow> exn + (string \<times> sync_task list)" where
  "sync_setup rt env now db =
     (let backfillFrom = config_text env ''FX_BACKFILL_FROM''
      in bindE (addDays (date_fallback rt) (toDateOnly now) 1) (\<lambda>to.
         let currencies = findQuotedCurrencies rt db;
             lastDates = findLastDates NBU_SOURCE db
         in Inr (to, map (\<lambda>c. \<lparr>sk_currency = c,
              sk_from = or_else (js_map_get lastDates (fst c)) backfillFrom, sk_phase = Queued\<rparr>) currencies)))"

definition sync_setting_of ::
  "runtime \<Rightarrow> nbu_lib \<Rightarrow> Env \<Rightarrow> network \<Rightarrow> nat \<Rightarrow> string \<Rightarrow> sync_setting" where
  "sync_setting_of rt lib env network cpus to = \<lparr>sn_rt = rt, sn_lib = lib, sn_env = env,
     sn_network = network, sn_to = to, sn_concurrency = defaultConcurrency cpus env\<rparr>"

definition all_settled :: "sync_state \<Rightarrow> bool" where
  "all_settled s \<longleftrightarrow> (\<forall>t\<in>set (sy_tasks s). sk_phase t \<noteq> Queued \<and> \<not> running (sk_phase t))"

text \<open>
  Which of the three queries of the bootstrap fail: \<open>findQuotedCurrencies\<close> and \<open>findLastDates\<close> in
  \<open>sync\<close>, \<open>findAllEffective\<close> for the cache.
\<close>

record query_failures =
  qf_quoted :: "exn option"
  qf_lastDates :: "exn option"
  qf_effective :: "exn option"

definition sync_queries :: "query_failures \<Rightarrow> runtime \<Rightarrow> Env \<Rightarrow> millis \<Rightarrow> db \<Rightarrow> exn + (string \<times> sync_task list)" where
  "sync_queries fails rt env now db =
     bindE (sync_setup rt env now db) (\<lambda>setup.
       case qf_quoted fails of
         Some e \<Rightarrow> Inl e
       | None \<Rightarrow> (case qf_lastDates fails of Some e \<Rightarrow> Inl e | None \<Rightarrow> Inr setup))"

text \<open>The cache is empty until it is loaded.\<close>

definition loaded_cache :: "query_failures \<Rightarrow> runtime \<Rightarrow> db \<Rightarrow> fx_cache" where
  "loaded_cache fails rt db =
     (case qf_effective fails of Some e \<Rightarrow> [] | None \<Rightarrow> cache_load (findAllEffective rt db))"

text \<open>
  \<open>onApplicationBootstrap\<close>: the database and the cache that it leaves. It never throws: a failed
  synchronisation is logged, and the cache is loaded from what the table then has; when the load
  fails that is logged too.
\<close>

inductive bootstrap ::
  "runtime \<Rightarrow> nbu_lib \<Rightarrow> Env \<Rightarrow> network \<Rightarrow> nat \<Rightarrow> millis \<Rightarrow> query_failures \<Rightarrow> db \<Rightarrow> db \<times> fx_cache \<Rightarrow> bool"
  for rt lib env network cpus now fails db where
  sync_off: "config_text env ''FX_SYNC_ON_START'' \<noteq> ''1'' \<Longrightarrow>
     bootstrap rt lib env network cpus now fails db (db, loaded_cache fails rt db)"
| sync_threw: "config_text env ''FX_SYNC_ON_START'' = ''1'' \<Longrightarrow> sync_queries fails rt env now db = Inl e \<Longrightarrow>
     bootstrap rt lib env network cpus now fails db (db, loaded_cache fails rt db)"
| sync_ran: "config_text env ''FX_SYNC_ON_START'' = ''1'' \<Longrightarrow> sync_queries fails rt env now db = Inr (to, tasks) \<Longrightarrow>
     (sync_step (sync_setting_of rt lib env network cpus to))\<^sup>*\<^sup>* \<lparr>sy_db = db, sy_tasks = tasks\<rparr> s \<Longrightarrow>
     all_settled s \<Longrightarrow>
     bootstrap rt lib env network cpus now fails db (sy_db s, loaded_cache fails rt (sy_db s))"

end
