(* ===== verification/Fx_Sync_Correct.thy ===== *)
theory Fx_Sync_Correct
  imports Fx_Sync
begin

text \<open>
  The streams of the startup synchronisation do not interfere: each currency ends as if it had been
  synchronised alone on the database that the run started from, in every interleaving; and every
  run ends.
\<close>

section \<open>Statements on a part of the table\<close>

text \<open>A predicate on rows that looks at the key only sees its own part of an upsert.\<close>

lemma filter_update_where:
  assumes "\<And>t. p t \<Longrightarrow> Q (f t) = Q t"
  shows "filter Q (update_where p f table) = update_where p f (filter Q table)"
  using assms by (induction table) auto

lemma filter_update_outside:
  assumes "\<And>t. p t \<Longrightarrow> \<not> Q t \<and> \<not> Q (f t)"
  shows "filter Q (update_where p f table) = filter Q table"
  using assms by (induction table) auto

lemma upsert_rows_inside:
  assumes "\<forall>r\<in>set rs. Q r" "\<And>t r. key t = key r \<Longrightarrow> Q t = Q r" "\<And>t r. key (merge t r) = key t"
  shows "map_sum id (filter Q) (upsert_rows chk key (\<lambda>t r. False) merge table seen rs) =
    upsert_rows chk key (\<lambda>t r. False) merge (filter Q table) seen rs"
  using assms(1)
proof (induction rs arbitrary: table seen)
  case (Cons r rs)
  define u where "u table = (if key r \<in> key ` set table
    then update_where (\<lambda>t. key t = key r) (\<lambda>t. merge t r) table else table @ [r])" for table
  have step: "upsert_rows chk key (\<lambda>t r. False) merge tb sn (r # rs) =
      (case chk r of Some name \<Rightarrow> Inl (db_error ''23514'' name)
       | None \<Rightarrow> if key r \<in> set sn then Inl (db_error ''21000'' ''ON CONFLICT'')
                 else upsert_rows chk key (\<lambda>t r. False) merge (u tb) (key r # sn) rs)" for tb sn
    by (simp add: u_def list_ex_iff split: option.split)
  have r: "Q r" and rs: "\<forall>q\<in>set rs. Q q" using Cons.prems by simp_all
  have "Q t" if "key r = key t" for t using assms(2) [OF that] r by simp
  then have "key r \<in> key ` set (filter Q table) \<longleftrightarrow> key r \<in> key ` set table"
    by (auto simp: image_iff)
  moreover have "filter Q (update_where (\<lambda>t. key t = key r) (\<lambda>t. merge t r) table) =
      update_where (\<lambda>t. key t = key r) (\<lambda>t. merge t r) (filter Q table)"
    by (rule filter_update_where) (metis assms(2,3))
  ultimately have f: "filter Q (u table) = u (filter Q table)" unfolding u_def using r by simp
  note ih = Cons.IH [OF rs, of "u table" "key r # seen", unfolded f]
  show ?case unfolding step using ih by (cases "chk r") simp_all
qed simp

lemma upsert_rows_outside:
  assumes "upsert_rows chk key (\<lambda>t r. False) merge table seen rs = Inr t"
    and "\<forall>r\<in>set rs. \<not> Q r" "\<And>t r. key t = key r \<Longrightarrow> Q t \<Longrightarrow> Q r" "\<And>t r. key (merge t r) = key t"
  shows "filter Q t = filter Q table"
  using assms(1,2)
proof (induction rs arbitrary: table seen)
  case (Cons r rs)
  let ?u = "if key r \<in> key ` set table
    then update_where (\<lambda>t. key t = key r) (\<lambda>t. merge t r) table else table @ [r]"
  have "upsert_rows chk key (\<lambda>t r. False) merge ?u (key r # seen) rs = Inr t"
    using Cons.prems(1) by (simp split: option.splits if_splits)
  then have "filter Q t = filter Q ?u" using Cons.IH Cons.prems(2) by simp
  moreover have "filter Q (update_where (\<lambda>t. key t = key r) (\<lambda>t. merge t r) table) = filter Q table"
    by (rule filter_update_outside) (metis Cons.prems(2) assms(3,4) list.set_intros(1))
  ultimately show ?case using Cons.prems(2) by simp
qed simp

section \<open>One currency\<close>

text \<open>The rows that the stream of a currency writes; two databases that agree on them.\<close>

definition rows_of :: "string \<Rightarrow> db \<Rightarrow> fx_row list" where
  "rows_of c db = filter (\<lambda>f. f_source f = NBU_SOURCE \<and> f_currency f = c) (fx_rates db)"

definition same_for :: "string \<Rightarrow> db \<Rightarrow> db \<Rightarrow> bool" where
  "same_for c db db' \<longleftrightarrow> currencies db = currencies db' \<and> rows_of c db = rows_of c db'"

lemma same_for_refl [simp]: "same_for c db db"
  by (simp add: same_for_def)

lemma same_for_trans: "same_for c a b \<Longrightarrow> same_for c b d \<Longrightarrow> same_for c a d"
  by (simp add: same_for_def)

lemma fx_row_in_fields:
  "fx_row_in rt source row = Inr f \<Longrightarrow> f_source f = source \<and> f_currency f = fr_currency row"
  by (auto simp: fx_row_in_def fx_in_def bind_results split: if_splits)

lemma fx_key_parts: "fx_key t = fx_key r \<Longrightarrow> f_source t = f_source r \<and> f_currency t = f_currency r"
  by (simp add: fx_key_def)

lemma upsert_fx_inside:
  assumes "same_for c db db'" "\<forall>f\<in>set rows. f_source f = NBU_SOURCE \<and> f_currency f = c"
  shows "case upsert_fx rows db of Inl e \<Rightarrow> upsert_fx rows db' = Inl e
    | Inr d \<Rightarrow> \<exists>d'. upsert_fx rows db' = Inr d' \<and> same_for c d d'"
proof -
  let ?Q = "\<lambda>f. f_source f = NBU_SOURCE \<and> f_currency f = c"
  let ?u = "\<lambda>table. upsert_rows fx_rate_check fx_key (\<lambda>t r. False) fx_merge table [] rows"
  have in_part: "map_sum id (filter ?Q) (?u table) = ?u (filter ?Q table)" for table
    using assms(2) by (intro upsert_rows_inside) (auto dest: fx_key_parts)
  have "filter ?Q (fx_rates db) = filter ?Q (fx_rates db')" using assms(1) by (simp add: same_for_def rows_of_def)
  then have u: "map_sum id (filter ?Q) (?u (fx_rates db)) = map_sum id (filter ?Q) (?u (fx_rates db'))"
    using in_part by metis
  have fk: "check_fks (fx_fk db) rows = check_fks (fx_fk db') rows"
  proof -
    have "fx_fk db = fx_fk db'" using assms(1) by (simp add: fun_eq_iff fx_fk_def same_for_def)
    then show ?thesis by simp
  qed
  have c: "currencies db = currencies db'" using assms(1) by (simp add: same_for_def)
  show ?thesis
    using u fk c
    by (cases "?u (fx_rates db)"; cases "?u (fx_rates db')")
      (auto simp: upsert_fx_def upsert_def same_for_def rows_of_def bindE_def split: sum.splits)
qed

definition of_currency :: "string \<Rightarrow> FxRateRow list \<Rightarrow> bool" where
  "of_currency c rows \<longleftrightarrow> (\<forall>r\<in>set rows. fr_currency r = c)"

lemma chunk_rows:
  assumes "mapE (fx_row_in rt source) (take n (drop i rows)) = Inr chunk" "of_currency c rows" "f \<in> set chunk"
  shows "f_source f = source \<and> f_currency f = c"
proof -
  obtain row where row: "row \<in> set (take n (drop i rows))" "fx_row_in rt source row = Inr f"
    using assms(1,3) unfolding mapE_Inr by (blast dest: list_all2_set2)
  then have "row \<in> set rows" by (blast dest: in_set_takeD in_set_dropD)
  then have "fr_currency row = c" using assms(2) by (simp add: of_currency_def)
  then show ?thesis using fx_row_in_fields [OF row(2)] by simp
qed

lemma upsert_chunk_inside:
  assumes "same_for c db db'" "of_currency c rows"
  shows "case upsert_chunk rt NBU_SOURCE rows i db of Inl e \<Rightarrow> upsert_chunk rt NBU_SOURCE rows i db' = Inl e
    | Inr d \<Rightarrow> \<exists>d'. upsert_chunk rt NBU_SOURCE rows i db' = Inr d' \<and> same_for c d d'"
proof (cases "mapE (fx_row_in rt NBU_SOURCE) (take UPSERT_CHUNK (drop i rows))")
  case (Inl e)
  then have "upsert_chunk rt NBU_SOURCE rows i d = Inl e" for d by (simp add: upsert_chunk_def bindE_def)
  then show ?thesis by simp
next
  case (Inr chunk)
  then have u: "upsert_chunk rt NBU_SOURCE rows i d = upsert_fx chunk d" for d by (simp add: upsert_chunk_def)
  have "\<forall>f\<in>set chunk. f_source f = NBU_SOURCE \<and> f_currency f = c" using chunk_rows [OF Inr assms(2)] by blast
  then show ?thesis unfolding u by (rule upsert_fx_inside [OF assms(1)])
qed

text \<open>What a chunk leaves alone, and that it keeps the constraints.\<close>

lemma upsert_chunk_Inr:
  assumes "upsert_chunk rt NBU_SOURCE rows i db = Inr db'" "of_currency c rows"
  shows "\<exists>t. db' = db\<lparr>fx_rates := t\<rparr>"
    and "db_ok db \<Longrightarrow> pg_divide_ok rt \<Longrightarrow> db_ok db'"
    and "\<not> R c NBU_SOURCE \<Longrightarrow> filter (\<lambda>f. R (f_currency f) (f_source f)) (fx_rates db') =
      filter (\<lambda>f. R (f_currency f) (f_source f)) (fx_rates db)"
proof -
  obtain chunk where m: "mapE (fx_row_in rt NBU_SOURCE) (take UPSERT_CHUNK (drop i rows)) = Inr chunk"
      and u: "upsert_fx chunk db = Inr db'"
    using assms(1) by (auto simp: upsert_chunk_def)
  show t: "\<exists>t. db' = db\<lparr>fx_rates := t\<rparr>" using u by (auto simp: upsert_fx_def)
  have "\<exists>source row. fx_in rt source row = Inr f" if f: "f \<in> set chunk" for f
  proof -
    obtain row where "fx_row_in rt NBU_SOURCE row = Inr f"
      using m f unfolding mapE_Inr by (blast dest: list_all2_set2)
    then show ?thesis unfolding fx_row_in_def by blast
  qed
  then show "db_ok db'" if "db_ok db" "pg_divide_ok rt"
    using upsert_fx_ok [OF that(1) u that(2)] by blast
  show "filter (\<lambda>f. R (f_currency f) (f_source f)) (fx_rates db') =
      filter (\<lambda>f. R (f_currency f) (f_source f)) (fx_rates db)" if "\<not> R c NBU_SOURCE"
  proof -
    obtain t where t: "upsert_rows fx_rate_check fx_key (\<lambda>t r. False) fx_merge (fx_rates db) [] chunk = Inr t"
        and db': "db' = db\<lparr>fx_rates := t\<rparr>"
      using u by (auto simp: upsert_fx_def upsert_def)
    have out: "\<forall>f\<in>set chunk. \<not> R (f_currency f) (f_source f)"
      using that chunk_rows [OF m assms(2)] by simp
    have k: "R (f_currency g) (f_source g)" if "fx_key f = fx_key g" "R (f_currency f) (f_source f)" for f g
      using fx_key_parts [OF that(1)] that(2) by simp
    have "filter (\<lambda>f. R (f_currency f) (f_source f)) t = filter (\<lambda>f. R (f_currency f) (f_source f)) (fx_rates db)"
      by (rule upsert_rows_outside [where Q = "\<lambda>f. R (f_currency f) (f_source f)", OF t out])
        (erule (1) k, rule fx_merge_key)
    then show ?thesis by (simp add: db')
  qed
qed

text \<open>The rows of an answer carry the currency that was asked for.\<close>

lemma fetchRates_currency:
  assumes "fetchRates lib env network currency from to = Inr rows"
  shows "of_currency (fst currency) rows"
proof -
  obtain body where "parseNbuResponse lib body currency = Inr rows"
    using assms unfolding fetchRates_def by (auto split: if_splits)
  then obtain records where "mapE (record_row currency) records = Inr rows"
    unfolding parseNbuResponse_def by (auto split: option.splits)
  moreover have "fr_currency row = fst currency" if "record_row currency r = Inr row" for r row
    using that unfolding record_row_def by (auto split: if_splits)
  ultimately show ?thesis unfolding of_currency_def mapE_Inr by (blast dest: list_all2_set2)
qed

section \<open>A stream on its own\<close>

text \<open>\<open>syncCurrency\<close> without anything in between: the phase it ends in and the database.\<close>

definition ending :: "(exn + unit) \<times> db \<Rightarrow> sync_phase \<times> db" where
  "ending r = (case r of (Inl e, db) \<Rightarrow> (Failed e, db) | (Inr _, db) \<Rightarrow> (Synced, db))"

definition syncCurrency :: "sync_setting \<Rightarrow> quoted \<Rightarrow> string \<Rightarrow> db \<Rightarrow> sync_phase \<times> db" where
  "syncCurrency st currency from db = ending (bindS
     (liftS (fetchRates (sn_lib st) (sn_env st) (sn_network st) currency from (sn_to st)))
     (\<lambda>rows. upsertMany (sn_rt st) NBU_SOURCE rows 0) db)"

text \<open>The same for a stream that is on its way.\<close>

fun settle_sync :: "sync_setting \<Rightarrow> quoted \<Rightarrow> string \<Rightarrow> sync_phase \<Rightarrow> db \<Rightarrow> sync_phase \<times> db" where
  "settle_sync st currency from (Storing rows i) db = ending (upsertMany (sn_rt st) NBU_SOURCE rows i db)"
| "settle_sync st currency from Queued db = syncCurrency st currency from db"
| "settle_sync st currency from Fetching db = syncCurrency st currency from db"
| "settle_sync st currency from p db = (p, db)"

fun phase_ok :: "string \<Rightarrow> sync_phase \<Rightarrow> bool" where
  "phase_ok c (Storing rows i) = of_currency c rows"
| "phase_ok c p = True"

lemma upsertMany_run:
  "upsertMany rt source rows i db =
     (if i < length rows
      then (case upsert_chunk rt source rows i db of
              Inl e \<Rightarrow> (Inl e, db) | Inr db' \<Rightarrow> upsertMany rt source rows (i + UPSERT_CHUNK) db')
      else (Inr (), db))"
  by (subst upsertMany.simps) (simp add: bindS_def writeE_def returnS_def split: sum.split)

lemma advance_settle:
  assumes "running p" "advance st c from p db = (p', db')"
  shows "settle_sync st c from p' db' = settle_sync st c from p db"
proof (cases p)
  case Fetching
  then show ?thesis
    using assms(2) by (auto simp: syncCurrency_def ending_def bindS_def liftS_def split: sum.splits)
next
  case (Storing rows i)
  have "settle_sync st c from p db = ending (upsertMany (sn_rt st) NBU_SOURCE rows i db)"
    using Storing by simp
  also have "\<dots> = settle_sync st c from p' db'"
    using assms(2) unfolding Storing upsertMany_run [of _ _ _ i db]
    by (auto simp: ending_def split: sum.splits if_splits)
  finally show ?thesis by simp
qed (use assms(1) in simp_all)

lemma upsertMany_inside:
  assumes "same_for c db db'" "of_currency c rows"
  shows "fst (upsertMany rt NBU_SOURCE rows i db) = fst (upsertMany rt NBU_SOURCE rows i db') \<and>
    same_for c (snd (upsertMany rt NBU_SOURCE rows i db)) (snd (upsertMany rt NBU_SOURCE rows i db'))"
  using assms
proof (induction rt "NBU_SOURCE" rows i arbitrary: db db' rule: upsertMany.induct)
  case (1 rt rows i)
  note inside = upsert_chunk_inside [OF 1(2,3), of rt i]
  show ?case
  proof (cases "upsert_chunk rt NBU_SOURCE rows i db")
    case (Inl e)
    then show ?thesis
      using inside 1(2) by (simp add: upsertMany_run [of _ _ _ _ db] upsertMany_run [of _ _ _ _ db'])
  next
    case (Inr d)
    then obtain d' where d': "upsert_chunk rt NBU_SOURCE rows i db' = Inr d'" "same_for c d d'" using inside by auto
    then show ?thesis
      using 1(1) [OF _ d'(2) 1(3)] Inr 1(2)
      by (simp add: upsertMany_run [of _ _ _ i db] upsertMany_run [of _ _ _ i db'])
  qed
qed

lemma ending_parts: "fst (ending r) = (case fst r of Inl e \<Rightarrow> Failed e | Inr _ \<Rightarrow> Synced)" "snd (ending r) = snd r"
  by (auto simp: ending_def split: prod.split sum.split)

text \<open>How a stream ends depends only on its own part of the database.\<close>

lemma settle_inside:
  assumes "same_for (fst c) db db'" "phase_ok (fst c) p"
  shows "fst (settle_sync st c from p db) = fst (settle_sync st c from p db') \<and>
    same_for (fst c) (snd (settle_sync st c from p db)) (snd (settle_sync st c from p db'))"
proof -
  let ?rows = "fetchRates (sn_lib st) (sn_env st) (sn_network st) c from (sn_to st)"
  have "fst (syncCurrency st c from db) = fst (syncCurrency st c from db') \<and>
      same_for (fst c) (snd (syncCurrency st c from db)) (snd (syncCurrency st c from db'))"
  proof (cases ?rows)
    case (Inr rows)
    then show ?thesis
      using upsertMany_inside [OF assms(1) fetchRates_currency [OF Inr], of "sn_rt st" 0]
      by (simp add: syncCurrency_def ending_parts)
  qed (simp add: syncCurrency_def ending_parts throwS_def assms(1))
  moreover have "fst (settle_sync st c from (Storing rows i) db) = fst (settle_sync st c from (Storing rows i) db') \<and>
      same_for (fst c) (snd (settle_sync st c from (Storing rows i) db)) (snd (settle_sync st c from (Storing rows i) db'))"
    if "of_currency (fst c) rows" for rows i
    using upsertMany_inside [OF assms(1) that, of "sn_rt st" i] by (simp add: ending_parts)
  ultimately show ?thesis using assms by (cases p) simp_all
qed

text \<open>The effect of one await of a stream on the database.\<close>

lemma advance_effect:
  assumes "advance st c from p db = (p', db')" "phase_ok (fst c) p"
  shows "phase_ok (fst c) p'"
    and "db' = db \<or> (\<exists>rows i. of_currency (fst c) rows \<and> upsert_chunk (sn_rt st) NBU_SOURCE rows i db = Inr db')"
proof -
  have fetching: "phase_ok (fst c) p' \<and> db' = db" if "p = Fetching"
    using assms(1) that by (auto split: sum.splits dest: fetchRates_currency)
  have storing: "phase_ok (fst c) p' \<and> (db' = db \<or> upsert_chunk (sn_rt st) NBU_SOURCE rows i db = Inr db')"
    if "p = Storing rows i" for rows i
    using assms that by (auto split: sum.splits if_splits)
  have other: "p' = p \<and> db' = db" if "\<not> running p"
    using assms(1) that by (cases p) auto
  show "phase_ok (fst c) p'" using fetching storing other assms(2) by (cases p) auto
  show "db' = db \<or> (\<exists>rows i. of_currency (fst c) rows \<and> upsert_chunk (sn_rt st) NBU_SOURCE rows i db = Inr db')"
  proof (cases p)
    case (Storing rows i)
    then show ?thesis using storing [OF Storing] assms(2) by auto
  qed (use fetching other in auto)
qed

section \<open>All streams\<close>

definition task_id :: "sync_task \<Rightarrow> quoted \<times> string" where
  "task_id t = (sk_currency t, sk_from t)"

definition settled_as :: "sync_setting \<Rightarrow> db \<Rightarrow> db \<Rightarrow> sync_task \<Rightarrow> bool" where
  "settled_as st db0 db t \<longleftrightarrow> phase_ok (fst (sk_currency t)) (sk_phase t) \<and>
     (let (p, d) = settle_sync st (sk_currency t) (sk_from t) (sk_phase t) db;
          (p0, d0) = syncCurrency st (sk_currency t) (sk_from t) db0
      in p = p0 \<and> same_for (fst (sk_currency t)) d d0)"

definition synced_currencies :: "sync_task list \<Rightarrow> string set" where
  "synced_currencies tasks = (\<lambda>t. fst (sk_currency t)) ` set tasks"

definition sync_inv :: "sync_setting \<Rightarrow> db \<Rightarrow> sync_task list \<Rightarrow> sync_state \<Rightarrow> bool" where
  "sync_inv st db0 tasks0 s \<longleftrightarrow>
     map task_id (sy_tasks s) = map task_id tasks0 \<and> db_ok (sy_db s) \<and>
     (\<exists>t. sy_db s = db0\<lparr>fx_rates := t\<rparr>) \<and>
     filter (\<lambda>f. f_source f \<noteq> NBU_SOURCE \<or> f_currency f \<notin> synced_currencies tasks0) (fx_rates (sy_db s)) =
       filter (\<lambda>f. f_source f \<noteq> NBU_SOURCE \<or> f_currency f \<notin> synced_currencies tasks0) (fx_rates db0) \<and>
     active s \<le> sn_concurrency st \<and> list_all (settled_as st db0 (sy_db s)) (sy_tasks s)"

lemma settled_asI:
  assumes "settled_as st db0 db t" "task_id u = task_id t" "phase_ok (fst (sk_currency u)) (sk_phase u)"
    and "fst (settle_sync st (sk_currency t) (sk_from t) (sk_phase u) db') =
        fst (settle_sync st (sk_currency t) (sk_from t) (sk_phase t) db)"
    and "same_for (fst (sk_currency t)) (snd (settle_sync st (sk_currency t) (sk_from t) (sk_phase u) db'))
        (snd (settle_sync st (sk_currency t) (sk_from t) (sk_phase t) db))"
  shows "settled_as st db0 db' u"
  using assms same_for_trans by (auto simp: settled_as_def task_id_def case_prod_beta Let_def)

lemma set_task_fields [simp]:
  "sy_db (set_task k p s) = sy_db s"
  "sy_tasks (set_task k p s) = (sy_tasks s)[k := (sy_tasks s ! k)\<lparr>sk_phase := p\<rparr>]"
  by (simp_all add: set_task_def)

lemma map_task_id_update:
  "k < length ts \<Longrightarrow> map task_id (ts[k := (ts ! k)\<lparr>sk_phase := p\<rparr>]) = map task_id ts"
  by (rule map_update_same) (simp_all add: task_id_def)

lemma sync_invD:
  assumes "sync_inv st db0 tasks0 s"
  shows "map task_id (sy_tasks s) = map task_id tasks0" "db_ok (sy_db s)"
    and "k < length (sy_tasks s) \<Longrightarrow> settled_as st db0 (sy_db s) (sy_tasks s ! k)"
    and "active s \<le> sn_concurrency st" "\<exists>t. sy_db s = db0\<lparr>fx_rates := t\<rparr>"
  using assms by (simp_all add: sync_inv_def list_all_length)

lemma task_of:
  assumes "sync_inv st db0 tasks0 s" "k < length (sy_tasks s)"
  shows "k < length tasks0" "sk_currency (sy_tasks s ! k) = sk_currency (tasks0 ! k)"
proof -
  have m: "map task_id (sy_tasks s) = map task_id tasks0" using sync_invD(1) [OF assms(1)] .
  from map_eq_imp_length_eq [OF m] show l: "k < length tasks0" using assms(2) by simp
  have "task_id (sy_tasks s ! k) = task_id (tasks0 ! k)" using m l assms(2) by (metis nth_map)
  then show "sk_currency (sy_tasks s ! k) = sk_currency (tasks0 ! k)" by (simp add: task_id_def)
qed

lemma list_all_update:
  assumes "k < length xs" "P x" "\<And>j. j < length xs \<Longrightarrow> j \<noteq> k \<Longrightarrow> P (xs ! j)"
  shows "list_all P (xs[k := x])"
  using assms by (simp add: list_all_length nth_list_update)

lemma sync_inv_project:
  assumes "sync_inv st db0 tasks0 s" "k < length (sy_tasks s)" "sk_phase (sy_tasks s ! k) = Queued"
    and "active s < sn_concurrency st"
  shows "sync_inv st db0 tasks0 (set_task k Fetching s)"
proof -
  let ?u = "(sy_tasks s ! k)\<lparr>sk_phase := Fetching\<rparr>"
  have "settled_as st db0 (sy_db s) ?u"
    using sync_invD(3) [OF assms(1,2)] assms(3) by (simp add: settled_as_def)
  then have "list_all (settled_as st db0 (sy_db s)) ((sy_tasks s)[k := ?u])"
    using sync_invD(3) [OF assms(1)] by (intro list_all_update assms(2)) simp_all
  moreover have "active (set_task k Fetching s) \<le> sn_concurrency st"
    using tally_update [OF assms(2), of "\<lambda>t. of_bool (running (sk_phase t))" ?u] assms(3,4)
    by (simp add: active_def)
  ultimately show ?thesis
    using assms(1) map_task_id_update [OF assms(2)] by (simp add: sync_inv_def)
qed

text \<open>The other streams do not notice.\<close>

lemma advance_elsewhere:
  assumes "advance st c from p db = (p', db')" "phase_ok (fst c) p"
  shows "\<exists>t. db' = db\<lparr>fx_rates := t\<rparr>"
    and "db_ok db \<Longrightarrow> pg_divide_ok (sn_rt st) \<Longrightarrow> db_ok db'"
    and "\<not> R (fst c) NBU_SOURCE \<Longrightarrow> filter (\<lambda>f. R (f_currency f) (f_source f)) (fx_rates db') =
      filter (\<lambda>f. R (f_currency f) (f_source f)) (fx_rates db)"
    and "d \<noteq> fst c \<Longrightarrow> same_for d db' db"
proof -
  show a: "\<exists>t. db' = db\<lparr>fx_rates := t\<rparr>"
    using advance_effect(2) [OF assms]
  proof
    assume "db' = db"
    then have "db' = db\<lparr>fx_rates := fx_rates db\<rparr>" by simp
    then show ?thesis by blast
  qed (use upsert_chunk_Inr(1) in blast)
  show "db_ok db'" if "db_ok db" "pg_divide_ok (sn_rt st)"
    using advance_effect(2) [OF assms] upsert_chunk_Inr(2) that by blast
  have parts: "filter (\<lambda>f. R (f_currency f) (f_source f)) (fx_rates db') =
      filter (\<lambda>f. R (f_currency f) (f_source f)) (fx_rates db)" if "\<not> R (fst c) NBU_SOURCE" for R
    using advance_effect(2) [OF assms]
  proof
    assume "\<exists>rows i. of_currency (fst c) rows \<and> upsert_chunk (sn_rt st) NBU_SOURCE rows i db = Inr db'"
    then obtain rows i where r: "of_currency (fst c) rows" "upsert_chunk (sn_rt st) NBU_SOURCE rows i db = Inr db'"
      by blast
    show ?thesis by (rule upsert_chunk_Inr(3) [OF r(2,1), of R]) (rule that)
  qed simp
  then show "\<not> R (fst c) NBU_SOURCE \<Longrightarrow> filter (\<lambda>f. R (f_currency f) (f_source f)) (fx_rates db') =
      filter (\<lambda>f. R (f_currency f) (f_source f)) (fx_rates db)" .
  show "same_for d db' db" if "d \<noteq> fst c"
  proof -
    have "rows_of d db' = rows_of d db"
      unfolding rows_of_def using parts [of "\<lambda>cur source. source = NBU_SOURCE \<and> cur = d"] that by simp
    then show ?thesis using a by (auto simp: same_for_def)
  qed
qed

lemma sync_inv_proceed:
  assumes "sync_inv st db0 tasks0 s" "k < length (sy_tasks s)" "running (sk_phase (sy_tasks s ! k))"
    and "advance st (sk_currency (sy_tasks s ! k)) (sk_from (sy_tasks s ! k)) (sk_phase (sy_tasks s ! k)) (sy_db s) = (p, db')"
    and "pg_divide_ok (sn_rt st)" "distinct (map (\<lambda>t. fst (sk_currency t)) tasks0)"
  shows "sync_inv st db0 tasks0 ((set_task k p s)\<lparr>sy_db := db'\<rparr>)"
proof -
  let ?t = "sy_tasks s ! k"
  let ?u = "?t\<lparr>sk_phase := p\<rparr>"
  let ?c = "fst (sk_currency ?t)"
  note k = sync_invD(3) [OF assms(1,2)]
  then have ok: "phase_ok ?c (sk_phase ?t)" by (simp add: settled_as_def)
  note e = advance_elsewhere [OF assms(4) ok]
  have own: "settled_as st db0 db' ?u"
    using k advance_settle [OF assms(3,4)] advance_effect(1) [OF assms(4) ok]
    by (intro settled_asI [OF k]) (simp_all add: task_id_def)
  have "settled_as st db0 db' (sy_tasks s ! j)" if j: "j < length (sy_tasks s)" "j \<noteq> k" for j
  proof -
    let ?d = "fst (sk_currency (sy_tasks s ! j))"
    note h = sync_invD(3) [OF assms(1) j(1)]
    have "?d \<noteq> ?c"
      using task_of [OF assms(1) j(1)] task_of [OF assms(1,2)] assms(6) j(2)
      by (simp add: distinct_conv_nth)
    then have "same_for ?d db' (sy_db s)" by (rule e(4))
    then show ?thesis
      using h settle_inside [of "sk_currency (sy_tasks s ! j)" db' "sy_db s" "sk_phase (sy_tasks s ! j)" st
          "sk_from (sy_tasks s ! j)"]
      by (intro settled_asI [OF h]) (simp_all add: settled_as_def)
  qed
  with own have tasks: "list_all (settled_as st db0 db') ((sy_tasks s)[k := ?u])"
    by (intro list_all_update assms(2)) simp_all
  have act: "active ((set_task k p s)\<lparr>sy_db := db'\<rparr>) \<le> sn_concurrency st"
    using tally_update [OF assms(2), of "\<lambda>t. of_bool (running (sk_phase t))" ?u] assms(3)
      sync_invD(4) [OF assms(1)] by (cases "running p") (simp_all add: active_def)
  have "\<not> (NBU_SOURCE \<noteq> NBU_SOURCE \<or> ?c \<notin> synced_currencies tasks0)"
    using task_of [OF assms(1,2)] by (auto simp: synced_currencies_def)
  from e(3) [of "\<lambda>cur source. source \<noteq> NBU_SOURCE \<or> cur \<notin> synced_currencies tasks0", OF this]
  show ?thesis
    using assms(1) tasks act e(1) e(2) [OF sync_invD(2) [OF assms(1)] assms(5)] map_task_id_update [OF assms(2)]
    by (auto simp: sync_inv_def)
qed

lemma sync_inv_step:
  assumes "sync_step st s t" "sync_inv st db0 tasks0 s" "pg_divide_ok (sn_rt st)"
    and "distinct (map (\<lambda>t. fst (sk_currency t)) tasks0)"
  shows "sync_inv st db0 tasks0 t"
  using assms(1)
proof cases
  case (project k)
  then show ?thesis using sync_inv_project [OF assms(2)] by simp
next
  case (proceed k p db')
  then show ?thesis using sync_inv_proceed [OF assms(2) proceed(2-4) assms(3,4)] by simp
qed

text \<open>The start: the currencies of the table are distinct, and every stream is queued.\<close>

definition sync_start :: "db \<Rightarrow> sync_task list \<Rightarrow> sync_state" where
  "sync_start db tasks = \<lparr>sy_db = db, sy_tasks = tasks\<rparr>"

lemma quoted_distinct:
  assumes "db_ok db"
  shows "distinct (map fst (findQuotedCurrencies rt db))"
proof -
  let ?cs = "sort_key (\<lambda>c. pg_text_key rt (c_code c)) (filter (\<lambda>c. c_code c \<noteq> ''UAH'') (currencies db))"
  have "distinct (map c_code (currencies db))" using assms by (simp add: db_ok_def)
  then have "distinct (map c_code (filter (\<lambda>c. c_code c \<noteq> ''UAH'') (currencies db)))" by (rule distinct_map_filter)
  then have "distinct (map c_code ?cs)" by (simp add: distinct_map)
  then show ?thesis by (simp add: findQuotedCurrencies_def comp_def)
qed

lemma sync_setup_tasks:
  assumes "sync_setup rt env now db = Inr (to, tasks)"
  shows "map sk_currency tasks = findQuotedCurrencies rt db" "\<forall>t\<in>set tasks. sk_phase t = Queued"
  using assms by (auto simp: sync_setup_def Let_def comp_def)

lemma sync_inv_start:
  assumes "sync_setup rt env now db = Inr (to, tasks)" "db_ok db"
  shows "sync_inv st db tasks (sync_start db tasks)" "distinct (map (\<lambda>t. fst (sk_currency t)) tasks)"
proof -
  have "settled_as st db db t" if "t \<in> set tasks" for t
    using sync_setup_tasks(2) [OF assms(1)] that by (simp add: settled_as_def split: prod.split)
  moreover have "db = db\<lparr>fx_rates := fx_rates db\<rparr>" by simp
  then have "\<exists>t. db = db\<lparr>fx_rates := t\<rparr>" by blast
  moreover have "active (sync_start db tasks) = 0"
    using sync_setup_tasks(2) [OF assms(1)] by (simp add: active_def sync_start_def tally_def)
  ultimately show "sync_inv st db tasks (sync_start db tasks)"
    using assms(2) by (simp add: sync_inv_def sync_start_def list_all_iff)
  have "distinct (map fst (map sk_currency tasks))"
    using quoted_distinct [OF assms(2)] sync_setup_tasks(1) [OF assms(1)] by simp
  then show "distinct (map (\<lambda>t. fst (sk_currency t)) tasks)" by (simp add: comp_def)
qed

interpretation fx_sync: step_system
  "\<lambda>s. pg_divide_ok (sn_rt st) \<and> db_ok db \<and> sync_setup rt env now db = Inr (to, tasks) \<and> s = sync_start db tasks"
  "sync_step st"
  "\<lambda>s. sync_inv st db tasks s \<and> pg_divide_ok (sn_rt st) \<and> distinct (map (\<lambda>t. fst (sk_currency t)) tasks)"
  by unfold_locales (use sync_inv_start sync_inv_step in blast)+

section \<open>Every run ends\<close>

text \<open>How many steps a stream has left.\<close>

fun sync_left :: "sync_setting \<Rightarrow> quoted \<Rightarrow> string \<Rightarrow> sync_phase \<Rightarrow> nat" where
  "sync_left st c from (Storing rows i) = length rows - i + 1"
| "sync_left st c from Fetching =
     (case fetchRates (sn_lib st) (sn_env st) (sn_network st) c from (sn_to st) of
        Inl e \<Rightarrow> 1 | Inr rows \<Rightarrow> length rows + 2)"
| "sync_left st c from Queued =
     (case fetchRates (sn_lib st) (sn_env st) (sn_network st) c from (sn_to st) of
        Inl e \<Rightarrow> 2 | Inr rows \<Rightarrow> length rows + 3)"
| "sync_left st c from p = 0"

definition task_left :: "sync_setting \<Rightarrow> sync_task \<Rightarrow> nat" where
  "task_left st t = sync_left st (sk_currency t) (sk_from t) (sk_phase t)"

lemma advance_left: "running p \<Longrightarrow> advance st c from p db = (p', db') \<Longrightarrow> sync_left st c from p' < sync_left st c from p"
  by (cases p) (auto simp: UPSERT_CHUNK_def split: sum.splits if_splits)

lemma sync_step_left:
  assumes "sync_step st s t"
  shows "tally (task_left st) (sy_tasks t) < tally (task_left st) (sy_tasks s)"
  using assms
proof cases
  case (project k)
  then show ?thesis
    using tally_update [OF project(2), of "task_left st" "(sy_tasks s ! k)\<lparr>sk_phase := Fetching\<rparr>"]
    by (simp add: task_left_def split: sum.splits)
next
  case (proceed k p db')
  then show ?thesis
    using tally_update [OF proceed(2), of "task_left st" "(sy_tasks s ! k)\<lparr>sk_phase := p\<rparr>"]
      advance_left [OF proceed(3,4)]
    by (simp add: task_left_def)
qed

lemma sync_steps_left:
  "(sync_step st ^^ n) s t \<Longrightarrow> n + tally (task_left st) (sy_tasks t) \<le> tally (task_left st) (sy_tasks s)"
proof (induction n arbitrary: t)
  case (Suc n)
  then obtain u where "(sync_step st ^^ n) s u" "sync_step st u t" by auto
  with Suc.IH sync_step_left show ?case by fastforce
qed simp

lemma sync_progress:
  assumes "\<not> all_settled s" "0 < sn_concurrency st"
  shows "\<exists>t. sync_step st s t"
proof (cases "\<exists>k<length (sy_tasks s). running (sk_phase (sy_tasks s ! k))")
  case True
  then obtain k where k: "k < length (sy_tasks s)" "running (sk_phase (sy_tasks s ! k))" by blast
  obtain p db' where "advance st (sk_currency (sy_tasks s ! k)) (sk_from (sy_tasks s ! k))
      (sk_phase (sy_tasks s ! k)) (sy_db s) = (p, db')" by fastforce
  with k show ?thesis by (blast intro: sync_step.proceed)
next
  case False
  let ?q = "\<lambda>k. k < length (sy_tasks s) \<and> sk_phase (sy_tasks s ! k) = Queued"
  have "\<exists>k. ?q k" using assms(1) False by (auto simp: all_settled_def in_set_conv_nth)
  then obtain k where k: "?q k" "\<forall>j<k. \<not> ?q j" using exists_least_iff [of ?q] by blast
  have first: "\<forall>j<k. sk_phase (sy_tasks s ! j) \<noteq> Queued"
    using k order.strict_trans [of _ k "length (sy_tasks s)"] by blast
  have "\<forall>t\<in>set (sy_tasks s). \<not> running (sk_phase t)" using False by (auto simp: in_set_conv_nth)
  then have "active s = 0" by (simp add: active_def tally_def)
  then have "sync_step st s (set_task k Fetching s)"
    using k(1) first assms(2) by (intro sync_step.project) simp_all
  then show ?thesis ..
qed

lemma sync_can_finish:
  assumes "0 < sn_concurrency st"
  shows "\<exists>t. (sync_step st)\<^sup>*\<^sup>* s t \<and> all_settled t"
proof (induction "tally (task_left st) (sy_tasks s)" arbitrary: s rule: less_induct)
  case less
  show ?case
  proof (cases "all_settled s")
    case False
    then obtain u where u: "sync_step st s u" using sync_progress [OF _ assms] by blast
    then show ?thesis using less [OF sync_step_left [OF u]] by (meson converse_rtranclp_into_rtranclp)
  qed blast
qed

lemma concurrency_pos: "0 < sn_concurrency (sync_setting_of rt lib env network cpus to)"
  by (simp add: sync_setting_of_def defaultConcurrency_def)

section \<open>Properties\<close>

lemma sync_run_inv:
  assumes "sync_setup rt env now db = Inr (to, tasks)" "db_ok db" "pg_divide_ok (sn_rt st)"
    and "(sync_step st)\<^sup>*\<^sup>* (sync_start db tasks) s"
  shows "sync_inv st db tasks s"
  using fx_sync.inv_steps [OF assms(4), of db tasks] sync_inv_start [OF assms(1,2)] assms(3) by blast

text \<open>
  (C31) The parallel streams do not interfere. In every state of a synchronisation, whatever the bank
  answers and however the streams interleave: the constraints hold, no more streams are open than
  the concurrency allows, nothing but \<open>fx_rate\<close> changes and there only rows of the source \<open>nbu\<close> and
  of the quoted currencies; and a stream that has ended, in success or failure, has ended exactly as
  \<open>syncCurrency\<close> alone ends on the database at the start, with exactly its rows.
\<close>

theorem fx_sync_isolated:
  assumes "db_ok db" "pg_divide_ok rt" "sync_setup rt env now db = Inr (to, tasks)"
    and "st = sync_setting_of rt lib env network cpus to"
    and "(sync_step st)\<^sup>*\<^sup>* (sync_start db tasks) s"
  shows "db_ok (sy_db s) \<and> active s \<le> defaultConcurrency cpus env \<and>
    (\<exists>t. sy_db s = db\<lparr>fx_rates := t\<rparr>) \<and>
    filter (\<lambda>f. f_source f \<noteq> NBU_SOURCE \<or> f_currency f \<notin> fst ` set (findQuotedCurrencies rt db)) (fx_rates (sy_db s)) =
      filter (\<lambda>f. f_source f \<noteq> NBU_SOURCE \<or> f_currency f \<notin> fst ` set (findQuotedCurrencies rt db)) (fx_rates db) \<and>
    (\<forall>t\<in>set (sy_tasks s). sk_phase t = Queued \<or> running (sk_phase t) \<or>
      (\<exists>d. syncCurrency st (sk_currency t) (sk_from t) db = (sk_phase t, d) \<and>
        rows_of (fst (sk_currency t)) (sy_db s) = rows_of (fst (sk_currency t)) d))"
proof -
  have st: "sn_rt st = rt" "sn_concurrency st = defaultConcurrency cpus env"
    using assms(4) by (simp_all add: sync_setting_of_def)
  have inv: "sync_inv st db tasks s" using sync_run_inv [OF assms(3,1) _ assms(5)] assms(2) st(1) by simp
  have codes: "synced_currencies tasks = fst ` set (findQuotedCurrencies rt db)"
    using sync_setup_tasks(1) [OF assms(3)] unfolding synced_currencies_def by (metis image_image set_map)
  have "\<exists>d. syncCurrency st (sk_currency t) (sk_from t) db = (sk_phase t, d) \<and>
      rows_of (fst (sk_currency t)) (sy_db s) = rows_of (fst (sk_currency t)) d"
    if t: "t \<in> set (sy_tasks s)" "sk_phase t \<noteq> Queued" "\<not> running (sk_phase t)" for t
  proof -
    have "settled_as st db (sy_db s) t" using inv t(1) by (simp add: sync_inv_def list_all_iff)
    moreover have "settle_sync st (sk_currency t) (sk_from t) (sk_phase t) (sy_db s) = (sk_phase t, sy_db s)"
      using t(2,3) by (cases "sk_phase t") simp_all
    ultimately show ?thesis by (auto simp: settled_as_def same_for_def split: prod.splits)
  qed
  then show ?thesis using inv st(2) codes by (auto simp: sync_inv_def)
qed

lemma sync_queries_Inr: "sync_queries fails rt env now db = Inr x \<Longrightarrow> sync_setup rt env now db = Inr x"
  by (auto simp: sync_queries_def bindE_def split: sum.splits option.splits)

lemma bootstrap_outcome:
  assumes "bootstrap rt lib env network cpus now fails db (db', cache)" "db_ok db" "pg_divide_ok rt"
  shows "db_ok db'" "cache = loaded_cache fails rt db'"
proof -
  have "db_ok db' \<and> cache = loaded_cache fails rt db'"
    using assms(1)
  proof cases
    case (sync_ran to tasks s)
    have "sn_rt (sync_setting_of rt lib env network cpus to) = rt" by (simp add: sync_setting_of_def)
    then have "sync_inv (sync_setting_of rt lib env network cpus to) db tasks s"
      using sync_run_inv [OF sync_queries_Inr [OF sync_ran(4)] assms(2)] sync_ran(5) assms(3) by (simp add: sync_start_def)
    then show ?thesis using sync_ran(1,2) by (simp add: sync_inv_def)
  qed (use assms(2) in simp_all)
  then show "db_ok db'" "cache = loaded_cache fails rt db'" by simp_all
qed

text \<open>With an empty cache every lookup goes to the table.\<close>

lemma empty_cache_lookup:
  "service_findLatest rt [] currency on db = bindE (fx_findLatest rt currency on db) (\<lambda>f. Inr (map_option toCached f))"
  by (simp add: service_findLatest_def cache_findLatest_def js_map_get_def)

text \<open>
  (C32) The bootstrap always completes, whatever the bank answers and whichever of its queries fail. A
  synchronisation makes a bounded number of steps, has at no time more open streams than
  \<open>defaultConcurrency\<close> allows, and stops only when every stream has ended; so
  \<open>onApplicationBootstrap\<close> finishes. The database that it leaves satisfies the constraints, and
  every lookup through the cache that it leaves answers as the table does, provided that every stored
  rate has a date with a year of four digits (\<open>rate_days_ok\<close>) and so has the day asked for
  (\<open>iso_range\<close>); when the load of the cache failed the lookups go to the table, without that proviso.
\<close>

theorem fx_bootstrap_total:
  assumes "pg_ok rt" "pg_divide_ok rt" "db_ok db"
  shows "(\<exists>out. bootstrap rt lib env network cpus now fails db out) \<and>
    (\<forall>to tasks n s. let st = sync_setting_of rt lib env network cpus to in
       sync_setup rt env now db = Inr (to, tasks) \<longrightarrow> (sync_step st ^^ n) (sync_start db tasks) s \<longrightarrow>
         n \<le> tally (task_left st) tasks \<and> active s \<le> defaultConcurrency cpus env \<and>
         (all_settled s \<or> (\<exists>t. sync_step st s t))) \<and>
    (\<forall>db' cache on. bootstrap rt lib env network cpus now fails db (db', cache) \<longrightarrow> db_ok db' \<and>
       (qf_effective fails \<noteq> None \<or> rate_days_ok db' \<and> iso_range on \<longrightarrow>
          service_findLatest rt cache currency on db' =
            bindE (fx_findLatest rt currency on db') (\<lambda>f. Inr (map_option toCached f))))"
proof (intro conjI)
  show "\<exists>out. bootstrap rt lib env network cpus now fails db out"
  proof (cases "config_text env ''FX_SYNC_ON_START'' = ''1''")
    case True
    show ?thesis
    proof (cases "sync_queries fails rt env now db")
      case (Inr r)
      obtain to tasks where "r = (to, tasks)" by fastforce
      then show ?thesis
        using sync_can_finish [OF concurrency_pos, of rt lib env network cpus to "\<lparr>sy_db = db, sy_tasks = tasks\<rparr>"]
          bootstrap.sync_ran [OF True] Inr by blast
    qed (use bootstrap.sync_threw [OF True] in blast)
  qed (use bootstrap.sync_off in blast)
next
  have "n \<le> tally (task_left st) tasks \<and> active s \<le> defaultConcurrency cpus env \<and> (all_settled s \<or> (\<exists>t. sync_step st s t))"
    if "st = sync_setting_of rt lib env network cpus to" "sync_setup rt env now db = Inr (to, tasks)"
      "(sync_step st ^^ n) (sync_start db tasks) s" for st to tasks n s
  proof -
    have st: "sn_rt st = rt" "sn_concurrency st = defaultConcurrency cpus env" "0 < sn_concurrency st"
      using concurrency_pos by (simp_all add: that(1)) (simp_all add: sync_setting_of_def)
    have "n \<le> tally (task_left st) tasks" using sync_steps_left [OF that(3)] by (simp add: sync_start_def)
    moreover have "sync_inv st db tasks s"
      using sync_run_inv [OF that(2) assms(3) _ relpowp_imp_rtranclp [OF that(3)]] assms(2) st(1) by simp
    then have "active s \<le> defaultConcurrency cpus env" using st(2) by (simp add: sync_inv_def)
    ultimately show ?thesis using sync_progress [OF _ st(3)] by blast
  qed
  then show "\<forall>to tasks n s. let st = sync_setting_of rt lib env network cpus to in
       sync_setup rt env now db = Inr (to, tasks) \<longrightarrow> (sync_step st ^^ n) (sync_start db tasks) s \<longrightarrow>
         n \<le> tally (task_left st) tasks \<and> active s \<le> defaultConcurrency cpus env \<and>
         (all_settled s \<or> (\<exists>t. sync_step st s t))"
    by (simp add: Let_def)
next
  have "db_ok db' \<and> (qf_effective fails \<noteq> None \<or> rate_days_ok db' \<and> iso_range on \<longrightarrow>
      service_findLatest rt cache currency on db' =
        bindE (fx_findLatest rt currency on db') (\<lambda>f. Inr (map_option toCached f)))"
    if b: "bootstrap rt lib env network cpus now fails db (db', cache)" for db' cache on
  proof -
    note out = bootstrap_outcome [OF b assms(3,2)]
    have "distinct (map fx_key (fx_rates db'))" using out(1) db_ok_distinct(5) by blast
    then show ?thesis
      using out service_findLatest_table [OF assms(1), of db' db' on "[]"] empty_cache_lookup
      by (auto simp: loaded_cache_def later_rates_def split: option.splits)
  qed
  then show "\<forall>db' cache on. bootstrap rt lib env network cpus now fails db (db', cache) \<longrightarrow> db_ok db' \<and>
       (qf_effective fails \<noteq> None \<or> rate_days_ok db' \<and> iso_range on \<longrightarrow>
          service_findLatest rt cache currency on db' =
            bindE (fx_findLatest rt currency on db') (\<lambda>f. Inr (map_option toCached f)))"
    by blast
qed

section \<open>An example\<close>

text \<open>
  Two quoted currencies: for the dollar the bank sends a corrected rate of the last stored day, for
  the euro it is unavailable.
\<close>

definition two_currencies :: db where
  "two_currencies = example_db\<lparr>currencies := currencies example_db @
     [\<lparr>c_code = ''EUR'', c_numeric_code = 978, c_exponent = 2, c_name = ''Euro''\<rparr>]\<rparr>"

definition example_env :: Env where
  "example_env = [(''FX_SYNC_ON_START'', Env_text ''1''), (''FX_BACKFILL_FROM'', Env_text ''1999-01-01''),
     (''DB_POOL_MAX'', Env_number 10), (''NBU_BASE_URL'', Env_text ''https://bank.gov.ua''),
     (''NBU_TIMEOUT_MS'', Env_number 30000)]"

definition example_network :: network where
  "example_network q =
     (if js_map_get (nq_params q) ''valcode'' = Some ''usd''
      then Inr \<lparr>np_status = 200, np_json = Inr (JArr [JObj [(''exchangedate'', JStr ''02.01.2026''),
        (''r030'', JNum ''840''), (''cc'', JStr ''USD''), (''rate'', JNum ''1''), (''units'', JNum ''1'')]])\<rparr>
      else Inr \<lparr>np_status = 503, np_json = Inr JNull\<rparr>)"

definition example_nbu_lib :: nbu_lib where
  "example_nbu_lib = \<lparr>nl_zod = own_zod, nl_positive = Some, nl_zod_error = (\<lambda>body. plain_error ''ZodError'')\<rparr>"

definition example_sync :: sync_setting where
  "example_sync = sync_setting_of canonical_runtime example_nbu_lib example_env example_network 8 ''2026-01-04''"

definition example_tasks :: "sync_task list" where
  "example_tasks = [\<lparr>sk_currency = (''EUR'', 978), sk_from = ''1999-01-01'', sk_phase = Queued\<rparr>,
     \<lparr>sk_currency = (''USD'', 840), sk_from = ''2026-01-02'', sk_phase = Queued\<rparr>]"

lemma two_currencies_ok: "db_ok two_currencies"
  by code_simp

lemma example_days:
  "date_text 20457 = ''2026-01-04''" "date_text 20455 = ''2026-01-02''"
  by code_simp+

lemma example_to: "addDays fb (toDateOnly 1767398400000) 1 = Inr ''2026-01-04''"
proof -
  have "iso_day_range 20456" "iso_day_range 20457" "iso_range 1767398400000" by code_simp+
  then show ?thesis
    using addDays_date_text [of 20456 1 fb] example_days(1) by (simp add: toDateOnly_date_text ms_per_day_def)
qed

lemma example_last:
  "js_map_get (findLastDates NBU_SOURCE two_currencies) ''USD'' = Some ''2026-01-02''"
  "js_map_get (findLastDates NBU_SOURCE two_currencies) ''EUR'' = None"
  by (simp_all add: findLastDates_def two_currencies_def example_db_def usd_rate_def NBU_SOURCE_def
      js_uniq_def js_map_get_of example_days del: set_filter)

lemma example_quoted: "findQuotedCurrencies canonical_runtime two_currencies = [(''EUR'', 978), (''USD'', 840)]"
  by code_simp

lemma example_setup:
  "sync_setup canonical_runtime example_env 1767398400000 two_currencies = Inr (''2026-01-04'', example_tasks)"
  using example_last example_quoted
  by (simp add: sync_setup_def example_to example_tasks_def config_text_def example_env_def js_map_get_def)

lemma example_alone:
  "rows_of ''USD'' (snd (syncCurrency example_sync (''USD'', 840) ''2026-01-02'' two_currencies)) =
     [usd_rate 20454 ''nbu'' 423456000000, usd_rate 20455 ''nbu'' 10000000000]"
  by code_simp

lemma example_sync_run: "\<exists>s. (sync_step example_sync)\<^sup>*\<^sup>* (sync_start two_currencies example_tasks) s \<and> all_settled s"
  by (rule sync_can_finish) (simp add: example_sync_def concurrency_pos)

theorem fx_sync_isolated_witness:
  "\<exists>s. (sync_step example_sync)\<^sup>*\<^sup>* (sync_start two_currencies example_tasks) s \<and> all_settled s \<and> db_ok (sy_db s) \<and>
     (\<forall>t\<in>set (sy_tasks s). sk_currency t = (''USD'', 840) \<and> sk_from t = ''2026-01-02'' \<longrightarrow>
        rows_of ''USD'' (sy_db s) = [usd_rate 20454 ''nbu'' 423456000000, usd_rate 20455 ''nbu'' 10000000000])"
proof -
  obtain s where s: "(sync_step example_sync)\<^sup>*\<^sup>* (sync_start two_currencies example_tasks) s" "all_settled s"
    using example_sync_run by blast
  note p = fx_sync_isolated [OF two_currencies_ok canonical_divide_ok example_setup example_sync_def s(1)]
  have "rows_of ''USD'' (sy_db s) = [usd_rate 20454 ''nbu'' 423456000000, usd_rate 20455 ''nbu'' 10000000000]"
    if t: "t \<in> set (sy_tasks s)" "sk_currency t = (''USD'', 840)" "sk_from t = ''2026-01-02''" for t
  proof -
    have "sk_phase t \<noteq> Queued" "\<not> running (sk_phase t)" using s(2) t(1) by (simp_all add: all_settled_def)
    then obtain d where "syncCurrency example_sync (''USD'', 840) ''2026-01-02'' two_currencies = (sk_phase t, d)"
        "rows_of ''USD'' (sy_db s) = rows_of ''USD'' d"
      using p t by fastforce
    then show ?thesis using example_alone by simp
  qed
  then show ?thesis using s p by blast
qed

theorem fx_bootstrap_total_witness:
  "\<exists>out. bootstrap canonical_runtime example_nbu_lib example_env example_network 8 1767398400000
     \<lparr>qf_quoted = None, qf_lastDates = None, qf_effective = Some (db_error ''57P01'' ''terminating connection'')\<rparr> two_currencies out"
  using fx_bootstrap_total [OF canonical_runtime_ok canonical_divide_ok two_currencies_ok] by blast

end
