(* ===== verification/Currencies.thy ===== *)
theory Currencies
  imports Database "HOL-Library.Multiset"
begin

text \<open>
  The currency lookup (\<open>currencies/currencies.repository.ts\<close>, \<open>currencies.service.ts\<close>,
  \<open>dto/currency-code-param.dto.ts\<close>): all rows of the table by code, and one row.
\<close>

section \<open>Repository and service\<close>

record CurrencyInfo =
  cu_code :: string
  cu_numeric_code :: int
  cu_exponent :: int
  cu_name :: string

definition currency_toDomain :: "currency_row \<Rightarrow> CurrencyInfo" where
  "currency_toDomain r = \<lparr>cu_code = c_code r, cu_numeric_code = c_numeric_code r,
     cu_exponent = c_exponent r, cu_name = c_name r\<rparr>"

definition currencies_findAll :: "runtime \<Rightarrow> (db, CurrencyInfo list) svc" where
  "currencies_findAll rt =
     readS (\<lambda>db. map currency_toDomain (sort_key (\<lambda>r. pg_text_key rt (c_code r)) (currencies db)))"

definition currencies_findByCode :: "string \<Rightarrow> (db, CurrencyInfo option) svc" where
  "currencies_findByCode code =
     bindS (liftS (bind_text code)) (\<lambda>c.
       readS (\<lambda>db. map_option currency_toDomain (List.find (\<lambda>r. c_code r = c) (currencies db))))"

definition currencies_list :: "runtime \<Rightarrow> (db, CurrencyInfo list) svc" where
  "currencies_list rt = currencies_findAll rt"

definition currencies_getByCode :: "string \<Rightarrow> (db, CurrencyInfo) svc" where
  "currencies_getByCode code =
     bindS (currencies_findByCode code) (\<lambda>found.
       case found of
         None \<Rightarrow> throwS (problem 404 ''currency-not-found'' (''no currency with code '' @ code))
       | Some c \<Rightarrow> returnS c)"

text \<open>\<open>/^[A-Z]{3}$/\<close>\<close>

definition currency_code_param_ok :: "string \<Rightarrow> bool" where
  "currency_code_param_ok code \<longleftrightarrow>
     length code = 3 \<and> list_all (\<lambda>c. 65 \<le> (of_char c :: nat) \<and> (of_char c :: nat) \<le> 90) code"

section \<open>Lemmas\<close>

lemma capital_not_nul: "(65::nat) \<le> of_char c \<Longrightarrow> c \<noteq> CHR 0x00"
  by auto

lemma find_map: "List.find P (map f xs) = map_option f (List.find (\<lambda>x. P (f x)) xs)"
  by (induction xs) simp_all

lemma bind_text_code: "currency_code_param_ok code \<Longrightarrow> bind_text code = Inr code"
  by (auto simp: currency_code_param_ok_def bind_text_def list_all_iff dest: capital_not_nul)

text \<open>
  On a table with its constraints the list is every row once in order of the code; every row that is
  listed is read back by its code, and every code that is not listed is a 404. Nothing is written.
\<close>

lemma currencies_lookup:
  assumes "db_ok db" "currency_code_param_ok code"
  shows "\<exists>cs. currencies_list rt db = (Inr cs, db) \<and>
    mset cs = image_mset currency_toDomain (mset (currencies db)) \<and>
    sorted (map (\<lambda>c. pg_text_key rt (cu_code c)) cs) \<and>
    currencies_getByCode code db =
      (case List.find (\<lambda>c. cu_code c = code) cs of
         Some c \<Rightarrow> Inr c
       | None \<Rightarrow> Inl (problem 404 ''currency-not-found'' (''no currency with code '' @ code)), db)"
proof (intro exI conjI)
  let ?rows = "sort_key (\<lambda>r. pg_text_key rt (c_code r)) (currencies db)"
  let ?cs = "map currency_toDomain ?rows"
  show "currencies_list rt db = (Inr ?cs, db)"
    by (simp add: currencies_list_def currencies_findAll_def svc_simps)
  show "mset ?cs = image_mset currency_toDomain (mset (currencies db))" by simp
  show "sorted (map (\<lambda>c. pg_text_key rt (cu_code c)) ?cs)"
    by (simp add: comp_def currency_toDomain_def)
  have d: "distinct (map c_code (currencies db))" using assms(1) by (simp add: db_ok_def)
  have "distinct (map c_code ?rows)"
    using d by (metis distinct_map distinct_sort set_sort)
  then have same: "List.find (\<lambda>r. c_code r = code) ?rows = List.find (\<lambda>r. c_code r = code) (currencies db)"
  proof (cases "List.find (\<lambda>r. c_code r = code) (currencies db)")
    case (Some r)
    then have "r \<in> set ?rows" "c_code r = code" by (auto dest: find_SomeD)
    then show ?thesis using find_key [OF \<open>distinct (map c_code ?rows)\<close>] Some by metis
  next
    case None
    then have "code \<notin> c_code ` set (currencies db)" unfolding find_key_None .
    then have "List.find (\<lambda>r. c_code r = code) ?rows = None" unfolding find_key_None by simp
    then show ?thesis unfolding None .
  qed
  have "List.find (\<lambda>c. cu_code c = code) ?cs = map_option currency_toDomain (List.find (\<lambda>r. c_code r = code) ?rows)"
    by (simp add: find_map currency_toDomain_def)
  then show "currencies_getByCode code db =
      (case List.find (\<lambda>c. cu_code c = code) ?cs of
         Some c \<Rightarrow> Inr c
       | None \<Rightarrow> Inl (problem 404 ''currency-not-found'' (''no currency with code '' @ code)), db)"
    using same
    by (simp add: currencies_getByCode_def currencies_findByCode_def bind_text_code [OF assms(2)] svc_simps
        split: option.split)
qed

end
