(* ===== verification/Health.thy ===== *)
theory Health
  imports Js_Number Env
begin

text \<open>
  The health probes (\<open>health/health.service.ts\<close>): liveness from the process alone, readiness from one
  query. The clocks, the pool and the outcome of the query are arguments; doubles are rationals.
\<close>

record HealthDto =
  hd_status :: string
  hd_uptime_seconds :: rat
  hd_version :: string
  hd_node_env :: string

definition liveness :: "Env \<Rightarrow> string \<Rightarrow> rat \<Rightarrow> HealthDto" where
  "liveness env version uptime =
     \<lparr>hd_status = ''ok'', hd_uptime_seconds = of_int (Math_round (uptime * 1000)) / 1000,
      hd_version = version, hd_node_env = config_text env ''NODE_ENV''\<rparr>"

record DbHealthDto =
  dh_status :: string
  dh_latency_ms :: rat
  dh_now :: string
  dh_probe_rows :: int
  dh_pool_total :: int
  dh_pool_idle :: int

text \<open>The query gives the time and the number of probe rows, or the driver's error.\<close>

definition health_database ::
  "exn + (millis \<times> int) \<Rightarrow> int \<Rightarrow> int \<times> int \<Rightarrow> exn + DbHealthDto" where
  "health_database query latencyNs pool =
     (case query of
        Inl error \<Rightarrow> Inl (problem 503 ''db-unavailable'' ''The database is unavailable'')
      | Inr (now, probe_rows) \<Rightarrow>
          Inr \<lparr>dh_status = ''ok'', dh_latency_ms = of_int (Math_round (of_int latencyNs / 1000)) / 1000,
               dh_now = toISOString now, dh_probe_rows = probe_rows,
               dh_pool_total = fst pool, dh_pool_idle = snd pool\<rparr>)"

text \<open>Whatever the driver reports, the client sees the same problem: nothing of it leaks.\<close>

lemma health_database_hides: "health_database (Inl e) latency pool = health_database (Inl e') latency' pool'"
  by (simp add: health_database_def)

text \<open>The reported times are within half a thousandth of the measured ones.\<close>

lemma liveness_uptime: "\<bar>hd_uptime_seconds (liveness env version uptime) - uptime\<bar> \<le> 1 / 2000"
  using Math_round_error [of "uptime * 1000"] by (simp add: liveness_def abs_le_iff field_simps)

end
