(* ===== verification/Api.thy ===== *)
theory Api
  imports Idempotency Auth Transactions Currencies Health
begin

text \<open>
  The HTTP surface (\<open>create-app.ts\<close>, \<open>app.module.ts\<close> and the controllers of accounts, transactions,
  currencies, exchange rates and health): the bodies on the wire, one endpoint per controller method,
  and the pipeline that every request goes through: the OpenAPI request validator, the guards, the
  idempotency interceptor, the validation pipe with the handler, the OpenAPI response validator, the
  problem filter and the finish event.
\<close>

section \<open>Bodies on the wire\<close>

definition opt_json :: "('a \<Rightarrow> json) \<Rightarrow> 'a option \<Rightarrow> json" where
  "opt_json f v = (case v of None \<Rightarrow> JNull | Some x \<Rightarrow> f x)"

definition num_json :: "int \<Rightarrow> json" where
  "num_json x = JNum (int_text x)"

definition account_json :: "Account \<Rightarrow> json" where
  "account_json a = JObj
     [(''id'', JStr (acc_id a)), (''name'', JStr (acc_name a)), (''type'', JStr (account_type_text (acc_type a))),
      (''currency'', JStr (acc_currency a)), (''created_at'', JStr (acc_created_at a)),
      (''balance_cents'', num_json (acc_balance_cents a))]"

text \<open>The amount stands under one of its two names, where the spread put it.\<close>

definition transaction_json :: "TransactionResponse \<Rightarrow> json" where
  "transaction_json t = JObj
     ([(''id'', JStr (tr_id t)), (''account_id'', JStr (tr_account_id t)), (''type'', JStr (type_text (tr_type t)))]
      @ (case tr_amountCents t of Some x \<Rightarrow> [(''amountCents'', num_json x)] | None \<Rightarrow> [])
      @ (case tr_amount_cents t of Some x \<Rightarrow> [(''amount_cents'', num_json x)] | None \<Rightarrow> [])
      @ [(''currency'', JStr (tr_currency t)), (''created_at'', JStr (tr_created_at t)),
         (''booked_at'', JStr (tr_booked_at t)), (''description'', opt_json JStr (tr_description t)),
         (''quantity_micro'', opt_json num_json (tr_quantity_micro t)),
         (''instrument_symbol'', opt_json JStr (tr_instrument_symbol t))])"

definition page_json :: "('a \<Rightarrow> json) \<Rightarrow> 'a list \<times> string option \<Rightarrow> json" where
  "page_json f page = JObj
     [(''items'', JArr (map f (fst page))), (''next_cursor'', opt_json JStr (snd page))]"

definition batch_json :: "TransactionResponse list \<Rightarrow> json" where
  "batch_json ts = JObj [(''transactions'', JArr (map transaction_json ts))]"

definition currency_json :: "CurrencyInfo \<Rightarrow> json" where
  "currency_json c = JObj
     [(''code'', JStr (cu_code c)), (''numeric_code'', num_json (cu_numeric_code c)),
      (''exponent'', num_json (cu_exponent c)), (''name'', JStr (cu_name c))]"

definition fx_rate_json :: "FxRateDto \<Rightarrow> json" where
  "fx_rate_json r = JObj
     [(''currency'', JStr (fd_currency r)), (''rate'', JStr (fd_rate r)),
      (''rate_date'', JStr (fd_rate_date r)), (''source'', JStr (fd_source r))]"

definition health_json :: "(rat \<Rightarrow> string) \<Rightarrow> HealthDto \<Rightarrow> json" where
  "health_json number_text h = JObj
     [(''status'', JStr (hd_status h)), (''uptime_seconds'', JNum (number_text (hd_uptime_seconds h))),
      (''version'', JStr (hd_version h)), (''node_env'', JStr (hd_node_env h))]"

definition db_health_json :: "(rat \<Rightarrow> string) \<Rightarrow> DbHealthDto \<Rightarrow> json" where
  "db_health_json number_text h = JObj
     [(''status'', JStr (dh_status h)), (''latency_ms'', JNum (number_text (dh_latency_ms h))),
      (''now'', JStr (dh_now h)), (''probe_rows'', num_json (dh_probe_rows h)),
      (''pool_total'', num_json (dh_pool_total h)), (''pool_idle'', num_json (dh_pool_idle h))]"

section \<open>Requests, replies, endpoints\<close>

text \<open>
  A request with the clock at its arrival and at its finish, and the uuids drawn for it. The measured
  values of the health probes belong to the request too.
\<close>

type_synonym headers = "(string \<times> string) list"

record request =
  rq_method :: string
  rq_url :: string
  rq_params :: "(string, string) js_map"
  rq_query :: "(string, string) js_map"
  rq_authorization :: "string option"
  rq_key :: "string option"
  rq_body :: "json option"
  rq_now :: millis
  rq_done :: millis
  rq_fresh :: "nat \<Rightarrow> uuid"
  rq_uptime :: rat
  rq_probe :: "exn + (millis \<times> int)"
  rq_latencyNs :: int
  rq_pool :: "int \<times> int"

record reply =
  ry_message :: http_reply
  ry_headers :: headers

text \<open>
  The libraries of the surface: the validators of class-validator, the conversions of
  class-transformer, the OpenAPI validators and the text of a double.
\<close>

record http_lib =
  hl_isUUID4 :: "string \<Rightarrow> bool"
  hl_isISO8601 :: "string \<Rightarrow> bool"
  hl_integer :: "string \<Rightarrow> int option"
  hl_account :: "json \<Rightarrow> CreateAccountDto option"
  hl_entries :: "json \<Rightarrow> TransactionEntryDto list option"
  hl_messages :: "request \<Rightarrow> string list"
  hl_request :: "request \<Rightarrow> exn option"
  hl_response :: "string \<Rightarrow> nat \<Rightarrow> json option \<Rightarrow> exn option"
  hl_number_text :: "rat \<Rightarrow> string"

record api =
  ap_rt :: runtime
  ap_env :: Env
  ap_cache :: fx_cache
  ap_auth :: auth_lib
  ap_tokens :: token_config
  ap_passport :: "millis \<Rightarrow> passport"
  ap_sha256 :: "string \<Rightarrow> string"
  ap_http :: http_lib
  ap_version :: string

text \<open>\<open>TransactionsService\<close> reads the drift flag once, in its constructor.\<close>

definition drift :: "api \<Rightarrow> bool" where
  "drift a \<longleftrightarrow> config_text (ap_env a) ''DRIFT'' = ''1''"

text \<open>
  An endpoint: the metadata of its decorators (\<open>@Public\<close>, \<open>@Roles\<close>, \<open>@HttpCode\<close>, \<open>@Header\<close>) and its
  handler with the validation pipe, from the request and the current user to the headers that it
  sets, its result and the database.
\<close>

type_synonym handler =
  "request \<Rightarrow> AuthUser option \<Rightarrow> db \<Rightarrow> headers \<times> (exn + json option) \<times> db"

record endpoint =
  ep_route :: route
  ep_status :: nat
  ep_headers :: headers
  ep_handler :: handler

definition protected_route :: "Role list option \<Rightarrow> route" where
  "protected_route roles = \<lparr>ro_public_handler = None, ro_public_class = None,
     ro_roles_handler = roles, ro_roles_class = None\<rparr>"

definition public_route :: route where
  "public_route = \<lparr>ro_public_handler = None, ro_public_class = Some True,
     ro_roles_handler = None, ro_roles_class = None\<rparr>"

definition bad_request :: "api \<Rightarrow> request \<Rightarrow> exn" where
  "bad_request a req = HttpException 400 (RespMessageList (hl_messages (ap_http a) req)) ''Bad Request Exception''"

definition answer :: "('a \<Rightarrow> headers) \<Rightarrow> ('a \<Rightarrow> json) \<Rightarrow> (db, 'a) svc \<Rightarrow> db \<Rightarrow> headers \<times> (exn + json option) \<times> db" where
  "answer heads body m db =
     (case m db of (Inl e, db') \<Rightarrow> ([], Inl e, db') | (Inr x, db') \<Rightarrow> (heads x, Inr (Some (body x)), db'))"

text \<open>\<open>@CurrentUser()\<close>: the user that the guard put on the request.\<close>

definition with_user :: "AuthUser option \<Rightarrow> (AuthUser \<Rightarrow> (db, 'a) svc) \<Rightarrow> (db, 'a) svc" where
  "with_user user f = (case user of
     None \<Rightarrow> throwS (plain_error ''Cannot read properties of undefined'') | Some u \<Rightarrow> f u)"

text \<open>The pipe: an invalid parameter, query or body is a 400 before the handler runs.\<close>

definition piped :: "api \<Rightarrow> request \<Rightarrow> 'p option \<Rightarrow> ('p \<Rightarrow> (db, 'a) svc) \<Rightarrow> (db, 'a) svc" where
  "piped a req parsed f = (case parsed of None \<Rightarrow> throwS (bad_request a req) | Some p \<Rightarrow> f p)"

definition param :: "request \<Rightarrow> string \<Rightarrow> (string \<Rightarrow> bool) \<Rightarrow> string option" where
  "param req name ok = (case js_map_get (rq_params req) name of
     None \<Rightarrow> None | Some v \<Rightarrow> if ok v then Some v else None)"

definition page_query :: "api \<Rightarrow> request \<Rightarrow> (nat \<times> string option) option" where
  "page_query a req =
     (case page_limit (hl_integer (ap_http a)) (js_map_get (rq_query req) ''limit'') of
        None \<Rightarrow> None
      | Some limit \<Rightarrow>
          if cursor_ok (js_map_get (rq_query req) ''cursor'')
          then Some (nat limit, js_map_get (rq_query req) ''cursor'') else None)"

section \<open>Controllers\<close>

definition accounts_list_endpoint :: "api \<Rightarrow> endpoint" where
  "accounts_list_endpoint a = \<lparr>ep_route = protected_route None, ep_status = 200,
     ep_headers = [(''Cache-Control'', ''no-store'')],
     ep_handler = (\<lambda>req user. answer (\<lambda>_. []) (page_json account_json)
       (piped a req (page_query a req) (\<lambda>(limit, cursor).
         with_user user (\<lambda>u. accounts_list (ap_rt a) u limit cursor))))\<rparr>"

definition accounts_create_endpoint :: "api \<Rightarrow> endpoint" where
  "accounts_create_endpoint a = \<lparr>ep_route = protected_route (Some [Member]), ep_status = 201, ep_headers = [],
     ep_handler = (\<lambda>req user. answer (\<lambda>account. [(''Location'', ''/accounts/'' @ acc_id account)]) account_json
       (piped a req (case Option.bind (rq_body req) (hl_account (ap_http a)) of
            None \<Rightarrow> None | Some d \<Rightarrow> if create_account_dto_ok d then Some d else None) (\<lambda>body.
         with_user user (\<lambda>u. accounts_create (ap_rt a) (rq_now req) (rq_fresh req 0) body u))))\<rparr>"

definition accounts_get_endpoint :: "api \<Rightarrow> endpoint" where
  "accounts_get_endpoint a = \<lparr>ep_route = protected_route None, ep_status = 200, ep_headers = [],
     ep_handler = (\<lambda>req user. answer (\<lambda>_. []) account_json
       (piped a req (param req ''account_id'' (hl_isUUID4 (ap_http a))) (\<lambda>ident.
         with_user user (\<lambda>u. accounts_getById (ap_rt a) ident u))))\<rparr>"

text \<open>The optional \<open>account_id\<close> of the query is checked by \<open>IsUUID\<close> when it is there.\<close>

definition transactions_query :: "api \<Rightarrow> request \<Rightarrow> (nat \<times> string option \<times> string option) option" where
  "transactions_query a req =
     (let account = js_map_get (rq_query req) ''account_id''
      in case page_query a req of
           None \<Rightarrow> None
         | Some (limit, cursor) \<Rightarrow>
             if (case account of None \<Rightarrow> True | Some s \<Rightarrow> hl_isUUID4 (ap_http a) s)
             then Some (limit, cursor, account) else None)"

definition transactions_list_endpoint :: "api \<Rightarrow> endpoint" where
  "transactions_list_endpoint a = \<lparr>ep_route = protected_route None, ep_status = 200,
     ep_headers = [(''Cache-Control'', ''no-store'')],
     ep_handler = (\<lambda>req user. answer (\<lambda>_. []) (page_json transaction_json)
       (piped a req (transactions_query a req) (\<lambda>(limit, cursor, account).
         with_user user (\<lambda>u. transactions_list (ap_rt a) (drift a) u limit cursor account))))\<rparr>"

definition entries_of :: "api \<Rightarrow> request \<Rightarrow> TransactionEntryDto list option" where
  "entries_of a req =
     (case Option.bind (rq_body req) (hl_entries (ap_http a)) of
        None \<Rightarrow> None
      | Some es \<Rightarrow>
          if create_transactions_dto_ok (hl_isUUID4 (ap_http a)) (hl_isISO8601 (ap_http a)) es
          then Some es else None)"

definition transactions_create_endpoint :: "api \<Rightarrow> endpoint" where
  "transactions_create_endpoint a = \<lparr>ep_route = protected_route (Some [Member]), ep_status = 201, ep_headers = [],
     ep_handler = (\<lambda>req user. answer (\<lambda>_. []) batch_json
       (piped a req (entries_of a req) (\<lambda>entries.
         with_user user (\<lambda>u. transactions_create (ap_rt a) (ap_cache a) (drift a) (rq_now req) (rq_fresh req)
           entries u))))\<rparr>"

definition transactions_get_endpoint :: "api \<Rightarrow> endpoint" where
  "transactions_get_endpoint a = \<lparr>ep_route = protected_route None, ep_status = 200, ep_headers = [],
     ep_handler = (\<lambda>req user. answer (\<lambda>_. []) transaction_json
       (piped a req (param req ''transaction_id'' (hl_isUUID4 (ap_http a))) (\<lambda>ident.
         with_user user (\<lambda>u. transactions_getById (ap_rt a) (drift a) ident u))))\<rparr>"

definition CURRENCIES_CACHE_CONTROL :: string where
  "CURRENCIES_CACHE_CONTROL = ''public, max-age=3600''"

definition currencies_list_endpoint :: "api \<Rightarrow> endpoint" where
  "currencies_list_endpoint a = \<lparr>ep_route = public_route, ep_status = 200,
     ep_headers = [(''Cache-Control'', CURRENCIES_CACHE_CONTROL)],
     ep_handler = (\<lambda>req user. answer (\<lambda>_. []) (\<lambda>cs. JArr (map currency_json cs)) (currencies_list (ap_rt a)))\<rparr>"

definition currencies_get_endpoint :: "api \<Rightarrow> endpoint" where
  "currencies_get_endpoint a = \<lparr>ep_route = public_route, ep_status = 200,
     ep_headers = [(''Cache-Control'', CURRENCIES_CACHE_CONTROL)],
     ep_handler = (\<lambda>req user. answer (\<lambda>_. []) currency_json
       (piped a req (param req ''code'' currency_code_param_ok) currencies_getByCode))\<rparr>"

text \<open>\<open>getLatest\<close> sets its header itself, also when it throws; the pipe throws before that.\<close>

definition fx_latest_endpoint :: "api \<Rightarrow> endpoint" where
  "fx_latest_endpoint a = \<lparr>ep_route = public_route, ep_status = 200, ep_headers = [],
     ep_handler = (\<lambda>req user db.
       let on = js_map_get (rq_query req) ''on''
       in case param req ''currency'' (\<lambda>c. c \<in> set Currency) of
            None \<Rightarrow> ([], Inl (bad_request a req), db)
          | Some currency \<Rightarrow>
              if (case on of None \<Rightarrow> True | Some s \<Rightarrow> hl_isISO8601 (ap_http a) s)
              then (case controller_getLatest (ap_rt a) (ap_cache a) (rq_now req) currency on db of
                      (control, r) \<Rightarrow> ([(''Cache-Control'', control)],
                        bindE r (\<lambda>rate. Inr (Some (fx_rate_json rate))), db))
              else ([], Inl (bad_request a req), db))\<rparr>"

definition health_liveness_endpoint :: "api \<Rightarrow> endpoint" where
  "health_liveness_endpoint a = \<lparr>ep_route = public_route, ep_status = 200, ep_headers = [],
     ep_handler = (\<lambda>req user. answer (\<lambda>_. []) (health_json (hl_number_text (ap_http a)))
       (returnS (liveness (ap_env a) (ap_version a) (rq_uptime req))))\<rparr>"

definition health_database_endpoint :: "api \<Rightarrow> endpoint" where
  "health_database_endpoint a = \<lparr>ep_route = public_route, ep_status = 200, ep_headers = [],
     ep_handler = (\<lambda>req user. answer (\<lambda>_. []) (db_health_json (hl_number_text (ap_http a)))
       (liftS (health_database (rq_probe req) (rq_latencyNs req) (rq_pool req))))\<rparr>"

section \<open>The pipeline\<close>

definition problem_reply :: "headers \<Rightarrow> request \<Rightarrow> exn \<Rightarrow> reply" where
  "problem_reply heads req e = \<lparr>ry_message = filter_catch e (rq_url req)
       \<lparr>headersSent = False, rp_status = 200, rp_type = [], rp_body = []\<rparr>, ry_headers = heads\<rparr>"

text \<open>A successful result goes out through \<open>res.json\<close>, which the response validator wraps.\<close>

definition result_reply :: "api \<Rightarrow> endpoint \<Rightarrow> request \<Rightarrow> headers \<Rightarrow> json option \<Rightarrow> reply" where
  "result_reply a ep req heads body =
     (case hl_response (ap_http a) (rq_url req) (ep_status ep) body of
        Some e \<Rightarrow> problem_reply heads req e
      | None \<Rightarrow> \<lparr>ry_message = \<lparr>headersSent = True, rp_status = ep_status ep,
            rp_type = ''application/json; charset=utf-8'',
            rp_body = (case body of None \<Rightarrow> [] | Some b \<Rightarrow> json_stringify b)\<rparr>, ry_headers = heads\<rparr>)"

text \<open>
  The pipe and the handler: the reply, the value that the interceptor captured, the database. The
  decorated headers are on the response before the handler runs, so a problem carries them too.
\<close>

definition run_handler ::
  "api \<Rightarrow> endpoint \<Rightarrow> request \<Rightarrow> AuthUser option \<Rightarrow> db \<Rightarrow> reply \<times> json option \<times> db" where
  "run_handler a ep req user db =
     (case ep_handler ep req user db of
        (heads, Inl e, db') \<Rightarrow> (problem_reply (ep_headers ep @ heads) req e, None, db')
      | (heads, Inr body, db') \<Rightarrow> (result_reply a ep req (ep_headers ep @ heads) body, body, db'))"

definition idem_request_of :: "request \<Rightarrow> AuthUser option \<Rightarrow> idem_request" where
  "idem_request_of req user =
     \<lparr>iq_method = rq_method req, iq_key = rq_key req, iq_user = user, iq_body = rq_body req\<rparr>"

definition status :: "reply \<Rightarrow> nat" where
  "status r = rp_status (ry_message r)"

definition handle_request :: "api \<Rightarrow> endpoint \<Rightarrow> request \<Rightarrow> db \<times> idem_store \<Rightarrow> reply \<times> db \<times> idem_store" where
  "handle_request a ep req = (\<lambda>(db, store).
     case hl_request (ap_http a) req of
       Some e \<Rightarrow> (problem_reply [] req e, db, store)
     | None \<Rightarrow>
         (case guards (ap_passport a (rq_now req)) (ap_auth a) (ap_tokens a) (ap_rt a) (rq_now req) db
                 (ep_route ep) (rq_authorization req) of
            Inl e \<Rightarrow> (problem_reply [] req e, db, store)
          | Inr user \<Rightarrow>
              (case intercept (ap_sha256 a) (rq_now req) (idem_request_of req user) store of
                 (Throws e, store') \<Rightarrow> (problem_reply (ep_headers ep) req e, db, store')
               | (Replays body, store') \<Rightarrow>
                   (result_reply a ep req (ep_headers ep @ [(''Idempotency-Replay'', ''true'')]) body, db, store')
               | (Passes, store') \<Rightarrow>
                   (case run_handler a ep req user db of (r, captured, db') \<Rightarrow> (r, db', store'))
               | (Proceeds key fp, store') \<Rightarrow>
                   (case run_handler a ep req user db of (r, captured, db') \<Rightarrow>
                      (r, db', on_finish (rq_done req) key fp (status r) captured store')))))"

text \<open>Requests that are served one after another; the replies in order.\<close>

fun serve :: "api \<Rightarrow> (endpoint \<times> request) list \<Rightarrow> db \<times> idem_store \<Rightarrow> reply list \<times> db \<times> idem_store" where
  "serve a [] s = ([], s)"
| "serve a ((ep, req) # qs) s =
     (case handle_request a ep req s of (r, s') \<Rightarrow>
        (case serve a qs s' of (rs, s'') \<Rightarrow> (r # rs, s'')))"

end
