(* ===== verification/Api_Correct.thy ===== *)
theory Api_Correct
  imports Api Auth_Correct Transactions_Correct
begin

text \<open>
  What the pipeline guarantees to a client of the HTTP surface: an error leaves no trace unless the
  response validator made it, and a request that was answered 201 is not executed again by a retry.
\<close>

section \<open>The parts of a reply\<close>

lemma status_replies [simp]:
  "status (problem_reply heads req e) = status_of e"
  "ry_headers (problem_reply heads req e) = heads"
  by (simp_all add: status_def problem_reply_def filter_catch_def sendProblem_def Let_def)

lemma status_of_reply [simp]: "status \<lparr>ry_message = m, ry_headers = h\<rparr> = rp_status m"
  by (simp add: status_def)

lemma ry_headers_result [simp]: "ry_headers (result_reply a ep req heads body) = heads"
  by (simp add: result_reply_def split: option.split)

lemma status_result:
  assumes "\<And>e. hl_response (ap_http a) (rq_url req) (ep_status ep) body = Some e \<Longrightarrow> status_of e \<noteq> ep_status ep"
  shows "status (result_reply a ep req heads body) = ep_status ep \<longleftrightarrow>
    hl_response (ap_http a) (rq_url req) (ep_status ep) body = None"
  using assms by (auto simp: result_reply_def split: option.split)

text \<open>
  Documented behaviour of the libraries: the OpenAPI validators raise errors with a 4xx or 5xx status,
  and passport is what \<open>passport_ok\<close> says.
\<close>

definition api_ok :: "api \<Rightarrow> bool" where
  "api_ok a \<longleftrightarrow> (\<forall>req e. hl_request (ap_http a) req = Some e \<longrightarrow> 400 \<le> status_of e) \<and>
     (\<forall>url st body e. hl_response (ap_http a) url st body = Some e \<longrightarrow> 400 \<le> status_of e) \<and>
     (\<forall>now. passport_ok (ap_auth a) now (ap_passport a now))"

lemma api_okD:
  assumes "api_ok a"
  shows "hl_request (ap_http a) req = Some e \<Longrightarrow> status_of e \<noteq> 201"
    and "hl_response (ap_http a) url st body = Some e \<Longrightarrow> status_of e \<noteq> 201"
    and "passport_ok (ap_auth a) now (ap_passport a now)"
proof -
  show "hl_request (ap_http a) req = Some e \<Longrightarrow> status_of e \<noteq> 201"
    using assms unfolding api_ok_def by fastforce
  show "hl_response (ap_http a) url st body = Some e \<Longrightarrow> status_of e \<noteq> 201"
    using assms unfolding api_ok_def by fastforce
  show "passport_ok (ap_auth a) now (ap_passport a now)" using assms by (simp add: api_ok_def)
qed

section \<open>Every failure has an error status\<close>

lemma guards_Inl_status:
  assumes "passport_ok lib now pp" "guards pp lib cfg rt now db ro hdr = Inl e"
  shows "400 \<le> status_of e"
proof -
  let ?p = "pp (secretOrKeyProvider lib cfg) ([''ES256''], JWT_ISSUER, JWT_AUDIENCE) (jwt_validate rt now db) hdr"
  have pp: "case ?p of
       Passport_user u \<Rightarrow> (\<exists>header token key p. hdr = Some header \<and> bearer_header header token \<and>
         secretOrKeyProvider lib cfg token = Inr key \<and>
         jwt_verify lib \<lparr>vo_publicKey = key, vo_algorithms = [''ES256''], vo_issuer = JWT_ISSUER,
           vo_audience = JWT_AUDIENCE\<rparr> token now = Inr p \<and> jwt_validate rt now db p = Inr u)
     | Passport_err e \<Rightarrow> (\<exists>p. jwt_validate rt now db p = Inl e)
     | Passport_fail info \<Rightarrow> True"
    using assms(1) unfolding passport_ok_def by blast
  have err: "400 \<le> status_of e'" if "handleRequest ?p = Inl e'" for e'
  proof (cases ?p)
    case (Passport_err x)
    then obtain p where "jwt_validate rt now db p = Inl x" using pp by auto
    then show ?thesis using that Passport_err jwt_validate_Inl by fastforce
  qed (use that in auto)
  consider "handleRequest ?p = Inl e" | u where "roles_canActivate ro u = Inl e"
    using assms(2) by (auto simp: guards_def jwt_canActivate_def bindE_def split: if_splits sum.splits)
  then show ?thesis
    by cases (auto simp: err roles_canActivate_def split: option.splits if_splits)
qed

text \<open>No public route of the application asks for a role.\<close>

lemma public_routes_ask_no_role:
  assumes "ep \<in> {accounts_list_endpoint a, accounts_create_endpoint a, accounts_get_endpoint a,
      transactions_list_endpoint a, transactions_create_endpoint a, transactions_get_endpoint a,
      currencies_list_endpoint a, currencies_get_endpoint a, fx_latest_endpoint a,
      health_liveness_endpoint a, health_database_endpoint a}" "is_public (ep_route ep)"
  shows "required_roles (ep_route ep) = None"
  using assms
  by (auto simp: is_public_def required_roles_def protected_route_def public_route_def
      accounts_list_endpoint_def accounts_create_endpoint_def accounts_get_endpoint_def
      transactions_list_endpoint_def transactions_create_endpoint_def transactions_get_endpoint_def
      currencies_list_endpoint_def currencies_get_endpoint_def fx_latest_endpoint_def
      health_liveness_endpoint_def health_database_endpoint_def)

lemma client_error_status: "client_error e \<Longrightarrow> 400 \<le> status_of e"
  by (auto simp: client_error_def split: exn.splits)

lemma value_error_status: "value_error e \<Longrightarrow> 400 \<le> status_of e"
  by (auto simp: value_error_def)

lemma create_status:
  assumes "pg_ok rt" "db_ok db" "fresh_ids fresh (length entries) db"
    and "create_transactions_dto_ok isUUID4 isISO8601 entries"
    and "transactions_create rt cache dr now fresh entries user db = (Inl e, db')"
  shows "400 \<le> status_of e"
proof -
  obtain d where "create_body rt cache (toISOString now) fresh entries user db = (Inl e, d)"
    using assms(5) by (auto simp: transactions_create_def transaction_def bindS_def returnS_def split: prod.splits sum.splits)
  moreover have "list_all (entry_dto_ok isUUID4 isISO8601) entries"
    using assms(4) by (simp add: create_transactions_dto_ok_def)
  ultimately show ?thesis using create_body_Inl [OF assms(1-3)] client_error_status value_error_status by blast
qed

section \<open>Records of the interceptor\<close>

text \<open>
  A fresh record of a 201 survives every request, whatever its endpoint does: the interceptor lets no
  request with its key proceed, and writes no other key.
\<close>

lemma handle_keeps_record:
  assumes "js_map_get store key = Some (DoneRecord fp body t)" "rq_now req < t"
    and "handle_request a ep req (db, store) = (r, db', store')"
  shows "js_map_get store' key = Some (DoneRecord fp body t)"
proof -
  have cur: "current (rq_now req) store key = Some (DoneRecord fp body t)"
    using assms(1,2) by (simp add: current_def)
  consider "store' = store"
    | act st user where "intercept (ap_sha256 a) (rq_now req) (idem_request_of req user) store = (act, st)"
        "\<forall>k f. act \<noteq> Proceeds k f" "store' = st"
    | user k f st c where "intercept (ap_sha256 a) (rq_now req) (idem_request_of req user) store = (Proceeds k f, st)"
        "store' = on_finish (rq_done req) k f (status r) c st"
    using assms(3) by (auto simp: handle_request_def split: option.splits sum.splits prod.splits intercepted.splits)
  then show ?thesis
  proof cases
    case 2
    then show ?thesis using intercept_keeps [OF 2(1,2)] assms(1) by simp
  next
    case 3
    have "k \<noteq> key" using intercept_Proceeds(1) [OF 3(1)] cur by auto
    then show ?thesis using intercept_Proceeds(2) [OF 3(1)] assms(1) 3(2) by (simp add: on_finish_def)
  qed (use assms(1) in simp)
qed

lemma serve_keeps_record:
  assumes "serve a qs (db, store) = (rs, db', store')" "js_map_get store key = Some (DoneRecord fp body t)"
    and "list_all (\<lambda>(ep, q). rq_now q < t) qs"
  shows "js_map_get store' key = Some (DoneRecord fp body t)"
  using assms
proof (induction qs arbitrary: db store rs)
  case (Cons q qs)
  obtain ep req where q: "q = (ep, req)" by fastforce
  obtain r d s where h: "handle_request a ep req (db, store) = (r, d, s)" by (metis prod_cases3)
  then obtain rs' where "serve a qs (d, s) = (rs', db', store')"
    using Cons.prems(1) q by (auto split: prod.splits)
  then show ?case using Cons.IH handle_keeps_record [OF Cons.prems(2) _ h] Cons.prems(3) q by simp
qed simp

lemma handle_replays:
  assumes "hl_request (ap_http a) req = None"
    and "guards (ap_passport a (rq_now req)) (ap_auth a) (ap_tokens a) (ap_rt a) (rq_now req) db
        (ep_route ep) (rq_authorization req) = Inr (Some user)"
    and "rq_method req = ''POST''" "rq_key req = Some key" "key \<noteq> []"
    and "js_map_get store (idem_key user key) = Some (DoneRecord (fingerprint (ap_sha256 a) (rq_body req)) body t)"
    and "rq_now req < t"
  shows "handle_request a ep req (db, store) =
    (result_reply a ep req (ep_headers ep @ [(''Idempotency-Replay'', ''true'')]) body, db, store)"
proof -
  have q: "idem_request_of req (Some user) = post user key (rq_body req)"
    using assms(3,4) by (simp add: idem_request_of_def post_def)
  have "current (rq_now req) store (idem_key user key) =
      Some (DoneRecord (fingerprint (ap_sha256 a) (rq_body req)) body t)"
    using assms(6,7) by (simp add: current_def)
  then have "fst (intercept (ap_sha256 a) (rq_now req) (post user key (rq_body req)) store) = Replays body"
    by (simp add: intercept_post [OF assms(5)])
  then obtain st where i: "intercept (ap_sha256 a) (rq_now req) (post user key (rq_body req)) store = (Replays body, st)"
    by (metis prod.collapse)
  then have "st = store" using intercept_keeps by blast
  then show ?thesis using assms(1,2) i q by (simp add: handle_request_def)
qed

section \<open>Endpoints that write all or nothing\<close>

text \<open>
  An endpoint whose failing handler leaves the database as it was. A request to it that is not
  answered with the endpoint's own status then leaves no trace, unless the handler succeeded and the
  response validator refused its result.
\<close>

locale atomic_endpoint =
  fixes a :: api and ep :: endpoint
  assumes atomic: "ep_handler ep req user db = (heads, Inl e, db') \<Longrightarrow> db' = db"
begin

lemma run_error:
  assumes "run_handler a ep req user db = (r, captured, db')" "status r \<noteq> ep_status ep"
  shows "db' = db \<or> (\<exists>heads body e. ep_handler ep req user db = (heads, Inr body, db') \<and>
    hl_response (ap_http a) (rq_url req) (ep_status ep) body = Some e \<and>
    r = problem_reply (ep_headers ep @ heads) req e)"
  using assms atomic
  by (auto simp: run_handler_def result_reply_def split: prod.splits sum.splits option.splits)

lemma error_reply:
  assumes "handle_request a ep req (db, store) = (r, db', store')" "status r \<noteq> ep_status ep"
  shows "db' = db \<or> (\<exists>user heads body e.
    guards (ap_passport a (rq_now req)) (ap_auth a) (ap_tokens a) (ap_rt a) (rq_now req) db
      (ep_route ep) (rq_authorization req) = Inr user \<and>
    ep_handler ep req user db = (heads, Inr body, db') \<and>
    hl_response (ap_http a) (rq_url req) (ep_status ep) body = Some e \<and>
    r = problem_reply (ep_headers ep @ heads) req e)"
proof -
  consider "db' = db"
    | user captured where "guards (ap_passport a (rq_now req)) (ap_auth a) (ap_tokens a) (ap_rt a) (rq_now req) db
        (ep_route ep) (rq_authorization req) = Inr user" "run_handler a ep req user db = (r, captured, db')"
    using assms(1) by (auto simp: handle_request_def split: option.splits sum.splits prod.splits intercepted.splits)
  then show ?thesis using run_error [OF _ assms(2)] by cases blast+
qed

end

lemma answer_Inl: "answer heads body m db = (h, Inl e, db') \<longleftrightarrow> h = [] \<and> m db = (Inl e, db')"
  by (auto simp: answer_def split: prod.splits sum.splits)

lemma piped_with_user_Inl:
  assumes "\<And>p u. f p u db = (Inl e, db') \<Longrightarrow> db' = db"
    and "piped a req parsed (\<lambda>p. with_user user (f p)) db = (Inl e, db')"
  shows "db' = db"
  using assms by (auto simp: piped_def with_user_def throwS_def split: option.splits)

lemma transactions_create_Inl: "transactions_create rt cache dr now fresh es u db = (Inl e, db') \<Longrightarrow> db' = db"
  by (auto simp: transactions_create_def transaction_def bindS_def returnS_def split: prod.splits sum.splits)

lemma accounts_create_Inl: "accounts_create rt now fresh d u db = (Inl e, db') \<Longrightarrow> db' = db"
  by (auto simp: accounts_create_def accounts_save_def bindS_def liftS_def returnS_def Let_def
      split: prod.splits sum.splits if_splits)

interpretation create_transactions: atomic_endpoint a "transactions_create_endpoint a" for a
proof
  fix req user db heads e db'
  assume "ep_handler (transactions_create_endpoint a) req user db = (heads, Inl e, db')"
  then show "db' = db"
    by (auto simp: transactions_create_endpoint_def answer_Inl dest!: transactions_create_Inl piped_with_user_Inl [rotated])
qed

interpretation create_account: atomic_endpoint a "accounts_create_endpoint a" for a
proof
  fix req user db heads e db'
  assume "ep_handler (accounts_create_endpoint a) req user db = (heads, Inl e, db')"
  then show "db' = db"
    by (auto simp: accounts_create_endpoint_def answer_Inl dest!: accounts_create_Inl piped_with_user_Inl [rotated])
qed

section \<open>A batch that was answered 201\<close>

lemma guards_protected:
  "guards pp lib cfg rt now db (protected_route roles) hdr = Inr w \<Longrightarrow> \<exists>u. w = Some u"
  by (auto simp: guards_def jwt_canActivate_def protected_route_def bindE_def split: sum.splits if_splits)

lemma create_handler:
  "ep_handler (transactions_create_endpoint a) req (Some u) db =
    (case entries_of a req of
       None \<Rightarrow> ([], Inl (bad_request a req), db)
     | Some es \<Rightarrow>
         (case transactions_create (ap_rt a) (ap_cache a) (drift a) (rq_now req) (rq_fresh req) es u db of
            (Inl e, db') \<Rightarrow> ([], Inl e, db') | (Inr resp, db') \<Rightarrow> ([], Inr (Some (batch_json resp)), db')))"
  by (simp add: transactions_create_endpoint_def answer_def piped_def with_user_def throwS_def
      split: option.split)

lemma create_endpoint_simps [simp]:
  "ep_status (transactions_create_endpoint a) = 201" "ep_headers (transactions_create_endpoint a) = []"
  "ep_route (transactions_create_endpoint a) = protected_route (Some [Member])"
  by (simp_all add: transactions_create_endpoint_def)

text \<open>The caller of a request: the user that the guards let through.\<close>

definition caller :: "api \<Rightarrow> endpoint \<Rightarrow> request \<Rightarrow> db \<Rightarrow> AuthUser option" where
  "caller a ep req db =
     (case guards (ap_passport a (rq_now req)) (ap_auth a) (ap_tokens a) (ap_rt a) (rq_now req) db
             (ep_route ep) (rq_authorization req) of
        Inl e \<Rightarrow> None | Inr user \<Rightarrow> user)"

lemma caller_guards:
  "caller a ep req db = Some u \<Longrightarrow>
    guards (ap_passport a (rq_now req)) (ap_auth a) (ap_tokens a) (ap_rt a) (rq_now req) db
      (ep_route ep) (rq_authorization req) = Inr (Some u)"
  by (simp add: caller_def split: sum.splits)

lemma bad_request_status [simp]: "status_of (bad_request a req) = 400"
  by (simp add: bad_request_def)

text \<open>The handler under the pipe: a reply with status 201 carries the batch that was committed.\<close>

lemma run_create_201:
  assumes "api_ok a" "pg_ok (ap_rt a)" "db_ok db" "case entries_of a req of None \<Rightarrow> True | Some es \<Rightarrow> fresh_ids (rq_fresh req) (length es) db"
    and "run_handler a (transactions_create_endpoint a) req (Some u) db = (r, captured, db')" "status r = 201"
  obtains entries resp where "entries_of a req = Some entries"
    and "transactions_create (ap_rt a) (ap_cache a) (drift a) (rq_now req) (rq_fresh req) entries u db = (Inr resp, db')"
    and "captured = Some (batch_json resp)"
    and "hl_response (ap_http a) (rq_url req) 201 (Some (batch_json resp)) = None"
    and "r = result_reply a (transactions_create_endpoint a) req [] (Some (batch_json resp))"
proof (cases "entries_of a req")
  case None
  then show ?thesis using assms(5,6) by (auto simp: run_handler_def create_handler)
next
  case (Some entries)
  then have dto: "create_transactions_dto_ok (hl_isUUID4 (ap_http a)) (hl_isISO8601 (ap_http a)) entries"
    by (auto simp: entries_of_def split: option.splits if_splits)
  then have fresh: "fresh_ids (rq_fresh req) (length entries) db"
    using assms(4) Some by simp
  obtain out d where c: "transactions_create (ap_rt a) (ap_cache a) (drift a) (rq_now req) (rq_fresh req) entries u db = (out, d)"
    by fastforce
  show ?thesis
  proof (cases out)
    case (Inl e)
    then have "400 \<le> status_of e" using create_status [OF assms(2,3) fresh dto] c by blast
    then show ?thesis using assms(5,6) c Inl Some by (auto simp: run_handler_def create_handler)
  next
    case (Inr resp)
    then have r: "r = result_reply a (transactions_create_endpoint a) req [] (Some (batch_json resp))"
      "captured = Some (batch_json resp)" "db' = d"
      using assms(5) c Some by (auto simp: run_handler_def create_handler)
    have "hl_response (ap_http a) (rq_url req) 201 (Some (batch_json resp)) = None"
      using assms(6) r(1) api_okD(2) [OF assms(1)] by (auto simp: result_reply_def split: option.splits)
    then show ?thesis using that [OF Some] c Inr r by simp
  qed
qed

lemma intercept_outcome:
  assumes "intercept sha256 now (post u key body) store = (act, st)" "key \<noteq> []"
  shows "(\<exists>e. act = Throws e \<and> 400 \<le> status_of e) \<or> (\<exists>b. act = Replays b) \<or>
    act = Proceeds (idem_key u key) (fingerprint sha256 body)"
proof -
  have "act = fst (intercept sha256 now (post u key body) store)" using assms(1) by simp
  then show ?thesis unfolding intercept_post [OF assms(2)]
    by (auto simp: Let_def reuse_problem_def in_flight_problem_def split: option.split IdempotencyRecord.split)
qed

lemma post_created:
  assumes "api_ok a" "pg_ok (ap_rt a)" "db_ok db" "case entries_of a req of None \<Rightarrow> True | Some es \<Rightarrow> fresh_ids (rq_fresh req) (length es) db"
    and "handle_request a (transactions_create_endpoint a) req (db, store) = (r, db1, store1)"
    and "status r = 201" "''Idempotency-Replay'' \<notin> fst ` set (ry_headers r)"
    and "rq_method req = ''POST''" "rq_key req = Some key" "key \<noteq> []"
  obtains u entries resp where "caller a (transactions_create_endpoint a) req db = Some u" "entries_of a req = Some entries"
    and "transactions_create (ap_rt a) (ap_cache a) (drift a) (rq_now req) (rq_fresh req) entries u db = (Inr resp, db1)"
    and "hl_response (ap_http a) (rq_url req) 201 (Some (batch_json resp)) = None"
    and "r = result_reply a (transactions_create_endpoint a) req [] (Some (batch_json resp))"
    and "js_map_get store1 (idem_key u key) =
      Some (DoneRecord (fingerprint (ap_sha256 a) (rq_body req)) (Some (batch_json resp)) (rq_done req + TTL_MS))"
proof -
  let ?ep = "transactions_create_endpoint a"
  let ?g = "guards (ap_passport a (rq_now req)) (ap_auth a) (ap_tokens a) (ap_rt a) (rq_now req) db
    (ep_route ?ep) (rq_authorization req)"
  have "hl_request (ap_http a) req = None"
  proof (rule ccontr)
    assume "hl_request (ap_http a) req \<noteq> None"
    then obtain e where "hl_request (ap_http a) req = Some e" by blast
    then show False using assms(5,6) api_okD(1) [OF assms(1)] by (auto simp: handle_request_def)
  qed
  moreover have "\<exists>w. ?g = Inr w"
  proof (cases ?g)
    case (Inl e)
    then have "400 \<le> status_of e" using guards_Inl_status [OF api_okD(3) [OF assms(1)]] by blast
    then show ?thesis using assms(5,6) Inl calculation by (auto simp: handle_request_def)
  qed simp
  then obtain u where g: "?g = Inr (Some u)" using guards_protected by (auto simp del: create_endpoint_simps(1,2)) fastforce
  have q: "idem_request_of req (Some u) = post u key (rq_body req)"
    using assms(8,9) by (simp add: idem_request_of_def post_def)
  obtain act st where i: "intercept (ap_sha256 a) (rq_now req) (post u key (rq_body req)) store = (act, st)" by fastforce
  consider e where "act = Throws e" "400 \<le> status_of e" | b where "act = Replays b"
    | "act = Proceeds (idem_key u key) (fingerprint (ap_sha256 a) (rq_body req))"
    using intercept_outcome [OF i assms(10)] by blast
  then show ?thesis
  proof cases
    case 1
    then show ?thesis using assms(5,6) \<open>hl_request (ap_http a) req = None\<close> g i q by (auto simp: handle_request_def)
  next
    case 2
    then show ?thesis using assms(5,7) \<open>hl_request (ap_http a) req = None\<close> g i q by (auto simp: handle_request_def)
  next
    case 3
    obtain captured where run: "run_handler a ?ep req (Some u) db = (r, captured, db1)"
      "store1 = on_finish (rq_done req) (idem_key u key) (fingerprint (ap_sha256 a) (rq_body req)) (status r) captured st"
      using assms(5) \<open>hl_request (ap_http a) req = None\<close> g i q 3 by (auto simp: handle_request_def split: prod.splits)
    have "caller a ?ep req db = Some u" using g by (simp add: caller_def)
    then show ?thesis
      using run_create_201 [OF assms(1-4) run(1) assms(6)] that run(2) assms(6) by (metis js_map_get_set on_finish_def)
  qed
qed

text \<open>What the handler's success means, and what happens to the map of records.\<close>

lemma create_trace:
  assumes "guards (ap_passport a (rq_now req)) (ap_auth a) (ap_tokens a) (ap_rt a) (rq_now req) db
      (protected_route roles) (rq_authorization req) = Inr user"
    and "ep_handler (transactions_create_endpoint a) req user db = (heads, Inr body, db')"
  shows "heads = [] \<and> (\<exists>u entries resp. user = Some u \<and>
    transactions_create (ap_rt a) (ap_cache a) (drift a) (rq_now req) (rq_fresh req) entries u db = (Inr resp, db') \<and>
    body = Some (batch_json resp))"
proof -
  obtain u where "user = Some u" using guards_protected [OF assms(1)] by blast
  then show ?thesis using assms(2) by (auto simp: create_handler split: option.splits prod.splits sum.splits)
qed

lemma create_problem_trace:
  assumes "handle_request a (transactions_create_endpoint a) req (db, store) = (r, db', store')" "status r \<noteq> 201"
  shows "db' = db \<or> (\<exists>u entries resp e. caller a (transactions_create_endpoint a) req db = Some u \<and>
      transactions_create (ap_rt a) (ap_cache a) (drift a) (rq_now req) (rq_fresh req) entries u db = (Inr resp, db') \<and>
      hl_response (ap_http a) (rq_url req) 201 (Some (batch_json resp)) = Some e \<and> status r = status_of e)"
proof -
  let ?ep = "transactions_create_endpoint a"
  consider "db' = db" | user heads body e where
      "guards (ap_passport a (rq_now req)) (ap_auth a) (ap_tokens a) (ap_rt a) (rq_now req) db
        (protected_route (Some [Member])) (rq_authorization req) = Inr user"
      "ep_handler ?ep req user db = (heads, Inr body, db')"
      "hl_response (ap_http a) (rq_url req) 201 body = Some e" "r = problem_reply heads req e"
    using create_transactions.error_reply [OF assms(1)] assms(2) by auto
  then show ?thesis
  proof cases
    case 2
    obtain u entries resp where t: "user = Some u" "body = Some (batch_json resp)"
      "transactions_create (ap_rt a) (ap_cache a) (drift a) (rq_now req) (rq_fresh req) entries u db = (Inr resp, db')"
      using create_trace [OF 2(1,2)] by blast
    have "caller a ?ep req db = Some u" using 2(1) t(1) by (simp add: caller_def)
    then show ?thesis using t 2(3,4) status_replies(1) by blast
  qed simp
qed

lemma post_store:
  assumes "handle_request a (transactions_create_endpoint a) req (db, store) = (r, db', store')"
    and "rq_method req = ''POST''" "rq_key req = Some key" "key \<noteq> []"
  shows "(\<forall>k. (case caller a (transactions_create_endpoint a) req db of None \<Rightarrow> True | Some u \<Rightarrow> k \<noteq> idem_key u key) \<longrightarrow>
      js_map_get store' k = js_map_get store k) \<and>
    (status r \<noteq> 201 \<longrightarrow> (\<forall>u. caller a (transactions_create_endpoint a) req db = Some u \<longrightarrow>
      hl_request (ap_http a) req = None \<longrightarrow> current (rq_now req) store (idem_key u key) = None \<longrightarrow>
      js_map_get store' (idem_key u key) = None))"
proof (cases "hl_request (ap_http a) req = None \<and> caller a (transactions_create_endpoint a) req db \<noteq> None")
  case False
  then show ?thesis
    using assms(1) guards_protected
    by (fastforce simp: handle_request_def caller_def split: option.splits sum.splits)
next
  case True
  then obtain u where u: "caller a (transactions_create_endpoint a) req db = Some u" by blast
  note g = caller_guards [OF u]
  have q: "idem_request_of req (Some u) = post u key (rq_body req)"
    using assms(2,3) by (simp add: idem_request_of_def post_def)
  obtain act st where i: "intercept (ap_sha256 a) (rq_now req) (post u key (rq_body req)) store = (act, st)" by fastforce
  show ?thesis
  proof (cases "act = Proceeds (idem_key u key) (fingerprint (ap_sha256 a) (rq_body req))")
    case True
    then obtain c where "store' = on_finish (rq_done req) (idem_key u key) (fingerprint (ap_sha256 a) (rq_body req)) (status r) c st"
      using assms(1) \<open>_ \<and> _\<close> g i q by (auto simp: handle_request_def split: prod.splits)
    then show ?thesis using intercept_Proceeds(2) i True u by (auto simp: on_finish_def)
  next
    case False
    then have other: "(\<exists>e. act = Throws e) \<or> (\<exists>b. act = Replays b)" using intercept_outcome [OF i assms(4)] by blast
    then have "st = store" using intercept_keeps [OF i] by auto
    then have "store' = store" using other assms(1) \<open>_ \<and> _\<close> g i q by (auto simp: handle_request_def)
    moreover have "current (rq_now req) store (idem_key u key) \<noteq> None"
      using other i intercept_post [OF assms(4), of "ap_sha256 a" "rq_now req" u "rq_body req" store]
      by (auto simp: Let_def split: option.splits)
    ultimately show ?thesis using u by auto
  qed
qed

section \<open>Properties\<close>

text \<open>
  (C7) \<open>POST /transactions\<close> with an idempotency key runs once. A reply 201 that is no replay means
  that the caller passed the guards, the body passed the pipe, and exactly this batch was committed;
  the reply shows it. For a day, and whatever other requests to whatever endpoints are served in
  between, a retry of the same caller with the same key and body gets the same reply marked as a
  replay, and neither the database nor the map of records changes.
\<close>

theorem post_transactions_once:
  assumes "api_ok a" "pg_ok (ap_rt a)" "db_ok db" "case entries_of a req of None \<Rightarrow> True | Some es \<Rightarrow> fresh_ids (rq_fresh req) (length es) db"
    and "handle_request a (transactions_create_endpoint a) req (db, store) = (r, db1, store1)"
    and "status r = 201" "''Idempotency-Replay'' \<notin> fst ` set (ry_headers r)"
    and "rq_method req = ''POST''" "rq_key req = Some key" "key \<noteq> []"
    and "serve a others (db1, store1) = (replies, db2, store2)"
    and "list_all (\<lambda>(ep, q). rq_now q < rq_done req + 86400000) others"
    and "retry = req\<lparr>rq_authorization := auth, rq_now := now, rq_done := done_at, rq_fresh := ids\<rparr>"
    and "now < rq_done req + 86400000" "hl_request (ap_http a) retry = None"
    and "map_option au_id (caller a (transactions_create_endpoint a) retry db2) =
      map_option au_id (caller a (transactions_create_endpoint a) req db)"
  shows "(\<exists>u entries resp. caller a (transactions_create_endpoint a) req db = Some u \<and>
      entries_of a req = Some entries \<and>
      transactions_create (ap_rt a) (ap_cache a) (drift a) (rq_now req) (rq_fresh req) entries u db = (Inr resp, db1) \<and>
      rp_body (ry_message r) = json_stringify (batch_json resp)) \<and>
    handle_request a (transactions_create_endpoint a) retry (db2, store2) =
      (r\<lparr>ry_headers := ry_headers r @ [(''Idempotency-Replay'', ''true'')]\<rparr>, db2, store2)"
proof -
  let ?ep = "transactions_create_endpoint a"
  obtain u entries resp where c: "caller a ?ep req db = Some u" "entries_of a req = Some entries"
      "transactions_create (ap_rt a) (ap_cache a) (drift a) (rq_now req) (rq_fresh req) entries u db = (Inr resp, db1)"
      "hl_response (ap_http a) (rq_url req) 201 (Some (batch_json resp)) = None"
      "r = result_reply a ?ep req [] (Some (batch_json resp))"
      "js_map_get store1 (idem_key u key) =
        Some (DoneRecord (fingerprint (ap_sha256 a) (rq_body req)) (Some (batch_json resp)) (rq_done req + TTL_MS))"
    by (rule post_created [OF assms(1-10)])
  have ttl: "rq_done req + 86400000 = rq_done req + TTL_MS" by (simp add: TTL_MS_def)
  obtain w where w: "caller a ?ep retry db2 = Some w" "au_id w = au_id u" using assms(16) c(1) by auto
  then have key: "idem_key w key = idem_key u key" by (simp add: idem_key_def)
  have "js_map_get store2 (idem_key w key) =
      Some (DoneRecord (fingerprint (ap_sha256 a) (rq_body retry)) (Some (batch_json resp)) (rq_done req + TTL_MS))"
    using serve_keeps_record [OF assms(11) c(6) assms(12) [unfolded ttl]] assms(13) key by simp
  then have "handle_request a ?ep retry (db2, store2) =
      (result_reply a ?ep retry [(''Idempotency-Replay'', ''true'')] (Some (batch_json resp)), db2, store2)"
    using handle_replays [OF assms(15) caller_guards [OF w(1)], of key store2] assms(8-10,13,14) ttl by simp
  moreover have "result_reply a ?ep retry [(''Idempotency-Replay'', ''true'')] (Some (batch_json resp)) =
      r\<lparr>ry_headers := ry_headers r @ [(''Idempotency-Replay'', ''true'')]\<rparr>"
    using c(4,5) assms(13) by (simp add: result_reply_def)
  moreover have "rp_body (ry_message r) = json_stringify (batch_json resp)"
    using c(4,5) by (simp add: result_reply_def)
  ultimately show ?thesis using c(1-3) by simp
qed

text \<open>
  (C8) \<open>POST /transactions\<close> without 201 leaves no trace, with one exception. Unless the handler
  committed the batch and the OpenAPI response validator then refused its body, the database is as it
  was. When the request had reached the handler its key is free again afterwards, also in the
  exceptional case; and no other key is touched in any case.
\<close>

theorem post_transactions_error:
  assumes "handle_request a (transactions_create_endpoint a) req (db, store) = (r, db', store')" "status r \<noteq> 201"
    and "rq_method req = ''POST''" "rq_key req = Some key" "key \<noteq> []"
  shows "(db' = db \<or> (\<exists>u entries resp e. caller a (transactions_create_endpoint a) req db = Some u \<and>
      transactions_create (ap_rt a) (ap_cache a) (drift a) (rq_now req) (rq_fresh req) entries u db = (Inr resp, db') \<and>
      hl_response (ap_http a) (rq_url req) 201 (Some (batch_json resp)) = Some e \<and> status r = status_of e)) \<and>
    (\<forall>k. (case caller a (transactions_create_endpoint a) req db of None \<Rightarrow> True | Some u \<Rightarrow> k \<noteq> idem_key u key) \<longrightarrow>
      js_map_get store' k = js_map_get store k) \<and>
    (\<forall>u. caller a (transactions_create_endpoint a) req db = Some u \<longrightarrow> hl_request (ap_http a) req = None \<longrightarrow>
      current (rq_now req) store (idem_key u key) = None \<longrightarrow> js_map_get store' (idem_key u key) = None)"
proof -
  let ?ep = "transactions_create_endpoint a"
  have "db' = db \<or> (\<exists>u entries resp e. caller a ?ep req db = Some u \<and>
      transactions_create (ap_rt a) (ap_cache a) (drift a) (rq_now req) (rq_fresh req) entries u db = (Inr resp, db') \<and>
      hl_response (ap_http a) (rq_url req) 201 (Some (batch_json resp)) = Some e \<and> status r = status_of e)"
    using create_problem_trace [OF assms(1,2)] .
  then show ?thesis using post_store [OF assms(1,3-5)] assms(2) by blast
qed

section \<open>An example\<close>

text \<open>
  Alice sends the batch of the example with her access token. The response validator of the example
  wants \<open>amount_cents\<close> in every transaction.
\<close>

lemma bearer_guards:
  assumes "verifyAccess lib cfg rt now token db = Inr u" "token \<noteq> []" "set token \<inter> header_blanks = {}"
  shows "guards (bearer_passport lib now) lib cfg rt now db (protected_route (Some [au_role u])) (Some (''Bearer '' @ token)) =
    Inr (Some u)"
  using assms(1) bearer_token_of [OF assms(2,3)]
  by (auto simp: guards_def jwt_canActivate_def protected_route_def bearer_passport_def secretOrKeyProvider_def
      verifyAccess_def jwt_validate_def roles_canActivate_def bindE_def
      split: option.splits sum.splits if_splits)

text \<open>Only the id of the user matters to a batch.\<close>

lemma check_entry_user: "au_id u = au_id v \<Longrightarrow> check_entry u m e = check_entry v m e"
  by (simp add: check_entry_def assertOwner_def split: option.split)

lemma build_batch_user: "au_id u = au_id v \<Longrightarrow> build_batch u m now ids es b d = build_batch v m now ids es b d"
proof (induction es arbitrary: b d)
  case (Cons e es)
  then show ?case using check_entry_user [OF Cons.prems] by simp
qed simp

lemma transactions_create_user:
  "au_id u = au_id v \<Longrightarrow> transactions_create rt cache dr now ids es u = transactions_create rt cache dr now ids es v"
  by (simp add: transactions_create_def create_body_def build_batch_user [of u v])

definition example_http :: http_lib where
  "example_http = \<lparr>hl_isUUID4 = is_uuid, hl_isISO8601 = (\<lambda>_. True), hl_integer = (\<lambda>_. None),
     hl_account = (\<lambda>_. None), hl_entries = (\<lambda>_. Some example_entries), hl_messages = (\<lambda>_. []),
     hl_request = (\<lambda>_. None),
     hl_response = (\<lambda>url st body. case Option.bind body (\<lambda>b. json_get b ''transactions'') of
         Some (JArr ts) \<Rightarrow> if list_all (\<lambda>t. json_get t ''amount_cents'' \<noteq> None) ts then None
           else Some (HttpException 500 (RespText ''must have required property amount_cents'') ''Internal Server Error'')
       | _ \<Rightarrow> None),
     hl_number_text = (\<lambda>_. ''0'')\<rparr>"

definition example_api :: "string \<Rightarrow> api" where
  "example_api flag = \<lparr>ap_rt = canonical_runtime, ap_env = [(''DRIFT'', Env_text flag)], ap_cache = [],
     ap_auth = json_lib, ap_tokens = example_config, ap_passport = bearer_passport json_lib,
     ap_sha256 = (\<lambda>x. x), ap_http = example_http, ap_version = ''1.0.0''\<rparr>"

definition alice_request :: request where
  "alice_request = \<lparr>rq_method = ''POST'', rq_url = ''/transactions'', rq_params = [], rq_query = [],
     rq_authorization = Some (''Bearer '' @ signAccess json_lib example_config 1767268800000 (uid (CHR ''9''))
       (au_id alice) Member (au_sid alice)),
     rq_key = Some ''key-0001'', rq_body = Some JNull, rq_now = 1767268800000, rq_done = 1767268800000,
     rq_fresh = example_fresh, rq_uptime = 0, rq_probe = Inr (0, 0), rq_latencyNs = 0, rq_pool = (0, 0)\<rparr>"

lemma alice_request_simps [simp]:
  "rq_method alice_request = ''POST''" "rq_url alice_request = ''/transactions''" "rq_key alice_request = Some ''key-0001''"
  "rq_body alice_request = Some JNull" "rq_now alice_request = 1767268800000" "rq_done alice_request = 1767268800000"
  "rq_fresh alice_request = example_fresh"
  by (simp_all add: alice_request_def)

definition alice_caller :: AuthUser where
  "alice_caller = \<lparr>au_id = au_id alice, au_role = Member, au_jti = uid (CHR ''9''), au_sid = au_sid alice,
     au_exp = 1767269400\<rparr>"

lemma example_api_ok: "api_ok (example_api flag)"
  using bearer_passport_ok
  by (auto simp: api_ok_def example_api_def example_http_def split: option.splits json.splits if_splits)

lemma example_api_simps [simp]:
  "ap_rt (example_api flag) = canonical_runtime" "ap_cache (example_api flag) = []"
  "ap_auth (example_api flag) = json_lib" "ap_tokens (example_api flag) = example_config"
  "ap_passport (example_api flag) = bearer_passport json_lib" "ap_http (example_api flag) = example_http"
  "ap_sha256 (example_api flag) = (\<lambda>x. x)" "drift (example_api flag) \<longleftrightarrow> flag = ''1''"
  by (simp_all add: example_api_def drift_def config_text_def js_map_get_def)

lemma alice_bearer:
  "signAccess json_lib example_config 1767268800000 (uid (CHR ''9'')) (au_id alice) Member (au_sid alice) \<noteq> []"
  "set (signAccess json_lib example_config 1767268800000 (uid (CHR ''9'')) (au_id alice) Member (au_sid alice)) \<inter> header_blanks = {}"
  by code_simp+

lemma alice_passes:
  assumes "revoked_access_tokens db = []" "t div 1000 < 1767269400" "rq_authorization req = rq_authorization alice_request"
    "rq_now req = t"
  shows "guards (bearer_passport json_lib t) json_lib example_config canonical_runtime t db
      (protected_route (Some [Member])) (rq_authorization req) = Inr (Some alice_caller)"
proof -
  have "verifyAccess json_lib example_config canonical_runtime t
      (signAccess json_lib example_config 1767268800000 (uid (CHR ''9'')) (au_id alice) Member (au_sid alice)) db =
    Inr alice_caller"
    using signed_verifies [OF json_lib_ok canonical_runtime_ok, of "uid (CHR ''9'')" db t 1767268800000] assms(1,2)
    by (simp add: ACCESS_TTL_SECONDS_def alice_caller_def)
  from bearer_guards [OF this alice_bearer] show ?thesis using assms(3) by (simp add: alice_request_def alice_caller_def)
qed

lemma example_entries_of: "entries_of (example_api flag) alice_request = Some example_entries"
proof -
  have "create_transactions_dto_ok is_uuid (\<lambda>_. True) example_entries" by code_simp
  then show ?thesis by (simp add: entries_of_def example_http_def)
qed

lemma example_create_drift:
  "transactions_create canonical_runtime [] dr 1767268800000 example_fresh example_entries alice_caller example_db =
     (Inr (map (\<lambda>t. toTransaction t dr) example_batch), example_db2)"
  unfolding transactions_create_user [of alice_caller alice, simplified alice_caller_def, simplified, folded alice_caller_def]
proof (rule create_eval)
  show "accounts_findByIds canonical_runtime (js_uniq (map e_account_id example_entries)) example_db =
      (Inr (map account_toDomain [uah_account, usd_account]), example_db)" by code_simp
  show "build_batch alice (js_map_of (map (\<lambda>a. (acc_id a, a)) (map account_toDomain [uah_account, usd_account])))
      (toISOString 1767268800000) example_fresh example_entries [] [] =
    Inr (example_batch, [(a_id usd_account, -52000), (a_id uah_account, -4599)])" by code_simp
  show "saveMany canonical_runtime [] example_batch example_db = (Inr example_batch, example_db1)" by (rule example_save)
  show "update_balances canonical_runtime [(a_id usd_account, -52000), (a_id uah_account, -4599)] example_db1 = (Inr (), example_db2)"
    by code_simp
qed

lemma batch_fields: "json_get (batch_json ts) ''transactions'' = Some (JArr (map transaction_json ts))"
  by (simp add: batch_json_def json_get_def)

lemma amount_field: "json_get (transaction_json t) ''amount_cents'' = map_option num_json (tr_amount_cents t)"
  by (simp add: transaction_json_def json_get_def split: option.split)

lemma example_response:
  "hl_response example_http url st (Some (batch_json (map (\<lambda>t. toTransaction t dr) example_batch))) =
    (if dr then Some (HttpException 500 (RespText ''must have required property amount_cents'') ''Internal Server Error'')
     else None)"
  by (simp add: example_http_def batch_fields amount_field toTransaction_def example_batch_def list_all_iff)

lemma example_post:
  assumes "r = result_reply (example_api flag) (transactions_create_endpoint (example_api flag)) alice_request []
      (Some (batch_json (map (\<lambda>t. toTransaction t (flag = ''1'')) example_batch)))"
  shows "handle_request (example_api flag) (transactions_create_endpoint (example_api flag)) alice_request (example_db, []) =
    (r, example_db2, on_finish 1767268800000 (idem_key alice_caller ''key-0001'') ''null'' (status r)
      (Some (batch_json (map (\<lambda>t. toTransaction t (flag = ''1'')) example_batch)))
      [(idem_key alice_caller ''key-0001'', InFlightRecord ''null'' (1767268800000 + TTL_MS))])"
proof -
  let ?a = "example_api flag"
  have g: "guards (bearer_passport json_lib 1767268800000) json_lib example_config canonical_runtime 1767268800000 example_db
      (protected_route (Some [Member])) (rq_authorization alice_request) = Inr (Some alice_caller)"
    by (rule alice_passes) simp_all
  have run: "run_handler ?a (transactions_create_endpoint ?a) alice_request (Some alice_caller) example_db =
      (r, Some (batch_json (map (\<lambda>t. toTransaction t (flag = ''1'')) example_batch)), example_db2)"
    using example_create_drift [of "flag = ''1''"] assms
    by (simp add: run_handler_def create_handler example_entries_of)
  have i: "intercept (\<lambda>x. x) 1767268800000 (post alice_caller ''key-0001'' (Some JNull)) [] =
      (Proceeds (idem_key alice_caller ''key-0001'') ''null'',
       [(idem_key alice_caller ''key-0001'', InFlightRecord ''null'' (1767268800000 + TTL_MS))])"
    by (simp add: intercept_def post_def idem_key_def fingerprint_def js_map_get_def js_map_set_def Let_def)
  have q: "idem_request_of alice_request (Some alice_caller) = post alice_caller ''key-0001'' (Some JNull)"
    by (simp add: idem_request_of_def post_def)
  have "hl_request example_http alice_request = None" by (simp add: example_http_def)
  then show ?thesis using g run i q by (simp add: handle_request_def)
qed

lemma example_caller:
  assumes "revoked_access_tokens db = []" "rq_now req div 1000 < 1767269400"
    "rq_authorization req = rq_authorization alice_request"
  shows "caller (example_api flag) (transactions_create_endpoint (example_api flag)) req db = Some alice_caller"
  using alice_passes [OF assms(1,2,3) refl] by (simp add: caller_def)

theorem post_transactions_once_witness:
  "\<exists>r store1. handle_request (example_api ''0'') (transactions_create_endpoint (example_api ''0'')) alice_request (example_db, []) =
      (r, example_db2, store1) \<and> status r = 201 \<and>
    handle_request (example_api ''0'') (transactions_create_endpoint (example_api ''0''))
      (alice_request\<lparr>rq_authorization := rq_authorization alice_request, rq_now := 1767268860000,
         rq_done := 1767268860000, rq_fresh := uid \<circ> char_of\<rparr>) (example_db2, store1) =
      (r\<lparr>ry_headers := ry_headers r @ [(''Idempotency-Replay'', ''true'')]\<rparr>, example_db2, store1)"
proof -
  let ?a = "example_api ''0''"
  define r where "r = result_reply ?a (transactions_create_endpoint ?a) alice_request []
      (Some (batch_json (map (\<lambda>t. toTransaction t (''0'' = ''1'')) example_batch)))"
  obtain store1 where h: "handle_request ?a (transactions_create_endpoint ?a) alice_request (example_db, []) =
      (r, example_db2, store1)"
    using example_post [OF r_def] by blast
  have s: "status r = 201" "ry_headers r = []"
    using example_response [of _ _ "''0'' = ''1''"] by (simp_all add: r_def result_reply_def)
  have f: "case entries_of ?a alice_request of None \<Rightarrow> True
      | Some es \<Rightarrow> fresh_ids (rq_fresh alice_request) (length es) example_db"
  proof -
    have "fresh_ids example_fresh (length example_entries) example_db" by code_simp
    then show ?thesis by (simp add: example_entries_of)
  qed
  have d: "revoked_access_tokens example_db2 = []" by (simp add: example_db2_def example_db1_def)
  have "handle_request ?a (transactions_create_endpoint ?a)
      (alice_request\<lparr>rq_authorization := rq_authorization alice_request, rq_now := 1767268860000,
         rq_done := 1767268860000, rq_fresh := uid \<circ> char_of\<rparr>) (example_db2, store1) =
      (r\<lparr>ry_headers := ry_headers r @ [(''Idempotency-Replay'', ''true'')]\<rparr>, example_db2, store1)"
  proof (rule conjunct2 [OF post_transactions_once [where key = "''key-0001''", OF example_api_ok _ example_db_ok f h s(1) _ _ _ _ _ _ refl]])
    show "serve ?a [] (example_db2, store1) = ([], example_db2, store1)" by simp
    show "map_option au_id (caller ?a (transactions_create_endpoint ?a)
        (alice_request\<lparr>rq_authorization := rq_authorization alice_request, rq_now := 1767268860000,
         rq_done := 1767268860000, rq_fresh := uid \<circ> char_of\<rparr>) example_db2) =
      map_option au_id (caller ?a (transactions_create_endpoint ?a) alice_request example_db)"
      using d by (simp add: example_caller)
  qed (use s in \<open>simp_all add: canonical_runtime_ok example_http_def\<close>)
  then show ?thesis using h s(1) by blast
qed

text \<open>
  The exception at work: with the drift flag set the batch is committed, the client is told 500, and
  the key is free, so its retry books the batch again.
\<close>

lemma drift_commits_and_fails:
  "\<exists>r store'. handle_request (example_api ''1'') (transactions_create_endpoint (example_api ''1'')) alice_request
      (example_db, []) = (r, example_db2, store') \<and> status r = 500"
  using example_post [OF refl, of "''1''"] by (simp add: result_reply_def example_response)

theorem post_transactions_error_witness:
  "\<exists>r store'. handle_request (example_api ''1'') (transactions_create_endpoint (example_api ''1'')) alice_request
      (example_db, []) = (r, example_db2, store') \<and> status r = 500 \<and>
    js_map_get store' (idem_key alice_caller ''key-0001'') = None"
proof -
  obtain r store' where h: "handle_request (example_api ''1'') (transactions_create_endpoint (example_api ''1'')) alice_request
      (example_db, []) = (r, example_db2, store')" "status r = 500"
    using drift_commits_and_fails by blast
  have "status r \<noteq> 201" using h(2) by simp
  note e = post_transactions_error [OF h(1) this, of "''key-0001''"]
  have "js_map_get store' (idem_key alice_caller ''key-0001'') = None"
    using e example_caller [of example_db alice_request "''1''"] by (simp add: example_http_def current_def)
  then show ?thesis using h by blast
qed

end
