(* ===== verification/Cross_Rate.thy ===== *)
theory Cross_Rate
  imports Js_Number Fx_Rates
begin

text \<open>
  \<open>FxRatesService.getCrossRate\<close> (\<open>fx-rates/fx-rates.service.ts\<close>): the one place that divides
  doubles, and how far its answer is from the exact quotient of the two rates.
\<close>

definition getCrossRate ::
  "runtime \<Rightarrow> fx_cache \<Rightarrow> string \<Rightarrow> string \<Rightarrow> millis \<Rightarrow> db \<Rightarrow> exn + string" where
  "getCrossRate rt cache from to on db =
     (if from = to then Inr ''1''
      else bindE (getEffectiveRate rt cache from on db) (\<lambda>fromRate.
           bindE (getEffectiveRate rt cache to on db) (\<lambda>toRate.
           Inr (toFixed10 (js_divide (js_Number fromRate) (js_Number toRate))))))"

section \<open>How far the cross rate is from the quotient\<close>

lemma digits_no_point: "dec_acc a s = Some n \<Longrightarrow> CHR ''.'' \<notin> set s"
  using dec_acc_digits digit_val_point(1) by blast

lemma decimal_numeric_out:
  assumes "0 \<le> r"
  shows "decimal (numeric_out r) = Some (of_int r / 10 ^ 10)"
proof -
  define q m where "q = nat (r div 10000000000)" and "m = nat (r mod 10000000000)"
  have "0 \<le> r div 10000000000" using assms by (simp add: pos_imp_zdiv_nonneg_iff)
  then have "r = int q * 10000000000 + int m" "m < 10000000000"
    by (simp_all add: q_def m_def nat_less_iff)
  then have r: "(of_int r :: rat) = of_nat q * 10 ^ 10 + of_nat m" and m: "m < 10 ^ 10" by simp_all
  have "CHR ''.'' \<notin> set (nat_text q)" using digits_no_point [OF dec_acc_nat_text] .
  moreover have "CHR ''.'' \<notin> set (fixed_dec 10 m)" using digits_no_point [OF dec_acc_fixed_dec [OF m]] .
  moreover have "numeric_out r = nat_text q @ CHR ''.'' # fixed_dec 10 m"
    using assms by (simp add: numeric_out_def q_def m_def)
  ultimately have "js_split (CHR ''.'') (numeric_out r) = [nat_text q, fixed_dec 10 m]"
    by (simp only: js_split_append js_split_plain not_False_eq_True)
  moreover have "dec_val (fixed_dec 10 m) = Some m" using m by simp
  ultimately have "decimal (numeric_out r) = Some (of_nat q + of_nat m / 10 ^ 10)"
    by (simp add: decimal_def del: fixed_dec.simps)
  then show ?thesis unfolding r by (simp add: add_divide_distrib)
qed

lemma decimal_one: "decimal ''1'' = Some 1"
  by code_simp

text \<open>Three roundings: of the two rates and of their quotient.\<close>

lemma js_divide_err:
  assumes "0 \<le> f" "0 < t"
  shows "\<bar>to_double (to_double f / to_double t) - f / t\<bar> \<le> f / t * (4 / 2 ^ 53)"
proof -
  define e :: rat where "e = 1 / 2 ^ 53"
  define F T where "F = to_double f" and "T = to_double t"
  have F: "f - f * e \<le> F" "F \<le> f + f * e"
    using to_double_err [OF assms(1)] unfolding F_def e_def abs_le_iff by simp_all
  have T: "t - t * e \<le> T" "T \<le> t + t * e"
    using to_double_err [OF less_imp_le [OF assms(2)]] unfolding T_def e_def abs_le_iff by simp_all
  have Tp: "0 < T" using to_double_pos [OF assms(2)] by (simp add: T_def)
  have e: "0 < e" "e < 1 / 8" by (simp_all add: e_def)
  have Fp: "0 \<le> F" using F(1) mult_left_mono [OF less_imp_le [OF e(2)] assms(1)] assms(1) by simp
  define r where "r = f / t"
  have r: "0 \<le> r" "f = r * t" using assms by (simp_all add: r_def)
  have "F / T \<le> (f + f * e) / (t - t * e)"
    using F T Fp Tp assms e by (intro frac_le) simp_all
  also have "\<dots> = r * ((1 + e) / (1 - e))" using assms e by (simp add: r_def field_simps)
  finally have up: "F / T \<le> r * ((1 + e) / (1 - e))" .
  have "f * (1 - e) / (t * (1 + e)) \<le> F / T"
    using F T Fp Tp assms e by (intro frac_le) (simp_all add: algebra_simps)
  then have low: "r * ((1 - e) / (1 + e)) \<le> F / T" using assms e by (simp add: r_def field_simps)
  define Q where "Q = to_double (F / T)"
  have "\<bar>Q - F / T\<bar> \<le> F / T * e"
    using to_double_err [of "F / T"] Fp Tp by (simp add: Q_def e_def)
  then have Q: "Q \<le> F / T * (1 + e)" "F / T * (1 - e) \<le> Q" unfolding ring_distribs abs_le_iff by simp_all
  have "Q \<le> r * ((1 + e) / (1 - e)) * (1 + e)"
    using Q(1) mult_right_mono [OF up, of "1 + e"] e by linarith
  also have "\<dots> \<le> r * (1 + 4 * e)"
    unfolding mult.assoc by (rule mult_left_mono [OF _ r(1)]) (simp add: e_def)
  finally have 1: "Q \<le> r * (1 + 4 * e)" .
  have "r * (1 - 4 * e) \<le> r * ((1 - e) / (1 + e)) * (1 - e)"
    unfolding mult.assoc by (rule mult_left_mono [OF _ r(1)]) (simp add: e_def)
  also have "\<dots> \<le> Q" using Q(2) mult_right_mono [OF low, of "1 - e"] e by linarith
  finally show ?thesis using 1 by (simp add: Q_def F_def T_def r_def e_def abs_le_iff algebra_simps)
qed

lemma toFixed10_err: "\<bar>of_int \<lfloor>x * 10 ^ 10 + 1 / 2\<rfloor> / 10 ^ 10 - x\<bar> \<le> 1 / (2 * 10 ^ 10)" for x :: rat
proof -
  define n where "n = \<lfloor>x * 10 ^ 10 + 1 / 2\<rfloor>"
  have "of_int n \<le> x * 10 ^ 10 + 1 / 2" "x * 10 ^ 10 + 1 / 2 < of_int n + 1" unfolding n_def by linarith+
  then have "\<bar>of_int n - x * 10 ^ 10\<bar> \<le> 1 / 2" by (simp only: abs_le_iff) linarith
  moreover have "of_int n / 10 ^ 10 - x = (of_int n - x * 10 ^ 10) / 10 ^ 10" by (simp add: field_simps)
  ultimately have "\<bar>of_int n / 10 ^ 10 - x\<bar> \<le> 1 / 2 / 10 ^ 10" by (simp only: abs_divide) simp
  then show ?thesis unfolding n_def [symmetric] by simp
qed

lemma getCrossRate_value:
  assumes "from \<noteq> to" "getEffectiveRate rt cache from on db = Inr a" "getEffectiveRate rt cache to on db = Inr b"
  shows "getCrossRate rt cache from to on db = Inr (toFixed10 (js_divide (js_Number a) (js_Number b)))"
  using assms by (simp add: getCrossRate_def)

text \<open>A rate of zero, which the generated column can round to, is not caught.\<close>

lemma getCrossRate_zero:
  assumes "from \<noteq> to" "getEffectiveRate rt cache from on db = Inr a" "getEffectiveRate rt cache to on db = Inr b"
    and "decimal a = Some f" "0 < f" "decimal b = Some 0"
  shows "getCrossRate rt cache from to on db = Inr ''Infinity''"
  using getCrossRate_value [OF assms(1-3)] assms(4-6) to_double_pos [of f]
  by (simp add: js_Number_def to_double_def [of 0])

text \<open>
  (C35) The cross rate is the quotient of the two rates against the hryvnia, printed with ten
  decimals: it is off by at most half a unit of the tenth decimal and by the relative error of three
  roundings to a double. So doubles are enough here, as the comment of the method says.
\<close>

theorem getCrossRate_close:
  assumes "from \<noteq> to" "getEffectiveRate rt cache from on db = Inr a" "getEffectiveRate rt cache to on db = Inr b"
    and "decimal a = Some f" "decimal b = Some t" "0 \<le> f" "0 < t"
  shows "\<exists>n. getCrossRate rt cache from to on db = Inr (numeric_out n) \<and>
    \<bar>of_int n / 10 ^ 10 - f / t\<bar> \<le> 1 / (2 * 10 ^ 10) + f / t * (4 / 2 ^ 53)"
proof -
  define x where "x = to_double (to_double f / to_double t)"
  define n where "n = \<lfloor>x * 10 ^ 10 + 1 / 2\<rfloor>"
  have "getCrossRate rt cache from to on db = Inr (numeric_out n)"
    using getCrossRate_value [OF assms(1-3)] assms(4,5) to_double_pos [OF assms(7)]
    by (simp add: js_Number_def x_def n_def)
  moreover have "\<bar>of_int n / 10 ^ 10 - f / t\<bar> \<le> 1 / (2 * 10 ^ 10) + f / t * (4 / 2 ^ 53)"
    using toFixed10_err [of x] js_divide_err [OF assms(6,7)] unfolding n_def x_def by linarith
  ultimately show ?thesis by blast
qed

theorem getCrossRate_close_witness:
  "\<exists>n. getCrossRate canonical_runtime [] ''USD'' ''UAH'' 1767268800000 example_db = Inr (numeric_out n) \<and>
    \<bar>of_int n / 10 ^ 10 - 423456 / 10000 / 1\<bar> \<le> 1 / (2 * 10 ^ 10) + (423456 / 10000 / 1 :: rat) * (4 / 2 ^ 53)"
proof (rule getCrossRate_close)
  show "''USD'' \<noteq> ''UAH''" by simp
  show "getEffectiveRate canonical_runtime [] ''USD'' 1767268800000 example_db = Inr (numeric_out 423456000000)"
    by code_simp
  show "getEffectiveRate canonical_runtime [] ''UAH'' 1767268800000 example_db = Inr ''1''" by code_simp
  show "decimal (numeric_out 423456000000) = Some (423456 / 10000)" by (simp add: decimal_numeric_out)
  show "decimal ''1'' = Some 1" by (rule decimal_one)
  show "(0::rat) \<le> 423456 / 10000" "(0::rat) < 1" by simp_all
qed

end
