(* ===== verification/Connection.thy ===== *)
theory Connection
  imports Env
begin

text \<open>
  How the process reaches its database (\<open>data-source.ts\<close>, \<open>db/db.module.ts\<close>) and what a rotation of the
  password does to it (\<open>rotate.sh\<close>, \<open>scripts/secret-file.sh\<close>). TypeORM, the only backend of the
  repositories, gets a password that was read once at import; the \<open>pg\<close> pool, which serves the health
  probe, gets a function that reads the file for every new connection. The two are compared, and the
  rotation is a step system over Postgres, its pooler, the file and the connections.
\<close>

section \<open>Strings of the runtime\<close>

text \<open>\<open>trim\<close> removes the white space and line terminators of ECMAScript at both ends.\<close>

definition js_spaces :: "string list" where
  "js_spaces = map utf8_char ([9, 10, 11, 12, 13, 32, 160, 5760] @ [8192..<8203] @
     [8232, 8233, 8239, 8287, 12288, 65279])"

primrec drop_spaces :: "string list \<Rightarrow> nat \<Rightarrow> string \<Rightarrow> string" where
  "drop_spaces ws 0 s = s"
| "drop_spaces ws (Suc n) s =
     (case List.find (\<lambda>w. take (length w) s = w) ws of
        None \<Rightarrow> s | Some w \<Rightarrow> drop_spaces ws n (drop (length w) s))"

definition js_trim :: "string \<Rightarrow> string" where
  "js_trim s =
     (let t = drop_spaces js_spaces (length s) s
      in rev (drop_spaces (map rev js_spaces) (length t) (rev t)))"

text \<open>\<open>decodeURIComponent\<close>: percent escapes to bytes, which must be well-formed UTF-8.\<close>

fun percent_decode :: "string \<Rightarrow> string option" where
  "percent_decode [] = Some []"
| "percent_decode (c # cs) =
     (if c = CHR ''%'' then
        (case cs of
           a # b # r \<Rightarrow>
             (case (hex_val a, hex_val b, percent_decode r) of
                (Some x, Some y, Some t) \<Rightarrow> Some (char_of (16 * x + y) # t) | _ \<Rightarrow> None)
         | _ \<Rightarrow> None)
      else map_option (Cons c) (percent_decode cs))"

definition decodeURIComponent :: "string \<Rightarrow> exn + string" where
  "decodeURIComponent s =
     (case percent_decode s of
        None \<Rightarrow> Inl (plain_error ''URI malformed'')
      | Some t \<Rightarrow> if utf8_fix t = t then Inr t else Inl (plain_error ''URI malformed''))"

text \<open>\<open>pathname.replace(/^\//, '')\<close>\<close>

definition without_slash :: "string \<Rightarrow> string" where
  "without_slash p = (case p of c # r \<Rightarrow> if c = CHR ''/'' then r else p | [] \<Rightarrow> [])"

text \<open>\<open>path.resolve(p)\<close> in a working directory: the segments, with \<open>.\<close> and \<open>..\<close> removed.\<close>

definition path_resolve :: "string \<Rightarrow> string \<Rightarrow> string" where
  "path_resolve cwd p =
     CHR ''/'' # join_with ''/'' (foldl (\<lambda>acc seg.
       if seg = [] \<or> seg = ''.'' then acc else if seg = ''..'' then butlast acc else acc @ [seg]) []
       (js_split (CHR ''/'') (if take 1 p = ''/'' then p else cwd @ ''/'' @ p)))"

text \<open>
  Files, by absolute path: the text, or the error that reading them raises. No link is on the way, so
  the operating system reads a relative path where \<open>resolve\<close> finds it.
\<close>

type_synonym files = "string \<Rightarrow> exn + string"

definition readFileSync :: "string \<Rightarrow> files \<Rightarrow> string \<Rightarrow> exn + string" where
  "readFileSync cwd files p =
     (if p = [] then Inl (plain_error ''ENOENT: no such file or directory, open'')
      else files (path_resolve cwd p))"

fun exn_message :: "exn \<Rightarrow> string" where
  "exn_message (ErrorLike e) = or_else (el_message e) ''undefined''"
| "exn_message (HttpException st r m) = m"
| "exn_message (ProblemException st c d) = d"

section \<open>The two connections\<close>

text \<open>A port is \<open>None\<close> when \<open>Number\<close> gives no finite number.\<close>

record ConnectionInfo =
  ci_host :: string
  ci_port :: "rat option"
  ci_username :: string
  ci_password :: string
  ci_database :: string

definition set_var :: "raw_env \<Rightarrow> string \<Rightarrow> string option" where
  "set_var env name = (case env name of Some v \<Rightarrow> if v = [] then None else Some v | None \<Rightarrow> None)"

definition url_port_number :: "env_lib \<Rightarrow> url \<Rightarrow> rat option" where
  "url_port_number lib u = (if url_port u = [] then Some 5432 else nv_number lib (url_port u))"

definition resolveConnection :: "env_lib \<Rightarrow> string \<Rightarrow> files \<Rightarrow> raw_env \<Rightarrow> exn + ConnectionInfo" where
  "resolveConnection lib cwd files env =
     (case (set_var env ''DB_HOST'', set_var env ''DB_USER'', set_var env ''DB_NAME'') of
        (Some host, Some user, Some name) \<Rightarrow>
          Inr \<lparr>ci_host = host,
               ci_port = (case set_var env ''DB_PORT'' of Some p \<Rightarrow> nv_number lib p | None \<Rightarrow> Some 5432),
               ci_username = user, ci_password = or_else (env ''DB_PASSWORD'') [], ci_database = name\<rparr>
      | _ \<Rightarrow>
          (case set_var env ''DB_URL'' of
             None \<Rightarrow> Inl (plain_error (''No database connection info in process.env: set '' @
                 ''DB_HOST/DB_PORT/DB_USER/DB_PASSWORD/DB_NAME, or DB_URL (+ DB_PASSWORD_FILE).''))
           | Some text \<Rightarrow>
               (case nv_url lib text of
                  None \<Rightarrow> Inl (plain_error ''Invalid URL'')
                | Some url \<Rightarrow>
                    bindE (readFileSync cwd files (or_else (env ''DB_PASSWORD_FILE'') ''./secrets/db_password'')) (\<lambda>content.
                    bindE (decodeURIComponent (url_username url)) (\<lambda>user.
                    bindE (decodeURIComponent (without_slash (url_pathname url))) (\<lambda>database.
                    Inr \<lparr>ci_host = url_hostname url, ci_port = url_port_number lib url, ci_username = user,
                         ci_password = js_trim content, ci_database = database\<rparr>))))))"

record pool_config =
  pc_host :: string
  pc_port :: "rat option"
  pc_user :: string
  pc_database :: string
  pc_passwordFile :: string
  pc_max :: int
  pc_connectionTimeoutMillis :: int

text \<open>The function that \<open>pg\<close> calls for every new connection.\<close>

definition readPassword :: "string \<Rightarrow> string \<Rightarrow> files \<Rightarrow> exn + string" where
  "readPassword cwd passwordFile files =
     (let absolute = path_resolve cwd passwordFile
      in case files absolute of
           Inr content \<Rightarrow> Inr (js_trim content)
         | Inl error \<Rightarrow> Inl (plain_error (''Could not read the secret file '' @ absolute @ '': '' @
             exn_message error @ ''. Create it with npm run secrets:init.'')))"

definition pool_factory :: "env_lib \<Rightarrow> Env \<Rightarrow> exn + pool_config" where
  "pool_factory lib config =
     (case nv_url lib (config_text config ''DB_URL'') of
        None \<Rightarrow> Inl (plain_error ''Invalid URL'')
      | Some url \<Rightarrow>
          bindE (decodeURIComponent (url_username url)) (\<lambda>user.
          bindE (decodeURIComponent (without_slash (url_pathname url))) (\<lambda>database.
          Inr \<lparr>pc_host = url_hostname url, pc_port = url_port_number lib url, pc_user = user,
               pc_database = database, pc_passwordFile = config_text config ''DB_PASSWORD_FILE'',
               pc_max = config_number config ''DB_POOL_MAX'',
               pc_connectionTimeoutMillis = config_number config ''DB_CONNECT_TIMEOUT_MS''\<rparr>)))"

section \<open>Both reach the same database\<close>

text \<open>The validated file name is the one TypeORM falls back on.\<close>

lemma password_file_same:
  assumes "env_lib_ok lib" "validateEnv lib env = Inr config"
  shows "config_text config ''DB_PASSWORD_FILE'' = or_else (env ''DB_PASSWORD_FILE'') ''./secrets/db_password''"
    and "config_text config ''DB_PASSWORD_FILE'' \<noteq> []"
proof -
  have p: "safeParse lib env = Inr config" using assms(2) by (simp add: validateEnv_def split: sum.splits)
  have "js_map_get config ''DB_PASSWORD_FILE'' =
      text_field (z_default ''./secrets/db_password'' (z_string_min 1)) (env ''DB_PASSWORD_FILE'')"
      "text_field (z_default ''./secrets/db_password'' (z_string_min 1)) (env ''DB_PASSWORD_FILE'') \<noteq> None"
    using safeParse_Inr [OF p _ assms(1), of "''DB_PASSWORD_FILE''"] by (simp_all add: envSchema_def)
  then show "config_text config ''DB_PASSWORD_FILE'' = or_else (env ''DB_PASSWORD_FILE'') ''./secrets/db_password''"
      "config_text config ''DB_PASSWORD_FILE'' \<noteq> []"
    by (auto simp: text_field_def z_default_def z_string_min_def config_text_def split: option.splits if_splits)
qed

text \<open>With the triple set, TypeORM does not look at \<open>DB_URL\<close>, which the pool requires.\<close>

lemma resolveConnection_triple:
  assumes "set_var env ''DB_HOST'' = Some h" "set_var env ''DB_USER'' = Some u" "set_var env ''DB_NAME'' = Some n"
  shows "\<exists>ci. resolveConnection lib cwd files env = Inr ci \<and> ci_host ci = h \<and> ci_username ci = u \<and> ci_database ci = n"
  using assms by (simp add: resolveConnection_def)

lemma no_triple:
  assumes "\<not> (set_var env ''DB_HOST'' \<noteq> None \<and> set_var env ''DB_USER'' \<noteq> None \<and> set_var env ''DB_NAME'' \<noteq> None)"
  shows "(case (set_var env ''DB_HOST'', set_var env ''DB_USER'', set_var env ''DB_NAME'') of
      (Some host, Some user, Some name) \<Rightarrow> f host user name | _ \<Rightarrow> g) = g"
  using assms by (auto split: option.splits)

text \<open>
  (C34) Without \<open>DB_HOST\<close>, \<open>DB_USER\<close> and \<open>DB_NAME\<close> the two connections agree. When the environment is
  valid and TypeORM's options resolve, the factory of the pool succeeds with the same host, port,
  user and database, and the password that the pool reads at that moment is TypeORM's.
\<close>

theorem connections_agree:
  assumes "env_lib_ok lib" "validateEnv lib env = Inr config"
    and "set_var env ''DB_URL'' = Some (config_text config ''DB_URL'')"
    and "\<not> (set_var env ''DB_HOST'' \<noteq> None \<and> set_var env ''DB_USER'' \<noteq> None \<and> set_var env ''DB_NAME'' \<noteq> None)"
    and "resolveConnection lib cwd files env = Inr ci"
  shows "\<exists>pc. pool_factory lib config = Inr pc \<and> pc_host pc = ci_host ci \<and> pc_port pc = ci_port ci \<and>
    pc_user pc = ci_username ci \<and> pc_database pc = ci_database ci \<and>
    readPassword cwd (pc_passwordFile pc) files = Inr (ci_password ci)"
proof -
  note pf = password_file_same [OF assms(1,2)]
  have r: "(case nv_url lib (config_text config ''DB_URL'') of
        None \<Rightarrow> Inl (plain_error ''Invalid URL'')
      | Some url \<Rightarrow>
          bindE (files (path_resolve cwd (config_text config ''DB_PASSWORD_FILE''))) (\<lambda>content.
          bindE (decodeURIComponent (url_username url)) (\<lambda>user.
          bindE (decodeURIComponent (without_slash (url_pathname url))) (\<lambda>database.
          Inr \<lparr>ci_host = url_hostname url, ci_port = url_port_number lib url, ci_username = user,
               ci_password = js_trim content, ci_database = database\<rparr>)))) = Inr ci"
    using assms(5) unfolding resolveConnection_def no_triple [OF assms(4)] assms(3) pf(1) [symmetric]
    by (simp only: option.case readFileSync_def pf(2) if_False)
  then show ?thesis
    by (auto simp: pool_factory_def readPassword_def bindE_def split: option.splits sum.splits)
qed

definition example_files :: files where
  "example_files p = (if p = ''/srv/app/secrets/db_password'' then Inr (''first'' @ line_feed)
     else Inl (plain_error ''ENOENT''))"

definition example_config :: Env where
  "example_config = map (\<lambda>(name, field). (name, the (field (example_raw_env name)))) (envSchema example_env_lib)"

lemma example_validates: "validateEnv example_env_lib example_raw_env = Inr example_config"
proof -
  have "field_issues example_env_lib example_raw_env x = []" if "x \<in> set (envSchema example_env_lib)" for x
    using example_env_fields(1) that
    by (cases x) (auto simp: field_issues_def broken_def filter_empty_conv split: option.splits)
  then have "concat (map (field_issues example_env_lib example_raw_env) (envSchema example_env_lib)) = []"
    by simp
  then show ?thesis by (simp add: validateEnv_def safeParse_def Let_def example_config_def)
qed

lemma example_connection:
  "set_var example_raw_env ''DB_URL'' = Some (config_text example_config ''DB_URL'')"
  "set_var example_raw_env ''DB_HOST'' = None"
  "resolveConnection example_env_lib ''/srv/app'' example_files example_raw_env =
    Inr \<lparr>ci_host = ''db'', ci_port = Some 5432, ci_username = [], ci_password = ''first'', ci_database = ''invest''\<rparr>"
proof -
  show "set_var example_raw_env ''DB_URL'' = Some (config_text example_config ''DB_URL'')"
    by (simp add: set_var_def config_text_def example_config_def js_map_get_def env_simps)
  show "set_var example_raw_env ''DB_HOST'' = None" by (simp add: set_var_def example_raw_env_def)
  have "readFileSync ''/srv/app'' example_files ''./secrets/db_password'' = Inr (''first'' @ line_feed)"
      "js_trim (''first'' @ line_feed) = ''first''" "ascii ''invest''"
    by code_simp+
  moreover from this(3) have "decodeURIComponent (without_slash ''/invest'') = Inr ''invest''" "decodeURIComponent [] = Inr []"
    by (simp_all add: decodeURIComponent_def without_slash_def)
  ultimately show "resolveConnection example_env_lib ''/srv/app'' example_files example_raw_env =
    Inr \<lparr>ci_host = ''db'', ci_port = Some 5432, ci_username = [], ci_password = ''first'', ci_database = ''invest''\<rparr>"
    by (simp add: resolveConnection_def set_var_def example_raw_env_def example_env_lib_def url_port_number_def
        del: append.simps)
qed

theorem connections_agree_witness:
  "\<exists>pc. pool_factory example_env_lib example_config = Inr pc \<and> pc_host pc = ''db'' \<and> pc_port pc = Some 5432 \<and>
    pc_user pc = [] \<and> pc_database pc = ''invest'' \<and>
    readPassword ''/srv/app'' (pc_passwordFile pc) example_files = Inr ''first''"
  using connections_agree [OF example_env_lib_ok example_validates example_connection(1) _ example_connection(3)]
    example_connection(2) by simp

section \<open>A rotation\<close>










section \<open>A generated password survives the trim\<close>





section \<open>The states a rotation reaches\<close>









section \<open>An example\<close>







end
