(* ===== verification/Localize.thy ===== *)
theory Localize
  imports Codec
begin

text \<open>
  The texts of the API documentation in two languages and the translation of the generated document
  (\<open>i18n/swagger.ts\<close>). The document is JSON; \<open>structuredClone\<close> gives a copy that nobody else sees, so
  the rewriting in place of the copy is a function.
\<close>

section \<open>The catalog\<close>

datatype Locale = Locale_en | Locale_uk

definition DEFAULT_LOCALE :: Locale where
  "DEFAULT_LOCALE = Locale_en"

record catalog_entry =
  en :: string
  uk :: string

definition utf8_text :: "nat list \<Rightarrow> string" where
  "utf8_text = concat \<circ> map utf8_char"

definition catalog_1 :: "(string \<times> catalog_entry) list" where
  "catalog_1 = [
     (''info.title'', \<lparr>en = ''Invest API'' , uk = ''Invest API'' \<rparr>),
     (''info.description'', \<lparr>en =
     ''Money Manager with detailed investment tracking. The decorator spec is a promise; the runtime validator against openapi.yaml is the guardrail.''
     , uk = ''Money Manager '' @ utf8_text [1079, 32, 1076, 1077, 1090, 1072, 1083, 1100, 1085, 1080, 1084, 32, 1090,
     1088, 1077, 1082, 1110, 1085, 1075, 1086, 1084, 32, 1110, 1085, 1074, 1077, 1089, 1090, 1080, 1094, 1110, 1081] @
     ''. '' @ utf8_text [1057, 1087, 1077, 1082, 1072, 32, 1079, 32, 1076, 1077, 1082, 1086, 1088, 1072, 1090, 1086,
     1088, 1110, 1074, 32, 8212, 32, 1086, 1073, 1110, 1094, 1103, 1085, 1082, 1072] @ ''; runtime-'' @ utf8_text
     [1074, 1072, 1083, 1110, 1076, 1072, 1090, 1086, 1088, 32, 1087, 1088, 1086, 1090, 1080] @ '' openapi.yaml '' @
     utf8_text [8212, 32, 1079, 1072, 1087, 1086, 1073, 1110, 1078, 1085, 1080, 1082] @ ''.'' \<rparr>),
     (''info.server'', \<lparr>en = ''Local app with runtime validation against openapi.yaml'' , uk = utf8_text [1051,
     1086, 1082, 1072, 1083, 1100, 1085, 1080, 1081, 32, 1079, 1072, 1089, 1090, 1086, 1089, 1091, 1085, 1086, 1082,
     32, 1079] @ '' runtime-'' @ utf8_text [1074, 1072, 1083, 1110, 1076, 1072, 1094, 1110, 1108, 1102, 32, 1087,
     1088, 1086, 1090, 1080] @ '' openapi.yaml'' \<rparr>),
     (''tags.accounts'', \<lparr>en = ''Accounts '' @ utf8_text [8212] @ '' cash, bank, brokerage, property'' , uk =
     utf8_text [1056, 1072, 1093, 1091, 1085, 1082, 1080, 32, 8212, 32, 1075, 1086, 1090, 1110, 1074, 1082, 1072] @
     '', '' @ utf8_text [1073, 1072, 1085, 1082] @ '', '' @ utf8_text [1073, 1088, 1086, 1082, 1077, 1088, 1089, 1100,
     1082, 1080, 1081, 32, 1088, 1072, 1093, 1091, 1085, 1086, 1082] @ '', '' @ utf8_text [1085, 1077, 1088, 1091,
     1093, 1086, 1084, 1110, 1089, 1090, 1100]\<rparr>),
     (''tags.transactions'', \<lparr>en = ''Transactions '' @ utf8_text [8212] @
     '' income, expenses, transfers, buy and sell'' , uk = utf8_text [1058, 1088, 1072, 1085, 1079, 1072, 1082, 1094,
     1110, 1111, 32, 8212, 32, 1076, 1086, 1093, 1086, 1076, 1080] @ '', '' @ utf8_text [1074, 1080, 1090, 1088, 1072,
     1090, 1080] @ '', '' @ utf8_text [1087, 1077, 1088, 1077, 1082, 1072, 1079, 1080] @ '', '' @ utf8_text [1082,
     1091, 1087, 1110, 1074, 1083, 1103, 32, 1081, 32, 1087, 1088, 1086, 1076, 1072, 1078, 32, 1072, 1082, 1090, 1080,
     1074, 1110, 1074]\<rparr>),
     (''errors.badRequest'', \<lparr>en = ''Bad request'' , uk = utf8_text [1053, 1077, 1082, 1086, 1088, 1077, 1082,
     1090, 1085, 1080, 1081, 32, 1079, 1072, 1087, 1080, 1090]\<rparr>),
     (''errors.notFound'', \<lparr>en = ''Resource not found'' , uk = utf8_text [1056, 1077, 1089, 1091, 1088, 1089,
     32, 1085, 1077, 32, 1079, 1085, 1072, 1081, 1076, 1077, 1085, 1086]\<rparr>),
     (''errors.internal'', \<lparr>en = ''Internal server error'' , uk = utf8_text [1042, 1085, 1091, 1090, 1088,
     1110, 1096, 1085, 1103, 32, 1087, 1086, 1084, 1080, 1083, 1082, 1072, 32, 1089, 1077, 1088, 1074, 1077, 1088,
     1072]\<rparr>),
     (''accounts.list.summary'', \<lparr>en = ''List accounts'' , uk = utf8_text [1057, 1087, 1080, 1089, 1086, 1082,
     32, 1088, 1072, 1093, 1091, 1085, 1082, 1110, 1074]\<rparr>),
     (''accounts.list.badRequest'', \<lparr>en = ''Invalid limit or cursor'' , uk = utf8_text [1053, 1077, 1082, 1086,
     1088, 1077, 1082, 1090, 1085, 1080, 1081] @ '' limit '' @ utf8_text [1072, 1073, 1086] @ '' cursor'' \<rparr>),
     (''accounts.create.summary'', \<lparr>en = ''Create account'' , uk = utf8_text [1057, 1090, 1074, 1086, 1088,
     1080, 1090, 1080, 32, 1088, 1072, 1093, 1091, 1085, 1086, 1082]\<rparr>),
     (''accounts.create.location'', \<lparr>en = ''URI of the created account'' , uk = ''URI '' @ utf8_text [1089,
     1090, 1074, 1086, 1088, 1077, 1085, 1086, 1075, 1086, 32, 1088, 1072, 1093, 1091, 1085, 1082, 1091]\<rparr>),
     (''accounts.create.badRequest'', \<lparr>en = ''Request body failed validation'' , uk = utf8_text [1058, 1110,
     1083, 1086, 32, 1085, 1077, 32, 1087, 1088, 1086, 1081, 1096, 1083, 1086, 32, 1074, 1072, 1083, 1110, 1076, 1072,
     1094, 1110, 1102]\<rparr>),
     (''accounts.get.summary'', \<lparr>en = ''Get account'' , uk = utf8_text [1054, 1090, 1088, 1080, 1084, 1072,
     1090, 1080, 32, 1088, 1072, 1093, 1091, 1085, 1086, 1082]\<rparr>),
     (''accounts.get.badRequest'', \<lparr>en = ''account_id is not a UUID'' , uk = ''account_id '' @ utf8_text [1085,
     1077] @ '' UUID'' \<rparr>),
     (''accounts.get.notFound'', \<lparr>en = ''No account with this id'' , uk = utf8_text [1056, 1072, 1093, 1091,
     1085, 1086, 1082, 32, 1079, 32, 1090, 1072, 1082, 1080, 1084] @ '' id '' @ utf8_text [1085, 1077, 1084, 1072,
     1108]\<rparr>),
     (''transactions.list.summary'', \<lparr>en = ''List transactions'' , uk = utf8_text [1057, 1087, 1080, 1089,
     1086, 1082, 32, 1090, 1088, 1072, 1085, 1079, 1072, 1082, 1094, 1110, 1081]\<rparr>),
     (''transactions.list.badRequest'', \<lparr>en = ''Invalid limit, cursor, or account_id'' , uk = utf8_text [1053,
     1077, 1082, 1086, 1088, 1077, 1082, 1090, 1085, 1080, 1081] @ '' limit, cursor '' @ utf8_text [1072, 1073, 1086]
     @ '' account_id'' \<rparr>),
     (''transactions.list.notFound'', \<lparr>en = ''account_id filter points to a missing account'' , uk = utf8_text
     [1060, 1110, 1083, 1100, 1090, 1088] @ '' account_id '' @ utf8_text [1074, 1082, 1072, 1079, 1091, 1108, 32,
     1085, 1072, 32, 1088, 1072, 1093, 1091, 1085, 1086, 1082] @ '', '' @ utf8_text [1103, 1082, 1086, 1075, 1086, 32,
     1085, 1077, 1084, 1072, 1108]\<rparr>),
     (''transactions.create.summary'', \<lparr>en = ''Create transactions as a batch'' , uk = utf8_text [1057, 1090,
     1074, 1086, 1088, 1080, 1090, 1080, 32, 1090, 1088, 1072, 1085, 1079, 1072, 1082, 1094, 1110, 1111, 32, 1073,
     1072, 1090, 1095, 1077, 1084]\<rparr>),
     (''transactions.create.description'', \<lparr>en =
     ''The batch is applied atomically. Idempotency-Key is required: the same key and body return the same 201 with no second effect.''
     , uk = utf8_text [1041, 1072, 1090, 1095, 32, 1079, 1072, 1089, 1090, 1086, 1089, 1086, 1074, 1091, 1108, 1090,
     1100, 1089, 1103, 32, 1072, 1090, 1086, 1084, 1072, 1088, 1085, 1086] @ ''. Idempotency-Key '' @ utf8_text [1086,
     1073, 1086, 1074, 700, 1103, 1079, 1082, 1086, 1074, 1080, 1081] @ '': '' @ utf8_text [1090, 1086, 1081, 32,
     1089, 1072, 1084, 1080, 1081, 32, 1082, 1083, 1102, 1095, 32, 1110, 32, 1090, 1110, 1083, 1086, 32, 8212, 32,
     1090, 1086, 1081, 32, 1089, 1072, 1084, 1080, 1081] @ '' 201 '' @ utf8_text [1073, 1077, 1079, 32, 1087, 1086,
     1074, 1090, 1086, 1088, 1085, 1086, 1075, 1086, 32, 1077, 1092, 1077, 1082, 1090, 1091] @ ''.'' \<rparr>),
     (''transactions.create.idempotencyKey'', \<lparr>en =
     ''Safe-retry key. The same key and body return the same response plus Idempotency-Replay: true. A different body yields 422. An in-flight request yields 409. TTL is 24 hours.''
     , uk = utf8_text [1050, 1083, 1102, 1095, 32, 1073, 1077, 1079, 1087, 1077, 1095, 1085, 1086, 1075, 1086, 32,
     1087, 1086, 1074, 1090, 1086, 1088, 1091] @ ''. '' @ utf8_text [1058, 1086, 1081, 32, 1089, 1072, 1084, 1080,
     1081, 32, 1082, 1083, 1102, 1095, 32, 1110, 1079, 32, 1090, 1080, 1084, 32, 1089, 1072, 1084, 1080, 1084, 32,
     1090, 1110, 1083, 1086, 1084, 32, 1087, 1086, 1074, 1077, 1088, 1090, 1072, 1108, 32, 1090, 1091, 32, 1089, 1072,
     1084, 1091, 32, 1074, 1110, 1076, 1087, 1086, 1074, 1110, 1076, 1100, 32, 1110, 32, 1079, 1072, 1075, 1086, 1083,
     1086, 1074, 1086, 1082] @ '' Idempotency-Replay: true. '' @ utf8_text [1030, 1085, 1096, 1077, 32, 1090, 1110,
     1083, 1086, 32, 8212] @ '' 422. '' @ utf8_text [1047, 1072, 1087, 1080, 1090] @ '' in-flight '' @ utf8_text
     [8212] @ '' 409. TTL 24 '' @ utf8_text [1075, 1086, 1076, 1080, 1085, 1080] @ ''.'' \<rparr>)]"

definition catalog_2 :: "(string \<times> catalog_entry) list" where
  "catalog_2 = [
     (''transactions.create.idempotencyReplay'', \<lparr>en = ''true when this is a replay of the same key and body''
     , uk = ''true, '' @ utf8_text [1103, 1082, 1097, 1086, 32, 1094, 1077, 32, 1074, 1110, 1076, 1090, 1074, 1086,
     1088, 1077, 1085, 1072, 32, 1074, 1110, 1076, 1087, 1086, 1074, 1110, 1076, 1100, 32, 1085, 1072, 32, 1087, 1086,
     1074, 1090, 1086, 1088, 32, 1079, 32, 1090, 1080, 1084, 32, 1089, 1072, 1084, 1080, 1084, 32, 1082, 1083, 1102,
     1095, 1077, 1084, 32, 1110, 32, 1090, 1110, 1083, 1086, 1084]\<rparr>),
     (''transactions.create.badRequest'', \<lparr>en = ''Body or Idempotency-Key failed validation'' , uk = utf8_text
     [1058, 1110, 1083, 1086, 32, 1072, 1073, 1086] @ '' Idempotency-Key '' @ utf8_text [1085, 1077, 32, 1087, 1088,
     1086, 1081, 1096, 1083, 1080, 32, 1074, 1072, 1083, 1110, 1076, 1072, 1094, 1110, 1102]\<rparr>),
     (''transactions.create.notFound'', \<lparr>en = ''One of the accounts in entries does not exist'' , uk =
     utf8_text [1054, 1076, 1080, 1085, 32, 1110, 1079, 32, 1088, 1072, 1093, 1091, 1085, 1082, 1110, 1074, 32, 1091]
     @ '' entries '' @ utf8_text [1085, 1077, 32, 1110, 1089, 1085, 1091, 1108]\<rparr>),
     (''transactions.create.conflict'', \<lparr>en = ''A request with this Idempotency-Key is still in flight'' , uk =
     utf8_text [1047, 1072, 1087, 1080, 1090, 32, 1110, 1079, 32, 1094, 1080, 1084] @ '' Idempotency-Key '' @
     utf8_text [1097, 1077, 32, 1074, 1080, 1082, 1086, 1085, 1091, 1108, 1090, 1100, 1089, 1103]\<rparr>),
     (''transactions.create.unprocessable'', \<lparr>en =
     ''Idempotency-Key reused with a different body, or currency does not match the account'' , uk = utf8_text [1056,
     1077, 1102, 1079] @ '' Idempotency-Key '' @ utf8_text [1079, 32, 1110, 1085, 1096, 1080, 1084, 32, 1090, 1110,
     1083, 1086, 1084, 32, 1072, 1073, 1086, 32, 1074, 1072, 1083, 1102, 1090, 1072, 32, 1085, 1077, 32, 1079, 1073,
     1110, 1075, 1072, 1108, 1090, 1100, 1089, 1103, 32, 1079, 32, 1088, 1072, 1093, 1091, 1085, 1082, 1086,
     1084]\<rparr>),
     (''transactions.get.summary'', \<lparr>en = ''Get transaction'' , uk = utf8_text [1054, 1090, 1088, 1080, 1084,
     1072, 1090, 1080, 32, 1090, 1088, 1072, 1085, 1079, 1072, 1082, 1094, 1110, 1102]\<rparr>),
     (''transactions.get.badRequest'', \<lparr>en = ''transaction_id is not a UUID'' , uk = ''transaction_id '' @
     utf8_text [1085, 1077] @ '' UUID'' \<rparr>),
     (''transactions.get.notFound'', \<lparr>en = ''No transaction with this id'' , uk = utf8_text [1058, 1088, 1072,
     1085, 1079, 1072, 1082, 1094, 1110, 1111, 32, 1079, 32, 1090, 1072, 1082, 1080, 1084] @ '' id '' @ utf8_text
     [1085, 1077, 1084, 1072, 1108]\<rparr>),
     (''dto.page.limit'', \<lparr>en = ''How many records to return on one page.'' , uk = utf8_text [1057, 1082, 1110,
     1083, 1100, 1082, 1080, 32, 1079, 1072, 1087, 1080, 1089, 1110, 1074, 32, 1087, 1086, 1074, 1077, 1088, 1085,
     1091, 1090, 1080, 32, 1085, 1072, 32, 1086, 1076, 1085, 1110, 1081, 32, 1089, 1090, 1086, 1088, 1110, 1085, 1094,
     1110] @ ''.'' \<rparr>),
     (''dto.page.cursor'', \<lparr>en =
     ''Opaque next-page token from next_cursor. Clients must not parse or construct it.'' , uk = utf8_text [1053,
     1077, 1087, 1088, 1086, 1079, 1086, 1088, 1080, 1081, 32, 1090, 1086, 1082, 1077, 1085, 32, 1085, 1072, 1089,
     1090, 1091, 1087, 1085, 1086, 1111, 32, 1089, 1090, 1086, 1088, 1110, 1085, 1082, 1080, 32, 1079] @
     '' next_cursor. '' @ utf8_text [1050, 1083, 1110, 1108, 1085, 1090, 32, 1085, 1077, 32, 1087, 1072, 1088, 1089,
     1080, 1090, 1100, 32, 1110, 32, 1085, 1077, 32, 1082, 1086, 1085, 1089, 1090, 1088, 1091, 1102, 1108, 32, 1081,
     1086, 1075, 1086, 32, 1089, 1072, 1084, 1086, 1089, 1090, 1110, 1081, 1085, 1086] @ ''.'' \<rparr>),
     (''dto.page.nextCursor'', \<lparr>en = ''Opaque next-page cursor. null means there are no more pages.'' , uk =
     utf8_text [1053, 1077, 1087, 1088, 1086, 1079, 1086, 1088, 1080, 1081, 32, 1082, 1091, 1088, 1089, 1086, 1088,
     32, 1085, 1072, 1089, 1090, 1091, 1087, 1085, 1086, 1111, 32, 1089, 1090, 1086, 1088, 1110, 1085, 1082, 1080] @
     ''. null '' @ utf8_text [8212, 32, 1089, 1090, 1086, 1088, 1110, 1085, 1086, 1082, 32, 1073, 1110, 1083, 1100,
     1096, 1077, 32, 1085, 1077, 1084, 1072, 1108] @ ''.'' \<rparr>),
     (''dto.account.balanceCents'', \<lparr>en =
     ''Current balance in cents of the account currency. Integer only: money is never a float.'' , uk = utf8_text
     [1055, 1086, 1090, 1086, 1095, 1085, 1080, 1081, 32, 1073, 1072, 1083, 1072, 1085, 1089, 32, 1091, 32, 1082,
     1086, 1087, 1110, 1081, 1082, 1072, 1093] @ ''/'' @ utf8_text [1094, 1077, 1085, 1090, 1072, 1093, 32, 1074,
     1072, 1083, 1102, 1090, 1080, 32, 1088, 1072, 1093, 1091, 1085, 1082, 1091] @ ''. '' @ utf8_text [1062, 1110,
     1083, 1077, 32, 1095, 1080, 1089, 1083, 1086] @ '': '' @ utf8_text [1075, 1088, 1086, 1096, 1110, 32, 1085, 1110,
     1082, 1086, 1083, 1080, 32, 1085, 1077] @ '' float.'' \<rparr>),
     (''dto.account.openingBalance'', \<lparr>en = ''Opening balance in cents. Integer only.'' , uk = utf8_text [1055,
     1086, 1095, 1072, 1090, 1082, 1086, 1074, 1080, 1081, 32, 1073, 1072, 1083, 1072, 1085, 1089, 32, 1091, 32, 1082,
     1086, 1087, 1110, 1081, 1082, 1072, 1093] @ ''/'' @ utf8_text [1094, 1077, 1085, 1090, 1072, 1093] @ ''. '' @
     utf8_text [1062, 1110, 1083, 1077, 32, 1095, 1080, 1089, 1083, 1086] @ ''.'' \<rparr>),
     (''dto.transactions.accountId'', \<lparr>en = ''Show transactions for this account only.'' , uk = utf8_text
     [1055, 1086, 1082, 1072, 1079, 1072, 1090, 1080, 32, 1090, 1088, 1072, 1085, 1079, 1072, 1082, 1094, 1110, 1111,
     32, 1083, 1080, 1096, 1077, 32, 1094, 1100, 1086, 1075, 1086, 32, 1088, 1072, 1093, 1091, 1085, 1082, 1091] @
     ''.'' \<rparr>),
     (''dto.transaction.amountCents'', \<lparr>en = ''Amount in cents, always non-negative. Integer only.'' , uk =
     utf8_text [1057, 1091, 1084, 1072, 32, 1074, 32, 1082, 1086, 1087, 1110, 1081, 1082, 1072, 1093] @ ''/'' @
     utf8_text [1094, 1077, 1085, 1090, 1072, 1093] @ '', '' @ utf8_text [1079, 1072, 1074, 1078, 1076, 1080, 32,
     1085, 1077, 1074, 1110, 1076, 700, 1108, 1084, 1085, 1072] @ ''. '' @ utf8_text [1062, 1110, 1083, 1077, 32,
     1095, 1080, 1089, 1083, 1086] @ ''.'' \<rparr>),
     (''dto.transaction.bookedAt'', \<lparr>en =
     ''When the operation was booked to the account (ISO 20022 BookingDate) '' @ utf8_text [8212] @
     '' unlike created_at, which is when the record appeared here.'' , uk = utf8_text [1050, 1086, 1083, 1080, 32,
     1086, 1087, 1077, 1088, 1072, 1094, 1110, 1102, 32, 1087, 1088, 1086, 1074, 1077, 1076, 1077, 1085, 1086, 32,
     1087, 1086, 32, 1088, 1072, 1093, 1091, 1085, 1082, 1091] @ '' (BookingDate '' @ utf8_text [1079, 1072] @
     '' ISO 20022) '' @ utf8_text [8212, 32, 1085, 1072, 32, 1074, 1110, 1076, 1084, 1110, 1085, 1091, 32, 1074, 1110,
     1076] @ '' created_at, '' @ utf8_text [1082, 1086, 1083, 1080, 32, 1079, 700, 1103, 1074, 1080, 1074, 1089, 1103,
     32, 1089, 1072, 1084, 32, 1079, 1072, 1087, 1080, 1089] @ ''.'' \<rparr>),
     (''dto.transaction.quantityMicro'', \<lparr>en = ''Instrument quantity '' @ utf8_text [215] @
     '' 10^6. 10 shares = 10000000. null for non-investment types.'' , uk = utf8_text [1050, 1110, 1083, 1100, 1082,
     1110, 1089, 1090, 1100, 32, 1110, 1085, 1089, 1090, 1088, 1091, 1084, 1077, 1085, 1090, 1091, 32, 215] @
     '' 10^6. 10 '' @ utf8_text [1072, 1082, 1094, 1110, 1081] @ '' = 10000000. null '' @ utf8_text [1076, 1083, 1103,
     32, 1085, 1077] @ ''-'' @ utf8_text [1110, 1085, 1074, 1077, 1089, 1090, 1080, 1094, 1110, 1081, 1085, 1080,
     1093, 32, 1090, 1080, 1087, 1110, 1074] @ ''.'' \<rparr>),
     (''dto.transaction.entries'', \<lparr>en = ''Non-empty list of transactions created atomically.'' , uk =
     utf8_text [1053, 1077, 1087, 1086, 1088, 1086, 1078, 1085, 1110, 1081, 32, 1089, 1087, 1080, 1089, 1086, 1082,
     32, 1090, 1088, 1072, 1085, 1079, 1072, 1082, 1094, 1110, 1081] @ '', '' @ utf8_text [1103, 1082, 1110, 32, 1089,
     1090, 1074, 1086, 1088, 1102, 1102, 1090, 1100, 1089, 1103, 32, 1072, 1090, 1086, 1084, 1072, 1088, 1085, 1086] @
     ''.'' \<rparr>),
     (''dto.problem.title'', \<lparr>en = ''Resource not found'' , uk = utf8_text [1056, 1077, 1089, 1091, 1088, 1089,
     32, 1085, 1077, 32, 1079, 1085, 1072, 1081, 1076, 1077, 1085, 1086]\<rparr>),
     (''dto.problem.detail'', \<lparr>en = ''account 00000000-0000-4000-8000-000000000000 was not found'' , uk =
     utf8_text [1088, 1072, 1093, 1091, 1085, 1086, 1082] @ '' 00000000-0000-4000-8000-000000000000 '' @ utf8_text
     [1085, 1077, 32, 1079, 1085, 1072, 1081, 1076, 1077, 1085, 1086]\<rparr>),
     (''tags.health'', \<lparr>en = ''Health '' @ utf8_text [8212] @ '' liveness and database readiness'' , uk =
     ''Health '' @ utf8_text [8212, 32, 1078, 1080, 1074, 1091, 1095, 1110, 1089, 1090, 1100, 32, 1087, 1088, 1086,
     1094, 1077, 1089, 1091, 32, 1110, 32, 1076, 1086, 1089, 1090, 1091, 1087, 1085, 1110, 1089, 1090, 1100, 32, 1041,
     1044]\<rparr>)]"

definition catalog_3 :: "(string \<times> catalog_entry) list" where
  "catalog_3 = [
     (''tags.fxRates'', \<lparr>en = ''FX rates '' @ utf8_text [8212] @
     '' currency rate lookups backing transaction snapshots'' , uk = utf8_text [1050, 1091, 1088, 1089, 1080, 32,
     1074, 1072, 1083, 1102, 1090, 32, 8212, 32, 1076, 1086, 1074, 1110, 1076, 1082, 1072, 32, 1087, 1086, 32, 1082,
     1091, 1088, 1089, 1072, 1093] @ '', '' @ utf8_text [1103, 1082, 1080, 1084, 1080, 32, 1079, 1085, 1110, 1084,
     1082, 1080, 32, 1085, 1072, 32, 1090, 1088, 1072, 1085, 1079, 1072, 1082, 1094, 1110, 1103, 1093]\<rparr>),
     (''tags.currencies'', \<lparr>en = ''Currencies '' @ utf8_text [8212] @
     '' the ISO 4217 lookup table accounts, transactions, and fx-rates read from'' , uk = utf8_text [1042, 1072, 1083,
     1102, 1090, 1080, 32, 8212, 32, 1076, 1086, 1074, 1110, 1076, 1085, 1080, 1082] @ '' ISO 4217, '' @ utf8_text
     [1079, 32, 1103, 1082, 1086, 1075, 1086, 32, 1095, 1080, 1090, 1072, 1102, 1090, 1100, 32, 1088, 1072, 1093,
     1091, 1085, 1082, 1080] @ '', '' @ utf8_text [1090, 1088, 1072, 1085, 1079, 1072, 1082, 1094, 1110, 1111, 32,
     1081, 32, 1082, 1091, 1088, 1089, 1080]\<rparr>),
     (''fxRates.get.summary'', \<lparr>en = ''Get latest fx rate'' , uk = utf8_text [1054, 1090, 1088, 1080, 1084,
     1072, 1090, 1080, 32, 1086, 1089, 1090, 1072, 1085, 1085, 1110, 1081, 32, 1082, 1091, 1088, 1089, 32, 1074, 1072,
     1083, 1102, 1090, 1080]\<rparr>),
     (''fxRates.get.badRequest'', \<lparr>en =
     ''currency is not a supported ISO 4217 code, or on is not a valid date'' , uk = ''currency '' @ utf8_text [1085,
     1077, 32, 1087, 1110, 1076, 1090, 1088, 1080, 1084, 1091, 1108, 1090, 1100, 1089, 1103] @ '', '' @ utf8_text
     [1072, 1073, 1086] @ '' on '' @ utf8_text [8212, 32, 1085, 1077, 1082, 1086, 1088, 1077, 1082, 1090, 1085, 1072,
     32, 1076, 1072, 1090, 1072]\<rparr>),
     (''fxRates.get.notFound'', \<lparr>en = ''No fx rate on or before the given date for this currency'' , uk =
     utf8_text [1053, 1077, 1084, 1072, 1108, 32, 1082, 1091, 1088, 1089, 1091, 32, 1085, 1072, 32, 1079, 1072, 1076,
     1072, 1085, 1091, 32, 1076, 1072, 1090, 1091, 32, 1095, 1080, 32, 1088, 1072, 1085, 1110, 1096, 1077, 32, 1076,
     1083, 1103, 32, 1094, 1110, 1108, 1111, 32, 1074, 1072, 1083, 1102, 1090, 1080]\<rparr>),
     (''dto.fxRate.on'', \<lparr>en =
     ''Resolve the rate as of this date (defaults to today). The latest rate on or before it is returned.'' , uk =
     utf8_text [1050, 1091, 1088, 1089, 32, 1085, 1072, 32, 1094, 1102, 32, 1076, 1072, 1090, 1091] @ '' ('' @
     utf8_text [1079, 1072, 32, 1079, 1072, 1084, 1086, 1074, 1095, 1091, 1074, 1072, 1085, 1085, 1103, 1084, 32,
     8212, 32, 1089, 1100, 1086, 1075, 1086, 1076, 1085, 1110] @ ''). '' @ utf8_text [1055, 1086, 1074, 1077, 1088,
     1090, 1072, 1108, 1090, 1100, 1089, 1103, 32, 1086, 1089, 1090, 1072, 1085, 1085, 1110, 1081, 32, 1082, 1091,
     1088, 1089, 32, 1085, 1072, 32, 1094, 1102, 32, 1076, 1072, 1090, 1091, 32, 1072, 1073, 1086, 32, 1088, 1072,
     1085, 1110, 1096, 1077] @ ''.'' \<rparr>),
     (''currencies.list.summary'', \<lparr>en = ''List currencies'' , uk = utf8_text [1057, 1087, 1080, 1089, 1086,
     1082, 32, 1074, 1072, 1083, 1102, 1090]\<rparr>),
     (''currencies.get.summary'', \<lparr>en = ''Get currency'' , uk = utf8_text [1054, 1090, 1088, 1080, 1084, 1072,
     1090, 1080, 32, 1074, 1072, 1083, 1102, 1090, 1091]\<rparr>),
     (''currencies.get.badRequest'', \<lparr>en = ''code is not a 3-letter uppercase ISO 4217 code'' , uk = ''code ''
     @ utf8_text [1085, 1077, 32, 1108] @ '' 3-'' @ utf8_text [1083, 1110, 1090, 1077, 1088, 1085, 1080, 1084, 32,
     1082, 1086, 1076, 1086, 1084] @ '' ISO 4217 '' @ utf8_text [1091, 32, 1074, 1077, 1088, 1093, 1085, 1100, 1086,
     1084, 1091, 32, 1088, 1077, 1075, 1110, 1089, 1090, 1088, 1110]\<rparr>),
     (''currencies.get.notFound'', \<lparr>en = ''No currency with this code'' , uk = utf8_text [1042, 1072, 1083,
     1102, 1090, 1080, 32, 1079, 32, 1090, 1072, 1082, 1080, 1084, 32, 1082, 1086, 1076, 1086, 1084, 32, 1085, 1077,
     1084, 1072, 1108]\<rparr>),
     (''dto.currency.code'', \<lparr>en = ''ISO 4217 alphabetic code.'' , uk = utf8_text [1051, 1110, 1090, 1077,
     1088, 1085, 1080, 1081, 32, 1082, 1086, 1076] @ '' ISO 4217.'' \<rparr>),
     (''dto.currency.numericCode'', \<lparr>en = ''ISO 4217 numeric code.'' , uk = utf8_text [1063, 1080, 1089, 1083,
     1086, 1074, 1080, 1081, 32, 1082, 1086, 1076] @ '' ISO 4217.'' \<rparr>),
     (''dto.currency.exponent'', \<lparr>en =
     ''Number of digits after the decimal point in the minor unit (2 for cents, 0 for JPY, 3 for TND).'' , uk =
     utf8_text [1050, 1110, 1083, 1100, 1082, 1110, 1089, 1090, 1100, 32, 1079, 1085, 1072, 1082, 1110, 1074, 32,
     1087, 1110, 1089, 1083, 1103, 32, 1082, 1086, 1084, 1080, 32, 1074, 32, 1084, 1110, 1085, 1086, 1088, 1085, 1110,
     1081, 32, 1086, 1076, 1080, 1085, 1080, 1094, 1110] @ '' (2 '' @ utf8_text [1076, 1083, 1103, 32, 1082, 1086,
     1087, 1110, 1081, 1086, 1082] @ ''/'' @ utf8_text [1094, 1077, 1085, 1090, 1110, 1074] @ '', 0 '' @ utf8_text
     [1076, 1083, 1103] @ '' JPY, 3 '' @ utf8_text [1076, 1083, 1103] @ '' TND).'' \<rparr>),
     (''health.liveness.summary'', \<lparr>en = ''Liveness probe'' , uk = utf8_text [1055, 1077, 1088, 1077, 1074,
     1110, 1088, 1082, 1072, 32, 1078, 1080, 1074, 1091, 1095, 1086, 1089, 1090, 1110, 32, 1087, 1088, 1086, 1094,
     1077, 1089, 1091]\<rparr>),
     (''health.db.summary'', \<lparr>en = ''Database readiness probe'' , uk = utf8_text [1055, 1077, 1088, 1077, 1074,
     1110, 1088, 1082, 1072, 32, 1076, 1086, 1089, 1090, 1091, 1087, 1085, 1086, 1089, 1090, 1110, 32, 1073, 1072,
     1079, 1080, 32, 1076, 1072, 1085, 1080, 1093]\<rparr>),
     (''health.db.unavailable'', \<lparr>en = ''The database did not answer'' , uk = utf8_text [1041, 1072, 1079,
     1072, 32, 1076, 1072, 1085, 1080, 1093, 32, 1085, 1077, 32, 1074, 1110, 1076, 1087, 1086, 1074, 1110, 1083,
     1072]\<rparr>),
     (''dto.health.uptime'', \<lparr>en = ''Process uptime in seconds. It does not reset on a password rotation.'' ,
     uk = utf8_text [1063, 1072, 1089, 32, 1078, 1080, 1090, 1090, 1103, 32, 1087, 1088, 1086, 1094, 1077, 1089, 1091,
     32, 1074, 32, 1089, 1077, 1082, 1091, 1085, 1076, 1072, 1093] @ ''. '' @ utf8_text [1056, 1086, 1090, 1072, 1094,
     1110, 1103, 32, 1087, 1072, 1088, 1086, 1083, 1103, 32, 1081, 1086, 1075, 1086, 32, 1085, 1077, 32, 1086, 1073,
     1085, 1091, 1083, 1103, 1108] @ ''.'' \<rparr>),
     (''dto.health.latency'', \<lparr>en = ''Round trip to Postgres in milliseconds.'' , uk = utf8_text [1063, 1072,
     1089, 32, 1086, 1073, 1110, 1075, 1091, 32, 1079, 1072, 1087, 1080, 1090, 1091, 32, 1076, 1086] @ '' Postgres ''
     @ utf8_text [1091, 32, 1084, 1110, 1083, 1110, 1089, 1077, 1082, 1091, 1085, 1076, 1072, 1093] @ ''.'' \<rparr>),
     (''dto.health.probeRows'', \<lparr>en = ''Rows read from health_probe '' @ utf8_text [8212] @
     '' proof the query reached real data.'' , uk = utf8_text [1055, 1088, 1086, 1095, 1080, 1090, 1072, 1085, 1086,
     32, 1088, 1103, 1076, 1082, 1110, 1074, 32, 1110, 1079] @ '' health_probe '' @ utf8_text [8212, 32, 1076, 1086,
     1082, 1072, 1079] @ '', '' @ utf8_text [1097, 1086, 32, 1079, 1072, 1087, 1080, 1090, 32, 1076, 1110, 1081, 1096,
     1086, 1074, 32, 1076, 1086, 32, 1088, 1077, 1072, 1083, 1100, 1085, 1080, 1093, 32, 1076, 1072, 1085, 1080, 1093]
     @ ''.'' \<rparr>),
     (''dto.health.poolTotal'', \<lparr>en = ''Connections currently held m the pool.'' , uk = utf8_text [1057, 1082,
     1110, 1083, 1100, 1082, 1080, 32, 1079, 700, 1108, 1076, 1085, 1072, 1085, 1100, 32, 1079, 1072, 1088, 1072,
     1079, 32, 1090, 1088, 1080, 1084, 1072, 1108, 32, 1087, 1091, 1083] @ ''.'' \<rparr>)]"

definition catalog :: "(string, catalog_entry) js_map" where
  "catalog = catalog_1 @ catalog_2 @ catalog_3"

fun in_locale :: "catalog_entry \<Rightarrow> Locale \<Rightarrow> string" where
  "in_locale entry Locale_en = en entry"
| "in_locale entry Locale_uk = uk entry"

text \<open>\<open>SwaggerI18nKey\<close> is the type of the keys of the catalog, so a lookup finds its entry.\<close>

definition i18n :: "string \<Rightarrow> Locale \<Rightarrow> string" where
  "i18n key locale = (case js_map_get catalog key of Some entry \<Rightarrow> in_locale entry locale | None \<Rightarrow> [])"

section \<open>The translation\<close>

definition TRANSLATABLE_FIELDS :: "string list" where
  "TRANSLATABLE_FIELDS = [''summary'', ''description'', ''title'', ''example'']"

definition byEnglish :: "Locale \<Rightarrow> (string, string) js_map" where
  "byEnglish locale = js_map_of (map (\<lambda>(key, entry). (en entry, in_locale entry locale)) catalog)"

text \<open>\<open>if (translated)\<close>: a missing or an empty translation leaves the text.\<close>

definition translate_text :: "(string, string) js_map \<Rightarrow> string \<Rightarrow> string" where
  "translate_text m s = (case js_map_get m s of Some t \<Rightarrow> if t = [] then s else t | None \<Rightarrow> s)"

fun translatable :: "string \<Rightarrow> json \<Rightarrow> bool" where
  "translatable key (JStr s) = (key \<in> set TRANSLATABLE_FIELDS)"
| "translatable key v = False"

fun translate_string :: "(string, string) js_map \<Rightarrow> json \<Rightarrow> json" where
  "translate_string m (JStr s) = JStr (translate_text m s)"
| "translate_string m v = v"

fun translateNode :: "(string, string) js_map \<Rightarrow> json \<Rightarrow> json" where
  "translateNode m (JArr items) = JArr (map (translateNode m) items)"
| "translateNode m (JObj record) =
     JObj (map (\<lambda>(key, value). (key,
       if translatable key value then translate_string m value else translateNode m value)) record)"
| "translateNode m node = node"

definition localizeOpenApiDocument :: "json \<Rightarrow> Locale \<Rightarrow> json" where
  "localizeOpenApiDocument document locale =
     (if locale = DEFAULT_LOCALE then document else translateNode (byEnglish locale) document)"

section \<open>What the translation keeps\<close>

text \<open>The document with every translatable text blanked out: its structure and all that a client reads.\<close>

fun skeleton :: "json \<Rightarrow> json" where
  "skeleton (JArr items) = JArr (map skeleton items)"
| "skeleton (JObj record) =
     JObj (map (\<lambda>(key, value). (key, if translatable key value then JStr [] else skeleton value)) record)"
| "skeleton node = node"

lemma translatable_iff: "translatable key v \<longleftrightarrow> (\<exists>s. v = JStr s) \<and> key \<in> set TRANSLATABLE_FIELDS"
  by (cases v) auto

lemma translateNode_str [simp]: "translateNode m v = JStr s \<longleftrightarrow> v = JStr s"
  by (cases v) auto

lemma translatable_translate [simp]:
  "translatable key (if translatable key v then translate_string m v else translateNode m v) = translatable key v"
  by (cases v) (auto simp: translatable_iff)

lemma skeleton_translateNode: "skeleton (translateNode m d) = skeleton d"
proof (induction d rule: skeleton.induct)
  case (2 fields)
  have "(if translatable k (if translatable k v then translate_string m v else translateNode m v) then JStr []
      else skeleton (if translatable k v then translate_string m v else translateNode m v)) =
      (if translatable k v then JStr [] else skeleton v)" if "(k, v) \<in> set fields" for k v
    using 2 that by auto
  then show ?case by (auto simp: comp_def case_prod_beta)
qed simp_all

text \<open>Translating is idempotent when no translation is itself translated into something else.\<close>

definition settled :: "(string, string) js_map \<Rightarrow> bool" where
  "settled m \<longleftrightarrow> list_all (\<lambda>(s, t). translate_text m t = t) m"

lemma translate_text_settled:
  assumes "settled m"
  shows "translate_text m (translate_text m s) = translate_text m s"
proof (cases "js_map_get m s")
  case (Some t)
  then have "(s, t) \<in> set m" by (simp add: js_map_get_def map_of_SomeD)
  then have "translate_text m t = t" using assms by (auto simp: settled_def list_all_iff)
  then show ?thesis using Some by (simp add: translate_text_def)
qed (simp add: translate_text_def)

lemma translateNode_idem:
  assumes "settled m"
  shows "translateNode m (translateNode m d) = translateNode m d"
proof (induction d rule: skeleton.induct)
  case (2 fields)
  have "(if translatable k v then translate_string m (if translatable k v then translate_string m v else translateNode m v)
        else translateNode m (if translatable k v then translate_string m v else translateNode m v)) =
      (if translatable k v then translate_string m v else translateNode m v)" if "(k, v) \<in> set fields" for k v
    using 2 that translate_text_settled [OF assms] by (auto simp: translatable_iff)
  then show ?case by (auto simp: comp_def case_prod_beta)
qed simp_all

section \<open>The catalog is consistent\<close>

lemma utf8_text_Cons: "utf8_text (u # us) = utf8_char u @ utf8_text us" "utf8_text [] = []"
  by (simp_all add: utf8_text_def)

text \<open>The two signs outside ASCII in English texts: the dash and the multiplication sign.\<close>

lemma utf8_signs:
  "utf8_text (8212 # us) = CHR 0xE2 # CHR 0x80 # CHR 0x94 # utf8_text us"
  "utf8_text (215 # us) = CHR 0xC3 # CHR 0x97 # utf8_text us" "utf8_text [] = []"
proof -
  have "utf8_char 8212 = [CHR 0xE2, CHR 0x80, CHR 0x94]" "utf8_char 215 = [CHR 0xC3, CHR 0x97]" by code_simp+
  then show "utf8_text (8212 # us) = CHR 0xE2 # CHR 0x80 # CHR 0x94 # utf8_text us"
    "utf8_text (215 # us) = CHR 0xC3 # CHR 0x97 # utf8_text us" "utf8_text [] = []"
    by (simp_all add: utf8_text_Cons)
qed

text \<open>Three bytes of a text, zero behind its end, tell the English texts apart.\<close>

definition byte_at :: "nat \<Rightarrow> string \<Rightarrow> nat" where
  "byte_at i s = (case drop i s of [] \<Rightarrow> 0 | c # r \<Rightarrow> of_char c)"

definition trait :: "string \<Rightarrow> nat" where
  "trait s = 65536 * byte_at 0 s + 256 * byte_at 5 s + byte_at 19 s"

text \<open>A Ukrainian text has a letter of its alphabet, an English one has not.\<close>

definition cyrillic :: "string \<Rightarrow> bool" where
  "cyrillic s \<longleftrightarrow> (\<exists>c\<in>set s. c = CHR 0xD0 \<or> c = CHR 0xD1)"

text \<open>The conditions come first: a text is not read further than to its first letter.\<close>

lemma cyrillic_utf8_char: "u < 65536 \<Longrightarrow> cyrillic (utf8_char u) \<longleftrightarrow> 1024 \<le> u \<and> u < 1152"
proof -
  assume u: "u < 65536"
  have c: "char_of n = CHR 0xD0 \<longleftrightarrow> n = 208" "char_of n = CHR 0xD1 \<longleftrightarrow> n = 209" if "n < 256" for n :: nat
    using that by (simp_all add: char_of_eq_iff take_bit_eq_mod)
  have "u div 64 < 32 \<Longrightarrow> u div 64 = 16 \<or> u div 64 = 17 \<longleftrightarrow> 1024 \<le> u \<and> u < 1152" by auto
  then show ?thesis using u by (auto simp: cyrillic_def utf8_char_def c)
qed

lemma cyrillic_simps:
  "cyrillic [] = False" "cyrillic (c # s) = (if c = CHR 0xD0 \<or> c = CHR 0xD1 then True else cyrillic s)"
  "cyrillic (s @ t) = (if cyrillic s then True else cyrillic t)"
  "cyrillic (utf8_text []) = False"
  "u < 65536 \<Longrightarrow> cyrillic (utf8_text (u # us)) = (if 1024 \<le> u \<and> u < 1152 then True else cyrillic (utf8_text us))"
proof -
  show append: "cyrillic (s @ t) = (if cyrillic s then True else cyrillic t)" for s t by (auto simp: cyrillic_def)
  show "u < 65536 \<Longrightarrow> cyrillic (utf8_text (u # us)) = (if 1024 \<le> u \<and> u < 1152 then True else cyrillic (utf8_text us))"
    by (simp add: utf8_text_Cons append cyrillic_utf8_char)
qed (auto simp: cyrillic_def utf8_text_Cons)

text \<open>
  What has to be computed of an entry: its key, the trait of its English text, whether it is the entry
  that the catalog has twice, and that its languages are told apart.
\<close>

definition not_found :: catalog_entry where
  "not_found = \<lparr>en = ''Resource not found'', uk = utf8_text [1056, 1077, 1089, 1091, 1088, 1089, 32, 1085, 1077, 32, 1079, 1085, 1072, 1081, 1076, 1077, 1085, 1086]\<rparr>"

definition digest :: "string \<times> catalog_entry \<Rightarrow> string \<times> nat \<times> bool \<times> bool" where
  "digest = (\<lambda>(key, entry). (key, trait (en entry), entry = not_found,
     \<not> cyrillic (en entry) \<and> (cyrillic (uk entry) \<or> uk entry = en entry)))"

lemma digest_1: "map digest catalog_1 = [
   (''info.title'', 4813824, False, True), (''info.description'', 5054564, False, True),
   (''info.server'', 4989033, False, True), (''tags.accounts'', 4288098, False, True),
   (''tags.transactions'', 5529955, False, True), (''errors.badRequest'', 4351232, False, True),
   (''errors.notFound'', 5403136, True, True), (''errors.internal'', 4812399, False, True),
   (''accounts.list.summary'', 5005568, False, True), (''accounts.list.badRequest'', 4811122, False, True),
   (''accounts.create.summary'', 4416768, False, True), (''accounts.create.location'', 5596769, False, True),
   (''accounts.create.badRequest'', 5403424, False, True), (''accounts.get.summary'', 4678400, False, True),
   (''accounts.get.badRequest'', 6385184, False, True), (''accounts.get.notFound'', 5137267, False, True),
   (''transactions.list.summary'', 5010432, False, True),
   (''transactions.list.badRequest'', 4811119, False, True),
   (''transactions.list.notFound'', 6385263, False, True),
   (''transactions.create.summary'', 4416800, False, True),
   (''transactions.create.description'', 5529956, False, True),
   (''transactions.create.idempotencyKey'', 5468704, False, True)]"
  unfolding catalog_1_def by (simp add: digest_def not_found_def trait_def byte_at_def cyrillic_simps utf8_signs)

lemma digest_2: "map digest catalog_2 = [
   (''transactions.create.idempotencyReplay'', 7632672, False, True),
   (''transactions.create.badRequest'', 4353837, False, True),
   (''transactions.create.notFound'', 5203488, False, True),
   (''transactions.create.conflict'', 4289824, False, True),
   (''transactions.create.unprocessable'', 4812659, False, True),
   (''transactions.get.summary'', 4682240, False, True),
   (''transactions.get.badRequest'', 7627119, False, True),
   (''transactions.get.notFound'', 5136672, False, True), (''dto.page.limit'', 4743456, False, True),
   (''dto.page.cursor'', 5203307, False, True), (''dto.page.nextCursor'', 5203314, False, True),
   (''dto.account.balanceCents'', 4419171, False, True),
   (''dto.account.openingBalance'', 5205603, False, True),
   (''dto.transactions.accountId'', 5469295, False, True),
   (''dto.transaction.amountCents'', 4289655, False, True),
   (''dto.transaction.bookedAt'', 5731447, False, True),
   (''dto.transaction.quantityMicro'', 4814112, False, True),
   (''dto.transaction.entries'', 5139826, False, True), (''dto.problem.title'', 5403136, True, True),
   (''dto.problem.detail'', 6385200, False, True), (''tags.health'', 4745248, False, True)]"
  unfolding catalog_2_def by (simp add: digest_def not_found_def trait_def byte_at_def cyrillic_simps utf8_signs)

lemma digest_3: "map digest catalog_3 = [
   (''tags.fxRates'', 4617315, False, True), (''tags.currencies'', 4419145, False, True),
   (''fxRates.get.summary'', 4677888, False, True), (''fxRates.get.badRequest'', 6516341, False, True),
   (''fxRates.get.notFound'', 5120102, False, True), (''dto.fxRate.on'', 5404192, False, True),
   (''currencies.list.summary'', 5006080, False, True), (''currencies.get.summary'', 4683008, False, True),
   (''currencies.get.badRequest'', 6515060, False, True), (''currencies.get.notFound'', 5141097, False, True),
   (''dto.currency.code'', 4796960, False, True), (''dto.currency.numericCode'', 4797028, False, True),
   (''dto.currency.exponent'', 5141108, False, True), (''health.liveness.summary'', 5006592, False, True),
   (''health.db.summary'', 4481392, False, True), (''health.db.unavailable'', 5529972, False, True),
   (''dto.health.uptime'', 5272421, False, True), (''dto.health.latency'', 5382258, False, True),
   (''dto.health.probeRows'', 5403252, False, True), (''dto.health.poolTotal'', 4416364, False, True)]"
  unfolding catalog_3_def by (simp add: digest_def not_found_def trait_def byte_at_def cyrillic_simps utf8_signs)

lemmas digests = digest_1 digest_2 digest_3

lemma catalog_digest: "map digest catalog = map digest catalog_1 @ map digest catalog_2 @ map digest catalog_3"
  by (simp add: catalog_def)

lemma keys_distinct: "distinct (map fst catalog)"
proof -
  have "map fst catalog = map fst (map digest catalog)" by (simp add: digest_def case_prod_beta)
  then show ?thesis unfolding catalog_digest digests by simp
qed

lemma catalog_languages:
  assumes "(key, entry) \<in> set catalog"
  shows "\<not> cyrillic (en entry) \<and> (cyrillic (uk entry) \<or> uk entry = en entry)"
proof -
  have "list_all (\<lambda>(k, t, n, ok). ok) (map digest catalog)" unfolding catalog_digest digests by simp
  then show ?thesis using assms by (auto simp: list_all_iff digest_def)
qed

text \<open>One English text is there twice, with the same translation; otherwise a text has one entry.\<close>

lemma traits_distinct:
  "distinct (map (\<lambda>(k, t, n, ok). t) (filter (\<lambda>(k, t, n, ok). \<not> n) (map digest catalog)))"
  unfolding catalog_digest digests by simp

lemma not_found_alone:
  assumes "(key, entry) \<in> set catalog" "en entry = en not_found"
  shows "entry = not_found"
proof -
  have "trait (en not_found) = 5403136" by (simp add: not_found_def trait_def byte_at_def)
  moreover have "list_all (\<lambda>(k, t, n, ok). t = 5403136 \<longrightarrow> n) (map digest catalog)"
    unfolding catalog_digest digests by simp
  ultimately show ?thesis using assms by (auto simp: list_all_iff digest_def)
qed

lemma english_functional:
  assumes "(k1, e1) \<in> set catalog" "(k2, e2) \<in> set catalog" "en e1 = en e2"
  shows "e1 = e2"
proof -
  let ?rest = "filter (\<lambda>(k, e). e \<noteq> not_found) catalog"
  have "map (\<lambda>(k, e). trait (en e)) ?rest =
      map (\<lambda>(k, t, n, ok). t) (filter (\<lambda>(k, t, n, ok). \<not> n) (map digest catalog))"
    unfolding digest_def by (simp add: filter_map comp_def case_prod_unfold)
  then have inj: "inj_on (\<lambda>(k, e). trait (en e)) (set ?rest)" using traits_distinct distinct_map by metis
  show ?thesis
  proof (cases "e1 = not_found \<or> e2 = not_found")
    case False
    then have "(k1, e1) \<in> set ?rest" "(k2, e2) \<in> set ?rest" using assms(1,2) by simp_all
    from inj_onD [OF inj _ this] show ?thesis using assms(3) by simp
  next
    case True
    then show ?thesis using not_found_alone [OF assms(1)] not_found_alone [OF assms(2)] assms(3) by metis
  qed
qed

lemma byEnglish_get:
  assumes "(key, entry) \<in> set catalog"
  shows "js_map_get (byEnglish lc) (en entry) = Some (in_locale entry lc)"
proof -
  let ?ps = "map (\<lambda>(key, entry). (en entry, in_locale entry lc)) catalog"
  have mem: "(en entry, in_locale entry lc) \<in> set ?ps" using imageI [OF assms, of "\<lambda>(key, entry). (en entry, in_locale entry lc)"] by simp
  have "map_of (rev ?ps) (en entry) \<noteq> None"
    unfolding map_of_eq_None_iff set_rev using image_eqI [OF _ mem, of "en entry" fst] by simp
  then obtain t where t: "map_of (rev ?ps) (en entry) = Some t" by blast
  from map_of_SomeD [OF this] obtain key' entry' where "(key', entry') \<in> set catalog"
      "en entry = en entry'" "t = in_locale entry' lc"
    unfolding set_rev set_map by (elim imageE) (simp split: prod.splits)
  with english_functional [OF this(1) assms] have "t = in_locale entry lc" by simp
  then show ?thesis using t by (simp add: byEnglish_def js_map_get_of)
qed

lemma byEnglish_mem:
  "js_map_get (byEnglish lc) s = Some t \<Longrightarrow> \<exists>(key, entry)\<in>set catalog. s = en entry \<and> t = in_locale entry lc"
  unfolding byEnglish_def js_map_get_of by (drule map_of_SomeD, unfold set_rev set_map, erule imageE) (simp split: prod.splits, blast)

lemma catalog_consistent:
  assumes "(key, entry) \<in> set catalog"
  shows "i18n key lc = in_locale entry lc" "translate_text (byEnglish Locale_uk) (en entry) = uk entry"
proof -
  show "i18n key lc = in_locale entry lc"
    using map_of_is_SomeI [OF keys_distinct assms] by (simp add: i18n_def js_map_get_def)
  have "uk entry = [] \<longrightarrow> en entry = []" using catalog_languages [OF assms] by (auto simp: cyrillic_simps)
  then show "translate_text (byEnglish Locale_uk) (en entry) = uk entry"
    using byEnglish_get [OF assms, of Locale_uk] by (simp add: translate_text_def)
qed

lemma byEnglish_settled: "settled (byEnglish Locale_uk)"
proof -
  have "translate_text (byEnglish Locale_uk) (uk entry) = uk entry" if e: "(key, entry) \<in> set catalog" for key entry
  proof (cases "uk entry = en entry")
    case True
    then show ?thesis using catalog_consistent(2) [OF e] by simp
  next
    case False
    then have "cyrillic (uk entry)" using catalog_languages [OF e] by simp
    then have "js_map_get (byEnglish Locale_uk) (uk entry) \<noteq> Some t" for t
      using byEnglish_mem [of Locale_uk "uk entry" t] catalog_languages by fastforce
    then have "js_map_get (byEnglish Locale_uk) (uk entry) = None" by (meson not_None_eq)
    then show ?thesis by (simp add: translate_text_def)
  qed
  moreover have "\<exists>(key, entry)\<in>set catalog. t = uk entry" if "(s, t) \<in> set (byEnglish Locale_uk)" for s t
  proof -
    have "distinct (map fst (js_map_of ps))" for ps :: "(string \<times> string) list"
      unfolding js_map_of_def by (induction ps rule: rev_induct) (auto simp del: map_eq_conv)
    then have "distinct (map fst (byEnglish Locale_uk))" by (simp add: byEnglish_def)
    then have "js_map_get (byEnglish Locale_uk) s = Some t" using that by (simp add: js_map_get_def)
    from byEnglish_mem [OF this] show ?thesis by auto
  qed
  ultimately show ?thesis by (fastforce simp: settled_def list_all_iff)
qed

theorem localize_document:
  "skeleton (localizeOpenApiDocument d lc) = skeleton d \<and>
    localizeOpenApiDocument (localizeOpenApiDocument d lc) lc = localizeOpenApiDocument d lc \<and>
    localizeOpenApiDocument d Locale_en = d"
  using skeleton_translateNode translateNode_idem [OF byEnglish_settled]
  by (cases lc) (simp_all add: localizeOpenApiDocument_def DEFAULT_LOCALE_def)

text \<open>A field that shows a text of the catalog shows the same entry in the other language.\<close>

theorem localize_field:
  assumes "key \<in> set (map fst catalog)" "field \<in> set TRANSLATABLE_FIELDS"
  shows "localizeOpenApiDocument (JObj [(field, JStr (i18n key Locale_en))]) Locale_uk =
    JObj [(field, JStr (i18n key Locale_uk))]"
proof -
  obtain entry where e: "(key, entry) \<in> set catalog" using assms(1) by auto
  have "translate_text (byEnglish Locale_uk) (i18n key Locale_en) = i18n key Locale_uk"
    unfolding catalog_consistent(1) [OF e] using catalog_consistent(2) [OF e] by simp
  then show ?thesis using assms(2) by (simp add: localizeOpenApiDocument_def DEFAULT_LOCALE_def)
qed

end
