(* ===== verification/Demo_Broker.thy ===== *)
theory Demo_Broker
  imports Demo_Race Receipts Accounts
begin

text \<open>
  The scripts \<open>demo-publish.ts\<close> and \<open>demo-duplicate.ts\<close> with their shared kit (\<open>demo-broker-kit.ts\<close>):
  seed, reset, checkouts that publish through the declared topology, and the consumer process on the
  queue. They compose the checkout, the publisher and the consumer, so that the checks with which
  they grade themselves say that every order ends in exactly one receipt.
\<close>

section \<open>The kit\<close>

definition BROKER_MARKER :: string where
  "BROKER_MARKER = ''hw19 demo:broker''"

definition UNIT_PRICE_CENTS :: int where
  "UNIT_PRICE_CENTS = 10000"

text \<open>\<open>runDemo\<close> up to the call of the script: the orders of an earlier run are gone and the account can pay.\<close>

definition kit_reset :: "runtime \<Rightarrow> (db, unit) svc" where
  "kit_reset rt =
     bindS (liftS (bind_uuid rt ACCOUNT_ID)) (\<lambda>u.
     bindS (readS (\<lambda>db. filter (\<lambda>a. a_id a = u) (accounts db))) (\<lambda>exists.
     if exists = [] then throwS (plain_error (''Account '' @ ACCOUNT_ID @ '' is missing '' @ em_dash @ '' run \"npm run seed\" first.''))
     else
       bindS (writeS (\<lambda>db. db\<lparr>transactions := filter (\<lambda>t. t_description t \<noteq> Some BROKER_MARKER) (transactions db),
          order_receipts := filter (\<lambda>r. \<exists>t\<in>set (transactions db). t_id t = rc_order_id r \<and>
            t_description t \<noteq> Some BROKER_MARKER) (order_receipts db)\<rparr>)) (\<lambda>_.
       writeS (\<lambda>db. db\<lparr>accounts := update_where (\<lambda>a. a_id a = u)
         (\<lambda>a. a\<lparr>a_balance_cents := 100 * UNIT_PRICE_CENTS\<rparr>) (accounts db)\<rparr>))))"

text \<open>
  The broker after \<open>assertTopology\<close>: it confirms every publish and returns a message that no binding
  takes. A direct comparison is enough, since the one topic binding has no wildcard.
\<close>

definition broker_of :: "topology \<Rightarrow> amqp_message \<Rightarrow> broker_answer" where
  "broker_of tp m =
     \<lparr>ba_returns = (if list_ex (\<lambda>(queue, exchange, key). exchange = am_exchange m \<and> key = am_routingKey m) (tp_bindings tp)
        then [] else [am_messageId m]), ba_error = None\<rparr>"

definition publish_via :: "topology \<Rightarrow> OrderPlacedEvent \<Rightarrow> (shop, unit) svc" where
  "publish_via tp event s =
     (case publishEvent (broker_of tp) event [] of
        (Inl e, _) \<Rightarrow> (Inl e, s)
      | (Inr _, _) \<Rightarrow> (Inr (), s\<lparr>sh_events := sh_events s @ [event]\<rparr>))"

definition placeOrder :: "runtime \<Rightarrow> checkout_values \<Rightarrow> (shop, unit) svc" where
  "placeOrder rt cv s =
     (case checkout rt cv (Some (publish_via assertTopology)) (order_request UNIT_PRICE_CENTS BROKER_MARKER) s of
        (Inl e, s') \<Rightarrow> (Inl e, s')
      | (Inr (Checkout_rejected reason), s') \<Rightarrow> (Inl (plain_error (''checkout rejected: '' @ rejection_text reason)), s')
      | (Inr (Checkout_ok ok), s') \<Rightarrow> (Inr (), s'))"

fun placeOrders :: "runtime \<Rightarrow> checkout_values list \<Rightarrow> (shop, unit) svc" where
  "placeOrders rt [] = returnS ()"
| "placeOrders rt (cv # cvs) = bindS (placeOrder rt cv) (\<lambda>_. placeOrders rt cvs)"

text \<open>The join of receipts with the orders of the demo.\<close>

definition receiptCount :: "db \<Rightarrow> nat" where
  "receiptCount db = (\<Sum>r\<leftarrow>order_receipts db.
     length (filter (\<lambda>t. t_id t = rc_order_id r \<and> t_description t = Some BROKER_MARKER) (transactions db)))"

section \<open>The consumer process\<close>

text \<open>The lines that the process reports; a delivery says whether the broker marked it as redelivered.\<close>

datatype report_line = Delivered bool | Acked bool | Rejected_poison | Requeued_error

record demo =
  dm_state :: consumer_state
  dm_lines :: "report_line list"

fun is_delivered :: "report_line \<Rightarrow> bool" where
  "is_delivered (Delivered r) = True"
| "is_delivered _ = False"

fun is_acked :: "report_line \<Rightarrow> bool" where
  "is_acked (Acked a) = True"
| "is_acked _ = False"

definition delivered_count :: "demo \<Rightarrow> nat" where
  "delivered_count d = length (filter is_delivered (dm_lines d))"

definition acked_count :: "demo \<Rightarrow> nat" where
  "acked_count d = length (filter is_acked (dm_lines d))"

definition settled_lines :: "handled \<Rightarrow> report_line list" where
  "settled_lines h = (case h of Rejects False \<Rightarrow> [Rejected_poison] | Rejects True \<Rightarrow> [Requeued_error] | _ \<Rightarrow> [])"

text \<open>
  A healthy process, with Postgres reachable: it takes a delivery, handles it, acknowledges it. Up to
  \<open>PREFETCH\<close> messages are in work at a time, in any order.
\<close>

inductive consumer_works :: "zod \<Rightarrow> runtime \<Rightarrow> demo \<Rightarrow> demo \<Rightarrow> bool" for z rt where
  take_delivery: "cs_ready s = m # rest \<Longrightarrow> length (cs_unacked s) < PREFETCH \<Longrightarrow>
    consumer_works z rt \<lparr>dm_state = s, dm_lines = ls\<rparr>
      \<lparr>dm_state = s\<lparr>cs_ready := rest, cs_unacked := cs_unacked s @ [(m, None)]\<rparr>,
       dm_lines = ls @ [Delivered (0 < qm_count m)]\<rparr>"
| handle_message: "cs_unacked s = xs @ (m, None) # ys \<Longrightarrow>
    handle z rt None (Some (qm_content m)) (cs_db s) = (h, db') \<Longrightarrow>
    consumer_works z rt \<lparr>dm_state = s, dm_lines = ls\<rparr>
      \<lparr>dm_state = settle m h (s\<lparr>cs_db := db', cs_unacked := xs @ ys,
         cs_applied := cs_applied s @ (case parseOrderPlaced z (qm_content m) of
           Some e \<Rightarrow> (if h = Will_ack True then [the (pg_uuid_in rt (od_orderId (op_data e)))] else [])
         | None \<Rightarrow> [])\<rparr>),
       dm_lines = ls @ settled_lines h\<rparr>"
| acknowledge: "cs_unacked s = xs @ (m, Some applied) # ys \<Longrightarrow>
    consumer_works z rt \<lparr>dm_state = s, dm_lines = ls\<rparr>
      \<lparr>dm_state = s\<lparr>cs_unacked := xs @ ys, cs_acked := cs_acked s @ [m]\<rparr>, dm_lines = ls @ [Acked applied]\<rparr>"

lemma consumer_works_step:
  "consumer_works z rt d e \<Longrightarrow> consumer_step z rt (dm_state d) (dm_state e)"
  by (induction rule: consumer_works.induct) (auto intro: cs_deliver cs_handle cs_ack)

text \<open>The queue as the publishes leave it, and a process that has just started.\<close>

definition msg_of :: "OrderPlacedEvent \<Rightarrow> queue_msg" where
  "msg_of e = \<lparr>qm_content = am_content (event_message e), qm_count = 0\<rparr>"

definition queued :: "shop \<Rightarrow> demo" where
  "queued s = \<lparr>dm_state = \<lparr>cs_db = sh_db s, cs_ready = map msg_of (sh_events s), cs_unacked = [], cs_acked = [],
     cs_dead = [], cs_published = map (qm_content \<circ> msg_of) (sh_events s), cs_applied = []\<rparr>, dm_lines = []\<rparr>"

definition prepared :: "runtime \<Rightarrow> millis \<Rightarrow> checkout_values list \<Rightarrow> exn + demo" where
  "prepared rt now cvs =
     (case bindS (seed rt now) (\<lambda>_. kit_reset rt) empty_db of
        (Inl e, _) \<Rightarrow> Inl e
      | (Inr _, db) \<Rightarrow>
          (case placeOrders rt cvs \<lparr>sh_db = db, sh_events = []\<rparr> of
             (Inl e, _) \<Rightarrow> Inl e | (Inr _, s) \<Rightarrow> Inr (queued s)))"

section \<open>The scripts\<close>

definition complain :: "bool \<Rightarrow> string \<Rightarrow> string list" where
  "complain broken text = (if broken then [text] else [])"

text \<open>\<open>demo-publish.ts\<close>: what is counted once the wait for the acknowledgements is over.\<close>

definition ORDERS :: nat where
  "ORDERS = 5"

definition publish_problems :: "nat \<Rightarrow> nat \<Rightarrow> demo \<Rightarrow> string list" where
  "publish_problems published waiting d =
     (let effect = receiptCount (cs_db (dm_state d)); work = length (cs_ready (dm_state d));
          dlq = length (cs_dead (dm_state d)); delivered = delivered_count d; acked = acked_count d
      in complain (published \<noteq> ORDERS) (''published '' @ nat_text published @ '', expected '' @ nat_text ORDERS) @
         complain (waiting \<noteq> published) (''broker held '' @ nat_text waiting @ '' of '' @ nat_text published @
           '' before the consumer started'') @
         complain (delivered \<noteq> published) (''delivered '' @ nat_text delivered @ '', expected '' @ nat_text published) @
         complain (effect \<noteq> published) (''effect '' @ nat_text effect @ '', expected '' @ nat_text published) @
         complain (acked \<noteq> published) (''acked '' @ nat_text acked @ '', expected '' @ nat_text published) @
         complain (work \<noteq> 0) (''work queue still holds '' @ nat_text work) @
         complain (dlq \<noteq> 0) (''dlq holds '' @ nat_text dlq @ '', expected 0''))"

text \<open>
  \<open>demo-duplicate.ts\<close>: the first process is killed after the effect and before the acknowledgement;
  the broker puts its message back, and a second process starts. \<open>first\<close> is what the first one
  reported.
\<close>

definition killed :: "demo \<Rightarrow> demo" where
  "killed d = \<lparr>dm_state = fold put_back (map fst (cs_unacked (dm_state d))) ((dm_state d)\<lparr>cs_unacked := []\<rparr>), dm_lines = []\<rparr>"

definition duplicate_problems :: "demo \<Rightarrow> demo \<Rightarrow> string list" where
  "duplicate_problems first d =
     (let effectAfterCrash = receiptCount (cs_db (dm_state first));
          deliveries = delivered_count first + delivered_count d;
          redelivered = length (filter (\<lambda>l. l = Delivered True) (dm_lines d));
          skipped = length (filter (\<lambda>l. l = Acked False) (dm_lines d));
          effect = receiptCount (cs_db (dm_state d)); work = length (cs_ready (dm_state d));
          dlq = length (cs_dead (dm_state d))
      in complain (effectAfterCrash \<noteq> 1) (''consumer #1 did not apply the effect before dying ('' @
           nat_text effectAfterCrash @ '')'') @
         complain (deliveries < 2) (''deliveries '' @ nat_text deliveries @ '': no duplicate happened, so nothing was proven'') @
         complain (redelivered \<noteq> 1) ''the second delivery was not flagged redelivered'' @
         complain (effect \<noteq> 1) (''effect '' @ nat_text effect @ '', expected exactly 1'') @
         complain (skipped \<noteq> 1) (''skipped '' @ nat_text skipped @ '', expected 1'') @
         complain (work \<noteq> 0) (''work queue holds '' @ nat_text work) @
         complain (dlq \<noteq> 0) (''dlq holds '' @ nat_text dlq))"

section \<open>The orders are placed and announced\<close>

lemma publish_via_declared:
  assumes "op_type e = ORDER_PLACED"
  shows "publish_via assertTopology e = record_event e"
  using assms
  by (simp add: fun_eq_iff publish_via_def publishEvent_def broker_of_def returnedOn_def js_uniq_def
      event_message_def assertTopology_def record_event_def writeS_def)

lemma checkout_publish_via:
  "checkout rt cv (Some (publish_via assertTopology)) request = checkout rt cv (Some record_event) request"
proof -
  have "publish_via assertTopology (placed_event cv request q r) = record_event (placed_event cv request q r)" for q r
    by (rule publish_via_declared) (simp add: placed_event_def orderPlaced_def)
  then show ?thesis by (intro ext) (simp only: checkout_def option.case)
qed

definition event_of :: "checkout_values \<Rightarrow> OrderPlacedEvent" where
  "event_of cv = orderPlaced (cv_event_id cv) (cv_now cv)
     \<lparr>od_orderId = cv_order_id cv, od_accountId = ACCOUNT_ID, od_instrumentId = INSTRUMENT_ID,
      od_quantity = 1, od_costCents = UNIT_PRICE_CENTS, od_currency = ''USD''\<rparr>"

lemma placeOrders_run:
  assumes "db_ok (sh_db s)" "orderable rt (order_request UNIT_PRICE_CENTS BROKER_MARKER) 1 UNIT_PRICE_CENTS a (sh_db s)"
    and "fresh_for cvs (sh_db s)" "a_currency a = ''USD''" "UNIT_PRICE_CENTS * int (length cvs) \<le> a_balance_cents a"
  shows "\<exists>s' rows. placeOrders rt cvs s = (Inr (), s') \<and> sh_events s' = sh_events s @ map event_of cvs \<and>
    transactions (sh_db s') = transactions (sh_db s) @ rows \<and> map t_id rows = map cv_order_id cvs \<and>
    (\<forall>t\<in>set rows. t_description t = Some BROKER_MARKER) \<and>
    order_receipts (sh_db s') = order_receipts (sh_db s) \<and> db_ok (sh_db s')"
  using assms
proof (induction cvs arbitrary: s a)
  case Nil
  then show ?case by (simp add: returnS_def)
next
  case (Cons cv cvs)
  let ?request = "order_request UNIT_PRICE_CENTS BROKER_MARKER"
  have "\<not> a_balance_cents a < UNIT_PRICE_CENTS" using Cons.prems(5) by (simp add: UNIT_PRICE_CENTS_def)
  then obtain ok row where first: "checkout rt cv (Some record_event) ?request s = (Inr (Checkout_ok ok),
        \<lparr>sh_db = placed a UNIT_PRICE_CENTS row (receipt_job cv ?request) (sh_db s),
         sh_events = sh_events s @ [placed_event cv ?request 1 ok]\<rparr>)"
    and row: "t_id row = cv_order_id cv" "t_description row = cr_description ?request"
      "db_ok (placed a UNIT_PRICE_CENTS row (receipt_job cv ?request) (sh_db s))"
    and ok: "ck_orderId ok = cv_order_id cv" "ck_costCents ok = UNIT_PRICE_CENTS" "ck_currency ok = a_currency a"
    using checkout_orderable [OF Cons.prems(1-3)] by auto
  define s1 where "s1 = \<lparr>sh_db = placed a UNIT_PRICE_CENTS row (receipt_job cv ?request) (sh_db s),
    sh_events = sh_events s @ [event_of cv]\<rparr>"
  have "placed_event cv ?request 1 ok = event_of cv"
    using ok Cons.prems(4) by (simp add: placed_event_def event_of_def order_request_def)
  then have one: "placeOrder rt cv s = (Inr (), s1)"
    using first by (simp add: placeOrder_def checkout_publish_via s1_def)
  have "db_ok (sh_db s1)" "orderable rt ?request 1 UNIT_PRICE_CENTS (charged a UNIT_PRICE_CENTS) (sh_db s1)"
      "fresh_for cvs (sh_db s1)" "a_currency (charged a UNIT_PRICE_CENTS) = ''USD''"
      "UNIT_PRICE_CENTS * int (length cvs) \<le> a_balance_cents (charged a UNIT_PRICE_CENTS)"
    using row(3) orderable_placed [OF Cons.prems(2)] fresh_for_placed [OF Cons.prems(3) row(1)] Cons.prems(4,5)
    by (simp_all add: s1_def algebra_simps)
  from Cons.IH [OF this] obtain s' rows where ih: "placeOrders rt cvs s1 = (Inr (), s')"
      "sh_events s' = sh_events s1 @ map event_of cvs" "transactions (sh_db s') = transactions (sh_db s1) @ rows"
      "map t_id rows = map cv_order_id cvs" "\<forall>t\<in>set rows. t_description t = Some BROKER_MARKER"
      "order_receipts (sh_db s') = order_receipts (sh_db s1)" "db_ok (sh_db s')" by blast
  have "transactions (sh_db s') = transactions (sh_db s) @ row # rows"
      "order_receipts (sh_db s') = order_receipts (sh_db s)"
    using ih(3,6) by (simp_all add: s1_def placed_def debited_def)
  moreover have "map t_id (row # rows) = map cv_order_id (cv # cvs)"
      "\<forall>t\<in>set (row # rows). t_description t = Some BROKER_MARKER"
    using ih(4,5) row(1,2) by (simp_all add: order_request_def)
  moreover have "placeOrders rt (cv # cvs) s = (Inr (), s')" "sh_events s' = sh_events s @ map event_of (cv # cvs)"
    using ih(1,2) one by (simp_all add: bindS_def s1_def)
  ultimately show ?case using ih(7) by blast
qed

section \<open>The seeded database after the reset\<close>

definition kit_balance :: int where
  "kit_balance = 100 * UNIT_PRICE_CENTS"

lemma broker_unmarked: "t \<in> set (seed_txs now) \<Longrightarrow> t_description t \<noteq> Some BROKER_MARKER"
proof -
  assume "t \<in> set (seed_txs now)"
  then obtain i spec where "spec \<in> set txSpecs" "t = tx_of now i spec"
    using index_rows_mem [of t "tx_of now" txSpecs] by (auto simp: seed_txs_def)
  moreover have "list_all (\<lambda>spec. sp_description spec \<noteq> BROKER_MARKER) txSpecs"
    unfolding txSpecs_def list.pred_inject tx_spec_def TxSpec.select_convs BROKER_MARKER_def
    by (intro conjI TrueI; simp)
  ultimately show ?thesis by (auto simp: tx_of_def list_all_iff)
qed

lemma kit_reset_run:
  assumes "pg_ok rt" "pg_divide_ok rt"
  shows "bindS (seed rt now) (\<lambda>_. kit_reset rt) empty_db = (Inr (), funded_db kit_balance rt now)"
proof -
  have run: "seed rt now empty_db = (Inr (), seeded_db rt now)" using seed_runs [OF assms] by blast
  have u: "bind_uuid rt ACCOUNT_ID = Inr ACCOUNT_ID"
    using pg_okD(1) [OF assms(1)] seed_id_uuid [of 2 2] by (simp add: bind_uuid_def demo_ids)
  have "filter (\<lambda>a. a_id a = ACCOUNT_ID) (accounts (seeded_db rt now)) \<noteq> []"
    using bexI [OF _ seed_account_2 [of now], of "\<lambda>a. a_id a = ACCOUNT_ID"]
    by (simp add: filter_empty_conv seeded_db_def) (simp add: funded_account_def)
  moreover have "filter (\<lambda>t. t_description t \<noteq> Some BROKER_MARKER) (seed_txs now) = seed_txs now"
    using broker_unmarked by (simp add: filter_id_conv)
  ultimately show ?thesis
    using run u by (simp add: bindS_def kit_reset_def liftS_def readS_def writeS_def funded_db_def seeded_db_def kit_balance_def)
qed

lemma broker_price: "div100_fixed10 10000 = 1000000000000"
proof -
  have "bit_length (10000 * 2 ^ 60 div 100) = Suc 66" by (rule bit_length_eq) simp_all
  then show ?thesis by (simp add: div100_fixed10_def)
qed

lemma broker_request_ok: "request_ok UNIT_PRICE_CENTS 1000000000000 BROKER_MARKER"
proof -
  have "js_mult UNIT_PRICE_CENTS 1 = UNIT_PRICE_CENTS" "fits_bigint UNIT_PRICE_CENTS" "numeric_ok 1000000000000"
    by code_simp+
  moreover have "unit_price_text UNIT_PRICE_CENTS = numeric_out 1000000000000"
    using broker_price by (simp add: unit_price_text_def UNIT_PRICE_CENTS_def)
  ultimately show ?thesis
    by (simp add: request_ok_def UNIT_PRICE_CENTS_def bind_text_def BROKER_MARKER_def char_length_def)
qed

section \<open>What the consumer does to the queue\<close>

definition receipt_of :: "zod \<Rightarrow> queue_msg \<Rightarrow> receipt_row" where
  "receipt_of z m = (let e = the (parseOrderPlaced z (qm_content m))
     in \<lparr>rc_order_id = od_orderId (op_data e), rc_event_id = op_eventId e\<rparr>)"

text \<open>Messages of different orders, all of them valid, each with its one order in the table.\<close>

definition orders_ok :: "zod \<Rightarrow> runtime \<Rightarrow> tx_row list \<Rightarrow> queue_msg list \<Rightarrow> bool" where
  "orders_ok z rt txs msgs \<longleftrightarrow>
     distinct (map (\<lambda>m. rc_order_id (receipt_of z m)) msgs) \<and> distinct (map (\<lambda>m. rc_event_id (receipt_of z m)) msgs) \<and>
     (\<forall>m\<in>set msgs. parseOrderPlaced z (qm_content m) \<noteq> None \<and>
        pg_uuid_in rt (rc_order_id (receipt_of z m)) = Some (rc_order_id (receipt_of z m)) \<and>
        pg_uuid_in rt (rc_event_id (receipt_of z m)) = Some (rc_event_id (receipt_of z m)) \<and>
        length (filter (\<lambda>t. t_id t = rc_order_id (receipt_of z m) \<and> t_description t = Some BROKER_MARKER) txs) = 1)"

text \<open>\<open>early\<close> are the messages whose receipt was there before the process started.\<close>

definition work_inv :: "zod \<Rightarrow> runtime \<Rightarrow> tx_row list \<Rightarrow> queue_msg list \<Rightarrow> queue_msg set \<Rightarrow> demo \<Rightarrow> bool" where
  "work_inv z rt txs msgs early d \<longleftrightarrow>
     (let s = dm_state d
      in orders_ok z rt txs msgs \<and> early \<subseteq> set msgs \<and>
         mset (cs_ready s @ map fst (cs_unacked s) @ cs_acked s) = mset msgs \<and> cs_dead s = [] \<and>
         transactions (cs_db s) = txs \<and> distinct (order_receipts (cs_db s)) \<and>
         set (order_receipts (cs_db s)) = receipt_of z ` (early \<union> set (committed s)) \<and>
         list_all (\<lambda>(m, st). st = None \<or> st = Some (m \<notin> early)) (cs_unacked s) \<and>
         mset (filter is_delivered (dm_lines d)) =
           mset (map (\<lambda>m. Delivered (0 < qm_count m)) (map fst (cs_unacked s) @ cs_acked s)) \<and>
         mset (filter is_acked (dm_lines d)) = mset (map (\<lambda>m. Acked (m \<notin> early)) (cs_acked s)))"

lemma work_invD:
  assumes "work_inv z rt txs msgs early d"
  shows "orders_ok z rt txs msgs" "early \<subseteq> set msgs" "cs_dead (dm_state d) = []"
    "mset (cs_ready (dm_state d) @ map fst (cs_unacked (dm_state d)) @ cs_acked (dm_state d)) = mset msgs"
    "transactions (cs_db (dm_state d)) = txs" "distinct (order_receipts (cs_db (dm_state d)))"
    "set (order_receipts (cs_db (dm_state d))) = receipt_of z ` (early \<union> set (committed (dm_state d)))"
    "list_all (\<lambda>(m, st). st = None \<or> st = Some (m \<notin> early)) (cs_unacked (dm_state d))"
    "mset (filter is_delivered (dm_lines d)) =
       mset (map (\<lambda>m. Delivered (0 < qm_count m)) (map fst (cs_unacked (dm_state d)) @ cs_acked (dm_state d)))"
    "mset (filter is_acked (dm_lines d)) = mset (map (\<lambda>m. Acked (m \<notin> early)) (cs_acked (dm_state d)))"
  using assms unfolding work_inv_def Let_def by blast+

lemma orders_okD:
  assumes "orders_ok z rt txs msgs" "m \<in> set msgs"
  shows "\<exists>e. parseOrderPlaced z (qm_content m) = Some e \<and>
      receipt_of z m = \<lparr>rc_order_id = od_orderId (op_data e), rc_event_id = op_eventId e\<rparr> \<and>
      pg_uuid_in rt (od_orderId (op_data e)) = Some (od_orderId (op_data e)) \<and>
      pg_uuid_in rt (op_eventId e) = Some (op_eventId e)"
    and "length (filter (\<lambda>t. t_id t = rc_order_id (receipt_of z m) \<and> t_description t = Some BROKER_MARKER) txs) = 1"
    and "m' \<in> set msgs \<Longrightarrow> rc_order_id (receipt_of z m) = rc_order_id (receipt_of z m') \<longleftrightarrow> m = m'"
    and "m' \<in> set msgs \<Longrightarrow> rc_event_id (receipt_of z m) = rc_event_id (receipt_of z m') \<longleftrightarrow> m = m'"
proof -
  show "\<exists>e. parseOrderPlaced z (qm_content m) = Some e \<and>
      receipt_of z m = \<lparr>rc_order_id = od_orderId (op_data e), rc_event_id = op_eventId e\<rparr> \<and>
      pg_uuid_in rt (od_orderId (op_data e)) = Some (od_orderId (op_data e)) \<and>
      pg_uuid_in rt (op_eventId e) = Some (op_eventId e)"
    using assms by (auto simp: orders_ok_def receipt_of_def)
  show "length (filter (\<lambda>t. t_id t = rc_order_id (receipt_of z m) \<and> t_description t = Some BROKER_MARKER) txs) = 1"
    using assms unfolding orders_ok_def by blast
  have "inj_on (\<lambda>m. rc_order_id (receipt_of z m)) (set msgs)" "inj_on (\<lambda>m. rc_event_id (receipt_of z m)) (set msgs)"
    using assms(1) by (simp_all add: orders_ok_def distinct_map)
  then show "m' \<in> set msgs \<Longrightarrow> rc_order_id (receipt_of z m) = rc_order_id (receipt_of z m') \<longleftrightarrow> m = m'"
      "m' \<in> set msgs \<Longrightarrow> rc_event_id (receipt_of z m) = rc_event_id (receipt_of z m') \<longleftrightarrow> m = m'"
    using assms(2) inj_on_eq_iff by fastforce+
qed

lemma orders_ok_distinct: "orders_ok z rt txs msgs \<Longrightarrow> distinct msgs"
  by (simp add: orders_ok_def distinct_map)

text \<open>A message in work gets its receipt now, or had it early.\<close>

lemma handle_in_work:
  assumes "work_inv z rt txs msgs early d" "cs_unacked (dm_state d) = xs @ (m, None) # ys"
  shows "m \<in> set msgs" "m \<notin> set (committed (dm_state d))"
    and "handle z rt None (Some (qm_content m)) (cs_db (dm_state d)) =
      (Will_ack (m \<notin> early), (cs_db (dm_state d))\<lparr>order_receipts := order_receipts (cs_db (dm_state d)) @
         (if m \<in> early then [] else [receipt_of z m])\<rparr>)"
proof -
  note inv = work_invD [OF assms(1)]
  let ?s = "dm_state d"
  have all: "set (cs_ready ?s @ map fst (cs_unacked ?s) @ cs_acked ?s) = set msgs" using inv(4) by (metis set_mset_mset)
  then show m: "m \<in> set msgs" using assms(2) by auto
  have "distinct (cs_ready ?s @ map fst (cs_unacked ?s) @ cs_acked ?s)"
    using inv(4) orders_ok_distinct [OF inv(1)] mset_eq_imp_distinct_iff by blast
  then show fresh: "m \<notin> set (committed ?s)" using assms(2) by (auto simp: committed_def image_iff)
  have sub: "early \<union> set (committed ?s) \<subseteq> set msgs"
    using all inv(2) by (auto simp: committed_def)
  obtain e where e: "parseOrderPlaced z (qm_content m) = Some e"
      "receipt_of z m = \<lparr>rc_order_id = od_orderId (op_data e), rc_event_id = op_eventId e\<rparr>"
      "pg_uuid_in rt (od_orderId (op_data e)) = Some (od_orderId (op_data e))"
      "pg_uuid_in rt (op_eventId e) = Some (op_eventId e)"
    using orders_okD(1) [OF inv(1) m] by blast
  have "rc_order_id (receipt_of z m) \<in> rc_order_id ` set (order_receipts (cs_db ?s)) \<longleftrightarrow> m \<in> early"
       "rc_event_id (receipt_of z m) \<in> rc_event_id ` set (order_receipts (cs_db ?s)) \<longleftrightarrow> m \<in> early"
    using orders_okD(3,4) [OF inv(1) m] sub fresh unfolding inv(7) by (auto simp: image_iff subset_iff)
  moreover have "od_orderId (op_data e) \<in> t_id ` set (transactions (cs_db ?s))"
  proof -
    have "filter (\<lambda>t. t_id t = rc_order_id (receipt_of z m) \<and> t_description t = Some BROKER_MARKER) txs \<noteq> []"
      using orders_okD(2) [OF inv(1) m] by auto
    then show ?thesis using inv(5) e(2) by (force simp: filter_empty_conv)
  qed
  ultimately have "issueReceipt rt e (cs_db ?s) = (Inr (m \<notin> early), (cs_db ?s)\<lparr>order_receipts := order_receipts (cs_db ?s) @
         (if m \<in> early then [] else [receipt_of z m])\<rparr>)"
    using e(2-4) by (simp add: issueReceipt_def bind_uuid_def bindE_def)
  then show "handle z rt None (Some (qm_content m)) (cs_db (dm_state d)) =
      (Will_ack (m \<notin> early), (cs_db (dm_state d))\<lparr>order_receipts := order_receipts (cs_db (dm_state d)) @
         (if m \<in> early then [] else [receipt_of z m])\<rparr>)"
    using e(1) by (simp add: handle_def)
qed

lemma settle_ack: "settle m (Will_ack a) s = s\<lparr>cs_unacked := cs_unacked s @ [(m, Some a)]\<rparr>"
  by (simp add: settle_def)

lemma committed_unacked:
  "set (committed (s\<lparr>cs_unacked := xs @ ys\<rparr>)) =
     set (cs_acked s) \<union> fst ` {u \<in> set xs. snd u \<noteq> None} \<union> fst ` {u \<in> set ys. snd u \<noteq> None}"
  by (auto simp: committed_def image_iff case_prod_beta)

lemma work_inv_step: "consumer_works z rt d e \<Longrightarrow> work_inv z rt txs msgs early d \<Longrightarrow> work_inv z rt txs msgs early e"
proof (induction rule: consumer_works.induct)
  case (take_delivery s m rest ls)
  note inv = work_invD [OF take_delivery(3), simplified]
  have "set (committed (s\<lparr>cs_ready := rest, cs_unacked := cs_unacked s @ [(m, None)]\<rparr>)) = set (committed s)"
    by (simp add: committed_def)
  then show ?case using inv take_delivery(1)
    by (simp add: work_inv_def Let_def)
next
  case (handle_message s xs m ys h db' ls)
  note inv = work_invD [OF handle_message(3), simplified]
  have un: "cs_unacked (dm_state \<lparr>dm_state = s, dm_lines = ls\<rparr>) = xs @ (m, None) # ys" using handle_message(1) by simp
  note work = handle_in_work [OF handle_message(3) un, simplified]
  have h: "h = Will_ack (m \<notin> early)" and db': "db' = (cs_db s)\<lparr>order_receipts := order_receipts (cs_db s) @
      (if m \<in> early then [] else [receipt_of z m])\<rparr>"
    using handle_message(2) work(3) by simp_all
  define t where "t = settle m h (s\<lparr>cs_db := db', cs_unacked := xs @ ys,
         cs_applied := cs_applied s @ (case parseOrderPlaced z (qm_content m) of
           Some e \<Rightarrow> (if h = Will_ack True then [the (pg_uuid_in rt (od_orderId (op_data e)))] else [])
         | None \<Rightarrow> [])\<rparr>)"
  have t: "cs_ready t = cs_ready s" "cs_unacked t = xs @ ys @ [(m, Some (m \<notin> early))]" "cs_acked t = cs_acked s"
      "cs_dead t = cs_dead s" "cs_db t = db'" by (simp_all add: t_def h settle_ack)
  have com: "set (committed t) = insert m (set (committed s))"
    using handle_message(1) t(2,3) by (auto simp: committed_def)
  have "receipt_of z m \<notin> receipt_of z ` (early \<union> set (committed s))" if "m \<notin> early"
  proof
    assume "receipt_of z m \<in> receipt_of z ` (early \<union> set (committed s))"
    then obtain m' where m': "m' \<in> early \<union> set (committed s)" "receipt_of z m = receipt_of z m'" by blast
    moreover have "set (committed s) \<subseteq> set msgs"
      using mset_eq_setD [OF work_invD(4) [OF handle_message(3)]] by (auto simp: committed_def)
    ultimately have "m' \<in> set msgs" using inv(2) by blast
    then have "m = m'" using orders_okD(3) [OF inv(1) work(1)] m'(2) by metis
    then show False using m'(1) that work(2) by blast
  qed
  then have "distinct (order_receipts db')" "set (order_receipts db') = receipt_of z ` (early \<union> set (committed t))"
    using inv(6,7) db' com by (auto split: if_splits)
  moreover have "list_all (\<lambda>(m, st). st = None \<or> st = Some (m \<notin> early)) (cs_unacked t)"
    using inv(8) handle_message(1) t(2) by simp
  moreover have "settled_lines h = []" using h by (simp add: settled_lines_def)
  moreover have "transactions db' = txs" using db' inv(5) by simp
  ultimately show ?case
    unfolding t_def [symmetric] using inv handle_message(1) t by (simp add: work_inv_def Let_def)
next
  case (acknowledge s xs m applied ys ls)
  note inv = work_invD [OF acknowledge(2), simplified]
  have "set (committed (s\<lparr>cs_unacked := xs @ ys, cs_acked := cs_acked s @ [m]\<rparr>)) = set (committed s)"
    using acknowledge(1) by (auto simp: committed_def)
  moreover have "applied = (m \<notin> early)" using inv(8) acknowledge(1) by simp
  ultimately show ?case using inv acknowledge(1) by (simp add: work_inv_def Let_def)
qed

interpretation healthy: step_system "work_inv z rt txs msgs early" "consumer_works z rt" "work_inv z rt txs msgs early"
  for z rt txs msgs early
  by unfold_locales (assumption, rule work_inv_step)

text \<open>The process goes on until everything is acknowledged, and it needs three steps per message.\<close>

lemma work_progress:
  assumes "work_inv z rt txs msgs early d" "acked_count d < length msgs"
  shows "\<exists>e. consumer_works z rt d e"
proof -
  note inv = work_invD [OF assms(1)]
  let ?s = "dm_state d"
  have d: "d = \<lparr>dm_state = ?s, dm_lines = dm_lines d\<rparr>" by simp
  have "acked_count d = length (cs_acked ?s)"
    using mset_eq_length [OF inv(10)] by (simp add: acked_count_def)
  moreover have "length msgs = length (cs_ready ?s) + length (cs_unacked ?s) + length (cs_acked ?s)"
    using mset_eq_length [OF inv(4)] by simp
  ultimately have "cs_unacked ?s \<noteq> [] \<or> cs_ready ?s \<noteq> []" using assms(2) by auto
  then show ?thesis
  proof (cases "cs_unacked ?s")
    case Nil
    then obtain m rest where "cs_ready ?s = m # rest"
      using \<open>cs_unacked ?s \<noteq> [] \<or> cs_ready ?s \<noteq> []\<close> by (cases "cs_ready ?s") auto
    moreover have "length (cs_unacked ?s) < PREFETCH" using Nil by (simp add: PREFETCH_def)
    ultimately show ?thesis by (subst d) (blast intro: take_delivery)
  next
    case (Cons u us)
    obtain m st where u: "u = (m, st)" by (cases u)
    show ?thesis
    proof (cases st)
      case None
      obtain h db' where "handle z rt None (Some (qm_content m)) (cs_db ?s) = (h, db')" by fastforce
      moreover have "cs_unacked ?s = [] @ (m, None) # us" using Cons u None by simp
      ultimately show ?thesis by (subst d) (blast intro: handle_message)
    next
      case (Some a)
      then have "cs_unacked ?s = [] @ (m, Some a) # us" using Cons u by simp
      then show ?thesis by (subst d) (blast intro: acknowledge)
    qed
  qed
qed

definition work_left :: "demo \<Rightarrow> nat" where
  "work_left d = 3 * length (cs_ready (dm_state d)) +
     (\<Sum>(m, st)\<leftarrow>cs_unacked (dm_state d). if st = None then 2 else 1)"

lemma work_left_step:
  "consumer_works z rt d e \<Longrightarrow> work_inv z rt txs msgs early d \<Longrightarrow> work_left d = Suc (work_left e)"
proof (induction rule: consumer_works.induct)
  case (handle_message s xs m ys h db' ls)
  have "cs_unacked (dm_state \<lparr>dm_state = s, dm_lines = ls\<rparr>) = xs @ (m, None) # ys" using handle_message(1) by simp
  from handle_in_work(3) [OF handle_message(3) this] have "h = Will_ack (m \<notin> early)" using handle_message(2) by simp
  then show ?case using handle_message(1) by (simp add: work_left_def settle_ack)
qed (simp_all add: work_left_def)

lemma work_steps_bound:
  "(consumer_works z rt ^^ n) d e \<Longrightarrow> work_inv z rt txs msgs early d \<Longrightarrow>
     work_inv z rt txs msgs early e \<and> work_left d = n + work_left e"
proof (induction n arbitrary: e)
  case (Suc n)
  then obtain c where c: "(consumer_works z rt ^^ n) d c" "consumer_works z rt c e" by auto
  with Suc.IH [OF c(1) Suc.prems(2)] work_inv_step [OF c(2)] work_left_step [OF c(2)] show ?case by auto
qed simp

text \<open>Once everything is acknowledged the numbers of the script add up.\<close>

lemma work_done:
  assumes "work_inv z rt txs msgs early d" "length msgs \<le> acked_count d"
  shows "cs_ready (dm_state d) = [] \<and> cs_unacked (dm_state d) = [] \<and> cs_dead (dm_state d) = [] \<and>
    acked_count d = length msgs \<and> delivered_count d = length msgs \<and> mset (cs_acked (dm_state d)) = mset msgs \<and>
    receiptCount (cs_db (dm_state d)) = length msgs"
proof -
  note inv = work_invD [OF assms(1)]
  let ?s = "dm_state d"
  have a: "acked_count d = length (cs_acked ?s)"
    using mset_eq_length [OF inv(10)] by (simp add: acked_count_def)
  have "length msgs = length (cs_ready ?s) + length (cs_unacked ?s) + length (cs_acked ?s)"
    using mset_eq_length [OF inv(4)] by simp
  then have e: "cs_ready ?s = []" "cs_unacked ?s = []" "length (cs_acked ?s) = length msgs" using a assms(2) by auto
  then have acked: "mset (cs_acked ?s) = mset msgs" using inv(4) by simp
  have "delivered_count d = length msgs"
    using mset_eq_length [OF inv(9)] e by (simp add: delivered_count_def)
  moreover have "receiptCount (cs_db ?s) = length msgs"
  proof -
    have "set (cs_acked ?s) = set msgs" using acked by (metis set_mset_mset)
    then have rs: "set (order_receipts (cs_db ?s)) = receipt_of z ` set msgs"
      using inv(2,7) e(2) by (auto simp: committed_def)
    have "inj_on (receipt_of z) (set msgs)"
      using orders_okD(3) [OF inv(1)] by (metis inj_onI)
    then have "card (set (order_receipts (cs_db ?s))) = length msgs"
      using rs card_image distinct_card [OF orders_ok_distinct [OF inv(1)]] by metis
    then have "length (order_receipts (cs_db ?s)) = length msgs" using distinct_card [OF inv(6)] by simp
    moreover have "length (filter (\<lambda>t. t_id t = rc_order_id r \<and> t_description t = Some BROKER_MARKER) (transactions (cs_db ?s))) = 1"
      if "r \<in> set (order_receipts (cs_db ?s))" for r
      using that rs orders_okD(2) [OF inv(1)] inv(5) by auto
    then have "receiptCount (cs_db ?s) = (\<Sum>r\<leftarrow>order_receipts (cs_db ?s). 1)"
      unfolding receiptCount_def by (intro arg_cong [of _ _ sum_list] map_cong) simp_all
    ultimately show ?thesis by (simp add: sum_list_triv)
  qed
  ultimately show ?thesis using a e inv(3) acked by simp
qed

section \<open>The scripts pass their checks\<close>

definition announced :: "checkout_values list \<Rightarrow> bool" where
  "announced cvs \<longleftrightarrow> distinct (map cv_event_id cvs) \<and>
     list_all (\<lambda>cv. is_uuid (cv_order_id cv) \<and> is_uuid (cv_event_id cv) \<and> iso_range (cv_now cv)) cvs"

lemma demo_uuids: "is_uuid ACCOUNT_ID" "is_uuid INSTRUMENT_ID"
  by (simp_all add: demo_ids seed_id_uuid)

lemma event_of_parses:
  assumes "zod_ok z" "is_uuid (cv_order_id cv)" "is_uuid (cv_event_id cv)" "iso_range (cv_now cv)"
  shows "parseOrderPlaced z (qm_content (msg_of (event_of cv))) = Some (event_of cv)"
proof -
  have "js_length ''USD'' = 3" by code_simp
  then have "event_ok z (event_of cv)"
    using assms demo_uuids
    by (simp add: event_ok_def event_of_def orderPlaced_def zod_ok_def UNIT_PRICE_CENTS_def)
  moreover have "ascii (int_text 1)" "ascii (int_text UNIT_PRICE_CENTS)" by code_simp+
  then have "event_ascii (event_of cv)"
    using assms(2,3) demo_uuids is_uuid_ascii
    by (simp add: event_ascii_def event_body_def data_json_def event_of_def orderPlaced_def ORDER_PLACED_def)
  ultimately show ?thesis using parse_event_message [OF assms(1)] by (simp add: msg_of_def event_message_def)
qed

lemma one_order:
  assumes "map t_id rows = ids" "distinct ids" "\<forall>t\<in>set rows. t_description t = Some BROKER_MARKER" "i \<in> set ids"
    and "\<forall>t\<in>set old. t_description t \<noteq> Some BROKER_MARKER"
  shows "length (filter (\<lambda>t. t_id t = i \<and> t_description t = Some BROKER_MARKER) (old @ rows)) = 1"
proof -
  have "filter (\<lambda>t. t_id t = i \<and> t_description t = Some BROKER_MARKER) old = []"
    using assms(5) by (auto simp: filter_empty_conv)
  moreover have "filter (\<lambda>t. t_id t = i \<and> t_description t = Some BROKER_MARKER) rows = filter (\<lambda>t. t_id t = i) rows"
    using assms(3) by (auto intro: filter_cong)
  moreover obtain t where "t \<in> set rows" "t_id t = i" using assms(1,4) by auto
  then have "filter (\<lambda>t. t_id t = i) rows = [t]" using filter_key [of t_id rows t] assms(1,2) by simp
  ultimately show ?thesis by simp
qed

lemma prepared_inv:
  assumes "pg_ok rt" "pg_divide_ok rt" "zod_ok z" "fresh_for cvs (seeded_db rt now)" "announced cvs" "length cvs \<le> 100"
  shows "\<exists>d txs. prepared rt now cvs = Inr d \<and> cs_ready (dm_state d) = map (msg_of \<circ> event_of) cvs \<and>
    work_inv z rt txs (map (msg_of \<circ> event_of) cvs) {} d"
proof -
  let ?db = "funded_db kit_balance rt now"
  have "fits_bigint kit_balance" by (simp add: fits_bigint_def kit_balance_def UNIT_PRICE_CENTS_def)
  then have "db_ok ?db" by (rule funded_db_ok [OF assms(1,2)])
  moreover have "orderable rt (order_request UNIT_PRICE_CENTS BROKER_MARKER) 1 UNIT_PRICE_CENTS (funded_account kit_balance now) ?db"
    by (rule request_orderable [OF assms(1,2) broker_request_ok])
  moreover have "fresh_for cvs ?db" using assms(4) by (simp add: fresh_for_def funded_db_def)
  moreover have "UNIT_PRICE_CENTS * int (length cvs) \<le> a_balance_cents (funded_account kit_balance now)"
    using assms(6) by (simp add: funded_account_def kit_balance_def UNIT_PRICE_CENTS_def)
  ultimately obtain s rows where run: "placeOrders rt cvs \<lparr>sh_db = ?db, sh_events = []\<rparr> = (Inr (), s)"
      "sh_events s = map event_of cvs" "transactions (sh_db s) = seed_txs now @ rows"
      "map t_id rows = map cv_order_id cvs" "\<forall>t\<in>set rows. t_description t = Some BROKER_MARKER"
      "order_receipts (sh_db s) = []"
    using placeOrders_run [of "\<lparr>sh_db = ?db, sh_events = []\<rparr>" rt "funded_account kit_balance now" cvs]
    by (auto simp: funded_account_def funded_db_def seeded_db_def)
  define msgs where "msgs = map (msg_of \<circ> event_of) cvs"
  have cv: "is_uuid (cv_order_id cv)" "is_uuid (cv_event_id cv)" "iso_range (cv_now cv)" if "cv \<in> set cvs" for cv
    using assms(5) that by (auto simp: announced_def list_all_iff)
  have parse: "parseOrderPlaced z (qm_content (msg_of (event_of cv))) = Some (event_of cv)" if "cv \<in> set cvs" for cv
    using event_of_parses [OF assms(3) cv [OF that]] .
  have receipt: "receipt_of z (msg_of (event_of cv)) = \<lparr>rc_order_id = cv_order_id cv, rc_event_id = cv_event_id cv\<rparr>"
    if "cv \<in> set cvs" for cv
    using parse [OF that] by (simp add: receipt_of_def event_of_def orderPlaced_def)
  have ids: "distinct (map cv_order_id cvs)" "distinct (map cv_event_id cvs)"
    using assms(4,5) by (simp_all add: fresh_for_def announced_def)
  have maps: "map (\<lambda>m. rc_order_id (receipt_of z m)) msgs = map cv_order_id cvs"
      "map (\<lambda>m. rc_event_id (receipt_of z m)) msgs = map cv_event_id cvs"
    using receipt by (simp_all add: msgs_def)
  have one: "length (filter (\<lambda>t. t_id t = cv_order_id cv \<and> t_description t = Some BROKER_MARKER)
      (transactions (sh_db s))) = 1" if "cv \<in> set cvs" for cv
    unfolding run(3) by (rule one_order [OF run(4) ids(1) run(5)]) (use that broker_unmarked in auto)
  have "orders_ok z rt (transactions (sh_db s)) msgs"
    unfolding orders_ok_def maps using ids one parse receipt cv pg_okD(1) [OF assms(1)]
    by (simp add: msgs_def)
  then have "work_inv z rt (transactions (sh_db s)) msgs {} (queued s)"
    using run(2,6) by (simp add: work_inv_def queued_def msgs_def committed_def)
  moreover have "prepared rt now cvs = Inr (queued s)"
    using kit_reset_run [OF assms(1,2)] run(1) by (simp add: prepared_def)
  ultimately show ?thesis using run(2) by (auto simp: queued_def msgs_def)
qed

text \<open>
  (C38) From the checkout to the receipt. On the seeded database, five checkouts leave five messages
  in the queue; then, in whichever order the consumer takes, handles and acknowledges them, it makes
  at most fifteen steps, it can always go on until it has acknowledged five, and at that moment the
  script has nothing to complain about: every order was delivered once and has exactly one receipt,
  and both queues are empty.
\<close>

theorem demo_publish_passes:
  assumes "pg_ok rt" "pg_divide_ok rt" "zod_ok z" "length cvs = ORDERS"
    and "fresh_for cvs (seeded_db rt now)" "announced cvs"
  shows "\<exists>start. prepared rt now cvs = Inr start \<and>
    (\<forall>n d. (consumer_works z rt ^^ n) start d \<longrightarrow> n \<le> 15 \<and>
       (if length cvs \<le> acked_count d
        then publish_problems (length cvs) (length (cs_ready (dm_state start))) d = []
        else \<exists>e. consumer_works z rt d e))"
proof -
  let ?msgs = "map (msg_of \<circ> event_of) cvs"
  obtain start txs where start: "prepared rt now cvs = Inr start" "cs_ready (dm_state start) = ?msgs"
      "work_inv z rt txs ?msgs {} start"
    using prepared_inv [OF assms(1-3,5,6)] assms(4) by (auto simp: ORDERS_def)
  have "cs_unacked (dm_state start) = []"
    using mset_eq_length [OF work_invD(4) [OF start(3)]] start(2) by simp
  then have left: "work_left start = 15" using start(2) assms(4) by (simp add: work_left_def ORDERS_def)
  have "n \<le> 15 \<and> (if length cvs \<le> acked_count d
        then publish_problems (length cvs) (length (cs_ready (dm_state start))) d = []
        else \<exists>e. consumer_works z rt d e)" if "(consumer_works z rt ^^ n) start d" for n d
  proof -
    have inv: "work_inv z rt txs ?msgs {} d" and "n \<le> 15"
      using work_steps_bound [OF that start(3)] left by simp_all
    moreover have "publish_problems (length cvs) (length (cs_ready (dm_state start))) d = []" if "length cvs \<le> acked_count d"
    proof -
      note facts = work_done [OF inv] that assms(4) start(2)
      then show ?thesis by (simp add: publish_problems_def complain_def)
    qed
    ultimately show ?thesis using work_progress [OF inv] by auto
  qed
  then show ?thesis using start(1) by blast
qed

definition broker_values :: "checkout_values list" where
  "broker_values = map (\<lambda>n. \<lparr>cv_now = 1767225600000, cv_order_id = race_id n, cv_job_id = race_id n,
     cv_event_id = race_id n\<rparr>) [0..<ORDERS]"

lemma broker_values_ok: "fresh_for broker_values (seeded_db rt now)" "announced broker_values"
proof -
  have inj: "distinct (map race_id [0..<ORDERS])"
    using inj_on_subset [OF race_id_inj, of "{0..<ORDERS}"] by (simp add: distinct_map ORDERS_def)
  have "cv_order_id cv \<notin> t_id ` set (seed_txs now)" if "cv \<in> set race_values" for cv
    using race_values_fresh [of rt now] that by (auto simp: fresh_for_def list_all_iff seeded_db_def)
  then have "race_id n \<notin> t_id ` set (seed_txs now)" if "n < ORDERS" for n
    using that by (force simp: race_values_def ORDERS_def ATTEMPTS_def)
  then show "fresh_for broker_values (seeded_db rt now)"
    using inj race_id_uuid by (simp add: fresh_for_def broker_values_def list_all_iff comp_def seeded_db_def)
  have "iso_range 1767225600000" by code_simp
  then show "announced broker_values"
    using inj race_id_uuid by (simp add: announced_def broker_values_def list_all_iff comp_def)
qed

theorem demo_publish_passes_witness:
  "\<exists>start. prepared canonical_runtime 1767225600000 broker_values = Inr start \<and>
    (\<forall>n d. (consumer_works own_zod canonical_runtime ^^ n) start d \<longrightarrow> n \<le> 15 \<and>
       (if length broker_values \<le> acked_count d
        then publish_problems (length broker_values) (length (cs_ready (dm_state start))) d = []
        else \<exists>e. consumer_works own_zod canonical_runtime d e))"
  by (rule demo_publish_passes [OF canonical_runtime_ok canonical_divide_ok own_zod_ok _ broker_values_ok])
    (simp add: broker_values_def)

text \<open>
  A killed consumer. One order is placed; the first process dies after it has committed the receipt
  and before it acknowledges, which happens in every run that gets so far; the second process sees
  the redelivery, recognises the duplicate and acknowledges, in three steps, and the script has
  nothing to complain about.
\<close>

lemma killed_inv:
  assumes "work_inv z rt txs [m] {} d" "cs_unacked (dm_state d) = [(m', Some applied)]" "qm_count m = 0"
  shows "work_inv z rt txs [m\<lparr>qm_count := 1\<rparr>] {m\<lparr>qm_count := 1\<rparr>} (killed d)"
    and "delivered_count d = 1" "receiptCount (cs_db (dm_state d)) = 1"
proof -
  note inv = work_invD [OF assms(1)]
  let ?s = "dm_state d"
  have s: "cs_ready ?s = []" "cs_acked ?s = []" "m' = m" "cs_dead ?s = []"
    using mset_eq_length [OF inv(4)] mset_eq_setD [OF inv(4)] assms(2) inv(3) by auto
  have same: "receipt_of z (m\<lparr>qm_count := 1\<rparr>) = receipt_of z m" by (simp add: receipt_of_def)
  have receipts: "set (order_receipts (cs_db ?s)) = {receipt_of z m}"
    using inv(7) assms(2) s by (auto simp: committed_def)
  have st: "dm_state (killed d) = ?s\<lparr>cs_unacked := [], cs_ready := [m\<lparr>qm_count := 1\<rparr>]\<rparr>" "dm_lines (killed d) = []"
    using assms(2,3) s by (simp_all add: killed_def put_back_def DELIVERY_LIMIT_def)
  have "orders_ok z rt txs [m\<lparr>qm_count := 1\<rparr>]" using inv(1) same by (simp add: orders_ok_def)
  then show "work_inv z rt txs [m\<lparr>qm_count := 1\<rparr>] {m\<lparr>qm_count := 1\<rparr>} (killed d)"
    using inv(5,6) receipts same s by (simp add: work_inv_def Let_def st committed_def)
  show "delivered_count d = 1"
    using mset_eq_length [OF inv(9)] assms(2) s by (simp add: delivered_count_def)
  have "length (order_receipts (cs_db ?s)) = 1" using distinct_card [OF inv(6)] receipts by simp
  then have "order_receipts (cs_db ?s) = [receipt_of z m]" using receipts by (auto simp: length_Suc_conv)
  then show "receiptCount (cs_db ?s) = 1" using orders_okD(2) [OF inv(1)] inv(5) by (simp add: receiptCount_def)
qed

lemma crash_point:
  assumes "work_inv z rt txs [m] {} d" "cs_ready (dm_state d) = [m]" "cs_unacked (dm_state d) = []"
  shows "\<exists>first. (consumer_works z rt)\<^sup>*\<^sup>* d first \<and> cs_unacked (dm_state first) = [(m, Some True)]"
proof -
  obtain s ls where d: "d = \<lparr>dm_state = s, dm_lines = ls\<rparr>" by (cases d)
  have s: "cs_ready s = [m]" "cs_unacked s = []" using assms(2,3) d by simp_all
  define s1 where "s1 = s\<lparr>cs_ready := [], cs_unacked := [(m, None)]\<rparr>"
  let ?d1 = "\<lparr>dm_state = s1, dm_lines = ls @ [Delivered (0 < qm_count m)]\<rparr>"
  have one: "consumer_works z rt d ?d1"
    using take_delivery [OF s(1), of z rt ls] s(2) by (simp add: d s1_def PREFETCH_def)
  obtain h db' where h: "handle z rt None (Some (qm_content m)) (cs_db s1) = (h, db')" by fastforce
  have un: "cs_unacked s1 = [] @ (m, None) # []" by (simp add: s1_def)
  then have "h = Will_ack True" using handle_in_work(3) [OF work_inv_step [OF one assms(1)], of "[]" m "[]"] h by simp
  then obtain first where "consumer_works z rt ?d1 first" "cs_unacked (dm_state first) = [(m, Some True)]"
    using handle_message [OF un h, of "ls @ [Delivered (0 < qm_count m)]"] by (auto simp: settle_ack)
  then show ?thesis using one by (blast intro: rtranclp.rtrancl_into_rtrancl)
qed

theorem demo_duplicate_passes:
  assumes "pg_ok rt" "pg_divide_ok rt" "zod_ok z" "fresh_for [cv] (seeded_db rt now)" "announced [cv]"
  shows "\<exists>start. prepared rt now [cv] = Inr start \<and>
    (\<exists>first m. (consumer_works z rt)\<^sup>*\<^sup>* start first \<and> cs_unacked (dm_state first) = [(m, Some True)]) \<and>
    (\<forall>first m applied. (consumer_works z rt)\<^sup>*\<^sup>* start first \<and> cs_unacked (dm_state first) = [(m, Some applied)] \<longrightarrow>
      (\<forall>n d. (consumer_works z rt ^^ n) (killed first) d \<longrightarrow> n \<le> 3 \<and>
         (if 1 \<le> acked_count d then duplicate_problems first d = [] else \<exists>e. consumer_works z rt d e)))"
proof -
  let ?m = "msg_of (event_of cv)"
  obtain start txs where start: "prepared rt now [cv] = Inr start" "work_inv z rt txs [?m] {} start"
      "cs_ready (dm_state start) = [?m]"
    using prepared_inv [OF assms] by auto
  have "cs_unacked (dm_state start) = []"
    using mset_eq_length [OF work_invD(4) [OF start(2)]] start(3) by simp
  note crash = crash_point [OF start(2,3) this]
  have "n \<le> 3 \<and> (if 1 \<le> acked_count d then duplicate_problems first d = [] else \<exists>e. consumer_works z rt d e)"
    if run: "(consumer_works z rt)\<^sup>*\<^sup>* start first" "cs_unacked (dm_state first) = [(m, Some applied)]"
      "(consumer_works z rt ^^ n) (killed first) d" for first m applied n d
  proof -
    let ?m1 = "?m\<lparr>qm_count := 1\<rparr>"
    have "work_inv z rt txs [?m] {} first" by (rule healthy.inv_steps [OF run(1) start(2)])
    note k = killed_inv [OF this run(2)]
    have inv1: "work_inv z rt txs [?m1] {?m1} (killed first)" and one: "delivered_count first = 1"
      "receiptCount (cs_db (dm_state first)) = 1"
      using k by (simp_all add: msg_of_def)
    have "length (cs_ready (dm_state (killed first))) + length (cs_unacked (dm_state (killed first))) \<le> 1"
      using mset_eq_length [OF work_invD(4) [OF inv1]] by simp
    moreover have "cs_unacked (dm_state (killed first)) = []" by (simp add: killed_def)
    ultimately have "work_left (killed first) \<le> 3" by (simp add: work_left_def)
    then have inv: "work_inv z rt txs [?m1] {?m1} d" and n: "n \<le> 3"
      using work_steps_bound [OF run(3) inv1] by simp_all
    have "duplicate_problems first d = []" if acked: "1 \<le> acked_count d"
    proof -
      have facts: "cs_ready (dm_state d) = []" "cs_unacked (dm_state d) = []" "cs_dead (dm_state d) = []"
          "delivered_count d = 1" "receiptCount (cs_db (dm_state d)) = 1" "mset (cs_acked (dm_state d)) = {#?m1#}"
        using work_done [OF inv] acked by simp_all
      then have a: "cs_acked (dm_state d) = [?m1]" by simp
      have "mset (filter is_delivered (dm_lines d)) = {#Delivered True#}" "mset (filter is_acked (dm_lines d)) = {#Acked False#}"
        using work_invD(9,10) [OF inv] a facts(2) by simp_all
      then have "filter is_delivered (dm_lines d) = [Delivered True]" "filter is_acked (dm_lines d) = [Acked False]"
        by (simp_all only: mset_single_iff)
      moreover have "filter (\<lambda>l. l = Delivered True) (dm_lines d) = filter (\<lambda>l. l = Delivered True) (filter is_delivered (dm_lines d))"
          "filter (\<lambda>l. l = Acked False) (dm_lines d) = filter (\<lambda>l. l = Acked False) (filter is_acked (dm_lines d))"
        by (auto intro: filter_cong)
      ultimately show ?thesis using facts one by (simp add: duplicate_problems_def complain_def)
    qed
    then show ?thesis using n work_progress [OF inv] by auto
  qed
  then show ?thesis using start(1) crash by blast
qed

end
