(* ===== verification/Auth_Sessions.thy ===== *)
theory Auth_Sessions
  imports Auth_Correct
begin

text \<open>
  Concurrent sessions, statement by statement. The calls of \<open>refresh\<close> and \<open>logout\<close> run in transactions
  of READ COMMITTED that interleave at their statements: \<open>SELECT ... FOR UPDATE\<close> waits for the row lock
  and reads the committed row; the UPDATE of \<open>revokeFamily\<close> takes a snapshot when it starts, waits for
  the rows that others have locked, and checks their committed versions; it does not see a row that
  was inserted after its start. Everything between the last wait of a transaction and its COMMIT is
  one step, since nobody sees it earlier.
\<close>

section \<open>An UPDATE that had to wait\<close>

text \<open>\<open>seen\<close> are the rows of the snapshot; the conditions are checked on the committed versions.\<close>

definition revokeFamily_late :: "uuid list \<Rightarrow> runtime \<Rightarrow> millis \<Rightarrow> uuid \<Rightarrow> (db, unit) svc" where
  "revokeFamily_late seen rt now familyId = writeE (\<lambda>db. bindE (bind_uuid rt familyId) (\<lambda>fam.
     Inr (db\<lparr>refresh_tokens :=
       update_where (\<lambda>r. rt_id r \<in> set seen \<and> rt_family_id r = fam \<and> rt_revoked_at r = None)
         (\<lambda>r. r\<lparr>rt_revoked_at := Some now\<rparr>) (refresh_tokens db)\<rparr>)))"

definition logout_late :: "uuid list \<Rightarrow> runtime \<Rightarrow> millis \<Rightarrow> AuthUser \<Rightarrow> (db, unit) svc" where
  "logout_late seen rt now user = transaction (
     bindS (revokeFamily_late seen rt now (au_sid user)) (\<lambda>_. deny_access rt now user))"

text \<open>When the snapshot has all rows, these are the operations that run alone.\<close>

lemma revokeFamily_late_same:
  assumes "rt_id ` set (refresh_tokens db) \<subseteq> set seen"
  shows "revokeFamily_late seen rt now fam db = revokeFamily rt now fam db"
proof -
  have "update_where (\<lambda>r. rt_id r \<in> set seen \<and> rt_family_id r = f \<and> rt_revoked_at r = None) g (refresh_tokens db) =
      update_where (\<lambda>r. rt_family_id r = f \<and> rt_revoked_at r = None) g (refresh_tokens db)" for f g
    using assms by (auto simp: update_where_def)
  then show ?thesis by (simp add: revokeFamily_late_def revokeFamily_def writeE_def)
qed

lemma logout_late_same:
  assumes "rt_id ` set (refresh_tokens db) \<subseteq> set seen"
  shows "logout_late seen rt now user db = logout rt now user db"
  using revokeFamily_late_same [OF assms]
  by (simp add: logout_late_def logout_def transaction_def bindS_def)

section \<open>Transactions that interleave\<close>

text \<open>
  Where a call is. \<open>now()\<close> is fixed when its transaction begins. \<open>Refresh_locked\<close> and \<open>Replay_locked\<close>
  hold the lock on the row that they read; \<open>Replay_update\<close> and \<open>Logout_update\<close> have started their UPDATE
  and keep its snapshot; \<open>Answered\<close> is what the caller got, a logout being answered with no pair.
\<close>

datatype session_tx =
    Refresh_begun millis fresh_values string
  | Refresh_locked millis fresh_values refresh_row
  | Replay_locked millis refresh_row
  | Replay_update millis refresh_row "uuid list"
  | Logout_begun millis AuthUser
  | Logout_update millis AuthUser "uuid list"
  | Answered "exn + TokenPair option"

record sessions =
  ss_db :: db
  ss_now :: millis
  ss_txs :: "session_tx list"

fun held_row :: "session_tx \<Rightarrow> refresh_row option" where
  "held_row (Refresh_locked t fv row) = Some row"
| "held_row (Replay_locked t row) = Some row"
| "held_row (Replay_update t row seen) = Some row"
| "held_row tx = None"

definition locked :: "nat \<Rightarrow> uuid \<Rightarrow> sessions \<Rightarrow> bool" where
  "locked i rid s \<longleftrightarrow> (\<exists>j<length (ss_txs s). j \<noteq> i \<and> map_option rt_id (held_row (ss_txs s ! j)) = Some rid)"

text \<open>Some row of the family in the snapshot is locked by another transaction.\<close>

definition waits :: "nat \<Rightarrow> uuid \<Rightarrow> uuid list \<Rightarrow> sessions \<Rightarrow> bool" where
  "waits i fam seen s \<longleftrightarrow> (\<exists>r\<in>set (refresh_tokens (ss_db s)).
     rt_id r \<in> set seen \<and> rt_family_id r = fam \<and> locked i (rt_id r) s)"

definition snapshot :: "sessions \<Rightarrow> uuid list" where
  "snapshot s = map rt_id (refresh_tokens (ss_db s))"

definition settled_answer :: "RefreshOutcome \<Rightarrow> session_tx" where
  "settled_answer outcome = Answered (map_sum id Some (refresh_answer outcome))"

definition after_select :: "millis \<Rightarrow> fresh_values \<Rightarrow> refresh_row option \<Rightarrow> session_tx" where
  "after_select t fv found = (case triage t found of
     Case_dead \<Rightarrow> settled_answer Refresh_invalid
   | Case_used row \<Rightarrow> Replay_locked t row
   | Case_live row \<Rightarrow> Refresh_locked t fv row)"

definition set_tx :: "nat \<Rightarrow> session_tx \<Rightarrow> sessions \<Rightarrow> sessions" where
  "set_tx i tx s = s\<lparr>ss_txs := (ss_txs s)[i := tx]\<rparr>"

text \<open>
  The steps. A login is one INSERT in a family that \<open>randomUUID\<close> draws. An access token has one expiry:
  \<open>exp_of\<close> gives it for the id of the token. A transaction may fail at any time (a lost connection, the
  victim of a deadlock); then nothing of it is written. Time passes, and an operator changes roles.
\<close>

inductive session_step ::
  "auth_lib \<Rightarrow> token_config \<Rightarrow> runtime \<Rightarrow> (uuid \<Rightarrow> int) \<Rightarrow> sessions \<Rightarrow> sessions \<Rightarrow> bool"
  for lib cfg rt exp_of where
  log_in: "user \<in> (\<lambda>u. (u_id u, u_role u)) ` set (users (ss_db s)) \<Longrightarrow> is_uuid fam \<Longrightarrow>
     fam \<notin> rt_family_id ` set (refresh_tokens (ss_db s)) \<Longrightarrow> is_uuid (fv_row_id fv) \<Longrightarrow>
     login lib cfg rt (ss_now s) fv fam user (ss_db s) = (r, db') \<Longrightarrow>
     session_step lib cfg rt exp_of s (s\<lparr>ss_db := db'\<rparr>)"
| begin_refresh: "is_uuid (fv_row_id fv) \<Longrightarrow>
     session_step lib cfg rt exp_of s (s\<lparr>ss_txs := ss_txs s @ [Refresh_begun (ss_now s) fv token]\<rparr>)"
| begin_logout: "(\<And>jti. pg_uuid_in rt (au_jti user) = Some jti \<Longrightarrow> au_exp user = exp_of jti) \<Longrightarrow>
     session_step lib cfg rt exp_of s (s\<lparr>ss_txs := ss_txs s @ [Logout_begun (ss_now s) user]\<rparr>)"
| select_for_update: "i < length (ss_txs s) \<Longrightarrow> ss_txs s ! i = Refresh_begun t fv token \<Longrightarrow>
     lookup_token lib cfg token (ss_db s) = found \<Longrightarrow>
     (\<And>row. found = Some row \<Longrightarrow> \<not> locked i (rt_id row) s) \<Longrightarrow>
     session_step lib cfg rt exp_of s (set_tx i (after_select t fv found) s)"
| rotate_commit: "i < length (ss_txs s) \<Longrightarrow> ss_txs s ! i = Refresh_locked t fv row \<Longrightarrow>
     transaction (rotate_token lib cfg rt t fv row) (ss_db s) = (r, db') \<Longrightarrow>
     session_step lib cfg rt exp_of s (set_tx i (Answered (map_sum id Some r)) (s\<lparr>ss_db := db'\<rparr>))"
| replay_starts_update: "i < length (ss_txs s) \<Longrightarrow> ss_txs s ! i = Replay_locked t row \<Longrightarrow>
     session_step lib cfg rt exp_of s (set_tx i (Replay_update t row (snapshot s)) s)"
| replay_commit: "i < length (ss_txs s) \<Longrightarrow> ss_txs s ! i = Replay_update t row seen \<Longrightarrow>
     \<not> waits i (rt_family_id row) seen s \<Longrightarrow>
     transaction (revokeFamily_late seen rt t (rt_family_id row)) (ss_db s) = (r, db') \<Longrightarrow>
     session_step lib cfg rt exp_of s
       (set_tx i (case r of Inl e \<Rightarrow> Answered (Inl e) | Inr _ \<Rightarrow> settled_answer (Refresh_reuse row)) (s\<lparr>ss_db := db'\<rparr>))"
| logout_starts_update: "i < length (ss_txs s) \<Longrightarrow> ss_txs s ! i = Logout_begun t user \<Longrightarrow>
     session_step lib cfg rt exp_of s (set_tx i (Logout_update t user (snapshot s)) s)"
| logout_commit: "i < length (ss_txs s) \<Longrightarrow> ss_txs s ! i = Logout_update t user seen \<Longrightarrow>
     (\<And>fam. pg_uuid_in rt (au_sid user) = Some fam \<Longrightarrow> \<not> waits i fam seen s) \<Longrightarrow>
     logout_late seen rt t user (ss_db s) = (r, db') \<Longrightarrow>
     session_step lib cfg rt exp_of s (set_tx i (Answered (map_sum id (\<lambda>_. None) r)) (s\<lparr>ss_db := db'\<rparr>))"
| tx_fails: "i < length (ss_txs s) \<Longrightarrow> (\<And>r. ss_txs s ! i \<noteq> Answered r) \<Longrightarrow>
     session_step lib cfg rt exp_of s (set_tx i (Answered (Inl (db_error code msg))) s)"
| role_changes: "session_step lib cfg rt exp_of s (s\<lparr>ss_db := (ss_db s)\<lparr>users :=
     update_where (\<lambda>u. u_id u = uid') (\<lambda>u. u\<lparr>u_role := role\<rparr>) (users (ss_db s))\<rparr>\<rparr>)"
| time_passes: "ss_now s \<le> now' \<Longrightarrow> session_step lib cfg rt exp_of s (s\<lparr>ss_now := now'\<rparr>)"

inductive_cases session_stepE: "session_step lib cfg rt exp_of s t"

lemma set_tx_fields [simp]:
  "ss_db (set_tx i tx s) = ss_db s" "ss_now (set_tx i tx s) = ss_now s"
  "ss_txs (set_tx i tx s) = (ss_txs s)[i := tx]"
  by (simp_all add: set_tx_def)

lemma set_snapshot: "set (snapshot s) = rt_id ` set (refresh_tokens (ss_db s))"
  by (simp add: snapshot_def)

text \<open>A refresh whose two statements run with nothing in between is the \<open>refresh\<close> of the model.\<close>

lemma refresh_alone:
  assumes "lookup_token lib cfg token db = Some row" "after_select t fv (Some row) = Refresh_locked t fv row"
  shows "transaction (rotate_token lib cfg rt t fv row) db = refresh lib cfg rt t fv token db"
proof -
  have "\<not> dead t row" "rt_used_at row = None"
    using assms(2) by (auto simp: after_select_def triage_def settled_answer_def split: if_splits)
  then show ?thesis using refresh_rotates [OF assms(1)] by simp
qed

end
