(* ===== verification/Auth_Sessions_Correct.thy ===== *)
theory Auth_Sessions_Correct
  imports Auth_Sessions
begin

text \<open>
  Properties of the concurrent sessions: the invariant of the rotating families under every
  interleaving of the statements, what a replay and a logout leave of a session for good, and which
  token can survive them.
\<close>

section \<open>What a commit does\<close>

definition revoke_seen :: "millis \<Rightarrow> uuid \<Rightarrow> uuid list \<Rightarrow> refresh_row list \<Rightarrow> refresh_row list" where
  "revoke_seen now fam seen = update_where
     (\<lambda>r. rt_id r \<in> set seen \<and> rt_family_id r = fam \<and> rt_revoked_at r = None)
     (\<lambda>r. r\<lparr>rt_revoked_at := Some now\<rparr>)"

lemma set_revoke_seen:
  "set (revoke_seen now fam seen rows) =
     (\<lambda>r. if rt_id r \<in> set seen \<and> rt_family_id r = fam \<and> rt_revoked_at r = None
        then r\<lparr>rt_revoked_at := Some now\<rparr> else r) ` set rows"
  by (simp add: revoke_seen_def set_update_where)

lemma map_revoke_seen [row_simps]:
  "map rt_id (revoke_seen now fam seen rows) = map rt_id rows"
  "map rt_token_hash (revoke_seen now fam seen rows) = map rt_token_hash rows"
  by (simp_all add: revoke_seen_def map_update_where)

lemma ids_revoke_seen: "rt_id ` set (revoke_seen now fam seen rows) = rt_id ` set rows"
  by (metis list.set_map map_revoke_seen(1))

lemma families_ok_revoke_seen: "families_ok rows \<Longrightarrow> families_ok (revoke_seen now fam seen rows)"
  unfolding revoke_seen_def by (rule families_ok_update) (auto simp: siblings_ok_def live_def)

lemma tokens_ok_revoke_seen:
  "tokens_ok db \<Longrightarrow> tokens_ok (db\<lparr>refresh_tokens := revoke_seen now fam seen (refresh_tokens db)\<rparr>)"
  unfolding tokens_ok_def
  by (simp add: row_simps families_ok_revoke_seen) (auto simp: set_revoke_seen refresh_ok_def)

lemma revokeFamily_late_run:
  "revokeFamily_late seen rt now familyId db =
     (case pg_uuid_in rt familyId of
        None \<Rightarrow> (Inl (db_error ''22P02'' ''uuid''), db)
      | Some fam \<Rightarrow> (Inr (), db\<lparr>refresh_tokens := revoke_seen now fam seen (refresh_tokens db)\<rparr>))"
  by (simp add: revokeFamily_late_def revoke_seen_def writeE_def bind_uuid_def bindE_def split: option.split)

lemma deny_access_run:
  "deny_access rt now user db =
     (case pg_uuid_in rt (au_jti user) of
        None \<Rightarrow> (Inl (db_error ''22P02'' ''uuid''), db)
      | Some jti \<Rightarrow> (Inr (), db\<lparr>revoked_access_tokens := deny now jti (au_exp user) (revoked_access_tokens db)\<rparr>))"
  by (simp add: deny_access_def deny_def svc_simps bind_uuid_def bindE_def split: option.split)

lemma logout_late_run:
  "logout_late seen rt now user db =
     (case (pg_uuid_in rt (au_sid user), pg_uuid_in rt (au_jti user)) of
        (Some fam, Some jti) \<Rightarrow> (Inr (), db\<lparr>refresh_tokens := revoke_seen now fam seen (refresh_tokens db),
          revoked_access_tokens := deny now jti (au_exp user) (revoked_access_tokens db)\<rparr>)
      | _ \<Rightarrow> (Inl (db_error ''22P02'' ''uuid''), db))"
  by (simp add: logout_late_def transaction_def bindS_def revokeFamily_late_run deny_access_run split: option.split)

section \<open>The invariant\<close>

text \<open>The denylist records the expiry of the token that it denies.\<close>

definition denylist_ok :: "(uuid \<Rightarrow> int) \<Rightarrow> db \<Rightarrow> bool" where
  "denylist_ok exp_of db \<longleftrightarrow> (\<forall>r\<in>set (revoked_access_tokens db). rv_expires_at r = exp_of (rv_jti r) * 1000)"

definition exp_ok :: "runtime \<Rightarrow> (uuid \<Rightarrow> int) \<Rightarrow> AuthUser \<Rightarrow> bool" where
  "exp_ok rt exp_of user \<longleftrightarrow> (\<forall>jti. pg_uuid_in rt (au_jti user) = Some jti \<longrightarrow> au_exp user = exp_of jti)"

fun tx_ok :: "runtime \<Rightarrow> (uuid \<Rightarrow> int) \<Rightarrow> millis \<Rightarrow> session_tx \<Rightarrow> bool" where
  "tx_ok rt exp_of now (Refresh_begun t fv token) = is_uuid (fv_row_id fv)"
| "tx_ok rt exp_of now (Refresh_locked t fv row) = (is_uuid (fv_row_id fv) \<and> live row)"
| "tx_ok rt exp_of now (Logout_begun t user) = (t \<le> now \<and> exp_ok rt exp_of user)"
| "tx_ok rt exp_of now (Logout_update t user seen) = (t \<le> now \<and> exp_ok rt exp_of user)"
| "tx_ok rt exp_of now tx = True"

text \<open>A row that is locked is locked once, and is in the table as its holder read it.\<close>

definition holds_ok :: "sessions \<Rightarrow> bool" where
  "holds_ok s \<longleftrightarrow> (\<forall>i<length (ss_txs s). \<forall>row. held_row (ss_txs s ! i) = Some row \<longrightarrow>
     row \<in> set (refresh_tokens (ss_db s)) \<and> \<not> locked i (rt_id row) s)"

definition session_inv :: "runtime \<Rightarrow> (uuid \<Rightarrow> int) \<Rightarrow> sessions \<Rightarrow> bool" where
  "session_inv rt exp_of s \<longleftrightarrow> tokens_ok (ss_db s) \<and> denylist_ok exp_of (ss_db s) \<and>
     list_all (tx_ok rt exp_of (ss_now s)) (ss_txs s) \<and> holds_ok s"

lemma session_invD:
  assumes "session_inv rt exp_of s"
  shows "tokens_ok (ss_db s)" "denylist_ok exp_of (ss_db s)" "holds_ok s"
    and "i < length (ss_txs s) \<Longrightarrow> tx_ok rt exp_of (ss_now s) (ss_txs s ! i)"
  using assms by (simp_all add: session_inv_def list_all_length)

lemma holds_okD:
  assumes "holds_ok s" "i < length (ss_txs s)" "held_row (ss_txs s ! i) = Some row"
  shows "row \<in> set (refresh_tokens (ss_db s))" "\<not> locked i (rt_id row) s"
  using assms by (auto simp: holds_ok_def)

lemma lockedI: "j < length (ss_txs s) \<Longrightarrow> j \<noteq> i \<Longrightarrow> held_row (ss_txs s ! j) = Some row \<Longrightarrow> locked i (rt_id row) s"
  by (auto simp: locked_def)

lemma locked_db [simp]: "locked i rid (s\<lparr>ss_db := db\<rparr>) = locked i rid s" "locked i rid (s\<lparr>ss_now := t\<rparr>) = locked i rid s"
  by (simp_all add: locked_def)

lemma holds_ok_append:
  assumes "holds_ok s" "held_row tx = None"
  shows "holds_ok (s\<lparr>ss_txs := ss_txs s @ [tx]\<rparr>)"
proof -
  have "locked i rid (s\<lparr>ss_txs := ss_txs s @ [tx]\<rparr>) = locked i rid s" if "i < length (ss_txs s)" for i rid
    using assms(2) by (auto simp: locked_def nth_append less_Suc_eq)
  then show ?thesis using assms by (auto simp: holds_ok_def nth_append less_Suc_eq)
qed

text \<open>A transaction moves on and the tables change, but not the rows that the others hold.\<close>

lemma holds_ok_set:
  assumes "holds_ok s"
    and "\<And>row. held_row tx = Some row \<Longrightarrow> row \<in> set (refresh_tokens db) \<and> \<not> locked i (rt_id row) s"
    and "\<And>j row. j < length (ss_txs s) \<Longrightarrow> j \<noteq> i \<Longrightarrow> held_row (ss_txs s ! j) = Some row \<Longrightarrow> row \<in> set (refresh_tokens db)"
  shows "holds_ok (set_tx i tx (s\<lparr>ss_db := db\<rparr>))"
proof -
  have "\<not> locked j (rt_id row) (set_tx i tx (s\<lparr>ss_db := db\<rparr>))"
    if j: "j < length (ss_txs s)" "held_row ((ss_txs s)[i := tx] ! j) = Some row" for j row
  proof
    assume "locked j (rt_id row) (set_tx i tx (s\<lparr>ss_db := db\<rparr>))"
    then obtain k row' where k: "k < length (ss_txs s)" "k \<noteq> j" "held_row ((ss_txs s)[i := tx] ! k) = Some row'"
        "rt_id row' = rt_id row"
      by (auto simp: locked_def)
    show False
    proof (cases "k = i")
      case True
      then have "held_row tx = Some row'" "held_row (ss_txs s ! j) = Some row" using j k by simp_all
      then show False using assms(2) lockedI [OF j(1), of i row] k(2,4) True by auto
    next
      case k': False
      then have hk: "held_row (ss_txs s ! k) = Some row'" using k by simp
      show False
      proof (cases "j = i")
        case True
        then have "held_row tx = Some row" using j by simp
        then show False using assms(2) lockedI [OF k(1) _ hk, of i] k(2,4) True by auto
      next
        case False
        then have "held_row (ss_txs s ! j) = Some row" using j by simp
        then show False using holds_okD(2) [OF assms(1) j(1)] lockedI [OF k(1,2) hk] k(4) by auto
      qed
    qed
  qed
  moreover have "row \<in> set (refresh_tokens db)"
    if "j < length (ss_txs s)" "held_row ((ss_txs s)[i := tx] ! j) = Some row" for j row
    using that assms(2,3) by (cases "j = i") auto
  ultimately show ?thesis by (simp add: holds_ok_def)
qed

lemma session_inv_set:
  assumes "session_inv rt exp_of s" "i < length (ss_txs s)" "tokens_ok db" "denylist_ok exp_of db"
    and "tx_ok rt exp_of (ss_now s) tx"
    and "\<And>row. held_row tx = Some row \<Longrightarrow> row \<in> set (refresh_tokens db) \<and> \<not> locked i (rt_id row) s"
    and "\<And>j row. j < length (ss_txs s) \<Longrightarrow> j \<noteq> i \<Longrightarrow> held_row (ss_txs s ! j) = Some row \<Longrightarrow> row \<in> set (refresh_tokens db)"
  shows "session_inv rt exp_of (set_tx i tx (s\<lparr>ss_db := db\<rparr>))"
proof -
  have "list_all (tx_ok rt exp_of (ss_now s)) ((ss_txs s)[i := tx])"
    unfolding list_all_length using assms(2,5) session_invD(4) [OF assms(1)] by (simp add: nth_list_update)
  then show ?thesis
    using assms(3,4) holds_ok_set [OF session_invD(3) [OF assms(1)] assms(6,7)] by (simp add: session_inv_def)
qed

text \<open>The same when the tables do not change.\<close>

lemma session_inv_move:
  assumes "session_inv rt exp_of s" "i < length (ss_txs s)" "tx_ok rt exp_of (ss_now s) tx"
    and "\<And>row. held_row tx = Some row \<Longrightarrow> row \<in> set (refresh_tokens (ss_db s)) \<and> \<not> locked i (rt_id row) s"
  shows "session_inv rt exp_of (set_tx i tx s)"
  using session_inv_set [OF assms(1,2) session_invD(1,2) [OF assms(1)] assms(3,4)] holds_okD(1) session_invD(3) [OF assms(1)]
  by simp

lemma after_select_ok:
  assumes "session_inv rt exp_of s" "lookup_token lib cfg token (ss_db s) = found" "is_uuid (fv_row_id fv)"
  shows "tx_ok rt exp_of now (after_select t fv found)"
    and "held_row (after_select t fv found) = Some row \<Longrightarrow> found = Some row \<and> row \<in> set (refresh_tokens (ss_db s))"
  using assms(3) lookup_token_Some [of lib cfg token "ss_db s"] assms(2)
  by (auto simp: after_select_def triage_def settled_answer_def live_def dead_def split: option.splits if_splits)

lemma deny_ok:
  assumes "denylist_ok exp_of db" "e = exp_of jti"
  shows "denylist_ok exp_of (db\<lparr>refresh_tokens := x, revoked_access_tokens := deny t jti e (revoked_access_tokens db)\<rparr>)"
  using assms by (auto simp: denylist_ok_def deny_def)

lemma denylist_ok_other [simp]:
  "denylist_ok exp_of (db\<lparr>refresh_tokens := x\<rparr>) = denylist_ok exp_of db"
  "denylist_ok exp_of (db\<lparr>users := y\<rparr>) = denylist_ok exp_of db"
  by (simp_all add: denylist_ok_def)

lemma revoke_seen_keeps:
  "row \<in> set rows \<Longrightarrow> \<not> (rt_id row \<in> set seen \<and> rt_family_id row = fam) \<Longrightarrow> row \<in> set (revoke_seen t fam seen rows)"
  by (force simp: set_revoke_seen image_iff)

lemma use_row_keeps: "row \<in> set rows \<Longrightarrow> rt_id row \<noteq> rid \<Longrightarrow> row \<in> set (use_row t rid rows)"
  by (force simp: set_use_row image_iff)

text \<open>The rows that another transaction holds are not among those that an UPDATE did not wait for.\<close>

lemma not_waits_keeps:
  assumes "holds_ok s" "\<not> waits i fam seen s" "j < length (ss_txs s)" "j \<noteq> i" "held_row (ss_txs s ! j) = Some row"
  shows "row \<in> set (revoke_seen t fam seen (refresh_tokens (ss_db s)))"
  using holds_okD(1) [OF assms(1,3,5)] lockedI [OF assms(3-5)] assms(2)
  by (intro revoke_seen_keeps) (auto simp: waits_def)

section \<open>What the steps do\<close>

text \<open>
  What happens to the transaction \<open>i\<close> in a step, and to the tables. The tokens only grow: no row is
  lost, and what is used or revoked stays so.
\<close>

definition later :: "db \<Rightarrow> db \<Rightarrow> bool" where
  "later db db' \<longleftrightarrow> (\<forall>r\<in>set (refresh_tokens db). \<exists>r'\<in>set (refresh_tokens db').
     rt_id r' = rt_id r \<and> rt_family_id r' = rt_family_id r \<and> rt_token_hash r' = rt_token_hash r \<and>
     (rt_used_at r \<noteq> None \<longrightarrow> rt_used_at r' \<noteq> None) \<and> (rt_revoked_at r \<noteq> None \<longrightarrow> rt_revoked_at r' \<noteq> None))"

lemma laterD:
  assumes "later db db'" "r \<in> set (refresh_tokens db)"
  shows "\<exists>r'\<in>set (refresh_tokens db'). rt_id r' = rt_id r \<and> rt_family_id r' = rt_family_id r \<and>
    rt_token_hash r' = rt_token_hash r \<and> (rt_used_at r \<noteq> None \<longrightarrow> rt_used_at r' \<noteq> None) \<and>
    (rt_revoked_at r \<noteq> None \<longrightarrow> rt_revoked_at r' \<noteq> None)"
  using assms unfolding later_def by (rule bspec)

lemma later_refl [simp]: "later db db"
  by (auto simp: later_def)

lemma later_same [simp]: "refresh_tokens db' = refresh_tokens db \<Longrightarrow> later db db'"
  by (auto simp: later_def)

lemma later_trans: "later a b \<Longrightarrow> later b c \<Longrightarrow> later a c"
  unfolding later_def by (metis (no_types, lifting))

lemma later_image:
  assumes "refresh_tokens db' = map f (refresh_tokens db) @ new"
    and "\<And>r. rt_id (f r) = rt_id r \<and> rt_family_id (f r) = rt_family_id r \<and> rt_token_hash (f r) = rt_token_hash r \<and>
      (rt_used_at r \<noteq> None \<longrightarrow> rt_used_at (f r) \<noteq> None) \<and> (rt_revoked_at r \<noteq> None \<longrightarrow> rt_revoked_at (f r) \<noteq> None)"
  shows "later db db'"
  unfolding later_def using assms by fastforce

lemma later_append: "later db (db\<lparr>refresh_tokens := refresh_tokens db @ new\<rparr>)"
  by (rule later_image [of _ id]) simp_all

lemma later_use: "later db (db\<lparr>refresh_tokens := use_row t rid (refresh_tokens db) @ new\<rparr>)"
  by (rule later_image [of _ "\<lambda>r. if rt_id r = rid then r\<lparr>rt_used_at := Some t\<rparr> else r"])
    (simp_all add: use_row_def update_where_def)

lemma later_revoke: "later db (db\<lparr>refresh_tokens := revoke_seen t fam seen (refresh_tokens db), revoked_access_tokens := x\<rparr>)"
  by (rule later_image [of _ "\<lambda>r. if rt_id r \<in> set seen \<and> rt_family_id r = fam \<and> rt_revoked_at r = None
        then r\<lparr>rt_revoked_at := Some t\<rparr> else r" _ "[]"])
    (simp_all add: revoke_seen_def update_where_def)

text \<open>A rotation on its way: what its commit does, and that its row is the one it locked.\<close>

lemma rotate_commit_cases:
  assumes "pg_ok rt" "session_inv rt exp_of s" "i < length (ss_txs s)" "ss_txs s ! i = Refresh_locked t fv row"
    and "transaction (rotate_token lib cfg rt t fv row) (ss_db s) = (r, db')"
  obtains (failed) e where "r = Inl e" "db' = ss_db s"
  | (rotated) pair where "r = Inr pair" "row \<in> set (refresh_tokens (ss_db s))" "live row"
      "fv_row_id fv \<notin> rt_id ` set (refresh_tokens (ss_db s))"
      "db' = (ss_db s)\<lparr>refresh_tokens := use_row t (rt_id row) (refresh_tokens (ss_db s)) @
         [token_row lib cfg t fv (rt_user_id row) (rt_family_id row)]\<rparr>"
      "tokens_ok db'"
proof (cases r)
  case (Inl e)
  then show thesis using assms(5) failed by auto
next
  case (Inr pair)
  have row: "row \<in> set (refresh_tokens (ss_db s))" "live row" "is_uuid (fv_row_id fv)"
    using holds_okD(1) [OF session_invD(3) [OF assms(2)] assms(3)] session_invD(4) [OF assms(2,3)] assms(4) by simp_all
  have "rotate_token lib cfg rt t fv row (ss_db s) = (Inr pair, db')" using assms(5) Inr by simp
  from rotate_token_Inr [OF assms(1) session_invD(1) [OF assms(2)] row(1) this]
  show thesis
    using rotated [OF Inr row(1,2)] tokens_ok_rotate [OF session_invD(1) [OF assms(2)] row] by metis
qed

lemma login_cases:
  assumes "pg_ok rt" "tokens_ok db" "user \<in> (\<lambda>u. (u_id u, u_role u)) ` set (users db)" "is_uuid fam"
    and "fam \<notin> rt_family_id ` set (refresh_tokens db)" "is_uuid (fv_row_id fv)"
    and "login lib cfg rt now fv fam user db = (r, db')"
  obtains (failed) "db' = db"
  | (opened) u where "db' = db\<lparr>refresh_tokens := refresh_tokens db @ [token_row lib cfg now fv u fam]\<rparr>" "tokens_ok db'"
proof (cases r)
  case (Inl e)
  then have "db' = db" using assms(7) issue_Inl unfolding login_def by blast
  then show thesis by (rule failed)
next
  case (Inr pair)
  obtain u role where u: "user = (u, role)" "u \<in> u_id ` set (users db)" using assms(3) by auto
  then have ids: "pg_uuid_in rt u = Some u" "pg_uuid_in rt fam = Some fam"
    using assms(1,2,4) pg_okD(1) by (auto simp: tokens_ok_def)
  have "issue lib cfg rt now fv (u, role) fam db = (Inr pair, db')" using assms(7) u Inr by (simp add: login_def)
  then have "insert_refresh (token_row lib cfg now fv u fam) db = Inr db'" using ids by (simp add: issue_Inr)
  then show thesis
    using opened [of u] tokens_ok_family [OF assms(2) u(2) assms(4,6,5)] by (simp add: insert_refresh_Inr row_simps)
qed

lemma session_inv_grow:
  assumes "session_inv rt exp_of s" "tokens_ok db'" "denylist_ok exp_of db'"
    and "set (refresh_tokens (ss_db s)) \<subseteq> set (refresh_tokens db')"
  shows "session_inv rt exp_of (s\<lparr>ss_db := db'\<rparr>)"
  using assms by (auto simp: session_inv_def holds_ok_def)

text \<open>The three commits.\<close>

lemma session_inv_rotate:
  assumes "pg_ok rt" "session_inv rt exp_of s" "i < length (ss_txs s)" "ss_txs s ! i = Refresh_locked t fv row"
    and "transaction (rotate_token lib cfg rt t fv row) (ss_db s) = (r, db')"
  shows "session_inv rt exp_of (set_tx i (Answered (map_sum id Some r)) (s\<lparr>ss_db := db'\<rparr>)) \<and> later (ss_db s) db'"
  using assms
proof (cases rule: rotate_commit_cases)
  case (failed e)
  then have "set_tx i (Answered (map_sum id Some r)) (s\<lparr>ss_db := db'\<rparr>) = set_tx i (Answered (Inl e)) s"
    by (simp add: set_tx_def)
  then show ?thesis using session_inv_move [OF assms(2,3), of "Answered (Inl e)"] failed by simp
next
  case (rotated pair)
  note inv = session_invD [OF assms(2)]
  have kept: "row' \<in> set (refresh_tokens db')"
    if "j < length (ss_txs s)" "j \<noteq> i" "held_row (ss_txs s ! j) = Some row'" for j row'
  proof -
    have "rt_id row' \<noteq> rt_id row"
      using holds_okD(2) [OF inv(3) assms(3), of row] assms(4) lockedI [OF that] by auto
    then show ?thesis using use_row_keeps holds_okD(1) [OF inv(3) that(1,3)] by (simp add: rotated(5))
  qed
  have "session_inv rt exp_of (set_tx i (Answered (map_sum id Some r)) (s\<lparr>ss_db := db'\<rparr>))"
    by (rule session_inv_set [OF assms(2,3) rotated(6)]) (use inv(2) kept rotated(5) in auto)
  then show ?thesis using later_use by (simp add: rotated(5))
qed

text \<open>The family of a row that is held is a uuid, so the UPDATE of a replay cannot fail on it.\<close>

lemma replay_run:
  assumes "pg_ok rt" "session_inv rt exp_of s" "i < length (ss_txs s)" "ss_txs s ! i = Replay_update t row seen"
    and "transaction (revokeFamily_late seen rt t (rt_family_id row)) (ss_db s) = (r, db')"
  shows "r = Inr ()"
    and "db' = (ss_db s)\<lparr>refresh_tokens := revoke_seen t (rt_family_id row) seen (refresh_tokens (ss_db s))\<rparr>"
proof -
  have "row \<in> set (refresh_tokens (ss_db s))"
    using holds_okD(1) [OF session_invD(3) [OF assms(2)] assms(3)] assms(4) by simp
  then have "pg_uuid_in rt (rt_family_id row) = Some (rt_family_id row)"
    using session_invD(1) [OF assms(2)] pg_okD(1) [OF assms(1)] by (auto simp: tokens_ok_def refresh_ok_def)
  then show "r = Inr ()"
      "db' = (ss_db s)\<lparr>refresh_tokens := revoke_seen t (rt_family_id row) seen (refresh_tokens (ss_db s))\<rparr>"
    using assms(5) by (simp_all add: transaction_def revokeFamily_late_run)
qed

lemma session_inv_replay:
  assumes "session_inv rt exp_of s" "i < length (ss_txs s)" "\<not> waits i f seen s" "held_row tx = None"
    and "tx_ok rt exp_of (ss_now s) tx"
  shows "session_inv rt exp_of
    (set_tx i tx (s\<lparr>ss_db := (ss_db s)\<lparr>refresh_tokens := revoke_seen t f seen (refresh_tokens (ss_db s))\<rparr>\<rparr>))"
  by (rule session_inv_set [OF assms(1,2)])
    (use assms(4,5) tokens_ok_revoke_seen [OF session_invD(1) [OF assms(1)]] session_invD(2) [OF assms(1)]
       not_waits_keeps [OF session_invD(3) [OF assms(1)] assms(3)] in auto)

lemma session_inv_logout:
  assumes "session_inv rt exp_of s" "i < length (ss_txs s)" "ss_txs s ! i = Logout_update t user seen"
    and "\<And>fam. pg_uuid_in rt (au_sid user) = Some fam \<Longrightarrow> \<not> waits i fam seen s"
    and "logout_late seen rt t user (ss_db s) = (r, db')"
  shows "session_inv rt exp_of (set_tx i (Answered (map_sum id (\<lambda>_. None) r)) (s\<lparr>ss_db := db'\<rparr>)) \<and> later (ss_db s) db'"
proof (cases "pg_uuid_in rt (au_sid user) = None \<or> pg_uuid_in rt (au_jti user) = None")
  case True
  then have same: "db' = ss_db s" using assms(5) by (auto simp: logout_late_run split: option.splits)
  then have "set_tx i tx (s\<lparr>ss_db := db'\<rparr>) = set_tx i tx s" for tx by (simp add: set_tx_def)
  then show ?thesis using session_inv_move [OF assms(1,2), of "Answered (map_sum id (\<lambda>_. None) r)"] same by simp
next
  case False
  note inv = session_invD [OF assms(1)]
  from False obtain fam jti where ids: "pg_uuid_in rt (au_sid user) = Some fam" "pg_uuid_in rt (au_jti user) = Some jti" by auto
  then have db': "db' = (ss_db s)\<lparr>refresh_tokens := revoke_seen t fam seen (refresh_tokens (ss_db s)),
      revoked_access_tokens := deny t jti (au_exp user) (revoked_access_tokens (ss_db s))\<rparr>"
    using assms(5) by (simp add: logout_late_run)
  have "au_exp user = exp_of jti" using inv(4) [OF assms(2)] assms(3) ids(2) by (simp add: exp_ok_def)
  from deny_ok [OF inv(2) this]
  have "denylist_ok exp_of db'" by (simp add: db')
  moreover have "tokens_ok db'"
    using tokens_ok_revoke_seen [OF inv(1), of t fam seen] by (simp add: db' tokens_ok_def refresh_ok_def)
  ultimately have "session_inv rt exp_of (set_tx i (Answered (map_sum id (\<lambda>_. None) r)) (s\<lparr>ss_db := db'\<rparr>))"
    by (intro session_inv_set [OF assms(1,2)])
      (use not_waits_keeps [OF inv(3) assms(4) [OF ids(1)]] in \<open>auto simp: db'\<close>)
  then show ?thesis using later_revoke by (simp add: db')
qed

lemma session_inv_login:
  assumes "pg_ok rt" "session_inv rt exp_of s" "user \<in> (\<lambda>u. (u_id u, u_role u)) ` set (users (ss_db s))" "is_uuid fam"
    and "fam \<notin> rt_family_id ` set (refresh_tokens (ss_db s))" "is_uuid (fv_row_id fv)"
    and "login lib cfg rt (ss_now s) fv fam user (ss_db s) = (r, db')"
  shows "session_inv rt exp_of (s\<lparr>ss_db := db'\<rparr>) \<and> later (ss_db s) db'"
  using assms(1) session_invD(1) [OF assms(2)] assms(3-7)
proof (cases rule: login_cases)
  case (opened u)
  have "session_inv rt exp_of (s\<lparr>ss_db := db'\<rparr>)"
    by (rule session_inv_grow [OF assms(2) opened(2)])
      (use session_invD(2) [OF assms(2)] in \<open>simp_all add: opened(1) subset_insertI\<close>)
  then show ?thesis using later_append by (simp add: opened(1))
qed (use assms(2) in simp)

text \<open>The moves that leave the tables alone.\<close>

lemma session_inv_select:
  assumes "session_inv rt exp_of s" "i < length (ss_txs s)" "ss_txs s ! i = Refresh_begun t fv token"
    and "\<And>row. lookup_token lib cfg token (ss_db s) = Some row \<Longrightarrow> \<not> locked i (rt_id row) s"
  shows "session_inv rt exp_of (set_tx i (after_select t fv (lookup_token lib cfg token (ss_db s))) s)"
proof -
  have "is_uuid (fv_row_id fv)" using session_invD(4) [OF assms(1,2)] assms(3) by simp
  note sel = after_select_ok [OF assms(1) refl this]
  show ?thesis by (rule session_inv_move [OF assms(1,2) sel(1)]) (use sel(2) assms(4) in blast)
qed

lemma session_inv_begins:
  "session_inv rt exp_of s \<Longrightarrow> held_row tx = None \<Longrightarrow> tx_ok rt exp_of (ss_now s) tx \<Longrightarrow>
    session_inv rt exp_of (s\<lparr>ss_txs := ss_txs s @ [tx]\<rparr>)"
  using holds_ok_append by (simp add: session_inv_def)

lemma session_inv_held:
  assumes "session_inv rt exp_of s" "i < length (ss_txs s)" "held_row tx = held_row (ss_txs s ! i)"
    and "tx_ok rt exp_of (ss_now s) tx"
  shows "session_inv rt exp_of (set_tx i tx s)"
  using session_inv_move [OF assms(1,2,4)] holds_okD [OF session_invD(3) [OF assms(1)] assms(2)] assms(3) by simp

lemma session_inv_answered:
  "session_inv rt exp_of s \<Longrightarrow> i < length (ss_txs s) \<Longrightarrow> session_inv rt exp_of (set_tx i (Answered r) s)"
  by (rule session_inv_move) simp_all

lemma session_inv_clock:
  assumes "session_inv rt exp_of s" "ss_now s \<le> now'"
  shows "session_inv rt exp_of (s\<lparr>ss_now := now'\<rparr>)"
proof -
  have "tx_ok rt exp_of now' tx" if "tx_ok rt exp_of (ss_now s) tx" for tx
    using that assms(2) by (cases tx) auto
  then show ?thesis using assms(1) by (auto simp: session_inv_def holds_ok_def list_all_iff)
qed

lemma session_inv_step:
  assumes "pg_ok rt" "session_step lib cfg rt exp_of s t" "session_inv rt exp_of s"
  shows "session_inv rt exp_of t \<and> later (ss_db s) (ss_db t)"
  using assms(2)
proof cases
  case (log_in user fam fv r db')
  then show ?thesis using session_inv_login [OF assms(1,3)] by simp
next
  case (begin_refresh fv token)
  then show ?thesis using session_inv_begins [OF assms(3)] by simp
next
  case (begin_logout user)
  then show ?thesis using session_inv_begins [OF assms(3)] by (simp add: exp_ok_def)
next
  case (select_for_update i t' fv token found)
  then show ?thesis using session_inv_select [OF assms(3) select_for_update(2,3), of lib cfg] by simp
next
  case (rotate_commit i t' fv row r db')
  then show ?thesis using session_inv_rotate [OF assms(1,3)] by simp
next
  case (replay_starts_update i t' row)
  then show ?thesis using session_inv_held [OF assms(3)] by simp
next
  case (replay_commit i t' row seen r db')
  note run = replay_run [OF assms(1,3) replay_commit(2,3,5)]
  show ?thesis
    using session_inv_replay [OF assms(3) replay_commit(2,4)]
      later_revoke [where db = "ss_db s" and x = "revoked_access_tokens (ss_db s)"]
    by (simp add: replay_commit(1) run settled_answer_def)
next
  case (logout_starts_update i t' user)
  then show ?thesis using session_inv_held [OF assms(3)] session_invD(4) [OF assms(3)] by fastforce
next
  case (logout_commit i t' user seen r db')
  then show ?thesis using session_inv_logout [OF assms(3)] by simp
next
  case (tx_fails i code msg)
  then show ?thesis using session_inv_answered [OF assms(3)] by simp
next
  case (role_changes uid' role)
  then show ?thesis
    using assms(3) tokens_ok_role [OF session_invD(1) [OF assms(3)], of uid' role] by (auto simp: session_inv_def holds_ok_def)
next
  case (time_passes now')
  then show ?thesis using session_inv_clock [OF assms(3)] by simp
qed

definition no_sessions :: "sessions \<Rightarrow> bool" where
  "no_sessions s \<longleftrightarrow> db_ok (ss_db s) \<and> refresh_tokens (ss_db s) = [] \<and> revoked_access_tokens (ss_db s) = [] \<and>
     ss_txs s = []"

lemma no_sessions_inv: "no_sessions s \<Longrightarrow> session_inv rt exp_of s"
  by (simp add: no_sessions_def session_inv_def tokens_ok_def db_ok_def families_ok_def list_all_iff
      denylist_ok_def holds_ok_def)

locale session_system =
  fixes lib :: auth_lib and cfg :: token_config and rt :: runtime and exp_of :: "uuid \<Rightarrow> int"
  assumes runtime_ok: "pg_ok rt"

sublocale session_system \<subseteq> step_system no_sessions "session_step lib cfg rt exp_of" "session_inv rt exp_of"
  by unfold_locales (auto intro: no_sessions_inv dest: session_inv_step [OF runtime_ok])

context session_system
begin

lemma reachable_inv: "reachable no_sessions (session_step lib cfg rt exp_of) s \<Longrightarrow> session_inv rt exp_of s"
  by (rule inv_reachable)

text \<open>A property that a step keeps under the invariant is kept by all steps.\<close>

lemma steps_keep:
  assumes "(session_step lib cfg rt exp_of)\<^sup>*\<^sup>* s t" "session_inv rt exp_of s" "P s"
    and "\<And>u v. session_step lib cfg rt exp_of u v \<Longrightarrow> session_inv rt exp_of u \<Longrightarrow> session_inv rt exp_of v \<Longrightarrow>
      later (ss_db u) (ss_db v) \<Longrightarrow> P u \<Longrightarrow> P v"
  shows "session_inv rt exp_of t \<and> P t"
  using assms(1)
proof (induction rule: rtranclp_induct)
  case (step u v)
  then show ?case using assms(4) session_inv_step [OF runtime_ok step(2)] by blast
qed (use assms in simp)

end

interpretation canonical_sessions: session_system lib cfg canonical_runtime exp_of for lib cfg exp_of
  by unfold_locales (rule canonical_runtime_ok)

section \<open>The course of one call\<close>

lemma tx_moves:
  assumes "session_step lib cfg rt exp_of s t" "i < length (ss_txs s)"
  obtains (same) "ss_txs t ! i = ss_txs s ! i"
  | (select) t' fv token where "ss_txs s ! i = Refresh_begun t' fv token" "ss_db t = ss_db s"
      "ss_txs t ! i = after_select t' fv (lookup_token lib cfg token (ss_db s))"
  | (rotate) t' fv row where "ss_txs s ! i = Refresh_locked t' fv row"
  | (replay_update) t' row where "ss_txs s ! i = Replay_locked t' row" "ss_db t = ss_db s"
      "ss_txs t ! i = Replay_update t' row (snapshot s)"
  | (replay) t' row seen r where "ss_txs s ! i = Replay_update t' row seen"
      "transaction (revokeFamily_late seen rt t' (rt_family_id row)) (ss_db s) = (r, ss_db t)"
      "ss_txs t ! i = (case r of Inl e \<Rightarrow> Answered (Inl e) | Inr _ \<Rightarrow> settled_answer (Refresh_reuse row))"
  | (logout_update) t' user where "ss_txs s ! i = Logout_begun t' user" "ss_db t = ss_db s"
      "ss_txs t ! i = Logout_update t' user (snapshot s)"
  | (out) t' user seen r where "ss_txs s ! i = Logout_update t' user seen" "ss_now t = ss_now s"
      "logout_late seen rt t' user (ss_db s) = (r, ss_db t)" "ss_txs t ! i = Answered (map_sum id (\<lambda>_. None) r)"
  | (fails) code msg where "\<And>r. ss_txs s ! i \<noteq> Answered r" "ss_txs t ! i = Answered (Inl (db_error code msg))"
      "ss_db t = ss_db s"
  using assms(1)
proof cases
  case (begin_refresh fv token)
  then show thesis using assms(2) same by (simp add: nth_append)
next
  case (begin_logout user)
  then show thesis using assms(2) same by (simp add: nth_append)
next
  case (select_for_update j t' fv token found)
  then show thesis using select same by (cases "j = i") auto
next
  case (rotate_commit j t' fv row r db')
  then show thesis using rotate same by (cases "j = i") auto
next
  case (replay_starts_update j t' row)
  then show thesis using replay_update same by (cases "j = i") auto
next
  case (replay_commit j t' row seen r db')
  then show thesis using replay [of t' row seen r] same by (cases "j = i") auto
next
  case (logout_starts_update j t' user)
  then show thesis using logout_update same by (cases "j = i") auto
next
  case (logout_commit j t' user seen r db')
  then show thesis using out [of t' user seen r] same by (cases "j = i") auto
next
  case (tx_fails j code msg)
  then show thesis using fails [of code msg] same by (cases "j = i") auto
qed (use same in simp_all)

lemma step_length: "session_step lib cfg rt exp_of s t \<Longrightarrow> length (ss_txs s) \<le> length (ss_txs t)"
  by (induction rule: session_step.induct) simp_all

lemma step_time: "session_step lib cfg rt exp_of s t \<Longrightarrow> ss_now s \<le> ss_now t"
  by (induction rule: session_step.induct) simp_all

section \<open>Revoked for good\<close>

text \<open>The ids of the tokens of a family; the tokens with some ids are revoked.\<close>

definition issued :: "uuid \<Rightarrow> db \<Rightarrow> uuid set" where
  "issued f db = rt_id ` set (filter (\<lambda>r. rt_family_id r = f) (refresh_tokens db))"

definition gone :: "uuid \<Rightarrow> uuid set \<Rightarrow> db \<Rightarrow> bool" where
  "gone f ids db \<longleftrightarrow> (\<forall>r\<in>set (refresh_tokens db). rt_family_id r = f \<longrightarrow> rt_id r \<in> ids \<longrightarrow> rt_revoked_at r \<noteq> None)"

lemma later_ids: "later db db' \<Longrightarrow> ids \<subseteq> rt_id ` set (refresh_tokens db) \<Longrightarrow> ids \<subseteq> rt_id ` set (refresh_tokens db')"
proof
  fix x
  assume l: "later db db'" "ids \<subseteq> rt_id ` set (refresh_tokens db)" and x: "x \<in> ids"
  then obtain r where r: "r \<in> set (refresh_tokens db)" "x = rt_id r" by blast
  from laterD [OF l(1) r(1)] obtain r' where "r' \<in> set (refresh_tokens db')" "rt_id r' = rt_id r" by blast
  then show "x \<in> rt_id ` set (refresh_tokens db')" using r(2) by (metis imageI)
qed

lemma later_family: "later db db' \<Longrightarrow> f \<in> rt_family_id ` set (refresh_tokens db) \<Longrightarrow> f \<in> rt_family_id ` set (refresh_tokens db')"
proof -
  assume l: "later db db'" "f \<in> rt_family_id ` set (refresh_tokens db)"
  then obtain r where r: "r \<in> set (refresh_tokens db)" "f = rt_family_id r" by blast
  from laterD [OF l(1) r(1)] obtain r' where "r' \<in> set (refresh_tokens db')" "rt_family_id r' = rt_family_id r" by blast
  then show "f \<in> rt_family_id ` set (refresh_tokens db')" using r(2) by (metis imageI)
qed

lemma same_row:
  "tokens_ok db \<Longrightarrow> r \<in> set (refresh_tokens db) \<Longrightarrow> q \<in> set (refresh_tokens db) \<Longrightarrow> rt_id r = rt_id q \<Longrightarrow> r = q"
  by (auto simp: tokens_ok_def distinct_map inj_on_def)

lemma gone_later:
  assumes "gone f ids db" "later db db'" "tokens_ok db'" "ids \<subseteq> rt_id ` set (refresh_tokens db)"
  shows "gone f ids db'"
  unfolding gone_def
proof (intro ballI impI)
  fix r
  assume r: "r \<in> set (refresh_tokens db')" "rt_family_id r = f" "rt_id r \<in> ids"
  then obtain r0 where r0: "r0 \<in> set (refresh_tokens db)" "rt_id r0 = rt_id r" using assms(4) by auto
  then obtain r' where r': "r' \<in> set (refresh_tokens db')" "rt_id r' = rt_id r0" "rt_family_id r' = rt_family_id r0"
      "rt_revoked_at r0 \<noteq> None \<Longrightarrow> rt_revoked_at r' \<noteq> None"
    using laterD [OF assms(2) r0(1)] by blast
  then have same: "r' = r" using same_row [OF assms(3) r'(1) r(1)] r0(2) by simp
  have "rt_revoked_at r0 \<noteq> None" using assms(1) r0 r(2,3) r'(3) same by (simp add: gone_def)
  then show "rt_revoked_at r \<noteq> None" using r'(4) same by simp
qed

lemma gone_revoke_seen:
  "ids \<subseteq> set seen \<Longrightarrow> gone f ids (db\<lparr>refresh_tokens := revoke_seen t f seen (refresh_tokens db), revoked_access_tokens := x\<rparr>)"
  unfolding gone_def
proof (intro ballI impI)
  fix r
  assume h: "ids \<subseteq> set seen" "rt_id r \<in> ids" "rt_family_id r = f"
    "r \<in> set (refresh_tokens (db\<lparr>refresh_tokens := revoke_seen t f seen (refresh_tokens db), revoked_access_tokens := x\<rparr>))"
  from h(4) have "r \<in> set (revoke_seen t f seen (refresh_tokens db))" by simp
  then obtain q where q: "r = (if rt_id q \<in> set seen \<and> rt_family_id q = f \<and> rt_revoked_at q = None
      then q\<lparr>rt_revoked_at := Some t\<rparr> else q)"
    unfolding set_revoke_seen by (rule imageE)
  then have "rt_id q \<in> set seen" "rt_family_id q = f" using h(1-3) by (auto split: if_splits)
  then show "rt_revoked_at r \<noteq> None" using q by simp
qed

text \<open>A family that exists and has only revoked tokens is closed, and stays so.\<close>

definition closed :: "uuid \<Rightarrow> db \<Rightarrow> bool" where
  "closed f db \<longleftrightarrow> f \<in> rt_family_id ` set (refresh_tokens db) \<and> gone f (rt_id ` set (refresh_tokens db)) db"

lemma closed_step:
  assumes "pg_ok rt" "session_step lib cfg rt exp_of s t" "session_inv rt exp_of s" "closed f (ss_db s)"
  shows "closed f (ss_db t)"
proof -
  have inv: "tokens_ok (ss_db t)" "later (ss_db s) (ss_db t)"
    using session_inv_step [OF assms(1-3)] by (auto simp: session_inv_def)
  have old: "f \<in> rt_family_id ` set (refresh_tokens (ss_db s))" using assms(4) by (simp add: closed_def)
  have same: ?thesis if ids: "rt_id ` set (refresh_tokens (ss_db t)) \<subseteq> rt_id ` set (refresh_tokens (ss_db s)) \<union> new"
    and other: "\<And>r. r \<in> set (refresh_tokens (ss_db t)) \<Longrightarrow> rt_id r \<in> new \<Longrightarrow> rt_family_id r \<noteq> f" for new
  proof -
    have g: "gone f (rt_id ` set (refresh_tokens (ss_db s))) (ss_db t)"
      using gone_later [OF _ inv(2,1)] assms(4) by (simp add: closed_def)
    have "rt_revoked_at r \<noteq> None" if r: "r \<in> set (refresh_tokens (ss_db t))" "rt_family_id r = f" for r
    proof -
      have "rt_id r \<in> rt_id ` set (refresh_tokens (ss_db s)) \<union> new" using ids r(1) by blast
      moreover have "rt_id r \<notin> new" using other [OF r(1)] r(2) by blast
      ultimately show ?thesis using g r unfolding gone_def by blast
    qed
    then show ?thesis using later_family [OF inv(2) old] unfolding closed_def gone_def by blast
  qed
  show ?thesis
    using assms(2)
  proof cases
    case (log_in user fam fv r db')
    from assms(1) session_invD(1) [OF assms(3)] log_in(2-6) show ?thesis
    proof (cases rule: login_cases)
      case (opened u)
      have "rt_family_id r \<noteq> f" if "r \<in> set (refresh_tokens (ss_db t))" "rt_id r = fv_row_id fv" for r
      proof -
        let ?new = "token_row lib cfg (ss_now s) fv u fam"
        have "?new \<in> set (refresh_tokens (ss_db t))" using log_in(1) opened(1) by simp
        then have "r = ?new" using same_row [OF inv(1) that(1)] that(2) by (simp add: row_simps)
        then show ?thesis using old log_in(4) by (auto simp: row_simps)
      qed
      then show ?thesis
        using log_in(1) opened(1) by (intro same [of "{fv_row_id fv}"]) (auto simp: row_simps)
    qed (use assms(4) log_in(1) in simp)
  next
    case (rotate_commit i t' fv row r db')
    from assms(1,3) rotate_commit(2-4) show ?thesis
    proof (cases rule: rotate_commit_cases)
      case (rotated pair)
      have fam: "rt_family_id row \<noteq> f" using assms(4) rotated(2,3) by (auto simp: closed_def gone_def live_def)
      let ?new = "token_row lib cfg t' fv (rt_user_id row) (rt_family_id row)"
      have "rt_family_id q \<noteq> f" if "q \<in> set (refresh_tokens (ss_db t))" "rt_id q = fv_row_id fv" for q
      proof -
        have "?new \<in> set (refresh_tokens (ss_db t))" using rotate_commit(1) rotated(5) by simp
        then have "q = ?new" using same_row [OF inv(1) that(1)] that(2) by (simp add: row_simps)
        then show ?thesis using fam by (simp add: row_simps)
      qed
      then show ?thesis
        using rotate_commit(1) rotated(5) by (intro same [of "{fv_row_id fv}"]) (auto simp: row_simps)
    qed (use assms(4) rotate_commit(1) in simp)
  next
    case (replay_commit i t' row seen r db')
    then have "ss_db t = ss_db s \<or> (\<exists>fam. refresh_tokens (ss_db t) = revoke_seen t' fam seen (refresh_tokens (ss_db s)))"
      by (auto simp: transaction_def revokeFamily_late_run split: option.splits)
    then have "rt_id ` set (refresh_tokens (ss_db t)) = rt_id ` set (refresh_tokens (ss_db s))"
      by (elim disjE exE) (simp_all only: ids_revoke_seen)
    then show ?thesis by (intro same [of "{}"]) auto
  next
    case (logout_commit i t' user seen r db')
    then have "ss_db t = ss_db s \<or> (\<exists>fam. refresh_tokens (ss_db t) = revoke_seen t' fam seen (refresh_tokens (ss_db s)))"
      by (auto simp: logout_late_run split: option.splits)
    then have "rt_id ` set (refresh_tokens (ss_db t)) = rt_id ` set (refresh_tokens (ss_db s))"
      by (elim disjE exE) (simp_all only: ids_revoke_seen)
    then show ?thesis by (intro same [of "{}"]) auto
  qed (use assms(4) in \<open>simp_all add: closed_def gone_def\<close>)
qed

lemma revoked_refuses:
  assumes "tokens_ok db" "lookup_token lib cfg token db = Some row" "rt_revoked_at row \<noteq> None"
  shows "refresh lib cfg rt now fv token db = (Inl refresh_invalid, db)"
  using assms by (intro refresh_rejects) (simp add: dead_def)


context session_system
begin

lemma closed_steps:
  assumes "(session_step lib cfg rt exp_of)\<^sup>*\<^sup>* s t" "session_inv rt exp_of s" "closed f (ss_db s)"
  shows "closed f (ss_db t)"
  using steps_keep [OF assms(1,2), of "\<lambda>u. closed f (ss_db u)"] closed_step [OF runtime_ok] assms(3) by blast

lemma gone_steps:
  assumes "(session_step lib cfg rt exp_of)\<^sup>*\<^sup>* s t" "session_inv rt exp_of s"
    and "gone f ids (ss_db s)" "ids \<subseteq> rt_id ` set (refresh_tokens (ss_db s))"
  shows "gone f ids (ss_db t)"
proof -
  have "session_inv rt exp_of t \<and> (gone f ids (ss_db t) \<and> ids \<subseteq> rt_id ` set (refresh_tokens (ss_db t)))"
  proof (rule steps_keep [OF assms(1,2)])
    fix u v
    assume h: "session_inv rt exp_of v" "later (ss_db u) (ss_db v)"
      "gone f ids (ss_db u) \<and> ids \<subseteq> rt_id ` set (refresh_tokens (ss_db u))"
    then show "gone f ids (ss_db v) \<and> ids \<subseteq> rt_id ` set (refresh_tokens (ss_db v))"
      using gone_later [OF _ h(2) session_invD(1) [OF h(1)]] later_ids [OF h(2)] by blast
  qed (simp add: assms(3,4))
  then show ?thesis by simp
qed

text \<open>What is revoked is refused, in every later state.\<close>

lemma refused_later:
  assumes "(session_step lib cfg rt exp_of)\<^sup>*\<^sup>* s t" "session_inv rt exp_of s"
    and "gone f ids (ss_db s)" "ids \<subseteq> rt_id ` set (refresh_tokens (ss_db s))"
    and "f \<in> rt_family_id ` set (refresh_tokens (ss_db s))"
    and "lookup_token lib cfg token (ss_db t) = Some row" "rt_family_id row = f"
    and "rt_id row \<in> ids \<or> issued f (ss_db s) \<subseteq> ids"
  shows "refresh lib cfg rt now fv token (ss_db t) = (Inl refresh_invalid, ss_db t)"
proof -
  have inv: "session_inv rt exp_of t" using inv_steps [OF assms(1,2)] .
  have row: "row \<in> set (refresh_tokens (ss_db t))" using lookup_token_Some [OF assms(6)] by simp
  have "rt_revoked_at row \<noteq> None"
  proof (cases "rt_id row \<in> ids")
    case True
    then show ?thesis using gone_steps [OF assms(1-4)] row assms(7) by (simp add: gone_def)
  next
    case False
    then have "issued f (ss_db s) \<subseteq> ids" using assms(8) by simp
    then have "closed f (ss_db s)" using assms(3,5) by (auto simp: closed_def gone_def issued_def)
    from closed_steps [OF assms(1,2) this] show ?thesis using row assms(7) by (simp add: closed_def gone_def)
  qed
  from revoked_refuses [OF session_invD(1) [OF inv] assms(6) this] show ?thesis .
qed

end

section \<open>A replay on its way\<close>

text \<open>\<open>ids\<close> are the tokens of the family that were there when the call began.\<close>

fun replay_on_way :: "string \<Rightarrow> uuid \<Rightarrow> uuid set \<Rightarrow> db \<Rightarrow> session_tx \<Rightarrow> bool" where
  "replay_on_way token f ids db (Refresh_begun t fv token') = (token' = token)"
| "replay_on_way token f ids db (Replay_locked t row) = (rt_family_id row = f)"
| "replay_on_way token f ids db (Replay_update t row seen) = (rt_family_id row = f \<and> ids \<subseteq> set seen)"
| "replay_on_way token f ids db (Answered r) =
     ((r = Inl refresh_reuse \<or> r = Inl refresh_invalid \<or> (\<exists>c m. r = Inl (db_error c m))) \<and>
      (r = Inl refresh_reuse \<longrightarrow> gone f ids db))"
| "replay_on_way token f ids db tx = False"

definition used_token :: "auth_lib \<Rightarrow> token_config \<Rightarrow> string \<Rightarrow> uuid \<Rightarrow> db \<Rightarrow> bool" where
  "used_token lib cfg token f db \<longleftrightarrow> (\<exists>row\<in>set (refresh_tokens db).
     rt_token_hash row = hashRefresh lib cfg token \<and> rt_family_id row = f \<and> rt_used_at row \<noteq> None)"

lemma used_token_later: "used_token lib cfg token f db \<Longrightarrow> later db db' \<Longrightarrow> used_token lib cfg token f db'"
  unfolding used_token_def by (metis laterD)

lemma used_token_lookup:
  assumes "tokens_ok db" "used_token lib cfg token f db"
  obtains row where "lookup_token lib cfg token db = Some row" "rt_family_id row = f" "rt_used_at row \<noteq> None"
proof -
  obtain row where row: "row \<in> set (refresh_tokens db)" "rt_token_hash row = hashRefresh lib cfg token"
      "rt_family_id row = f" "rt_used_at row \<noteq> None"
    using assms(2) by (auto simp: used_token_def)
  have "lookup_token lib cfg token db = Some row"
    using find_key [of rt_token_hash "refresh_tokens db" row] assms(1) row(1,2) by (simp add: lookup_token_def tokens_ok_def)
  then show thesis using that row by blast
qed

lemma exn_distinct [simp]:
  "db_error c m \<noteq> refresh_reuse" "refresh_invalid \<noteq> refresh_reuse"
  "refresh_reuse \<noteq> db_error c m" "refresh_reuse \<noteq> refresh_invalid"
  by (simp_all add: refresh_reuse_def refresh_invalid_def db_error_def problem_def)

lemma refresh_answers [simp]:
  "refresh_answer Refresh_invalid = Inl refresh_invalid"
  "refresh_answer (Refresh_reuse row) = Inl refresh_reuse"
  by (simp_all add: refresh_invalid_def refresh_reuse_def)

declare refresh_answer.simps(1,2) [simp del]

definition replay_track :: "auth_lib \<Rightarrow> token_config \<Rightarrow> nat \<Rightarrow> string \<Rightarrow> uuid \<Rightarrow> uuid set \<Rightarrow> sessions \<Rightarrow> bool" where
  "replay_track lib cfg i token f ids s \<longleftrightarrow> i < length (ss_txs s) \<and>
     ids \<subseteq> rt_id ` set (refresh_tokens (ss_db s)) \<and> used_token lib cfg token f (ss_db s) \<and>
     replay_on_way token f ids (ss_db s) (ss_txs s ! i)"

lemma replay_track_step:
  assumes "session_step lib cfg rt exp_of s u" "session_inv rt exp_of s" "session_inv rt exp_of u"
    and "later (ss_db s) (ss_db u)" "replay_track lib cfg i token f ids s" "pg_ok rt"
  shows "replay_track lib cfg i token f ids u"
proof -
  have track: "i < length (ss_txs s)" "ids \<subseteq> rt_id ` set (refresh_tokens (ss_db s))"
      "used_token lib cfg token f (ss_db s)" "replay_on_way token f ids (ss_db s) (ss_txs s ! i)"
    using assms(5) by (auto simp: replay_track_def)
  have "replay_on_way token f ids (ss_db u) (ss_txs u ! i)"
    using assms(1) track(1)
  proof (cases rule: tx_moves)
    case same
    have "gone f ids (ss_db s) \<Longrightarrow> gone f ids (ss_db u)"
      using gone_later [OF _ assms(4) session_invD(1) [OF assms(3)] track(2)] .
    then show ?thesis using track(4) same by (cases "ss_txs s ! i") auto
  next
    case (select t' fv token')
    obtain row where row: "lookup_token lib cfg token (ss_db s) = Some row" "rt_family_id row = f" "rt_used_at row \<noteq> None"
      using used_token_lookup [OF session_invD(1) [OF assms(2)] track(3)] .
    have "token' = token" using track(4) select(1) by simp
    then show ?thesis using row select(3) by (auto simp: after_select_def triage_def settled_answer_def)
  next
    case (replay_update t' row)
    then show ?thesis using track(2,4) by (auto simp: set_snapshot)
  next
    case (replay t' row seen r)
    have way: "rt_family_id row = f" "ids \<subseteq> set seen" using track(4) replay(1) by simp_all
    note run = replay_run [OF assms(6,2) track(1) replay(1,2), unfolded way(1)]
    have "gone f ids (ss_db u)"
      using gone_revoke_seen [OF way(2), where db = "ss_db s" and x = "revoked_access_tokens (ss_db s)"] by (simp add: run(2))
    then show ?thesis using replay(3) by (simp add: run(1) settled_answer_def)
  qed (use track(4) in auto)
  then show ?thesis
    using step_length [OF assms(1)] later_ids [OF assms(4) track(2)] used_token_later [OF track(3) assms(4)] track(1)
    by (simp add: replay_track_def)
qed

section \<open>A logout on its way\<close>

definition denied :: "(uuid \<Rightarrow> int) \<Rightarrow> uuid \<Rightarrow> sessions \<Rightarrow> bool" where
  "denied exp_of jti s \<longleftrightarrow> exp_of jti * 1000 \<le> ss_now s \<or> jti \<in> rv_jti ` set (revoked_access_tokens (ss_db s))"

lemma deny_keeps:
  assumes "denylist_ok exp_of db" "t \<le> now" "jti \<in> rv_jti ` set (revoked_access_tokens db)"
  shows "exp_of jti * 1000 \<le> now \<or> jti \<in> rv_jti ` set (deny t j e (revoked_access_tokens db))"
proof -
  obtain r where r: "r \<in> set (revoked_access_tokens db)" "rv_jti r = jti" "rv_expires_at r = exp_of jti * 1000"
    using assms(1,3) by (auto simp: denylist_ok_def)
  then show ?thesis using assms(2) by (cases "rv_expires_at r \<le> t") (auto simp: deny_def image_iff)
qed

lemma deny_denies:
  assumes "denylist_ok exp_of db" "t \<le> now"
  shows "exp_of jti * 1000 \<le> now \<or> jti \<in> rv_jti ` set (deny t jti (exp_of jti) (revoked_access_tokens db))"
proof (cases "jti \<in> rv_jti ` set (revoked_access_tokens db)")
  case True
  then show ?thesis by (rule deny_keeps [OF assms])
next
  case False
  then show ?thesis using assms(2) by (cases "exp_of jti * 1000 \<le> t") (simp_all add: deny_def)
qed

lemma denied_step:
  assumes "pg_ok rt" "session_step lib cfg rt exp_of s u" "session_inv rt exp_of s" "denied exp_of jti s"
  shows "denied exp_of jti u"
  using assms(2)
proof cases
  case (log_in user fam fv r db')
  from assms(1) session_invD(1) [OF assms(3)] log_in(2-6) show ?thesis
    by (cases rule: login_cases) (use assms(4) log_in(1) in \<open>simp_all add: denied_def\<close>)
next
  case (rotate_commit i t' fv row r db')
  from assms(1,3) rotate_commit(2-4) show ?thesis
    by (cases rule: rotate_commit_cases) (use assms(4) rotate_commit(1) in \<open>simp_all add: denied_def\<close>)
next
  case (replay_commit i t' row seen r db')
  then show ?thesis
    using assms(4) by (auto simp: transaction_def revokeFamily_late_run denied_def split: option.splits)
next
  case (logout_commit i t' user seen r db')
  have "t' \<le> ss_now s" using session_invD(4) [OF assms(3) logout_commit(2)] logout_commit(3) by simp
  note keep = deny_keeps [OF session_invD(2) [OF assms(3)] this]
  have "jti \<in> rv_jti ` set (deny t' j e (revoked_access_tokens (ss_db s)))" if "\<not> exp_of jti * 1000 \<le> ss_now s" for j e
    using that assms(4) keep [of jti j e] unfolding denied_def by blast
  moreover have "revoked_access_tokens (ss_db u) = revoked_access_tokens (ss_db s) \<or>
      (\<exists>j e. revoked_access_tokens (ss_db u) = deny t' j e (revoked_access_tokens (ss_db s)))"
    using logout_commit(5) unfolding logout_commit(1) by (fastforce simp: logout_late_run split: option.splits)
  moreover have "ss_now u = ss_now s" using logout_commit(1) by simp
  ultimately show ?thesis using assms(4) unfolding denied_def by metis
qed (use assms(4) in \<open>auto simp: denied_def\<close>)

text \<open>An access token that is denied does not verify any more.\<close>

lemma denied_refused:
  assumes "lib_ok lib cfg" "verifyAccess lib cfg rt now token db = Inr user"
    and "pg_uuid_in rt (au_jti user) = Some (au_jti user)" "au_exp user = exp_of (au_jti user)"
    and "session_inv rt exp_of s" "denied exp_of (au_jti user) s"
  shows "\<exists>e. verifyAccess lib cfg rt (ss_now s) token (ss_db s) = Inl e"
proof (cases "verifyAccess lib cfg rt (ss_now s) token (ss_db s)")
  case (Inr u)
  then obtain key q where q: "jwt_verify lib \<lparr>vo_publicKey = key, vo_algorithms = [''ES256''],
      vo_issuer = JWT_ISSUER, vo_audience = JWT_AUDIENCE\<rparr> token (ss_now s) = Inr q"
    and key: "keyFor lib cfg token = Some key" and nr: "isRevoked rt (ss_now s) (ap_jti q) (ss_db s) = Inr False"
    unfolding verifyAccess_def by (auto split: option.splits if_splits)
  from assms(2) key obtain p where p: "jwt_verify lib \<lparr>vo_publicKey = key, vo_algorithms = [''ES256''],
      vo_issuer = JWT_ISSUER, vo_audience = JWT_AUDIENCE\<rparr> token now = Inr p" "user = toAuthUser p"
    unfolding verifyAccess_def by (auto split: if_splits)
  have "p = q" using lib_okD(4) [OF assms(1) p(1) q] .
  moreover have "ss_now s div 1000 < ap_exp q" using lib_okD(3) [OF assms(1) q] .
  ultimately have now: "ss_now s < exp_of (au_jti user) * 1000" "ap_jti q = au_jti user"
    using p(2) assms(4) by (auto simp: toAuthUser_def)
  then obtain e where e: "e \<in> set (revoked_access_tokens (ss_db s))" "rv_jti e = au_jti user"
    using assms(6) by (auto simp: denied_def)
  then have "rv_expires_at e > ss_now s"
    using session_invD(2) [OF assms(5)] now(1) by (simp add: denylist_ok_def)
  then have False using nr e now(2) assms(3) by (auto simp: isRevoked_def bind_uuid_def filter_empty_conv)
  then show ?thesis ..
qed simp

fun logout_on_way :: "(uuid \<Rightarrow> int) \<Rightarrow> AuthUser \<Rightarrow> uuid set \<Rightarrow> sessions \<Rightarrow> session_tx \<Rightarrow> bool" where
  "logout_on_way exp_of user ids s (Logout_begun t user') = (user' = user)"
| "logout_on_way exp_of user ids s (Logout_update t user' seen) = (user' = user \<and> ids \<subseteq> set seen)"
| "logout_on_way exp_of user ids s (Answered r) =
     ((r = Inr None \<and> gone (au_sid user) ids (ss_db s) \<and> denied exp_of (au_jti user) s) \<or> (\<exists>c m. r = Inl (db_error c m)))"
| "logout_on_way exp_of user ids s tx = False"

definition logout_track :: "(uuid \<Rightarrow> int) \<Rightarrow> nat \<Rightarrow> AuthUser \<Rightarrow> uuid set \<Rightarrow> sessions \<Rightarrow> bool" where
  "logout_track exp_of i user ids s \<longleftrightarrow> i < length (ss_txs s) \<and>
     ids \<subseteq> rt_id ` set (refresh_tokens (ss_db s)) \<and> logout_on_way exp_of user ids s (ss_txs s ! i)"

lemma logout_track_step:
  assumes "session_step lib cfg rt exp_of s u" "session_inv rt exp_of s" "session_inv rt exp_of u"
    and "later (ss_db s) (ss_db u)" "logout_track exp_of i user ids s" "pg_ok rt"
    and "is_uuid (au_sid user)" "is_uuid (au_jti user)"
  shows "logout_track exp_of i user ids u"
proof -
  have track: "i < length (ss_txs s)" "ids \<subseteq> rt_id ` set (refresh_tokens (ss_db s))"
      "logout_on_way exp_of user ids s (ss_txs s ! i)"
    using assms(5) by (auto simp: logout_track_def)
  have "logout_on_way exp_of user ids u (ss_txs u ! i)"
    using assms(1) track(1)
  proof (cases rule: tx_moves)
    case same
    have "gone (au_sid user) ids (ss_db s) \<Longrightarrow> gone (au_sid user) ids (ss_db u)"
      using gone_later [OF _ assms(4) session_invD(1) [OF assms(3)] track(2)] .
    moreover have "denied exp_of (au_jti user) s \<Longrightarrow> denied exp_of (au_jti user) u"
      using denied_step [OF assms(6,1,2)] .
    ultimately show ?thesis using track(3) same by (cases "ss_txs s ! i") auto
  next
    case (logout_update t' user')
    then show ?thesis using track(2,3) by (auto simp: set_snapshot)
  next
    case (out t' user' seen r)
    have way: "user' = user" "ids \<subseteq> set seen" using track(3) out(1) by simp_all
    have ids: "pg_uuid_in rt (au_sid user) = Some (au_sid user)" "pg_uuid_in rt (au_jti user) = Some (au_jti user)"
      using pg_okD(1) [OF assms(6)] assms(7,8) by simp_all
    have tx: "t' \<le> ss_now s" "au_exp user = exp_of (au_jti user)"
      using session_invD(4) [OF assms(2) track(1)] out(1) way(1) ids(2) by (auto simp: exp_ok_def)
    have run: "r = Inr ()" "ss_db u = (ss_db s)\<lparr>refresh_tokens := revoke_seen t' (au_sid user) seen (refresh_tokens (ss_db s)),
          revoked_access_tokens := deny t' (au_jti user) (au_exp user) (revoked_access_tokens (ss_db s))\<rparr>"
      using out(3) ids way(1) by (simp_all add: logout_late_run)
    have "denied exp_of (au_jti user) u"
      using deny_denies [OF session_invD(2) [OF assms(2)] tx(1)] by (simp add: denied_def run(2) out(2) tx(2))
    then show ?thesis using gone_revoke_seen [OF way(2)] out(4) by (simp add: run)
  qed (use track(3) in auto)
  then show ?thesis
    using step_length [OF assms(1)] later_ids [OF assms(4) track(2)] track(1) by (simp add: logout_track_def)
qed

section \<open>Properties\<close>

lemma session_system_intro: "pg_ok rt \<Longrightarrow> session_system rt"
  by unfold_locales

text \<open>
  (C9) The invariant of the rotating families, under every interleaving of the statements of logins,
  refreshes, replays, logouts, failures of transactions and changes of roles: the tokens of a family
  belong to one user, and at most one of them is live, neither used nor revoked. In particular two
  refreshes that present the same token at once never both get a pair; it is the row lock of
  \<open>SELECT ... FOR UPDATE\<close> that keeps them apart.
\<close>

theorem rotation_invariant:
  assumes "pg_ok rt" "reachable no_sessions (session_step lib cfg rt exp_of) s"
    and "r \<in> set (refresh_tokens (ss_db s))" "q \<in> set (refresh_tokens (ss_db s))" "rt_family_id r = rt_family_id q"
  shows "rt_user_id r = rt_user_id q \<and>
    (rt_used_at r = None \<and> rt_revoked_at r = None \<and> rt_used_at q = None \<and> rt_revoked_at q = None \<longrightarrow> r = q)"
proof -
  have "session_inv rt exp_of s" by (rule session_system.reachable_inv [OF session_system_intro [OF assms(1)] assms(2)])
  then have ok: "tokens_ok (ss_db s)" by (rule session_invD(1))
  then have "families_ok (refresh_tokens (ss_db s))" by (simp add: tokens_ok_def)
  from families_okD [OF this assms(3-5)] show ?thesis
    using same_row [OF ok assms(3,4)] by (auto simp: siblings_ok_def live_def)
qed

text \<open>Alice's browser logs in, refreshes after a minute, and replays the first token after another.\<close>

abbreviation alice_steps :: "sessions \<Rightarrow> sessions \<Rightarrow> bool" where
  "alice_steps \<equiv> session_step json_lib example_config canonical_runtime (\<lambda>_. 1767226200)"

lemma run_2: "step a b \<Longrightarrow> step b c \<Longrightarrow> step\<^sup>*\<^sup>* a c"
  by (meson converse_rtranclp_into_rtranclp r_into_rtranclp)

lemma run_3: "step a b \<Longrightarrow> step b c \<Longrightarrow> step c d \<Longrightarrow> step\<^sup>*\<^sup>* a d"
  by (meson converse_rtranclp_into_rtranclp r_into_rtranclp)

definition alice_pair :: TokenPair where
  "alice_pair = \<lparr>tp_access_token = signAccess json_lib example_config 1767225660000 (fv_jti refresh_values)
     (au_id alice) Member (au_sid alice), tp_refresh_token = newRefresh (fv_bytes refresh_values),
     tp_token_type = ''Bearer'', tp_expires_in = ACCESS_TTL_SECONDS\<rparr>"

definition alice_at :: "db \<Rightarrow> millis \<Rightarrow> session_tx list \<Rightarrow> sessions" where
  "alice_at db now txs = \<lparr>ss_db = db, ss_now = now, ss_txs = txs\<rparr>"

lemma alice_at_simps [simp]:
  "ss_db (alice_at db now txs) = db" "ss_now (alice_at db now txs) = now" "ss_txs (alice_at db now txs) = txs"
  "(alice_at db now txs)\<lparr>ss_db := db'\<rparr> = alice_at db' now txs"
  "(alice_at db now txs)\<lparr>ss_now := now'\<rparr> = alice_at db now' txs"
  "(alice_at db now txs)\<lparr>ss_txs := txs'\<rparr> = alice_at db now txs'"
  "set_tx i tx (alice_at db now txs) = alice_at db now (txs[i := tx])"
  "snapshot (alice_at db now txs) = map rt_id (refresh_tokens db)"
  by (simp_all add: alice_at_def set_tx_def snapshot_def)

lemma alice_logs_in: "reachable no_sessions alice_steps (alice_at alice_in 1767225600000 [])"
proof (rule reach_step)
  let ?s = "alice_at example_db 1767225600000 []"
  show "reachable no_sessions alice_steps ?s"
    by (rule reach_init) (simp add: no_sessions_def example_db_ok)
  show "alice_steps ?s (alice_at alice_in 1767225600000 [])"
    using session_step.log_in [of "(au_id alice, Member)" ?s "au_sid alice" login_values json_lib example_config
        canonical_runtime _ alice_in "\<lambda>_. 1767226200"] alice_user alice_login
    by (simp add: login_values_def)
qed

lemma alice_clock: "now \<le> now' \<Longrightarrow> alice_steps (alice_at db now txs) (alice_at db now' txs)"
  using session_step.time_passes [of "alice_at db now txs" now'] by simp

lemma alice_begins:
  "is_uuid (fv_row_id fv) \<Longrightarrow> alice_steps (alice_at db now txs) (alice_at db now (txs @ [Refresh_begun now fv token]))"
  using session_step.begin_refresh [of fv _ _ _ _ "alice_at db now txs"] by simp

lemma alice_rotates:
  "alice_steps (alice_at alice_in 1767225660000 [Refresh_begun 1767225660000 refresh_values (newRefresh ''secret'')])
     (alice_at alice_in 1767225660000 [Refresh_locked 1767225660000 refresh_values alice_token])"
  "alice_steps (alice_at alice_in 1767225660000 [Refresh_locked 1767225660000 refresh_values alice_token])
     (alice_at alice_rotated 1767225660000 [Answered (Inr (Some alice_pair))])"
proof -
  have live: "after_select 1767225660000 refresh_values (Some alice_token) =
      Refresh_locked 1767225660000 refresh_values alice_token"
    by (simp add: after_select_def triage_def dead_def alice_token_def token_row_def REFRESH_TTL_SECONDS_def)
  show "alice_steps (alice_at alice_in 1767225660000 [Refresh_begun 1767225660000 refresh_values (newRefresh ''secret'')])
     (alice_at alice_in 1767225660000 [Refresh_locked 1767225660000 refresh_values alice_token])"
    using session_step.select_for_update [of 0 "alice_at alice_in 1767225660000
        [Refresh_begun 1767225660000 refresh_values (newRefresh ''secret'')]", where lib = json_lib and cfg = example_config
        and found = "Some alice_token" and rt = canonical_runtime and exp_of = "\<lambda>_. 1767226200"]
      alice_lookup(1) live
    by (simp add: locked_def)
  show "alice_steps (alice_at alice_in 1767225660000 [Refresh_locked 1767225660000 refresh_values alice_token])
     (alice_at alice_rotated 1767225660000 [Answered (Inr (Some alice_pair))])"
    using session_step.rotate_commit [of 0 "alice_at alice_in 1767225660000
        [Refresh_locked 1767225660000 refresh_values alice_token]", where lib = json_lib and cfg = example_config
        and r = "Inr alice_pair" and rt = canonical_runtime and exp_of = "\<lambda>_. 1767226200"]
      refresh_alone [OF alice_lookup(1) live, of canonical_runtime] alice_refresh
    by (simp add: alice_pair_def)
qed

lemma alice_reachable:
  "reachable no_sessions alice_steps (alice_at alice_rotated 1767225660000 [Answered (Inr (Some alice_pair))])"
proof -
  have "is_uuid (fv_row_id refresh_values)" by code_simp
  then have "alice_steps (alice_at alice_in 1767225660000 [])
      (alice_at alice_in 1767225660000 [Refresh_begun 1767225660000 refresh_values (newRefresh ''secret'')])"
    using alice_begins [of refresh_values alice_in 1767225660000 "[]"] by simp
  moreover have "alice_steps (alice_at alice_in 1767225600000 []) (alice_at alice_in 1767225660000 [])"
    by (rule alice_clock) simp
  ultimately show ?thesis
    using reach_step [OF reach_step [OF reach_step [OF reach_step [OF alice_logs_in]]]] alice_rotates by blast
qed

theorem rotation_invariant_witness:
  "rt_used_at alice_successor = None \<and> rt_revoked_at alice_successor = None \<and>
   rt_user_id (alice_token\<lparr>rt_used_at := Some 1767225660000\<rparr>) = rt_user_id alice_successor"
  using rotation_invariant [OF canonical_runtime_ok alice_reachable,
      of "alice_token\<lparr>rt_used_at := Some 1767225660000\<rparr>" alice_successor]
  by (simp add: alice_rotated_def alice_token_def alice_successor_def token_row_def)

text \<open>
  (C10) A replay ends the session. A call of \<open>refresh\<close> that presents a token already used is answered
  with 401, \<open>refresh-reuse-detected\<close> or (the family being revoked or expired already)
  \<open>refresh-invalid\<close>, unless the database fails; it never gets a pair. Once it has answered
  \<open>refresh-reuse-detected\<close>, whatever ran at the same time and whatever follows, every token of the
  family that was issued before the call began is refused, and every token of the family without
  exception when no refresh of it committed while the call was running. A successor that a concurrent
  refresh inserts while the UPDATE of the replay is under way is not in its snapshot and survives
  (\<open>Auth_Race.logout_race\<close> shows such a run for the same UPDATE in a logout).
\<close>

theorem reuse_kills_family:
  assumes "pg_ok rt" "reachable no_sessions (session_step lib cfg rt exp_of) s0"
    and "i < length (ss_txs s0)" "ss_txs s0 ! i = Refresh_begun t fv token"
    and "lookup_token lib cfg token (ss_db s0) = Some row0" "rt_used_at row0 \<noteq> None"
    and "(session_step lib cfg rt exp_of)\<^sup>*\<^sup>* s0 s2" "ss_txs s2 ! i = Answered r"
  shows "(r = Inl refresh_reuse \<or> r = Inl refresh_invalid \<or> (\<exists>code msg. r = Inl (db_error code msg))) \<and>
    (r = Inl refresh_reuse \<longrightarrow>
      (\<forall>s3 now3 fv3 token3 row3. (session_step lib cfg rt exp_of)\<^sup>*\<^sup>* s2 s3 \<longrightarrow>
         lookup_token lib cfg token3 (ss_db s3) = Some row3 \<longrightarrow> rt_family_id row3 = rt_family_id row0 \<longrightarrow>
         rt_id row3 \<in> issued (rt_family_id row0) (ss_db s0) \<or>
           issued (rt_family_id row0) (ss_db s2) \<subseteq> issued (rt_family_id row0) (ss_db s0) \<longrightarrow>
         refresh lib cfg rt now3 fv3 token3 (ss_db s3) = (Inl refresh_invalid, ss_db s3)))"
proof -
  let ?f = "rt_family_id row0" and ?ids = "issued (rt_family_id row0) (ss_db s0)"
  note sys = session_system_intro [OF assms(1)]
  have inv0: "session_inv rt exp_of s0" by (rule session_system.reachable_inv [OF sys assms(2)])
  have used: "used_token lib cfg token ?f (ss_db s0)"
    using lookup_token_Some [OF assms(5)] assms(6) by (auto simp: used_token_def)
  have "replay_track lib cfg i token ?f ?ids s0"
    using assms(3,4) used by (auto simp: replay_track_def issued_def)
  from session_system.steps_keep [where P = "replay_track lib cfg i token ?f ?ids", OF sys assms(7) inv0 this]
    replay_track_step [OF _ _ _ _ _ assms(1)]
  have s2: "session_inv rt exp_of s2" "replay_track lib cfg i token ?f ?ids s2" by blast+
  have "?f \<in> rt_family_id ` set (refresh_tokens (ss_db s2))"
    using s2(2) unfolding replay_track_def used_token_def by (metis imageI)
  with session_system.refused_later [OF sys _ s2(1)] s2(2) assms(8) show ?thesis
    by (auto simp: replay_track_def)
qed

definition alice_revoked :: db where
  "alice_revoked = alice_rotated\<lparr>refresh_tokens :=
     revoke_seen 1767225720000 (au_sid alice) (map rt_id (refresh_tokens alice_rotated)) (refresh_tokens alice_rotated)\<rparr>"

lemma alice_successor_lookup:
  "lookup_token json_lib example_config (newRefresh ''next'') alice_revoked =
     Some (alice_successor\<lparr>rt_revoked_at := Some 1767225720000\<rparr>)"
  using distinct_secrets(1)
  by (simp add: lookup_token_def alice_revoked_def alice_rotated_def alice_token_def alice_successor_def
      token_row_def login_values_def refresh_values_def revoke_seen_def)

lemma alice_replays:
  assumes "row = alice_token\<lparr>rt_used_at := Some 1767225660000\<rparr>"
    and "begun = Refresh_begun 1767225720000 refresh_values (newRefresh ''secret'')"
    and "seen = map rt_id (refresh_tokens alice_rotated)" and "told = Answered (Inr (Some alice_pair))"
  shows "alice_steps (alice_at alice_rotated 1767225720000 [told, begun])
      (alice_at alice_rotated 1767225720000 [told, Replay_locked 1767225720000 row])"
    and "alice_steps (alice_at alice_rotated 1767225720000 [told, Replay_locked 1767225720000 row])
      (alice_at alice_rotated 1767225720000 [told, Replay_update 1767225720000 row seen])"
    and "alice_steps (alice_at alice_rotated 1767225720000 [told, Replay_update 1767225720000 row seen])
      (alice_at alice_revoked 1767225720000 [told, Answered (Inl refresh_reuse)])"
proof -
  have row: "\<not> dead 1767225720000 row" "rt_used_at row \<noteq> None" "rt_family_id row = au_sid alice"
    by (simp_all add: assms dead_def alice_token_def token_row_def REFRESH_TTL_SECONDS_def)
  have used: "after_select 1767225720000 refresh_values (Some row) = Replay_locked 1767225720000 row"
    using row by (simp add: after_select_def triage_def)
  have free: "\<not> locked 1 rid (alice_at alice_rotated 1767225720000 [told, tx])" for rid tx
    by (auto simp: locked_def assms(4) nth_Cons split: nat.splits)
  have run: "transaction (revokeFamily_late seen canonical_runtime 1767225720000 (rt_family_id row)) alice_rotated =
      (Inr (), alice_revoked)"
    by (simp add: transaction_def revokeFamily_late_run row(3) alice_revoked_def assms(3))
  show "alice_steps (alice_at alice_rotated 1767225720000 [told, begun])
      (alice_at alice_rotated 1767225720000 [told, Replay_locked 1767225720000 row])"
    using session_step.select_for_update [of 1 "alice_at alice_rotated 1767225720000 [told, begun]",
        where lib = json_lib and cfg = example_config and found = "Some row" and rt = canonical_runtime
        and exp_of = "\<lambda>_. 1767226200"] alice_lookup(2) used free
    by (simp add: assms(1,2))
  show "alice_steps (alice_at alice_rotated 1767225720000 [told, Replay_locked 1767225720000 row])
      (alice_at alice_rotated 1767225720000 [told, Replay_update 1767225720000 row seen])"
    using session_step.replay_starts_update [of 1 "alice_at alice_rotated 1767225720000
        [told, Replay_locked 1767225720000 row]"] by (simp add: assms(3))
  show "alice_steps (alice_at alice_rotated 1767225720000 [told, Replay_update 1767225720000 row seen])
      (alice_at alice_revoked 1767225720000 [told, Answered (Inl refresh_reuse)])"
    using session_step.replay_commit [of 1 "alice_at alice_rotated 1767225720000 [told, Replay_update 1767225720000 row seen]",
        where rt = canonical_runtime and r = "Inr ()" and db' = alice_revoked] run free
    by (simp add: waits_def settled_answer_def)
qed

theorem reuse_kills_family_witness:
  "fst (refresh json_lib example_config canonical_runtime 1767225720000 login_values (newRefresh ''next'') alice_revoked) =
     Inl refresh_invalid"
proof -
  let ?told = "Answered (Inr (Some alice_pair))" and ?begun = "Refresh_begun 1767225720000 refresh_values (newRefresh ''secret'')"
  let ?s0 = "alice_at alice_rotated 1767225720000 [?told, ?begun]"
  let ?s2 = "alice_at alice_revoked 1767225720000 [?told, Answered (Inl refresh_reuse)]"
  have tick: "alice_steps (alice_at alice_rotated 1767225660000 [?told]) (alice_at alice_rotated 1767225720000 [?told])"
    by (rule alice_clock) simp
  have "is_uuid (fv_row_id refresh_values)" by code_simp
  then have begun: "alice_steps (alice_at alice_rotated 1767225720000 [?told]) ?s0"
    using alice_begins [of refresh_values alice_rotated 1767225720000 "[?told]"] by simp
  note alice_step = reach_step [where step = alice_steps]
  note reach = alice_step [OF alice_step [OF alice_reachable tick] begun]
  have run: "alice_steps\<^sup>*\<^sup>* ?s0 ?s2"
    using run_3 [of alice_steps, OF alice_replays [OF refl refl refl refl]] .
  have "issued (au_sid alice) alice_revoked \<subseteq> issued (au_sid alice) alice_rotated"
    by (auto simp: issued_def alice_revoked_def set_revoke_seen split: if_splits)
  moreover have fam: "rt_family_id (alice_token\<lparr>rt_used_at := Some 1767225660000\<rparr>) = au_sid alice"
      "rt_family_id (alice_successor\<lparr>rt_revoked_at := Some 1767225720000\<rparr>) = au_sid alice"
    by (simp_all add: alice_token_def alice_successor_def row_simps)
  moreover from reuse_kills_family [OF canonical_runtime_ok reach, of 1 1767225720000 refresh_values "newRefresh ''secret''"
      "alice_token\<lparr>rt_used_at := Some 1767225660000\<rparr>", OF _ _ _ _ run, of "Inl refresh_reuse"]
  have "refresh json_lib example_config canonical_runtime now3 fv3 token3 (ss_db s3) = (Inl refresh_invalid, ss_db s3)"
    if "alice_steps\<^sup>*\<^sup>* ?s2 s3" "lookup_token json_lib example_config token3 (ss_db s3) = Some row3"
      "rt_family_id row3 = au_sid alice" "issued (au_sid alice) alice_revoked \<subseteq> issued (au_sid alice) alice_rotated"
    for s3 now3 fv3 token3 row3
    using that fam(1) alice_lookup(2) by simp
  from this [OF rtranclp.rtrancl_refl] have "refresh json_lib example_config canonical_runtime 1767225720000 login_values
      (newRefresh ''next'') alice_revoked = (Inl refresh_invalid, alice_revoked)"
    if "issued (au_sid alice) alice_revoked \<subseteq> issued (au_sid alice) alice_rotated"
    using alice_successor_lookup fam(2) that by simp
  ultimately show ?thesis by simp
qed

text \<open>
  (C18) A logout ends the session. A call that got past the guard answers that it succeeded, unless the
  database fails. Once it has succeeded, whatever ran at the same time and whatever follows, the access
  token it was called with is refused at every later time, and so is every refresh token of the session
  that was issued before the call began; every refresh token of the session without exception when no
  refresh of it committed while the call was running. A successor that a concurrent refresh inserts
  while the UPDATE of the logout is under way survives (\<open>Auth_Race.logout_race\<close>).
\<close>

theorem logout_ends_session:
  assumes "pg_ok rt" "lib_ok lib cfg" "reachable no_sessions (session_step lib cfg rt exp_of) s0"
    and "verifyAccess lib cfg rt now token db = Inr user" "is_uuid (au_jti user)" "is_uuid (au_sid user)"
    and "au_sid user \<in> rt_family_id ` set (refresh_tokens (ss_db s0))"
    and "i < length (ss_txs s0)" "ss_txs s0 ! i = Logout_begun t user"
    and "(session_step lib cfg rt exp_of)\<^sup>*\<^sup>* s0 s2" "ss_txs s2 ! i = Answered r"
  shows "(r = Inr None \<or> (\<exists>code msg. r = Inl (db_error code msg))) \<and>
    (r = Inr None \<longrightarrow> (\<forall>s3. (session_step lib cfg rt exp_of)\<^sup>*\<^sup>* s2 s3 \<longrightarrow>
       (\<exists>e. verifyAccess lib cfg rt (ss_now s3) token (ss_db s3) = Inl e) \<and>
       (\<forall>now3 fv3 token3 row3. lookup_token lib cfg token3 (ss_db s3) = Some row3 \<longrightarrow> rt_family_id row3 = au_sid user \<longrightarrow>
         rt_id row3 \<in> issued (au_sid user) (ss_db s0) \<or> issued (au_sid user) (ss_db s2) \<subseteq> issued (au_sid user) (ss_db s0) \<longrightarrow>
         refresh lib cfg rt now3 fv3 token3 (ss_db s3) = (Inl refresh_invalid, ss_db s3))))"
proof -
  let ?f = "au_sid user" and ?ids = "issued (au_sid user) (ss_db s0)"
  note sys = session_system_intro [OF assms(1)]
  have inv0: "session_inv rt exp_of s0" by (rule session_system.reachable_inv [OF sys assms(3)])
  have jti: "pg_uuid_in rt (au_jti user) = Some (au_jti user)" using pg_okD(1) [OF assms(1)] assms(5) by simp
  then have exp: "au_exp user = exp_of (au_jti user)"
    using session_invD(4) [OF inv0 assms(8)] assms(9) by (simp add: exp_ok_def)
  have "logout_track exp_of i user ?ids s0 \<and> ?f \<in> rt_family_id ` set (refresh_tokens (ss_db s0))"
    using assms(7-9) by (auto simp: logout_track_def issued_def)
  from session_system.steps_keep [where P = "\<lambda>u. logout_track exp_of i user ?ids u \<and>
      ?f \<in> rt_family_id ` set (refresh_tokens (ss_db u))", OF sys assms(10) inv0 this]
    logout_track_step [OF _ _ _ _ _ assms(1,6,5)] later_family
  have s2: "session_inv rt exp_of s2" "logout_track exp_of i user ?ids s2"
      "?f \<in> rt_family_id ` set (refresh_tokens (ss_db s2))" by blast+
  have "(\<exists>e. verifyAccess lib cfg rt (ss_now s3) token (ss_db s3) = Inl e) \<and>
      (\<forall>now3 fv3 token3 row3. lookup_token lib cfg token3 (ss_db s3) = Some row3 \<longrightarrow> rt_family_id row3 = ?f \<longrightarrow>
        rt_id row3 \<in> ?ids \<or> issued ?f (ss_db s2) \<subseteq> ?ids \<longrightarrow>
        refresh lib cfg rt now3 fv3 token3 (ss_db s3) = (Inl refresh_invalid, ss_db s3))"
    if r: "r = Inr None" and s3: "(session_step lib cfg rt exp_of)\<^sup>*\<^sup>* s2 s3" for s3
  proof
    have "denied exp_of (au_jti user) s2" using s2(2) assms(11) r by (simp add: logout_track_def)
    from session_system.steps_keep [where P = "denied exp_of (au_jti user)", OF sys s3 s2(1) this] denied_step [OF assms(1)]
    have "session_inv rt exp_of s3" "denied exp_of (au_jti user) s3" by blast+
    then show "\<exists>e. verifyAccess lib cfg rt (ss_now s3) token (ss_db s3) = Inl e"
      using denied_refused [where exp_of = exp_of, OF assms(2,4) jti exp] by blast
  qed (use session_system.refused_later [OF sys s3 s2(1)] s2(2,3) assms(11) r in \<open>auto simp: logout_track_def\<close>)
  then show ?thesis using s2(2) assms(11) by (auto simp: logout_track_def)
qed

text \<open>Alice logs out right after the login.\<close>

definition alice_user_in :: AuthUser where
  "alice_user_in = \<lparr>au_id = au_id alice, au_role = Member, au_jti = uid (CHR ''9''), au_sid = au_sid alice, au_exp = 1767226200\<rparr>"

lemma alice_access:
  "verifyAccess json_lib example_config canonical_runtime 1767225600000
     (signAccess json_lib example_config 1767225600000 (uid (CHR ''9'')) (au_id alice) Member (au_sid alice)) alice_in =
   Inr alice_user_in"
  using signed_verifies [OF json_lib_ok canonical_runtime_ok, of "uid (CHR ''9'')" alice_in 1767225600000 1767225600000]
  by (simp add: ACCESS_TTL_SECONDS_def alice_in_def alice_user_in_def)

theorem logout_ends_session_witness:
  "\<exists>e. verifyAccess json_lib example_config canonical_runtime 1767225600000
     (signAccess json_lib example_config 1767225600000 (uid (CHR ''9'')) (au_id alice) Member (au_sid alice))
     (snd (logout canonical_runtime 1767225600000 alice_user_in alice_in)) = Inl e"
proof -
  let ?now = "1767225600000" and ?seen = "map rt_id (refresh_tokens alice_in)"
  let ?out = "snd (logout canonical_runtime ?now alice_user_in alice_in)"
  have ids: "is_uuid (au_jti alice_user_in)" "is_uuid (au_sid alice_user_in)" by code_simp+
  have run: "logout_late ?seen canonical_runtime ?now alice_user_in alice_in = (Inr (), ?out)"
    using ids by (simp add: logout_late_same logout_eq)
  have "alice_steps (alice_at alice_in ?now []) (alice_at alice_in ?now [Logout_begun ?now alice_user_in])"
    using session_step.begin_logout [of canonical_runtime alice_user_in _ _ _ "alice_at alice_in ?now []"]
    by (simp add: alice_user_in_def)
  then have reach: "reachable no_sessions alice_steps (alice_at alice_in ?now [Logout_begun ?now alice_user_in])"
    by (rule reach_step [OF alice_logs_in])
  have a: "alice_steps (alice_at alice_in ?now [Logout_begun ?now alice_user_in])
      (alice_at alice_in ?now [Logout_update ?now alice_user_in ?seen])"
    using session_step.logout_starts_update [of 0 "alice_at alice_in ?now [Logout_begun ?now alice_user_in]"] by simp
  have b: "alice_steps (alice_at alice_in ?now [Logout_update ?now alice_user_in ?seen])
      (alice_at ?out ?now [Answered (Inr None)])"
    using session_step.logout_commit [of 0 "alice_at alice_in ?now [Logout_update ?now alice_user_in ?seen]",
        where rt = canonical_runtime and r = "Inr ()" and db' = ?out] run
    by (simp add: waits_def locked_def)
  have steps: "alice_steps\<^sup>*\<^sup>* (alice_at alice_in ?now [Logout_begun ?now alice_user_in]) (alice_at ?out ?now [Answered (Inr None)])"
    using a b by (rule run_2 [where step = alice_steps])
  have "au_sid alice_user_in \<in> rt_family_id ` set (refresh_tokens alice_in)"
    by (simp add: alice_user_in_def alice_in_def alice_token_def row_simps)
  from logout_ends_session [OF canonical_runtime_ok json_lib_ok reach alice_access ids _ _ _ steps, of 0 ?now "Inr None"] this
  have "(\<exists>e. verifyAccess json_lib example_config canonical_runtime (ss_now s3)
      (signAccess json_lib example_config 1767225600000 (uid (CHR ''9'')) (au_id alice) Member (au_sid alice)) (ss_db s3) = Inl e)"
    if "alice_steps\<^sup>*\<^sup>* (alice_at ?out ?now [Answered (Inr None)]) s3" for s3
    using that by simp
  from this [OF rtranclp.rtrancl_refl] show ?thesis by simp
qed

end
