(* ===== verification/Auth_Race.thy ===== *)
theory Auth_Race
  imports Auth_Sessions_Correct
begin

text \<open>
  A logout that runs into a refresh of the same session. \<open>revokeFamily\<close> is one UPDATE under READ
  COMMITTED: it looks for rows in the snapshot of its start, waits for the row that the refresh has
  locked, checks the new version of that row after the commit, and does not see the successor that
  the refresh inserted. The session survives its logout.
\<close>

section \<open>The session survives\<close>

lemma revoke_late_keeps:
  assumes "r \<in> set rows" "rt_id r \<notin> set seen"
  shows "r \<in> set (update_where (\<lambda>r. rt_id r \<in> set seen \<and> p r) f rows)"
  using assms by (force simp: update_where_def image_iff)

text \<open>
  The refresh commits while the UPDATE of the logout waits. The logout succeeds, and afterwards the
  session has a refresh token that is neither used nor revoked nor expired: the one that the client
  has just received.
\<close>

theorem logout_race:
  assumes "pg_ok rt" "tokens_ok db" "lookup_token lib cfg token db = Some row"
    and "refresh lib cfg rt now fv token db = (Inr pair, db1)"
    and "rt_family_id row = au_sid user" "is_uuid (au_sid user)" "is_uuid (au_jti user)"
    and "now2 < now + REFRESH_TTL_SECONDS * 1000"
  shows "\<exists>db2 r. logout_late (map rt_id (refresh_tokens db)) rt now2 user db1 = (Inr (), db2) \<and>
    r \<in> set (refresh_tokens db2) \<and> rt_family_id r = au_sid user \<and>
    rt_token_hash r = hashRefresh lib cfg (tp_refresh_token pair) \<and> rt_used_at r = None \<and> \<not> dead now2 r"
proof -
  obtain row' where r: "lookup_token lib cfg token db = Some row'"
      "fv_row_id fv \<notin> rt_id ` set (refresh_tokens db)"
      "db1 = db\<lparr>refresh_tokens := use_row now (rt_id row') (refresh_tokens db) @
         [token_row lib cfg now fv (rt_user_id row') (rt_family_id row')]\<rparr>"
      "tp_refresh_token pair = newRefresh (fv_bytes fv)"
    using refresh_Inr [OF assms(1,2,4)] by (metis TokenPair.select_convs(2))
  define new where "new = token_row lib cfg now fv (rt_user_id row) (rt_family_id row)"
  have same: "row' = row" using r(1) assms(3) by simp
  have new: "new \<in> set (refresh_tokens db1)" "rt_id new \<notin> set (map rt_id (refresh_tokens db))"
      "rt_family_id new = au_sid user" "rt_token_hash new = hashRefresh lib cfg (tp_refresh_token pair)"
      "rt_used_at new = None" "\<not> dead now2 new"
    using r(2-4) assms(5,8) by (simp_all add: same new_def token_row_def dead_def)
  have ids: "pg_uuid_in rt (au_sid user) = Some (au_sid user)" "pg_uuid_in rt (au_jti user) = Some (au_jti user)"
    using pg_okD(1) [OF assms(1)] assms(6,7) by simp_all
  define kept where "kept = update_where (\<lambda>r. rt_id r \<in> set (map rt_id (refresh_tokens db)) \<and>
      rt_family_id r = au_sid user \<and> rt_revoked_at r = None) (\<lambda>r. r\<lparr>rt_revoked_at := Some now2\<rparr>) (refresh_tokens db1)"
  have "\<exists>db2. logout_late (map rt_id (refresh_tokens db)) rt now2 user db1 = (Inr (), db2) \<and> refresh_tokens db2 = kept"
    using ids by (simp add: logout_late_run revoke_seen_def kept_def)
  moreover have "new \<in> set kept" unfolding kept_def by (rule revoke_late_keeps [OF new(1,2)])
  ultimately show ?thesis using new(3-6) by blast
qed

theorem logout_race_witness:
  "\<exists>db2 r. logout_late [rt_id alice_token] canonical_runtime 1767225670000 alice_user_in alice_rotated = (Inr (), db2) \<and>
    r \<in> set (refresh_tokens db2) \<and> rt_family_id r = au_sid alice \<and>
    rt_token_hash r = hashRefresh json_lib example_config (newRefresh ''next'') \<and> rt_used_at r = None \<and>
    \<not> dead 1767225670000 r"
proof -
  have "is_uuid (uid (CHR ''9''))" by code_simp
  moreover have "rt_family_id alice_token = au_sid alice" by (simp add: alice_token_def row_simps)
  moreover have "map rt_id (refresh_tokens alice_in) = [rt_id alice_token]" by (simp add: alice_in_def)
  ultimately show ?thesis
    using logout_race [OF canonical_runtime_ok alice_in_ok alice_lookup(1) alice_refresh, of
        alice_user_in 1767225670000]
    by (simp add: REFRESH_TTL_SECONDS_def refresh_values_def alice_user_in_def)
qed

end
