(* ===== verification/Report.thy ===== *)
theory Report
  imports Example_Data "HOL-Library.Multiset"
begin

text \<open>
  The turnover report (\<open>report.ts\<close>): posted transactions grouped by category, with their number and
  their sum in hryvnia. \<open>fx_rate\<close> is an integer scaled by \<open>10 ^ 10\<close>, so the products are exact; amounts
  are not negative, so \<open>ROUND\<close> is rounding half up.
\<close>

section \<open>The query\<close>

record CategoryReportRow =
  rr_category :: string
  rr_kind :: string
  rr_txCount :: nat
  rr_totalUahMinor :: int

definition turnover :: "tx_row list \<Rightarrow> int" where
  "turnover ts = (\<Sum>t\<leftarrow>ts. t_amount_cents t * t_fx_rate t)"

definition posted :: "db \<Rightarrow> tx_row list" where
  "posted db = filter (\<lambda>t. t_status t = Posted) (transactions db)"

text \<open>\<open>LEFT JOIN categories c ON c.id = t.category_id\<close>; the group key \<open>c.id\<close> decides name and kind.\<close>

definition joined :: "db \<Rightarrow> tx_row \<Rightarrow> category_row option" where
  "joined db t = Option.bind (t_category_id t) (\<lambda>i. List.find (\<lambda>c. g_id c = i) (categories db))"

definition group_of :: "db \<Rightarrow> category_row option \<Rightarrow> tx_row list" where
  "group_of db c = filter (\<lambda>t. joined db t = c) (posted db)"

definition groups :: "db \<Rightarrow> category_row option list" where
  "groups db = sort_key (\<lambda>c. - turnover (group_of db c)) (remdups (map (joined db) (posted db)))"

definition round_minor :: "int \<Rightarrow> int" where
  "round_minor scaled = (scaled + 5000000000) div 10000000000"

definition report_row :: "db \<Rightarrow> category_row option \<Rightarrow> CategoryReportRow" where
  "report_row db c = \<lparr>
     rr_category = (case c of Some r \<Rightarrow> g_name r | None \<Rightarrow> ''(uncategorized)''),
     rr_kind = (case c of Some r \<Rightarrow> g_kind r | None \<Rightarrow> ''-''),
     rr_txCount = length (group_of db c),
     rr_totalUahMinor = round_minor (turnover (group_of db c))\<rparr>"

text \<open>The cast to \<open>bigint\<close> can overflow; otherwise the rows come with the largest sum
  first. The statement leaves the order of equal sums open; here it is the order of appearance.\<close>

definition report_query :: "db \<Rightarrow> exn + CategoryReportRow list" where
  "report_query db =
     (let rows = map (report_row db) (groups db)
      in if list_all (\<lambda>r. fits_bigint (rr_totalUahMinor r)) rows then Inr rows
         else Inl (db_error ''22003'' ''bigint''))"

section \<open>The printed table\<close>

definition padEnd :: "nat \<Rightarrow> string \<Rightarrow> string" where
  "padEnd w s = s @ replicate (w - js_length s) (CHR '' '')"

definition padLeft :: "nat \<Rightarrow> string \<Rightarrow> string" where
  "padLeft w s = replicate (w - js_length s) (CHR '' '') @ s"

definition report_line_of :: "CategoryReportRow \<Rightarrow> string" where
  "report_line_of row = padEnd 22 (rr_category row) @ padEnd 10 (rr_kind row) @
     padEnd 10 (padLeft 6 (nat_text (rr_txCount row))) @ int_text (rr_totalUahMinor row)"

definition report :: "db \<Rightarrow> exn + string list" where
  "report db = bindE (report_query db) (\<lambda>rows. Inr (
     [''Turnover by category (posted transactions, UAH minor units)'', [],
      padEnd 22 ''category'' @ padEnd 10 ''kind'' @ padEnd 10 ''tx count'' @ ''total (UAH cents)'',
      replicate 70 (CHR ''-'')] @ map report_line_of rows))"

section \<open>Every posted transaction is counted once\<close>

lemma mset_partition:
  assumes "distinct ks" "k ` set xs \<subseteq> set ks"
  shows "mset (concat (map (\<lambda>c. filter (\<lambda>x. k x = c) xs) ks)) = mset xs"
  using assms
proof (induction ks arbitrary: xs)
  case (Cons c ks)
  let ?rest = "filter (\<lambda>x. k x \<noteq> c) xs"
  have "map (\<lambda>d. filter (\<lambda>x. k x = d) ?rest) ks = map (\<lambda>d. filter (\<lambda>x. k x = d) xs) ks"
    using Cons.prems(1) by (auto intro!: map_cong filter_cong)
  moreover have "mset (concat (map (\<lambda>d. filter (\<lambda>x. k x = d) ?rest) ks)) = mset ?rest"
    by (rule Cons.IH) (use Cons.prems in auto)
  ultimately have "mset (concat (map (\<lambda>d. filter (\<lambda>x. k x = d) xs) ks)) = mset ?rest" by argo
  then show ?case using multiset_partition [of "mset xs" "\<lambda>x. k x = c"] by simp
qed simp

lemma groups_keys: "distinct (groups db)" "set (groups db) = joined db ` set (posted db)"
  by (simp_all add: groups_def)

lemma groups_partition: "mset (concat (map (group_of db) (groups db))) = mset (posted db)"
proof -
  have "group_of db = (\<lambda>c. filter (\<lambda>t. joined db t = c) (posted db))"
    by (simp add: group_of_def fun_eq_iff)
  moreover have "joined db ` set (posted db) \<subseteq> set (groups db)" by (simp only: groups_keys(2) order_refl)
  ultimately show ?thesis using mset_partition [OF groups_keys(1) [of db], of "joined db" "posted db"] by (simp only:)
qed

lemma turnover_mset: "mset xs = mset ys \<Longrightarrow> turnover xs = turnover ys"
proof -
  have "turnover zs = sum_mset (image_mset (\<lambda>t. t_amount_cents t * t_fx_rate t) (mset zs))" for zs
    unfolding turnover_def mset_map [symmetric] by (rule sum_mset_sum_list [symmetric])
  then show "mset xs = mset ys \<Longrightarrow> turnover xs = turnover ys" by (simp only:)
qed

lemma turnover_concat: "turnover (concat xss) = (\<Sum>xs\<leftarrow>xss. turnover xs)"
  by (induction xss) (simp_all add: turnover_def)

lemma round_minor_error: "\<bar>10000000000 * round_minor s - s\<bar> \<le> 5000000000"
proof -
  let ?q = "(s + 5000000000) div 10000000000" and ?m = "(s + 5000000000) mod 10000000000"
  have "10000000000 * ?q = s + 5000000000 - ?m" by (rule minus_mod_eq_mult_div [symmetric])
  moreover have "0 \<le> ?m" "?m < 10000000000" by simp_all
  ultimately show ?thesis unfolding round_minor_def by linarith
qed

text \<open>
  The counts of the report add up to the posted transactions; its totals, before rounding, to
  their turnover; each total is rounded by at most half a cent; the largest total comes first.
\<close>

theorem report_complete:
  assumes "report_query db = Inr rows"
  shows "(\<Sum>r\<leftarrow>rows. rr_txCount r) = length (posted db)"
    and "(\<Sum>c\<leftarrow>groups db. turnover (group_of db c)) = turnover (posted db)"
    and "\<bar>10000000000 * (\<Sum>r\<leftarrow>rows. rr_totalUahMinor r) - turnover (posted db)\<bar> \<le> 5000000000 * int (length rows)"
    and "sorted (map (\<lambda>r. - rr_totalUahMinor r) rows)"
proof -
  have rows: "rows = map (report_row db) (groups db)"
    using assms by (auto simp: report_query_def Let_def split: if_splits)
  have "(\<Sum>r\<leftarrow>rows. rr_txCount r) = length (concat (map (group_of db) (groups db)))"
    by (simp add: rows report_row_def comp_def length_concat)
  then show "(\<Sum>r\<leftarrow>rows. rr_txCount r) = length (posted db)" using mset_eq_length [OF groups_partition] by simp
  show total: "(\<Sum>c\<leftarrow>groups db. turnover (group_of db c)) = turnover (posted db)"
    using turnover_mset [OF groups_partition] turnover_concat [of "map (group_of db) (groups db)"] by (simp add: comp_def)
  have "\<bar>10000000000 * (\<Sum>c\<leftarrow>cs. round_minor (f c)) - (\<Sum>c\<leftarrow>cs. f c)\<bar> \<le> 5000000000 * int (length cs)"
    for f :: "category_row option \<Rightarrow> int" and cs
  proof (induction cs)
    case (Cons c cs)
    then show ?case using round_minor_error [of "f c"] by (simp add: algebra_simps)
  qed simp
  from this [where f = "\<lambda>c. turnover (group_of db c)" and cs = "groups db"]
  show "\<bar>10000000000 * (\<Sum>r\<leftarrow>rows. rr_totalUahMinor r) - turnover (posted db)\<bar> \<le> 5000000000 * int (length rows)"
    using total by (simp add: rows report_row_def comp_def)
  have "sorted (map (\<lambda>c. - turnover (group_of db c)) (groups db))" by (simp add: groups_def)
  then have "sorted_wrt (\<lambda>c d. - round_minor (turnover (group_of db c)) \<le> - round_minor (turnover (group_of db d))) (groups db)"
    unfolding sorted_map by (rule sorted_wrt_mono_rel [rotated]) (simp add: round_minor_def zdiv_mono1)
  then show "sorted (map (\<lambda>r. - rr_totalUahMinor r) rows)"
    by (simp add: rows report_row_def comp_def sorted_map)
qed

end
