(* ===== verification/Spec2Isabelle.thy ===== *)
theory Spec2Isabelle
  imports Transactions_Correct Auth_Correct Orders_Correct Idempotency Receipts Checkout_Correct Demo_Retry Worker Demo_Race Fx_Sync_Correct Api_Correct Cross_Rate Connection Localize Demo_Broker Auth_Sessions_Correct Auth_Race Report
begin

text \<open>
  A verification development of the invest API: accounts with a balance, batched transactions with an
  exchange rate snapshot, orders, an order.placed event and its receipts, sessions with rotating refresh
  tokens. All paths below are under \<open>src/src\<close> unless they start with \<open>src/\<close>.

  \<^bold>\<open>The program and how its parts interact.\<close> A request passes the OpenAPI request validator, the two
  guards, the idempotency interceptor, the validation pipe and a controller method; the response passes
  the OpenAPI response validator; an exception ends in the problem filter; the finish event settles the
  idempotency record. Controllers call services, services call repositories, repositories write tables.
  \<open>TransactionsService.create\<close> writes a batch and the balances in one transaction, with rates of
  \<open>FxRatesService\<close>, which asks the in-memory \<open>FxRateCache\<close> before the table. \<open>OrdersService.changeStatus\<close>
  corrects a balance and publishes an event on an in-process bus, which the SSE stream and the WebSocket
  rooms read. \<open>checkout\<close> debits an account, writes an order and a job, and announces the order to the
  broker; the receipts consumer books one receipt per order. Workers drain the job table. At startup the
  environment is validated, the connections are resolved and the exchange rates are synchronised.

  \<^bold>\<open>Conventions.\<close> A JavaScript string is its UTF-8 bytes (\<open>string\<close>); an integer is an \<open>int\<close> whose
  range is checked where the code or a column checks it (\<open>js_add\<close> is the addition of doubles on
  integers); a \<open>Map\<close> or \<open>Set\<close> is a list in insertion order (\<open>js_map\<close>); a class or a row is a record,
  an enum a datatype. A method that may throw returns \<open>exn + 'a\<close>; a method that changes state is a
  function from the state to a result and a state (\<open>bindS\<close>), and \<open>transaction\<close> undoes the writes of a
  callback that throws. The database is a record of lists of rows in insertion order; every constraint
  that a write can trip is a branch with its SQLSTATE. The clock, \<open>randomUUID\<close>, random draws and the
  network are arguments. What belongs to libraries and to Postgres is a parameter record with its
  documented behaviour as a predicate: \<open>runtime\<close>/\<open>pg_ok\<close> (how Postgres reads and sorts text),
  \<open>auth_lib\<close> (HMAC, scrypt, JWT), \<open>env_lib\<close>/\<open>env_lib_ok\<close> (URL, number and key parsing), zod's
  validators, SHA-256, the OpenAPI validator. Each property with such a hypothesis is instantiated
  at a concrete one.

  \<^bold>\<open>Shared theories.\<close>
  \<^item> \<open>Prelude\<close>: exceptions, state passing, transactions, ordered maps, decimal text, text order, and the
    locale \<open>step_system\<close> (invariants of step relations), which every concurrent part interprets.
  \<^item> \<open>Codec\<close>: base64url, UTF-8, \<open>JSON.stringify\<close>, \<open>JSON.parse\<close> and their round trips; the parser runs
    with the length of the text as fuel, and the round trip shows that this is enough for printed text.
  \<^item> \<open>Js_Date\<close>: the calendar of \<open>Date\<close>, with printing and parsing inverse and text order equal to day
    order. \<open>Js_Number\<close>: \<open>Math.round\<close> and doubles, with their rounding error.
  \<^item> \<open>Counting\<close>: sums over the actors of a step system. \<open>Upsert\<close>: INSERT ... ON CONFLICT DO UPDATE.
    \<open>Example_Data\<close>: a small consistent database for the witnesses.

  \<^bold>\<open>Components.\<close>
  \<^item> \<open>Problem\<close> (\<open>shared/problem.*.ts\<close>): the error body of every exception. \<open>Pagination\<close>
    (\<open>shared/pagination.ts\<close>): cursors, limits, and the locale \<open>keyset\<close> in which following \<open>next_cursor\<close>
    is proved to read every row once; accounts and transactions are instances (\<open>accounts_paging\<close>,
    \<open>transactions_paging\<close>).
  \<^item> \<open>Domain\<close> (\<open>domain/\<close>, the DTOs, \<open>shared/mappers.ts\<close>), \<open>Database\<close> (\<open>entities/\<close>, \<open>migrations/\<close>: tables,
    constraints, the invariant \<open>db_ok\<close>), \<open>Ledger\<close> (what a balance is made of).
  \<^item> \<open>Accounts\<close>, \<open>Transactions\<close> with \<open>Transactions_Correct\<close> (\<open>accounts/\<close>, \<open>transactions/\<close>): every
    repository and service operation; a create keeps constraints and ledger, leaves no trace when it
    throws, ends only in the listed errors, and what it returned is read back.
  \<^item> \<open>Fx_Cache\<close>, \<open>Fx_Rates\<close>, \<open>Cross_Rate\<close> (\<open>fx-rates/\<close>): the binary search, the lookup through cache or
    table and their equivalence, and the error of the cross rate. \<open>Fx_Sync\<close>, \<open>Fx_Sync_Correct\<close>: the bank
    client and the parallel streams of the startup synchronisation as a step relation; every
    interleaving ends as if each currency were alone. The chunks of \<open>upsertMany\<close> and the days of a
    stream decrease a measure.
  \<^item> \<open>Auth\<close>, \<open>Auth_Correct\<close> (\<open>auth/\<close>): passwords, login, refresh, logout, the guards and the ownership
    check. \<open>Auth_Sessions\<close>, \<open>Auth_Sessions_Correct\<close>: the calls of \<open>auth/auth.service.ts\<close> as transactions that
    interleave at their statements, with the row locks of \<open>SELECT ... FOR UPDATE\<close>, the snapshots of the
    UPDATE in \<open>revokeFamily\<close>, and transactions that fail; at most one live refresh token per family,
    and what a replay or a logout leaves of a session for good. \<open>Auth_Race\<close>: a logout whose UPDATE waits for
    a refresh does not see the successor that the refresh inserts, and the session survives
    (\<open>logout_race\<close>); so the two properties except tokens issued while the call was running.
  \<^item> \<open>Orders\<close>, \<open>Orders_Correct\<close> (\<open>orders/\<close>): the status change against its specification, the bus, the
    SSE stream without gap or duplicate, the rooms.
  \<^item> \<open>Idempotency\<close> (\<open>shared/idempotency.interceptor.ts\<close>): a key runs once. \<open>Api\<close>, \<open>Api_Correct\<close>
    (\<open>create-app.ts\<close>, \<open>app.module.ts\<close>, the controllers): the whole pipeline and its endpoints; the locale
    \<open>atomic_endpoint\<close> is the contract under which a reply other than success leaves no trace, and both
    POST endpoints interpret it.
  \<^item> \<open>Currencies\<close>, \<open>Health\<close> (\<open>currencies/\<close>, \<open>health/\<close>): lookup and probes.
  \<^item> \<open>Broker\<close>, \<open>Receipts\<close> (\<open>broker/\<close>, \<open>order-receipts-consumer.ts\<close>): the event and its wire format, the
    publish, the consumer; one receipt per order over redelivery and crashes. \<open>Demo_Broker\<close>
    (\<open>demo-broker-kit.ts\<close>, \<open>demo-publish.ts\<close>, \<open>demo-duplicate.ts\<close>) composes seed, checkout, publisher and
    consumer: every run of a healthy consumer ends with one receipt per order, also when the first
    consumer is killed between its effect and its acknowledgement.
  \<^item> \<open>Checkout\<close>, \<open>Checkout_Correct\<close> (\<open>concurrency/checkout.ts\<close>), \<open>Demo_Race\<close> (\<open>demo-race.ts\<close>): no
    overdraft, all or nothing, and as many successes as the balance covers.
  \<^item> \<open>Retry\<close> (\<open>concurrency/retry.ts\<close>), \<open>Demo_Retry\<close> (\<open>demo-retry.ts\<close>): bounds and outcome of \<open>withRetry\<close>,
    and the writers under REPEATABLE READ: nothing lost, and every run ends. The recursion of
    \<open>withRetry\<close> decreases the attempts that are left.
  \<^item> \<open>Worker\<close> (\<open>concurrency/worker.ts\<close>, \<open>demo-workers.ts\<close>): SKIP LOCKED workers with crashes; no job twice,
    and every run drains the table. \<open>Seed\<close> (\<open>seed.ts\<close>): consistent and idempotent. \<open>Report\<close>
    (\<open>report.ts\<close>): the turnover per category counts every posted transaction once. \<open>Localize\<close>
    (\<open>i18n/swagger.ts\<close>): the translation of the API documentation changes only listed texts.
  \<^item> \<open>Env\<close> (\<open>config/\<close>): the schema and the hook. \<open>Connection\<close> (\<open>data-source.ts\<close>, \<open>db/db.module.ts\<close>,
    \<open>src/rotate.sh\<close>, \<open>src/scripts/secret-file.sh\<close>, the pooler of \<open>src/docker-compose.yml\<close>): both connections
    agree, and what a rotation of the password does to each, runs that fail and restarts of the pooler
    included.

  \<^bold>\<open>Limits of the model.\<close> A committed operation is atomic where the code relies on one row lock or one
  statement (checkout, status change); the interleavings inside are modelled where they matter (sessions,
  retry, workers, receipts, synchronisation, idempotency, rotation of the password). A transaction of
  the sessions may fail at any point; elsewhere a lost connection is modelled only where the code has a
  branch for it. Two runs of \<open>rotate.sh\<close> do not overlap. Doubles are not negative and in the normal range.

  \<^bold>\<open>Not modelled.\<close> Documentation and bootstrap: \<open>shared/swagger.ts\<close>, \<open>shared/openapi.ts\<close>,
  \<open>shared/version.ts\<close>, \<open>main.ts\<close>, the modules of the injector. Scripts that print what the modelled
  services do: \<open>demo-auth*.ts\<close>, \<open>demo-dlq.ts\<close>, \<open>demo-reuse.ts\<close>, \<open>demo-rbac.ts\<close>, \<open>demo-nplus1.ts\<close>,
  \<open>seed-realtime.ts\<close>, \<open>src/scripts/*.mjs\<close>. Indexes and down migrations: they do not change what a
  statement returns.
\<close>

end
